(* ===== verification/Js_Prelude.thy ===== *)
theory Js_Prelude
  imports Main "HOL-Library.Sublist"
begin

text \<open>
  The part of the JavaScript language and of its string library that the front end relies on,
  shared by every component theory.

  Strings are HOL strings: lists of code units below 256. Whitespace is what the ECMAScript
  grammar calls white space or line terminator in that range (the class \<open>\s\<close> of a regular
  expression and the set \<open>trim\<close> removes). Case conversion is exact on ASCII and leaves the other
  code units alone; every string the code lower-cases or upper-cases for a decision is compared
  with an ASCII constant or checked against an ASCII pattern.

  A thrown \<open>Error\<close> is the left summand of \<open>string + 'a\<close>, carrying the message; a handler that
  reads and writes the database is a function from the database to such a result and the
  database it leaves behind.
\<close>

named_theorems js_defs "definitions of string helpers, unfolded together"

section \<open>Definitions\<close>

subsection \<open>Characters\<close>

abbreviation code :: "char \<Rightarrow> nat" where
  "code c \<equiv> of_char c"

definition is_ws :: "char \<Rightarrow> bool" where
  "is_ws c \<longleftrightarrow> code c \<in> {9, 10, 11, 12, 13, 32, 160}"

definition is_upper :: "char \<Rightarrow> bool" where
  "is_upper c \<longleftrightarrow> 65 \<le> code c \<and> code c \<le> 90"

definition is_lower :: "char \<Rightarrow> bool" where
  "is_lower c \<longleftrightarrow> 97 \<le> code c \<and> code c \<le> 122"

definition is_digit :: "char \<Rightarrow> bool" where
  "is_digit c \<longleftrightarrow> 48 \<le> code c \<and> code c \<le> 57"

definition is_alpha :: "char \<Rightarrow> bool" where
  "is_alpha c \<longleftrightarrow> is_upper c \<or> is_lower c"

definition is_alnum :: "char \<Rightarrow> bool" where
  "is_alnum c \<longleftrightarrow> is_alpha c \<or> is_digit c"

definition lower_char :: "char \<Rightarrow> char" where
  "lower_char c = (if is_upper c then char_of (code c + 32) else c)"

definition upper_char :: "char \<Rightarrow> char" where
  "upper_char c = (if is_lower c then char_of (code c - 32) else c)"

subsection \<open>Strings\<close>

definition toLowerCase :: "string \<Rightarrow> string" where
  "toLowerCase s = map lower_char s"

definition toUpperCase :: "string \<Rightarrow> string" where
  "toUpperCase s = map upper_char s"

definition trimStart :: "string \<Rightarrow> string" where
  "trimStart s = dropWhile is_ws s"

definition trim :: "string \<Rightarrow> string" where
  "trim s = rev (dropWhile is_ws (rev (dropWhile is_ws s)))"

abbreviation startsWith :: "string \<Rightarrow> string \<Rightarrow> bool" where
  "startsWith s p \<equiv> prefix p s"

abbreviation endsWith :: "string \<Rightarrow> string \<Rightarrow> bool" where
  "endsWith s p \<equiv> suffix p s"

abbreviation includesStr :: "string \<Rightarrow> string \<Rightarrow> bool" where
  "includesStr s p \<equiv> sublist p s"

text \<open>\<open>s.split(c)\<close> for a separator of one character: never the empty list.\<close>

fun split_on :: "char \<Rightarrow> string \<Rightarrow> string list" where
  "split_on c [] = [[]]"
| "split_on c (x # xs) =
     (if x = c then [] # split_on c xs
      else (case split_on c xs of [] \<Rightarrow> [[x]] | w # ws \<Rightarrow> (x # w) # ws))"

fun join :: "string \<Rightarrow> string list \<Rightarrow> string" where
  "join sep [] = []"
| "join sep [x] = x"
| "join sep (x # y # zs) = x @ sep @ join sep (y # zs)"

text \<open>\<open>s.split(/\s+/)\<close>: every maximal run of white space is one separator.\<close>

fun split_ws :: "string \<Rightarrow> string list" where
  "split_ws [] = [[]]"
| "split_ws (x # xs) =
     (if is_ws x then (if xs \<noteq> [] \<and> is_ws (hd xs) then split_ws xs else [] # split_ws xs)
      else (case split_ws xs of [] \<Rightarrow> [[x]] | w # ws \<Rightarrow> (x # w) # ws))"

text \<open>\<open>s.split(/\r?\n/)\<close>.\<close>

fun split_lines :: "string \<Rightarrow> string list" where
  "split_lines [] = [[]]"
| "split_lines (x # xs) =
     (if x = CHR 0x0A then [] # split_lines xs
      else if x = CHR 0x0D \<and> xs \<noteq> [] \<and> hd xs = CHR 0x0A then split_lines xs
      else (case split_lines xs of [] \<Rightarrow> [[x]] | w # ws \<Rightarrow> (x # w) # ws))"

text \<open>The string of a natural number, as a template literal prints it.\<close>

definition digit_char :: "nat \<Rightarrow> char" where
  "digit_char d = char_of (48 + d)"

fun show_nat :: "nat \<Rightarrow> string" where
  "show_nat n = (if n < 10 then [digit_char n] else show_nat (n div 10) @ [digit_char (n mod 10)])"

text \<open>\<open>parseInt\<close> / \<open>Number\<close> on a string of decimal digits.\<close>

definition digit_val :: "char \<Rightarrow> nat" where
  "digit_val c = code c - 48"

definition read_nat :: "string \<Rightarrow> nat" where
  "read_nat s = foldl (\<lambda>n c. 10 * n + digit_val c) 0 s"

text \<open>\<open>Array.from(new Set(xs))\<close>: the first occurrence of every element, in order.\<close>

definition js_distinct :: "'a list \<Rightarrow> 'a list" where
  "js_distinct xs = rev (remdups (rev xs))"

text \<open>\<open>a || b\<close> on strings, \<open>s?.trim() || null\<close>, and the truthiness of an optional string.\<close>

definition or_str :: "string \<Rightarrow> string \<Rightarrow> string" where
  "or_str a b = (if a = [] then b else a)"

definition or_null :: "string \<Rightarrow> string option" where
  "or_null s = (if s = [] then None else Some s)"

definition trim_or_null :: "string option \<Rightarrow> string option" where
  "trim_or_null x = (case x of None \<Rightarrow> None | Some s \<Rightarrow> or_null (trim s))"

definition truthy :: "string option \<Rightarrow> bool" where
  "truthy x \<longleftrightarrow> (case x of None \<Rightarrow> False | Some s \<Rightarrow> s \<noteq> [])"

text \<open>\<open>x ?? d\<close>.\<close>

definition nullish :: "'a option \<Rightarrow> 'a \<Rightarrow> 'a" where
  "nullish x d = (case x of None \<Rightarrow> d | Some v \<Rightarrow> v)"

subsection \<open>Results\<close>

type_synonym 'a result = "string + 'a"

definition throw :: "string \<Rightarrow> 'a result" where
  "throw msg = Inl msg"

definition bindR :: "'a result \<Rightarrow> ('a \<Rightarrow> 'b result) \<Rightarrow> 'b result" where
  "bindR r k = (case r of Inl e \<Rightarrow> Inl e | Inr a \<Rightarrow> k a)"

definition guardR :: "bool \<Rightarrow> string \<Rightarrow> unit result" where
  "guardR ok msg = (if ok then Inr () else Inl msg)"

declare is_upper_def [js_defs] is_lower_def [js_defs] is_digit_def [js_defs]
  is_alpha_def [js_defs] is_alnum_def [js_defs]

section \<open>Lemmas\<close>

subsection \<open>Characters\<close>

lemma code_inject: "code c = code d \<longleftrightarrow> c = d"
  by simp

lemma code_lower_char: "code (lower_char c) = (if is_upper c then code c + 32 else code c)"
  by (simp add: lower_char_def is_upper_def)

lemma code_upper_char: "code (upper_char c) = (if is_lower c then code c - 32 else code c)"
  by (auto simp: upper_char_def is_lower_def)

lemma char_eqI: "code c = code d \<Longrightarrow> c = d"
  by simp

lemma lower_char_idem [simp]: "lower_char (lower_char c) = lower_char c"
  by (rule char_eqI) (auto simp: code_lower_char js_defs)

lemma upper_char_idem [simp]: "upper_char (upper_char c) = upper_char c"
  by (rule char_eqI) (auto simp: code_upper_char js_defs)

lemma upper_lower_char [simp]: "upper_char (lower_char c) = upper_char c"
  by (rule char_eqI) (auto simp: code_upper_char code_lower_char js_defs)

lemma lower_char_not_upper [simp]: "\<not> is_upper (lower_char c)"
  by (auto simp: code_lower_char js_defs)

lemma upper_char_not_lower [simp]: "\<not> is_lower (upper_char c)"
  by (auto simp: code_upper_char js_defs)

lemma is_ws_lower_char [simp]: "is_ws (lower_char c) \<longleftrightarrow> is_ws c"
  by (auto simp: is_ws_def code_lower_char js_defs)

lemma digit_not_ws [simp]: "is_digit c \<Longrightarrow> \<not> is_ws c"
  by (auto simp: is_ws_def js_defs)

lemma alpha_not_ws [simp]: "is_alpha c \<Longrightarrow> \<not> is_ws c"
  by (auto simp: is_ws_def js_defs)

lemma alnum_not_ws [simp]: "is_alnum c \<Longrightarrow> \<not> is_ws c"
  by (auto simp: is_ws_def js_defs)

subsection \<open>Case conversion\<close>

lemma toLowerCase_simps [simp]:
  "toLowerCase [] = []"
  "toLowerCase (c # s) = lower_char c # toLowerCase s"
  "toLowerCase (s @ t) = toLowerCase s @ toLowerCase t"
  "length (toLowerCase s) = length s"
  by (simp_all add: toLowerCase_def)

lemma toUpperCase_simps [simp]:
  "toUpperCase [] = []"
  "toUpperCase (c # s) = upper_char c # toUpperCase s"
  "toUpperCase (s @ t) = toUpperCase s @ toUpperCase t"
  "length (toUpperCase s) = length s"
  by (simp_all add: toUpperCase_def)

lemma toLowerCase_idem [simp]: "toLowerCase (toLowerCase s) = toLowerCase s"
  by (simp add: toLowerCase_def comp_def)

lemma toUpperCase_idem [simp]: "toUpperCase (toUpperCase s) = toUpperCase s"
  by (simp add: toUpperCase_def comp_def)

lemma toUpperCase_toLowerCase [simp]: "toUpperCase (toLowerCase s) = toUpperCase s"
  by (simp add: toUpperCase_def toLowerCase_def comp_def)

subsection \<open>Trimming\<close>

definition is_trimmed :: "string \<Rightarrow> bool" where
  "is_trimmed s \<longleftrightarrow> s = [] \<or> \<not> is_ws (hd s) \<and> \<not> is_ws (last s)"

lemma dropWhile_hd_id: "(xs \<noteq> [] \<Longrightarrow> \<not> P (hd xs)) \<Longrightarrow> dropWhile P xs = xs"
  by (cases xs) auto

lemma trim_trimmed:
  assumes "is_trimmed s"
  shows "trim s = s"
proof -
  have "dropWhile is_ws s = s" using assms by (intro dropWhile_hd_id) (auto simp: is_trimmed_def)
  moreover have "dropWhile is_ws (rev s) = rev s"
    using assms by (intro dropWhile_hd_id) (auto simp: is_trimmed_def hd_rev)
  ultimately show ?thesis by (simp add: trim_def)
qed

lemma dropWhile_rev_hd:
  assumes "ys = dropWhile P (rev xs)" "ys \<noteq> []"
  shows "last ys = hd xs"
  using assms by (metis append_is_Nil_conv dropWhile_eq_Nil_conv last_appendR last_rev
      rev_is_Nil_conv takeWhile_dropWhile_id)

lemma trimmed_trim [simp]: "is_trimmed (trim s)"
proof -
  let ?t = "dropWhile is_ws s"
  let ?u = "dropWhile is_ws (rev ?t)"
  have u: "trim s = rev ?u" by (simp add: trim_def)
  show ?thesis
  proof (cases "?u = []")
    case True
    then show ?thesis by (simp add: u is_trimmed_def)
  next
    case False
    then have t: "?t \<noteq> []" by (metis dropWhile.simps(1) rev.simps(1))
    have "last ?u = hd ?t" using False by (simp add: dropWhile_rev_hd)
    moreover have "\<not> is_ws (hd ?t)" using t by (rule hd_dropWhile)
    moreover have "\<not> is_ws (hd ?u)" using False by (rule hd_dropWhile)
    ultimately show ?thesis using False by (simp add: u is_trimmed_def hd_rev last_rev)
  qed
qed

lemma trim_idem [simp]: "trim (trim s) = trim s"
  by (rule trim_trimmed) simp

lemma trim_Nil [simp]: "trim [] = []"
  by (simp add: trim_def)

lemma set_trim_subset: "set (trim s) \<subseteq> set s"
  by (auto simp: trim_def dest!: set_dropWhileD)

lemma trimmed_no_ws: "list_all (\<lambda>c. \<not> is_ws c) s \<Longrightarrow> is_trimmed s"
  by (cases s rule: rev_cases) (auto simp: is_trimmed_def list_all_iff hd_append)

lemma trim_no_ws: "list_all (\<lambda>c. \<not> is_ws c) s \<Longrightarrow> trim s = s"
  by (intro trim_trimmed trimmed_no_ws)

subsection \<open>Splitting and joining\<close>

lemma split_on_not_Nil [simp]: "split_on c s \<noteq> []"
  by (induction s) (auto split: list.splits)

lemma split_on_no_sep: "w \<in> set (split_on c s) \<Longrightarrow> c \<notin> set w"
  by (induction s arbitrary: w) (auto split: if_splits list.splits)

lemma join_Cons: "join sep (x # xs) = (if xs = [] then x else x @ sep @ join sep xs)"
  by (cases xs) auto

lemma join_split_on [simp]: "join [c] (split_on c s) = s"
proof (induction s)
  case (Cons x xs)
  then show ?case
    by (cases "split_on c xs") (auto simp: join_Cons)
qed simp

lemma split_on_append_sep:
  "c \<notin> set w \<Longrightarrow> split_on c (w @ c # s) = w # split_on c s"
  by (induction w) auto

lemma split_on_no_occ: "c \<notin> set w \<Longrightarrow> split_on c w = [w]"
  by (induction w) auto

lemma split_on_join:
  assumes "ws \<noteq> []" "\<forall>w \<in> set ws. c \<notin> set w"
  shows "split_on c (join [c] ws) = ws"
  using assms
proof (induction ws)
  case (Cons w ws)
  then show ?case
    by (cases "ws = []") (auto simp: join_Cons split_on_no_occ split_on_append_sep)
qed simp

lemma set_split_on: "w \<in> set (split_on c s) \<Longrightarrow> set w \<subseteq> set s"
proof (induction s arbitrary: w)
  case (Cons x xs)
  then show ?case
    by (cases "split_on c xs") (fastforce split: if_splits)+
qed simp

lemma split_lines_not_Nil [simp]: "split_lines s \<noteq> []"
  by (induction s rule: split_lines.induct) (auto split: list.splits)

lemma split_ws_not_Nil [simp]: "split_ws s \<noteq> []"
  by (induction s) (auto split: list.splits)

subsection \<open>Distinct elements\<close>

lemma set_js_distinct [simp]: "set (js_distinct xs) = set xs"
  by (simp add: js_distinct_def)

lemma distinct_js_distinct [simp]: "distinct (js_distinct xs)"
  by (simp add: js_distinct_def)

lemma js_distinct_id: "distinct xs \<Longrightarrow> js_distinct xs = xs"
  by (simp add: js_distinct_def distinct_remdups_id)

subsection \<open>Numbers\<close>

declare show_nat.simps [simp del]

lemma code_digit_char: "d < 10 \<Longrightarrow> code (digit_char d) = 48 + d"
  by (simp add: digit_char_def)

lemma is_digit_digit_char [simp]: "d < 10 \<Longrightarrow> is_digit (digit_char d)"
  by (simp add: code_digit_char is_digit_def)

lemma digit_val_digit_char [simp]: "d < 10 \<Longrightarrow> digit_val (digit_char d) = d"
  by (simp add: code_digit_char digit_val_def)

lemma show_nat_digits: "list_all is_digit (show_nat n)"
proof (induction n rule: show_nat.induct)
  case (1 n)
  then show ?case by (subst show_nat.simps) auto
qed

lemma show_nat_not_Nil [simp]: "show_nat n \<noteq> []"
  by (subst show_nat.simps) simp

lemma read_nat_append: "read_nat (s @ [c]) = 10 * read_nat s + digit_val c"
  by (simp add: read_nat_def)

lemma read_show_nat [simp]: "read_nat (show_nat n) = n"
proof (induction n rule: show_nat.induct)
  case (1 n)
  show ?case
  proof (cases "n < 10")
    case True
    then show ?thesis by (subst show_nat.simps) (simp add: read_nat_def)
  next
    case False
    with 1 show ?thesis by (subst show_nat.simps) (simp add: read_nat_append)
  qed
qed

lemma length_show_nat: "n < 10 ^ k \<Longrightarrow> 0 < k \<Longrightarrow> length (show_nat n) \<le> k"
proof (induction n arbitrary: k rule: show_nat.induct)
  case (1 n)
  show ?case
  proof (cases "n < 10")
    case True
    with "1.prems" show ?thesis by (subst show_nat.simps) simp
  next
    case False
    obtain j where j: "k = Suc j" using "1.prems"(2) by (cases k) auto
    have "0 < j" using False "1.prems" j by (cases j) auto
    moreover have "n div 10 < 10 ^ j" using "1.prems"(1) j by (simp add: less_mult_imp_div_less mult.commute)
    ultimately show ?thesis using 1 False j by (subst show_nat.simps) simp
  qed
qed

lemma hd_show_nat: "0 < n \<Longrightarrow> hd (show_nat n) \<noteq> CHR ''0''"
proof (induction n rule: show_nat.induct)
  case (1 n)
  have zero: "digit_char d \<noteq> CHR ''0''" if "0 < d" "d < 10" for d
  proof
    assume "digit_char d = CHR ''0''"
    then have "code (digit_char d) = code CHR ''0''" by simp
    then show False using that by (simp add: code_digit_char)
  qed
  show ?case
  proof (cases "n < 10")
    case True
    with 1 zero show ?thesis by (subst show_nat.simps) simp
  next
    case False
    then have "hd (show_nat (n div 10)) \<noteq> CHR ''0''" using 1 by simp
    then show ?thesis using False by (subst show_nat.simps) simp
  qed
qed

lemma digit_val_less: "is_digit c \<Longrightarrow> digit_val c < 10"
  by (auto simp: digit_val_def is_digit_def)

lemma read_nat_less: "list_all is_digit s \<Longrightarrow> read_nat s < 10 ^ length s"
proof (induction s rule: rev_induct)
  case (snoc c s)
  then have "read_nat s < 10 ^ length s" "digit_val c < 10" by (auto simp: digit_val_less)
  then show ?case by (simp add: read_nat_append)
qed (simp add: read_nat_def)

lemma read_nat_pos:
  "list_all is_digit s \<Longrightarrow> s \<noteq> [] \<Longrightarrow> hd s \<noteq> CHR ''0'' \<Longrightarrow> 0 < read_nat s"
proof (induction s rule: rev_induct)
  case (snoc c s)
  show ?case
  proof (cases "s = []")
    case True
    have "code c \<noteq> code CHR ''0''" unfolding code_inject using snoc.prems True by simp
    then have "code c \<noteq> 48" by simp
    then show ?thesis using snoc.prems True by (auto simp: read_nat_def digit_val_def is_digit_def)
  next
    case False
    then show ?thesis using snoc by (simp add: read_nat_append)
  qed
qed simp

subsection \<open>Optional strings and results\<close>

lemma or_null_None [simp]: "or_null s = None \<longleftrightarrow> s = []"
  by (simp add: or_null_def)

lemma or_null_Some [simp]: "or_null s = Some t \<longleftrightarrow> s = t \<and> t \<noteq> []"
  by (auto simp: or_null_def)

lemma trim_or_null_Some:
  "trim_or_null x = Some t \<longleftrightarrow> (\<exists>s. x = Some s \<and> trim s = t \<and> t \<noteq> [])"
  by (auto simp: trim_or_null_def split: option.splits)

lemma nullish_simps [simp]: "nullish None d = d" "nullish (Some v) d = v"
  by (simp_all add: nullish_def)

lemma bindR_Inr [simp]: "bindR r k = Inr b \<longleftrightarrow> (\<exists>a. r = Inr a \<and> k a = Inr b)"
  by (cases r) (auto simp: bindR_def)

lemma bindR_simps [simp]: "bindR (Inr a) k = k a" "bindR (Inl e) k = Inl e"
  by (simp_all add: bindR_def)

lemma guardR_Inr [simp]: "guardR ok msg = Inr u \<longleftrightarrow> ok"
  by (simp add: guardR_def)

lemma guardR_simps [simp]: "guardR True msg = Inr ()" "guardR False msg = Inl msg"
  by (simp_all add: guardR_def)

lemma throw_not_Inr [simp]: "throw msg \<noteq> Inr a"
  by (simp add: throw_def)

end
