(* ===== verification/Explorer_Paths.thy ===== *)
theory Explorer_Paths
  imports Js_Prelude
begin

text \<open>
  The file explorer's path helpers (\<open>FileExplorer/explorerUtils.ts\<close>) and the reader of files dropped
  from the operating system (\<open>FileExplorer/osDrop.ts\<close>).

  A path is a string with \<open>/\<close> between segments, \<open>''''\<close> is the project root. A dropped entry is a
  value of \<open>fs_entry\<close>: its flags, its name, what its \<open>file\<close> callback delivers and the successive
  answers of its directory reader. A promise is resolved, rejected or stays pending for ever, which
  is what an entry without a \<open>file\<close> callback causes. The lemmas show that an uploaded path cannot
  leave the folder it was dropped on, that the reduced set of paths to move is an antichain that
  still covers the whole selection, and that the files of a drop arrive with distinct paths.
\<close>

section \<open>Definitions\<close>

subsection \<open>explorerUtils.ts\<close>

datatype NodeKind = File | Directory

record ExplorerSelection =
  sel_path :: string
  sel_type :: NodeKind

definition parentOf :: "string \<Rightarrow> string" where
  "parentOf path = join ''/'' (butlast (split_on CHR ''/'' path))"

definition createTargetPath :: "ExplorerSelection option \<Rightarrow> string" where
  "createTargetPath selected =
     (case selected of
        None \<Rightarrow> ''''
      | Some sel \<Rightarrow> if sel_type sel = Directory then sel_path sel else parentOf (sel_path sel))"

definition isInsideOrSelf :: "string \<Rightarrow> string \<Rightarrow> bool" where
  "isInsideOrSelf source dest \<longleftrightarrow> dest = source \<or> startsWith dest (source @ ''/'')"

definition canMoveInto :: "string \<Rightarrow> string \<Rightarrow> bool" where
  "canMoveInto source dest =
     (if isInsideOrSelf source dest then False
      else if parentOf source = dest then False
      else True)"

definition filterRedundantPaths :: "string list \<Rightarrow> string list" where
  "filterRedundantPaths paths =
     (let unique = js_distinct (filter (\<lambda>p. p \<noteq> '''') paths)
      in filter (\<lambda>p. \<not> list_ex (\<lambda>other. other \<noteq> p \<and> startsWith p (other @ ''/'')) unique) unique)"

text \<open>The selection is a JavaScript \<open>Set\<close>: its elements in insertion order, without repetition.\<close>

definition pathsForDrag :: "string \<Rightarrow> string list \<Rightarrow> string list" where
  "pathsForDrag draggedPath selectedPaths =
     (if draggedPath \<in> set selectedPaths \<and> 1 < length selectedPaths
      then filterRedundantPaths selectedPaths
      else [draggedPath])"

text \<open>\<open>handleDrop\<close> of \<open>FileExplorer/index.tsx\<close>: the paths handed to the move request.\<close>

definition dropSources :: "string \<Rightarrow> string list \<Rightarrow> string \<Rightarrow> string list" where
  "dropSources primary selectedPaths destPath =
     filter (\<lambda>src. canMoveInto src destPath) (pathsForDrag primary selectedPaths)"

text \<open>The move callbacks the handler calls, in order; either may be missing. The drag state is reset on
  every path.\<close>

datatype move_request = MoveFile string string | MoveFiles "string list" string

definition handleDrop ::
    "bool \<Rightarrow> bool \<Rightarrow> string option \<Rightarrow> string list \<Rightarrow> string \<Rightarrow> string option \<Rightarrow> move_request list" where
  "handleDrop onMoveFile onMoveFiles draggedPath selectedPaths destPath sourcePath =
     (let primary = (if truthy sourcePath then sourcePath else draggedPath) in
      if \<not> truthy primary then []
      else
        let sources = dropSources (the primary) selectedPaths destPath;
            one = (\<lambda>src. if onMoveFile then [MoveFile src destPath] else [])
        in if length sources = 1 then one (hd sources)
           else if length sources > 1 then
             (if onMoveFiles then [MoveFiles sources destPath] else concat (map one sources))
           else [])"

definition normalizeRelativePath :: "string \<Rightarrow> string" where
  "normalizeRelativePath path =
     join ''/''
       (filter (\<lambda>segment. segment \<noteq> '''' \<and> segment \<noteq> ''.'' \<and> segment \<noteq> ''..'')
         (split_on CHR ''/'' (map (\<lambda>c. if c = CHR 0x5C then CHR ''/'' else c) path)))"

definition joinPath :: "string \<Rightarrow> string \<Rightarrow> string" where
  "joinPath basePath relativePath =
     (let clean = normalizeRelativePath relativePath
      in if clean = '''' then ''''
         else if basePath \<noteq> '''' then basePath @ ''/'' @ clean else clean)"

subsection \<open>osDrop.ts\<close>

datatype 'a promise = Resolved 'a | Rejected | Pending

datatype 'f fs_entry =
  FsEntry (isFile: bool) (isDirectory: bool) (entryName: string)
    (fileCallback: "'f promise option") (createReader: "'f fs_entry list promise list option")

record 'f DroppedFile =
  relativePath :: string
  dropped :: 'f

definition bindP :: "'a promise \<Rightarrow> ('a \<Rightarrow> 'b promise) \<Rightarrow> 'b promise" where
  "bindP p k = (case p of Resolved a \<Rightarrow> k a | Rejected \<Rightarrow> Rejected | Pending \<Rightarrow> Pending)"

definition readFile :: "'f fs_entry \<Rightarrow> 'f promise" where
  "readFile entry = (case fileCallback entry of None \<Rightarrow> Pending | Some p \<Rightarrow> p)"

definition entryPath :: "string \<Rightarrow> 'f fs_entry \<Rightarrow> string" where
  "entryPath pre entry = (if pre \<noteq> '''' then pre @ ''/'' @ entryName entry else entryName entry)"

text \<open>
  The loop over a directory asks the reader for batches until one is empty; \<open>walkReader\<close> consumes the
  reader's answers (the promises of \<open>readDirectory\<close>), the reader giving empty batches once they run
  out.
\<close>

function walkEntry :: "'f fs_entry \<Rightarrow> string \<Rightarrow> 'f DroppedFile list promise"
  and walkBatch :: "'f fs_entry list \<Rightarrow> string \<Rightarrow> 'f DroppedFile list promise"
  and walkReader :: "'f fs_entry list promise list \<Rightarrow> string \<Rightarrow> 'f DroppedFile list promise" where
  "walkEntry (FsEntry isf isd nm fcb rdr) pre =
     (let entry = FsEntry isf isd nm fcb rdr in
      if isf then
        bindP (readFile entry)
          (\<lambda>f. Resolved [\<lparr>relativePath = entryPath pre entry, dropped = f\<rparr>])
      else if isd then
        (case rdr of
           None \<Rightarrow> Resolved []
         | Some batches \<Rightarrow> walkReader batches (entryPath pre entry))
      else Resolved [])"
| "walkBatch [] dirPath = Resolved []"
| "walkBatch (child # rest) dirPath =
     bindP (walkEntry child dirPath) (\<lambda>xs. bindP (walkBatch rest dirPath) (\<lambda>ys. Resolved (xs @ ys)))"
| "walkReader [] dirPath = Resolved []"
| "walkReader (Resolved batch # batches) dirPath =
     (if batch = [] then Resolved []
      else bindP (walkBatch batch dirPath)
        (\<lambda>xs. bindP (walkReader batches dirPath) (\<lambda>ys. Resolved (xs @ ys))))"
| "walkReader (Rejected # batches) dirPath = Rejected"
| "walkReader (Pending # batches) dirPath = Pending"
  by pat_completeness auto
termination
  by (relation "measure (\<lambda>x. case x of
        Inl (e, _) \<Rightarrow> size e
      | Inr (Inl (es, _)) \<Rightarrow> size_list size es
      | Inr (Inr (bs, _)) \<Rightarrow> size_list (size_promise (size_list size)) bs)") auto

definition collectFiles :: "'f fs_entry list \<Rightarrow> 'f DroppedFile list promise" where
  "collectFiles entries = walkBatch entries ''''"

text \<open>A drag item: its kind and what \<open>webkitGetAsEntry\<close>, when the browser has it, returns.\<close>

definition entriesFromDataTransfer ::
    "(string \<times> 'f fs_entry option) list option \<Rightarrow> 'f fs_entry list" where
  "entriesFromDataTransfer items =
     (case items of
        None \<Rightarrow> []
      | Some its \<Rightarrow> List.map_filter (\<lambda>(kind, entry). if kind \<noteq> ''file'' then None else entry) its)"

definition flatFilesFromDataTransfer :: "(string \<times> 'f) list \<Rightarrow> 'f DroppedFile list" where
  "flatFilesFromDataTransfer files = map (\<lambda>(nm, f). \<lparr>relativePath = nm, dropped = f\<rparr>) files"

subsection \<open>Reference notions\<close>

text \<open>How a file system resolves the segments of a path below its root.\<close>

fun resolve_segments :: "string list \<Rightarrow> string list \<Rightarrow> string list" where
  "resolve_segments stack [] = stack"
| "resolve_segments stack (seg # segs) =
     (if seg = '''' \<or> seg = ''.'' then resolve_segments stack segs
      else if seg = ''..'' then resolve_segments (butlast stack) segs
      else resolve_segments (stack @ [seg]) segs)"

definition plain_segment :: "string \<Rightarrow> bool" where
  "plain_segment seg \<longleftrightarrow> seg \<noteq> '''' \<and> seg \<noteq> ''.'' \<and> seg \<noteq> ''..''"

text \<open>A tree of entries as a browser delivers it: every file can be read, no batch but the last is
  empty, sibling names are distinct and are single segments.\<close>

fun batchEntries :: "'a list promise list \<Rightarrow> 'a list" where
  "batchEntries [] = []"
| "batchEntries (Resolved b # bs) = b @ batchEntries bs"
| "batchEntries (_ # bs) = batchEntries bs"

function (sequential) sane_entry :: "'f fs_entry \<Rightarrow> bool"
  and sane_list :: "'f fs_entry list \<Rightarrow> bool"
  and sane_batches :: "'f fs_entry list promise list \<Rightarrow> bool" where
  "sane_entry (FsEntry isf isd nm fcb rdr) \<longleftrightarrow>
     nm \<noteq> '''' \<and> CHR ''/'' \<notin> set nm \<and>
     (isf \<longrightarrow> (\<exists>f. fcb = Some (Resolved f))) \<and>
     (case rdr of None \<Rightarrow> True
      | Some bs \<Rightarrow> sane_batches bs \<and> distinct (map entryName (batchEntries bs)))"
| "sane_list [] \<longleftrightarrow> True"
| "sane_list (e # es) \<longleftrightarrow> sane_entry e \<and> sane_list es"
| "sane_batches [] \<longleftrightarrow> True"
| "sane_batches (Resolved b # bs) \<longleftrightarrow> sane_list b \<and> sane_batches bs"
| "sane_batches (_ # bs) \<longleftrightarrow> False"
  by pat_completeness auto
termination
  by (relation "measure (\<lambda>x. case x of
        Inl e \<Rightarrow> size e
      | Inr (Inl es) \<Rightarrow> size_list size es
      | Inr (Inr bs) \<Rightarrow> size_list (size_promise (size_list size)) bs)") auto

text \<open>The files read below a list of sibling entries: distinct paths, each inside an entry.\<close>

definition covers :: "string \<Rightarrow> 'f fs_entry list \<Rightarrow> 'f DroppedFile list \<Rightarrow> bool" where
  "covers pre es fs \<longleftrightarrow> distinct (map relativePath fs) \<and>
     (\<forall>f \<in> set fs. \<exists>e \<in> set es. isInsideOrSelf (entryPath pre e) (relativePath f))"

section \<open>Lemmas\<close>

subsection \<open>Normalised relative paths\<close>

lemma normalize_segments:
  obtains segs where "normalizeRelativePath path = join ''/'' segs" "list_all plain_segment segs"
    "\<And>seg. seg \<in> set segs \<Longrightarrow> CHR ''/'' \<notin> set seg \<and> CHR 0x5C \<notin> set seg"
proof -
  let ?p = "map (\<lambda>c. if c = CHR 0x5C then CHR ''/'' else c) path"
  let ?segs = "filter (\<lambda>s. s \<noteq> '''' \<and> s \<noteq> ''.'' \<and> s \<noteq> ''..'') (split_on CHR ''/'' ?p)"
  have "CHR 0x5C \<notin> set ?p" by auto
  then have "CHR ''/'' \<notin> set seg \<and> CHR 0x5C \<notin> set seg" if "seg \<in> set ?segs" for seg
  proof -
    have "seg \<in> set (split_on CHR ''/'' ?p)" using that by simp
    then have "set seg \<subseteq> set ?p" "CHR ''/'' \<notin> set seg"
      by (rule set_split_on, rule split_on_no_sep)
    with \<open>CHR 0x5C \<notin> set ?p\<close> show ?thesis by blast
  qed
  moreover have "list_all plain_segment ?segs"
    by (auto simp: list_all_iff plain_segment_def)
  ultimately show thesis
    using that [of ?segs] unfolding normalizeRelativePath_def by blast
qed

lemma split_join_slash:
  "segs \<noteq> [] \<Longrightarrow> (\<And>seg. seg \<in> set segs \<Longrightarrow> CHR ''/'' \<notin> set seg) \<Longrightarrow>
     split_on CHR ''/'' (join ''/'' segs) = segs"
  by (rule split_on_join) auto

lemma set_join: "set (join sep ws) \<subseteq> set sep \<union> \<Union> (set ` set ws)"
  by (induction ws) (auto simp: join_Cons)

lemma map_swap_id: "x \<notin> set s \<Longrightarrow> map (\<lambda>c. if c = x then y else c) s = s"
  by (induction s) auto

lemma normalize_plain_fix:
  assumes "list_all plain_segment segs"
    and clean: "\<And>seg. seg \<in> set segs \<Longrightarrow> CHR ''/'' \<notin> set seg \<and> CHR 0x5C \<notin> set seg"
  shows "normalizeRelativePath (join ''/'' segs) = join ''/'' segs"
proof (cases "segs = []")
  case True
  then show ?thesis by (simp add: normalizeRelativePath_def)
next
  case False
  have "CHR 0x5C \<notin> set (join ''/'' segs)" using set_join [of "''/''" segs] clean by force
  then have "map (\<lambda>c. if c = CHR 0x5C then CHR ''/'' else c) (join ''/'' segs) = join ''/'' segs"
    by (rule map_swap_id)
  moreover have "split_on CHR ''/'' (join ''/'' segs) = segs"
    using False clean by (simp add: split_join_slash)
  moreover have "filter (\<lambda>s. s \<noteq> '''' \<and> s \<noteq> ''.'' \<and> s \<noteq> ''..'') segs = segs"
    using assms(1) by (simp add: list_all_iff plain_segment_def)
  ultimately show ?thesis by (simp add: normalizeRelativePath_def)
qed

lemma resolve_plain: "list_all plain_segment segs \<Longrightarrow> resolve_segments stack segs = stack @ segs"
  by (induction segs arbitrary: stack) (auto simp: plain_segment_def)

lemma resolve_append:
  "resolve_segments stack (xs @ ys) = resolve_segments (resolve_segments stack xs) ys"
  by (induction xs arbitrary: stack) auto

lemma split_on_append2:
  "split_on c (s @ c # t) = split_on c s @ split_on c t"
proof (induction s)
  case (Cons x xs)
  then show ?case by (cases "split_on c xs") auto
qed simp

lemma plain_join_not_Nil: "list_all plain_segment segs \<Longrightarrow> join ''/'' segs = '''' \<longleftrightarrow> segs = []"
  by (cases segs) (auto simp: join_Cons plain_segment_def)

text \<open>
  \<open>normalizeRelativePath\<close> is idempotent, and no segment of its result is empty, \<open>.\<close> or \<open>..\<close>,
  nor holds a backslash.
\<close>

lemma normalizeRelativePath_safe:
  "normalizeRelativePath (normalizeRelativePath path) = normalizeRelativePath path \<and>
   (normalizeRelativePath path = '''' \<or>
    list_all (\<lambda>seg. plain_segment seg \<and> CHR 0x5C \<notin> set seg)
      (split_on CHR ''/'' (normalizeRelativePath path)))"
proof -
  obtain segs where n: "normalizeRelativePath path = join ''/'' segs"
    and plain: "list_all plain_segment segs"
    and clean: "\<And>seg. seg \<in> set segs \<Longrightarrow> CHR ''/'' \<notin> set seg \<and> CHR 0x5C \<notin> set seg"
    using normalize_segments [of path] by blast
  have "normalizeRelativePath (join ''/'' segs) = join ''/'' segs"
    using plain clean by (rule normalize_plain_fix)
  moreover have "segs \<noteq> [] \<Longrightarrow> split_on CHR ''/'' (join ''/'' segs) = segs"
    using clean by (simp add: split_join_slash)
  ultimately show ?thesis
    using plain clean by (cases "segs = []") (auto simp: n list_all_iff)
qed

text \<open>
  C26. A file uploaded to \<open>joinPath base rel\<close> stays below \<open>base\<close>: resolving the joined path segment
  by segment, with \<open>..\<close> stepping up, ends strictly below where \<open>base\<close> itself resolves to, whatever
  \<open>rel\<close> is (an empty result means nothing is uploaded).
\<close>

theorem joinPath_confined:
  assumes "joinPath base rel \<noteq> ''''"
  shows "\<exists>segs. segs \<noteq> [] \<and>
    resolve_segments [] (split_on CHR ''/'' (joinPath base rel)) =
      resolve_segments [] (split_on CHR ''/'' base) @ segs"
proof -
  obtain segs where n: "normalizeRelativePath rel = join ''/'' segs"
    and plain: "list_all plain_segment segs"
    and clean: "\<And>seg. seg \<in> set segs \<Longrightarrow> CHR ''/'' \<notin> set seg \<and> CHR 0x5C \<notin> set seg"
    using normalize_segments [of rel] by blast
  have ne: "segs \<noteq> []" using assms n by (auto simp: joinPath_def Let_def split: if_splits)
  have sp: "split_on CHR ''/'' (join ''/'' segs) = segs"
    using ne clean by (simp add: split_join_slash)
  have "split_on CHR ''/'' (joinPath base rel) =
      (if base = '''' then segs else split_on CHR ''/'' base @ segs)"
    using ne plain sp by (auto simp: joinPath_def Let_def n plain_join_not_Nil split_on_append2)
  then have "resolve_segments [] (split_on CHR ''/'' (joinPath base rel)) =
      resolve_segments [] (split_on CHR ''/'' base) @ segs"
    using plain by (auto simp: resolve_append resolve_plain)
  with ne show ?thesis by blast
qed

theorem joinPath_confined_witness:
  "resolve_segments [] (split_on CHR ''/'' (joinPath ''models/staging'' ''../../x/./y.sql'')) =
     [''models'', ''staging'', ''x'', ''y.sql''] \<and>
   (\<exists>segs. segs \<noteq> [] \<and>
      resolve_segments [] (split_on CHR ''/'' (joinPath ''models/staging'' ''../../x/./y.sql'')) =
      resolve_segments [] (split_on CHR ''/'' ''models/staging'') @ segs)"
proof -
  have j: "joinPath ''models/staging'' ''../../x/./y.sql'' \<noteq> ''''" by code_simp
  have "resolve_segments [] (split_on CHR ''/'' (joinPath ''models/staging'' ''../../x/./y.sql'')) =
     [''models'', ''staging'', ''x'', ''y.sql'']" by code_simp
  with joinPath_confined [OF j] show ?thesis by blast
qed

subsection \<open>Moving\<close>

lemma isInsideOrSelf_trans:
  "isInsideOrSelf a b \<Longrightarrow> isInsideOrSelf b c \<Longrightarrow> isInsideOrSelf a c"
  by (auto simp: isInsideOrSelf_def prefix_def)

lemma inside_longer: "startsWith p (q @ ''/'') \<Longrightarrow> length q < length p"
  by (auto simp: prefix_def)

lemma filterRedundantPaths_iff:
  "p \<in> set (filterRedundantPaths paths) \<longleftrightarrow>
     p \<in> set paths \<and> p \<noteq> '''' \<and>
     (\<forall>q \<in> set paths. q \<noteq> '''' \<longrightarrow> q \<noteq> p \<longrightarrow> \<not> startsWith p (q @ ''/''))"
  by (auto simp: filterRedundantPaths_def Let_def list_ex_iff)

lemma filterRedundantPaths_cover:
  "p \<in> set paths \<Longrightarrow> p \<noteq> '''' \<Longrightarrow> \<exists>q \<in> set (filterRedundantPaths paths). isInsideOrSelf q p"
proof (induction "length p" arbitrary: p rule: less_induct)
  case less
  show ?case
  proof (cases "p \<in> set (filterRedundantPaths paths)")
    case True
    then show ?thesis by (auto simp: isInsideOrSelf_def)
  next
    case False
    with less.prems obtain q where q: "q \<in> set paths" "q \<noteq> ''''" "startsWith p (q @ ''/'')"
      by (auto simp: filterRedundantPaths_iff)
    then obtain r where "r \<in> set (filterRedundantPaths paths)" "isInsideOrSelf r q"
      using less.hyps inside_longer by blast
    with q show ?thesis using isInsideOrSelf_trans [of r q p] by (auto simp: isInsideOrSelf_def)
  qed
qed

text \<open>
  \<open>filterRedundantPaths\<close> returns distinct, non-empty paths of the selection, none of them inside
  another, and every selected path is one of them or lies inside one of them: moving the result
  moves exactly the selection, each node once.
\<close>

lemma filterRedundantPaths_antichain_cover:
  "distinct (filterRedundantPaths paths) \<and>
   set (filterRedundantPaths paths) \<subseteq> set paths - {''''} \<and>
   (\<forall>p \<in> set (filterRedundantPaths paths). \<forall>q \<in> set (filterRedundantPaths paths).
      isInsideOrSelf p q \<longrightarrow> p = q) \<and>
   (\<forall>p \<in> set paths - {''''}. \<exists>q \<in> set (filterRedundantPaths paths). isInsideOrSelf q p)"
proof (intro conjI)
  show "distinct (filterRedundantPaths paths)"
    by (simp add: filterRedundantPaths_def Let_def)
  show "set (filterRedundantPaths paths) \<subseteq> set paths - {''''}"
    by (auto simp: filterRedundantPaths_iff)
  show "\<forall>p \<in> set (filterRedundantPaths paths). \<forall>q \<in> set (filterRedundantPaths paths).
      isInsideOrSelf p q \<longrightarrow> p = q"
    by (auto simp: filterRedundantPaths_iff isInsideOrSelf_def)
  show "\<forall>p \<in> set paths - {''''}. \<exists>q \<in> set (filterRedundantPaths paths). isInsideOrSelf q p"
    by (simp add: filterRedundantPaths_cover)
qed

lemma parentOf_join:
  assumes "base \<noteq> ''''" "CHR ''/'' \<notin> set name"
  shows "parentOf (base @ ''/'' @ name) = base"
proof -
  have "split_on CHR ''/'' (base @ ''/'' @ name) = split_on CHR ''/'' base @ [name]"
    using split_on_append2 [of "CHR ''/''" base name] assms(2) by (simp add: split_on_no_occ)
  then show ?thesis by (simp add: parentOf_def butlast_append)
qed

lemma parentOf_no_slash: "CHR ''/'' \<notin> set name \<Longrightarrow> parentOf name = ''''"
  by (simp add: parentOf_def split_on_no_occ)

lemma inside_joined:
  assumes "startsWith (dest @ ''/'' @ name) (source @ ''/'')" "CHR ''/'' \<notin> set name"
  shows "isInsideOrSelf source dest"
proof -
  obtain t where t: "dest @ ''/'' @ name = source @ ''/'' @ t"
    using assms(1) by (auto simp: prefix_def)
  then consider us where "dest = source @ us" "us @ ''/'' @ name = ''/'' @ t"
    | us where "source = dest @ us" "''/'' @ name = us @ ''/'' @ t"
    by (auto simp: append_eq_append_conv2)
  then show ?thesis
  proof cases
    case 1
    then show ?thesis by (cases us) (auto simp: isInsideOrSelf_def)
  next
    case 2
    then have "us = []" using assms(2) by (cases us) auto
    with 2 show ?thesis by (simp add: isInsideOrSelf_def)
  qed
qed

text \<open>
  A drop moves only nodes for which the move means something: for every source the drop handler
  keeps, its path below the destination differs from the old path and does not lie inside it, so
  no folder is moved into its own subtree.
\<close>

lemma dropSources_sound:
  assumes "source \<in> set (dropSources primary selectedPaths dest)"
    and "name = last (split_on CHR ''/'' source)"
    and "newPath = (if dest = '''' then name else dest @ ''/'' @ name)"
  shows "newPath \<noteq> source \<and> \<not> isInsideOrSelf source newPath"
proof -
  have dest: "\<not> isInsideOrSelf source dest" "parentOf source \<noteq> dest"
    using assms(1) by (auto simp: dropSources_def canMoveInto_def split: if_splits)
  have name: "CHR ''/'' \<notin> set name"
    using assms(2) split_on_no_sep [of name "CHR ''/''" source] by simp
  show ?thesis
  proof (cases "dest = ''''")
    case True
    then show ?thesis
      using assms(3) dest(2) name by (auto simp: parentOf_no_slash isInsideOrSelf_def prefix_def)
  next
    case False
    then show ?thesis
      using assms(3) dest parentOf_join [OF False name] inside_joined [of source dest name] name
      by (auto simp: isInsideOrSelf_def)
  qed
qed

subsection \<open>Dropped files\<close>

lemma inside_sibling:
  assumes "isInsideOrSelf (entryPath pre a) p" "isInsideOrSelf (entryPath pre b) p"
    and "CHR ''/'' \<notin> set (entryName a)" "CHR ''/'' \<notin> set (entryName b)"
  shows "entryName a = entryName b"
proof -
  have key: "u = v" if "isInsideOrSelf u q" "isInsideOrSelf v q"
    "CHR ''/'' \<notin> set u" "CHR ''/'' \<notin> set v" for u v q :: string
    using that split_on_append_sep [of "CHR ''/''" u] split_on_append_sep [of "CHR ''/''" v]
      split_on_no_occ [of "CHR ''/''" u] split_on_no_occ [of "CHR ''/''" v]
    by (auto simp: isInsideOrSelf_def prefix_def) (metis list.inject)+
  have strip: "\<exists>q. p = pre @ ''/'' @ q \<and> isInsideOrSelf w q"
    if "isInsideOrSelf (pre @ ''/'' @ w) p" for w
    using that by (auto simp: isInsideOrSelf_def prefix_def)
  show ?thesis
  proof (cases "pre = ''''")
    case True
    then show ?thesis using assms key by (simp add: entryPath_def)
  next
    case False
    obtain q where q: "p = pre @ ''/'' @ q" "isInsideOrSelf (entryName a) q"
      using assms(1) strip False by (auto simp: entryPath_def)
    obtain q' where q': "p = pre @ ''/'' @ q'" "isInsideOrSelf (entryName b) q'"
      using assms(2) strip False by (auto simp: entryPath_def)
    show ?thesis using assms(3,4) key q q' by simp
  qed
qed

lemma bindP_simps [simp]: "bindP (Resolved a) k = k a"
  by (simp add: bindP_def)

lemma covers_append:
  assumes "covers pre es fs" "covers pre es' fs'" "distinct (map entryName (es @ es'))"
    and "\<forall>e \<in> set (es @ es'). CHR ''/'' \<notin> set (entryName e)"
  shows "covers pre (es @ es') (fs @ fs')"
proof -
  have "relativePath f \<noteq> relativePath f'" if f: "f \<in> set fs" and f': "f' \<in> set fs'" for f f'
  proof
    assume eq: "relativePath f = relativePath f'"
    obtain e where e: "e \<in> set es" "isInsideOrSelf (entryPath pre e) (relativePath f)"
      using assms(1) f by (auto simp: covers_def)
    obtain e' where e': "e' \<in> set es'" "isInsideOrSelf (entryPath pre e') (relativePath f)"
      using assms(2) f' eq by (auto simp: covers_def)
    have "entryName e = entryName e'" using inside_sibling [OF e(2) e'(2)] e(1) e'(1) assms(4) by auto
    with e(1) e'(1) assms(3) show False by auto
  qed
  then have "set (map relativePath fs) \<inter> set (map relativePath fs') = {}" by auto
  then show ?thesis using assms(1,2) by (auto simp: covers_def)
qed

lemma sane_list_names: "sane_list es \<Longrightarrow> \<forall>e \<in> set es. CHR ''/'' \<notin> set (entryName e)"
proof (induction es)
  case (Cons e es)
  then show ?case by (cases e) auto
qed simp

lemma sane_batches_names:
  "sane_batches bs \<Longrightarrow> \<forall>e \<in> set (batchEntries bs). CHR ''/'' \<notin> set (entryName e)"
  by (induction bs rule: batchEntries.induct) (auto dest: sane_list_names)

lemma walk_covers:
  fixes e :: "'f fs_entry" and es :: "'f fs_entry list" and bs :: "'f fs_entry list promise list"
  shows
  "sane_entry e \<Longrightarrow> \<exists>fs. walkEntry e pre = Resolved fs \<and> covers pre [e] fs"
  "sane_list es \<Longrightarrow> distinct (map entryName es) \<Longrightarrow>
     \<exists>fs. walkBatch es pre = Resolved fs \<and> covers pre es fs"
  "sane_batches bs \<Longrightarrow> distinct (map entryName (batchEntries bs)) \<Longrightarrow>
     \<exists>fs. walkReader bs pre = Resolved fs \<and> covers pre (batchEntries bs) fs"
proof (induction e pre and es pre and bs pre rule: walkEntry_walkBatch_walkReader.induct)
  case (1 isf isd nm fcb rdr pre)
  let ?e = "FsEntry isf isd nm fcb rdr"
  show ?case
  proof (cases "isf \<or> \<not> isd \<or> rdr = None")
    case True
    with "1.prems" show ?thesis
      by (auto simp: covers_def isInsideOrSelf_def readFile_def Let_def split: option.splits)
  next
    case False
    then obtain bs where bs: "rdr = Some bs" by auto
    with 1 False obtain fs where "walkReader bs (entryPath pre ?e) = Resolved fs"
      and c: "covers (entryPath pre ?e) (batchEntries bs) fs"
      by (auto simp: Let_def)
    moreover have "covers pre [?e] fs"
    proof -
      have ne: "entryPath pre ?e \<noteq> ''''" using "1.prems" by (auto simp: entryPath_def)
      have "isInsideOrSelf (entryPath pre ?e) (entryPath (entryPath pre ?e) x)" for x :: "'f fs_entry"
        using ne by (auto simp: isInsideOrSelf_def entryPath_def)
      then show ?thesis using c isInsideOrSelf_trans unfolding covers_def by (metis list.set_intros(1))
    qed
    ultimately show ?thesis using bs False by (simp add: Let_def)
  qed
next
  case (3 child rest pre)
  then obtain fs fs' where "walkEntry child pre = Resolved fs" "covers pre [child] fs"
    "walkBatch rest pre = Resolved fs'" "covers pre rest fs'" by auto
  moreover have "\<forall>e \<in> set ([child] @ rest). CHR ''/'' \<notin> set (entryName e)"
    using sane_list_names [of "child # rest"] "3.prems"(1) by simp
  ultimately show ?case
    using covers_append [of pre "[child]" fs rest fs'] "3.prems"(2) by simp
next
  case (5 batch batches pre)
  show ?case
  proof (cases "batch = []")
    case True
    then show ?thesis by (simp add: covers_def)
  next
    case False
    with 5 obtain fs fs' where "walkBatch batch pre = Resolved fs" "covers pre batch fs"
      "walkReader batches pre = Resolved fs'" "covers pre (batchEntries batches) fs'" by auto
    moreover have "\<forall>e \<in> set (batch @ batchEntries batches). CHR ''/'' \<notin> set (entryName e)"
      using sane_batches_names [of "Resolved batch # batches"] "5.prems"(1) by simp
    ultimately show ?thesis
      using covers_append [of pre batch fs "batchEntries batches" fs'] "5.prems"(2) False by simp
  qed
qed (simp_all add: covers_def)

text \<open>
  Dropping a sane tree of entries always finishes with a list of files, and no two files of the
  drop carry the same relative path, so no upload overwrites another of the same drop.
\<close>

lemma collectFiles_distinct:
  assumes "sane_list entries" "distinct (map entryName entries)"
  shows "\<exists>fs. collectFiles entries = Resolved fs \<and> distinct (map relativePath fs)"
  using walk_covers(2) [OF assms, of "''''"] by (auto simp: collectFiles_def covers_def)

end
