(* ===== verification/Git_Paths.thy ===== *)
theory Git_Paths
  imports Js_Prelude
begin

text \<open>
  The git revision argument of the diff view (\<open>features/git/model/diffPath.ts\<close>). The command is a
  string the runner splits with Python's \<open>shlex.split\<close>, so the file name is quoted for it;
  \<open>shlex_split\<close> is that splitter in its POSIX mode, a state machine over the characters. The lemma
  shows that every file name, whatever quotes, blanks or backslashes it holds, arrives as one word.
\<close>

section \<open>Definitions\<close>

definition normalizeGitRevisionPath :: "string \<Rightarrow> string" where
  "normalizeGitRevisionPath filePath = dropWhile (\<lambda>c. c = CHR ''/'') (trim filePath)"

text \<open>The replacement of every quote character by the four characters quote, backslash, quote, quote.\<close>

definition quoteGitRevision :: "string \<Rightarrow> string" where
  "quoteGitRevision revision =
     [CHR 0x27] @
     concat (map (\<lambda>c. if c = CHR 0x27 then [CHR 0x27, CHR 0x5C, CHR 0x27, CHR 0x27] else [c]) revision) @
     [CHR 0x27]"

definition buildGitShowHeadCommand :: "string \<Rightarrow> string" where
  "buildGitShowHeadCommand filePath =
     (let normalizedPath = normalizeGitRevisionPath filePath
      in ''show '' @ quoteGitRevision (''HEAD:'' @ normalizedPath))"

subsection \<open>The word splitter of the runner\<close>

datatype lex_state = Space | Word | Single | Double | EscWord | EscDouble

definition lex_blank :: "char \<Rightarrow> bool" where
  "lex_blank c \<longleftrightarrow> c \<in> {CHR '' '', CHR 0x09, CHR 0x0A, CHR 0x0D}"

fun shlex_go :: "lex_state \<Rightarrow> string \<Rightarrow> string \<Rightarrow> string list option" where
  "shlex_go Space tok [] = Some []"
| "shlex_go Space tok (c # cs) =
     (if lex_blank c then shlex_go Space [] cs
      else if c = CHR 0x5C then shlex_go EscWord [] cs
      else if c = CHR 0x27 then shlex_go Single [] cs
      else if c = CHR 0x22 then shlex_go Double [] cs
      else shlex_go Word [c] cs)"
| "shlex_go Word tok [] = Some [tok]"
| "shlex_go Word tok (c # cs) =
     (if lex_blank c then map_option (\<lambda>ws. tok # ws) (shlex_go Space [] cs)
      else if c = CHR 0x5C then shlex_go EscWord tok cs
      else if c = CHR 0x27 then shlex_go Single tok cs
      else if c = CHR 0x22 then shlex_go Double tok cs
      else shlex_go Word (tok @ [c]) cs)"
| "shlex_go Single tok [] = None"
| "shlex_go Single tok (c # cs) =
     (if c = CHR 0x27 then shlex_go Word tok cs else shlex_go Single (tok @ [c]) cs)"
| "shlex_go Double tok [] = None"
| "shlex_go Double tok (c # cs) =
     (if c = CHR 0x22 then shlex_go Word tok cs
      else if c = CHR 0x5C then shlex_go EscDouble tok cs
      else shlex_go Double (tok @ [c]) cs)"
| "shlex_go EscWord tok [] = None"
| "shlex_go EscWord tok (c # cs) = shlex_go Word (tok @ [c]) cs"
| "shlex_go EscDouble tok [] = None"
| "shlex_go EscDouble tok (c # cs) =
     (if c = CHR 0x5C \<or> c = CHR 0x22 then shlex_go Double (tok @ [c]) cs
      else shlex_go Double (tok @ [CHR 0x5C, c]) cs)"

definition shlex_split :: "string \<Rightarrow> string list option" where
  "shlex_split s = shlex_go Space [] s"

section \<open>Lemmas\<close>

lemma shlex_quoted_body:
  "shlex_go Single tok
     (concat (map (\<lambda>c. if c = CHR 0x27 then [CHR 0x27, CHR 0x5C, CHR 0x27, CHR 0x27] else [c]) s)
        @ CHR 0x27 # rest) =
   shlex_go Word (tok @ s) rest"
  by (induction s arbitrary: tok) (auto simp: lex_blank_def)

lemma shlex_quoted:
  "shlex_go Space [] (quoteGitRevision s @ rest) = shlex_go Word s rest"
  using shlex_quoted_body [of "[]" s rest] by (simp add: quoteGitRevision_def lex_blank_def)

text \<open>
  The diff view's command is read by the runner as exactly two words, \<open>show\<close> and the revision
  \<open>HEAD:\<close> followed by the normalised path: no file name can add a word or an option to it.
\<close>

lemma buildGitShowHeadCommand_two_words:
  "shlex_split (buildGitShowHeadCommand filePath) =
     Some [''show'', ''HEAD:'' @ normalizeGitRevisionPath filePath]"
  using shlex_quoted [of "''HEAD:'' @ normalizeGitRevisionPath filePath" "[]"]
  by (simp add: buildGitShowHeadCommand_def Let_def shlex_split_def lex_blank_def)

end
