(* ===== verification/Js_Regex.thy ===== *)
theory Js_Regex
  imports Js_Prelude
begin

text \<open>
  The regular expressions of the source, as data. A pattern that the code anchors at both ends and
  only tests (\<open>/^...$/.test(s)\<close>) is transcribed constructor by constructor as a value of \<open>rx\<close> and
  tested by \<open>rx_match\<close>, an executable matcher by Brzozowski derivatives; \<open>rx_test\<close> is the
  unanchored test. \<open>rx_match_iff\<close> ties the matcher to the language of the pattern, and the
  simplification rules collected in \<open>rx_lang\<close> turn membership in the language of the shapes the
  source uses (a class followed by a bounded run of a class, a literal, an option) into plain list
  predicates, which is what the component proofs work with.
\<close>

named_theorems rx_lang "membership in the language of a pattern"

section \<open>Definitions\<close>

datatype rx =
    RZero
  | ROne
  | RCls "char \<Rightarrow> bool"
  | RAlt rx rx
  | RSeq rx rx
  | RStar rx

inductive_set lang_star :: "string set \<Rightarrow> string set" for L :: "string set" where
  star_Nil: "[] \<in> lang_star L"
| star_app: "u \<in> L \<Longrightarrow> v \<in> lang_star L \<Longrightarrow> u @ v \<in> lang_star L"

definition lang_seq :: "string set \<Rightarrow> string set \<Rightarrow> string set" where
  "lang_seq K L = {w. \<exists>u v. w = u @ v \<and> u \<in> K \<and> v \<in> L}"

primrec lang :: "rx \<Rightarrow> string set" where
  "lang RZero = {}"
| "lang ROne = {[]}"
| "lang (RCls p) = {s. \<exists>c. s = [c] \<and> p c}"
| "lang (RAlt r s) = lang r \<union> lang s"
| "lang (RSeq r s) = lang_seq (lang r) (lang s)"
| "lang (RStar r) = lang_star (lang r)"

primrec rx_null :: "rx \<Rightarrow> bool" where
  "rx_null RZero = False"
| "rx_null ROne = True"
| "rx_null (RCls p) = False"
| "rx_null (RAlt r s) = (rx_null r \<or> rx_null s)"
| "rx_null (RSeq r s) = (rx_null r \<and> rx_null s)"
| "rx_null (RStar r) = True"

fun mk_seq :: "rx \<Rightarrow> rx \<Rightarrow> rx" where
  "mk_seq RZero s = RZero"
| "mk_seq ROne s = s"
| "mk_seq r s = RSeq r s"

fun mk_alt :: "rx \<Rightarrow> rx \<Rightarrow> rx" where
  "mk_alt RZero s = s"
| "mk_alt r RZero = r"
| "mk_alt r s = RAlt r s"

primrec rx_deriv :: "char \<Rightarrow> rx \<Rightarrow> rx" where
  "rx_deriv c RZero = RZero"
| "rx_deriv c ROne = RZero"
| "rx_deriv c (RCls p) = (if p c then ROne else RZero)"
| "rx_deriv c (RAlt r s) = mk_alt (rx_deriv c r) (rx_deriv c s)"
| "rx_deriv c (RSeq r s) =
     (if rx_null r then mk_alt (mk_seq (rx_deriv c r) s) (rx_deriv c s)
      else mk_seq (rx_deriv c r) s)"
| "rx_deriv c (RStar r) = mk_seq (rx_deriv c r) (RStar r)"

primrec rx_match :: "rx \<Rightarrow> string \<Rightarrow> bool" where
  "rx_match r [] = rx_null r"
| "rx_match r (c # s) = rx_match (rx_deriv c r) s"

text \<open>Derived forms: \<open>r{n}\<close>, \<open>r{0,n}\<close>, \<open>r+\<close>, \<open>r?\<close>, a literal, any character, a literal character.\<close>

primrec rx_times :: "nat \<Rightarrow> rx \<Rightarrow> rx" where
  "rx_times 0 r = ROne"
| "rx_times (Suc n) r = RSeq r (rx_times n r)"

primrec rx_upto :: "nat \<Rightarrow> rx \<Rightarrow> rx" where
  "rx_upto 0 r = ROne"
| "rx_upto (Suc n) r = RAlt ROne (RSeq r (rx_upto n r))"

definition rx_plus :: "rx \<Rightarrow> rx" where
  "rx_plus r = RSeq r (RStar r)"

definition rx_opt :: "rx \<Rightarrow> rx" where
  "rx_opt r = RAlt ROne r"

definition rx_chr :: "char \<Rightarrow> rx" where
  "rx_chr c = RCls (\<lambda>x. x = c)"

definition rx_any :: rx where
  "rx_any = RCls (\<lambda>_. True)"

primrec rx_str :: "string \<Rightarrow> rx" where
  "rx_str [] = ROne"
| "rx_str (c # s) = RSeq (rx_chr c) (rx_str s)"

primrec rx_alts :: "string list \<Rightarrow> rx" where
  "rx_alts [] = RZero"
| "rx_alts (s # ss) = RAlt (rx_str s) (rx_alts ss)"

definition rx_test :: "rx \<Rightarrow> string \<Rightarrow> bool" where
  "rx_test r s = rx_match (RSeq (RStar rx_any) (RSeq r (RStar rx_any))) s"

section \<open>Lemmas\<close>

subsection \<open>The matcher decides the language\<close>

lemma lang_seqI [intro]: "u \<in> K \<Longrightarrow> v \<in> L \<Longrightarrow> u @ v \<in> lang_seq K L"
  by (auto simp: lang_seq_def)

lemma lang_seqE [elim]:
  assumes "w \<in> lang_seq K L"
  obtains u v where "w = u @ v" "u \<in> K" "v \<in> L"
  using assms by (auto simp: lang_seq_def)

lemma lang_seq_Nil [simp]: "[] \<in> lang_seq K L \<longleftrightarrow> [] \<in> K \<and> [] \<in> L"
  by (auto simp: lang_seq_def)

lemma lang_seq_Cons:
  "c # s \<in> lang_seq K L \<longleftrightarrow> [] \<in> K \<and> c # s \<in> L \<or> s \<in> lang_seq {u. c # u \<in> K} L"
  by (auto simp: lang_seq_def Cons_eq_append_conv)

lemma lang_seq_unit [simp]: "lang_seq {} L = {}" "lang_seq {[]} L = L"
  by (auto simp: lang_seq_def)

lemma lang_seq_single: "s \<in> lang_seq {w. \<exists>c. w = [c] \<and> p c} L \<longleftrightarrow> s \<noteq> [] \<and> p (hd s) \<and> tl s \<in> L"
proof (cases s)
  case (Cons c t)
  have "{u. c # u \<in> {w. \<exists>c. w = [c] \<and> p c}} = (if p c then {[]} else {})" by auto
  then show ?thesis by (simp add: Cons lang_seq_Cons)
qed simp

lemma rx_null_iff: "rx_null r \<longleftrightarrow> [] \<in> lang r"
  by (induction r) (auto intro: star_Nil)

lemma lang_mk_seq [simp]: "lang (mk_seq r s) = lang (RSeq r s)"
  by (cases r) auto

lemma lang_mk_alt [simp]: "lang (mk_alt r s) = lang (RAlt r s)"
  by (cases "(r, s)" rule: mk_alt.cases) auto

lemma lang_star_Cons:
  "c # s \<in> lang_star L \<longleftrightarrow> (\<exists>u v. s = u @ v \<and> c # u \<in> L \<and> v \<in> lang_star L)"
proof
  assume "c # s \<in> lang_star L"
  then show "\<exists>u v. s = u @ v \<and> c # u \<in> L \<and> v \<in> lang_star L"
  proof (induction "c # s" arbitrary: s)
    case (star_app u v)
    show ?case
    proof (cases u)
      case Nil
      with star_app show ?thesis by simp
    next
      case (Cons d u')
      with star_app.hyps show ?thesis by auto
    qed
  qed
next
  assume "\<exists>u v. s = u @ v \<and> c # u \<in> L \<and> v \<in> lang_star L"
  then obtain u v where "s = u @ v" "c # u \<in> L" "v \<in> lang_star L" by blast
  then show "c # s \<in> lang_star L" using star_app [of "c # u" L v] by simp
qed

lemma lang_deriv: "s \<in> lang (rx_deriv c r) \<longleftrightarrow> c # s \<in> lang r"
proof (induction r arbitrary: s)
  case (RSeq r1 r2)
  then have "{u. c # u \<in> lang r1} = lang (rx_deriv c r1)" by blast
  with RSeq show ?case by (simp add: rx_null_iff lang_seq_Cons) blast
next
  case (RStar r)
  then show ?case by (auto simp: lang_star_Cons lang_seq_def)
qed auto

lemma rx_match_iff: "rx_match r s \<longleftrightarrow> s \<in> lang r"
  by (induction s arbitrary: r) (simp_all add: rx_null_iff lang_deriv)

subsection \<open>Languages of the shapes the source uses\<close>

lemma in_lang_chr [rx_lang]: "s \<in> lang (rx_chr c) \<longleftrightarrow> s = [c]"
  by (auto simp: rx_chr_def)

lemma in_lang_seq_cls [rx_lang]:
  "s \<in> lang (RSeq (RCls p) r) \<longleftrightarrow> (\<exists>c cs. s = c # cs \<and> p c \<and> cs \<in> lang r)"
  by (cases s) (auto simp: lang_seq_single)

lemma in_lang_seq_chr [rx_lang]:
  "s \<in> lang (RSeq (rx_chr c) r) \<longleftrightarrow> (\<exists>cs. s = c # cs \<and> cs \<in> lang r)"
  unfolding rx_chr_def in_lang_seq_cls by auto

lemma in_lang_upto_cls [rx_lang]:
  "s \<in> lang (rx_upto n (RCls p)) \<longleftrightarrow> length s \<le> n \<and> list_all p s"
proof (induction n arbitrary: s)
  case (Suc n)
  then show ?case by (cases s) (auto simp: lang_seq_single)
qed auto

lemma in_lang_times_cls [rx_lang]:
  "s \<in> lang (rx_times n (RCls p)) \<longleftrightarrow> length s = n \<and> list_all p s"
proof (induction n arbitrary: s)
  case (Suc n)
  then show ?case by (cases s) (auto simp: lang_seq_single)
qed auto

lemma in_lang_star_cls [rx_lang]: "s \<in> lang (RStar (RCls p)) \<longleftrightarrow> list_all p s"
  by (induction s) (auto simp: lang_star_Cons intro: star_Nil)

lemma in_lang_plus_cls [rx_lang]: "s \<in> lang (rx_plus (RCls p)) \<longleftrightarrow> s \<noteq> [] \<and> list_all p s"
  unfolding rx_plus_def in_lang_seq_cls in_lang_star_cls by (cases s) auto

lemma in_lang_str [rx_lang]: "s \<in> lang (rx_str w) \<longleftrightarrow> s = w"
  by (induction w arbitrary: s) (auto simp: in_lang_seq_chr simp del: lang.simps(5))

lemma in_lang_seq_str [rx_lang]:
  "s \<in> lang (RSeq (rx_str w) r) \<longleftrightarrow> (\<exists>t. s = w @ t \<and> t \<in> lang r)"
  by (auto simp: in_lang_str lang_seq_def)

lemma in_lang_alts [rx_lang]: "s \<in> lang (rx_alts ws) \<longleftrightarrow> s \<in> set ws"
  by (induction ws) (auto simp: in_lang_str)

lemma in_lang_opt [rx_lang]: "s \<in> lang (rx_opt r) \<longleftrightarrow> s = [] \<or> s \<in> lang r"
  by (auto simp: rx_opt_def)

lemma in_lang_any_star [simp]: "s \<in> lang (RStar rx_any)"
  by (simp add: rx_any_def in_lang_star_cls list_all_iff del: lang.simps)

lemma rx_test_iff: "rx_test r s \<longleftrightarrow> (\<exists>u v w. s = u @ v @ w \<and> v \<in> lang r)"
proof
  assume "rx_test r s"
  then show "\<exists>u v w. s = u @ v @ w \<and> v \<in> lang r"
    unfolding rx_test_def rx_match_iff lang.simps(5) lang_seq_def by auto
next
  assume "\<exists>u v w. s = u @ v @ w \<and> v \<in> lang r"
  then obtain u v w where "s = u @ v @ w" "v \<in> lang r" by blast
  moreover have "u \<in> lang (RStar rx_any)" "w \<in> lang (RStar rx_any)" by (rule in_lang_any_star)+
  ultimately show "rx_test r s"
    unfolding rx_test_def rx_match_iff lang.simps(5) by (simp add: lang_seqI)
qed

lemma lang_alt_iff [rx_lang]: "s \<in> lang (RAlt r1 r2) \<longleftrightarrow> s \<in> lang r1 \<or> s \<in> lang r2"
  by simp

lemma lang_one_iff [rx_lang]: "s \<in> lang ROne \<longleftrightarrow> s = []"
  by simp

lemma list_all_weaken: "list_all p s \<Longrightarrow> (\<And>c. p c \<Longrightarrow> q c) \<Longrightarrow> list_all q s"
  by (auto simp: list_all_iff)

text \<open>Every character of a word is accepted by some class of the pattern.\<close>

primrec rx_chars :: "rx \<Rightarrow> char \<Rightarrow> bool" where
  "rx_chars RZero c = False"
| "rx_chars ROne c = False"
| "rx_chars (RCls p) c = p c"
| "rx_chars (RAlt r s) c = (rx_chars r c \<or> rx_chars s c)"
| "rx_chars (RSeq r s) c = (rx_chars r c \<or> rx_chars s c)"
| "rx_chars (RStar r) c = rx_chars r c"

lemma lang_star_chars:
  "s \<in> lang_star L \<Longrightarrow> (\<And>w. w \<in> L \<Longrightarrow> list_all p w) \<Longrightarrow> list_all p s"
  by (induction rule: lang_star.induct) auto

lemma lang_chars: "s \<in> lang r \<Longrightarrow> list_all (rx_chars r) s"
proof (induction r arbitrary: s)
  case (RStar r)
  then show ?case using lang_star_chars [of s "lang r" "rx_chars r"] by (simp add: list_all_iff)
next
  case (RSeq r1 r2)
  then show ?case by (fastforce simp: list_all_iff)
qed (auto simp: list_all_iff)

lemma rx_chars_upto [simp]: "rx_chars (rx_upto n r) c \<longleftrightarrow> 0 < n \<and> rx_chars r c"
  by (induction n) auto

lemma rx_chars_times [simp]: "rx_chars (rx_times n r) c \<longleftrightarrow> 0 < n \<and> rx_chars r c"
  by (induction n) auto

lemma rx_chars_derived [simp]:
  "rx_chars (rx_plus r) c \<longleftrightarrow> rx_chars r c"
  "rx_chars (rx_opt r) c \<longleftrightarrow> rx_chars r c"
  "rx_chars (rx_chr d) c \<longleftrightarrow> c = d"
  "rx_chars (rx_str w) c \<longleftrightarrow> c \<in> set w"
proof -
  show "rx_chars (rx_str w) c \<longleftrightarrow> c \<in> set w"
    by (induction w) (auto simp: rx_chr_def)
qed (auto simp: rx_plus_def rx_opt_def rx_chr_def)

end
