(* ===== verification/Dbt_Command.thy ===== *)
theory Dbt_Command
  imports Js_Regex
begin

text \<open>
  The dbt command line the editor sends to the runner (\<open>features/develop/model/dbt-command-args.ts\<close>)
  and the shape check for cron expressions (\<open>features/orchestrate/model/cron.ts\<close>). Patterns anchored
  with \<open>(^|\s)\<close> and \<open>(\s|$)\<close> are regular expressions over the whole string.
\<close>

section \<open>Definitions\<close>

subsection \<open>dbt-command-args.ts\<close>

definition COMMANDS_WITH_EXTRA_ARGS :: "string list" where
  "COMMANDS_WITH_EXTRA_ARGS = [''build'', ''clone'', ''compile'', ''run'', ''seed'', ''show'']"

definition COMMANDS_WITH_FULL_REFRESH :: "string list" where
  "COMMANDS_WITH_FULL_REFRESH = [''build'', ''clone'', ''compile'', ''run'', ''seed'', ''show'']"

definition TARGET_NAME_PATTERN :: rx where
  "TARGET_NAME_PATTERN =
     RSeq (RCls is_lower) (rx_upto 29 (RCls (\<lambda>c. is_lower c \<or> is_digit c \<or> c = CHR ''_'')))"

text \<open>\<open>/(^|\s)(f1|f2)(end|$)/.test(s)\<close>, \<open>end\<close> a class of characters.\<close>

definition flag_test :: "string list \<Rightarrow> (char \<Rightarrow> bool) \<Rightarrow> string \<Rightarrow> bool" where
  "flag_test flags ending s =
     rx_match (RSeq (RAlt ROne (RSeq (RStar rx_any) (RCls is_ws)))
       (RSeq (rx_alts flags) (RAlt ROne (RSeq (RCls ending) (RStar rx_any))))) s"

definition getDbtCommandName :: "string \<Rightarrow> string" where
  "getDbtCommandName command = or_str (hd (split_ws (trim command))) ''''"

definition buildDbtAdditionalArgs :: "string \<Rightarrow> string \<Rightarrow> bool \<Rightarrow> string" where
  "buildDbtAdditionalArgs commandName extraArgs fullRefresh =
     (let args = trim extraArgs in
      if fullRefresh \<and> commandName \<in> set COMMANDS_WITH_FULL_REFRESH
         \<and> \<not> flag_test [''--full-refresh'', ''-f''] is_ws args
      then (if args \<noteq> '''' then args @ '' --full-refresh'' else ''--full-refresh'')
      else args)"

definition target_test :: "string \<Rightarrow> bool" where
  "target_test s = flag_test [''--target'', ''-t''] (\<lambda>c. is_ws c \<or> c = CHR ''='') s"

definition buildDbtCommandWithArgs :: "string \<Rightarrow> string \<Rightarrow> bool \<Rightarrow> string option \<Rightarrow> string" where
  "buildDbtCommandWithArgs command extraArgs fullRefresh target =
     (let commandName = getDbtCommandName command;
          args = buildDbtAdditionalArgs commandName extraArgs fullRefresh;
          commandWithArgs =
            (if args \<noteq> '''' \<and> commandName \<in> set COMMANDS_WITH_EXTRA_ARGS
             then command @ '' '' @ args else command);
          wanted = map_option trim target
      in case wanted of
           None \<Rightarrow> commandWithArgs
         | Some w \<Rightarrow>
             if w \<noteq> '''' \<and> rx_match TARGET_NAME_PATTERN w \<and> \<not> target_test commandWithArgs
             then commandWithArgs @ '' --target '' @ w
             else commandWithArgs)"

subsection \<open>cron.ts\<close>

definition CRON_FIELD_PATTERN :: rx where
  "CRON_FIELD_PATTERN = rx_plus (RCls (\<lambda>c. is_digit c \<or> c \<in> set ''*/,-'' \<or> is_alpha c))"

definition isPlausibleCron :: "string option \<Rightarrow> bool" where
  "isPlausibleCron expression =
     (let fields = split_ws (trim (nullish expression '''')) in
      length fields = 5 \<and>
      list_all (\<lambda>field. length field \<le> 40 \<and> rx_match CRON_FIELD_PATTERN field) fields)"

section \<open>Lemmas\<close>

subsection \<open>Flags\<close>

lemma flag_test_iff:
  "flag_test flags ending s \<longleftrightarrow>
     (\<exists>u f w. s = u @ f @ w \<and> f \<in> set flags \<and> (u = [] \<or> is_ws (last u)) \<and>
        (w = [] \<or> ending (hd w)))" (is "_ \<longleftrightarrow> ?R")
proof -
  have pre: "u \<in> lang (RAlt ROne (RSeq (RStar rx_any) (RCls is_ws))) \<longleftrightarrow> u = [] \<or> is_ws (last u)" for u
  proof (cases u rule: rev_cases)
    case (snoc ys y)
    then show ?thesis
      using lang_seqI [OF in_lang_any_star [of ys], of "[y]" "lang (RCls is_ws)"] by auto
  qed simp
  have post: "w \<in> lang (RAlt ROne (RSeq (RCls ending) (RStar rx_any))) \<longleftrightarrow> w = [] \<or> ending (hd w)" for w
    by (cases w) (auto simp: rx_lang simp del: lang.simps)
  show ?thesis
    unfolding flag_test_def rx_match_iff lang.simps(5) [of "RAlt ROne (RSeq (RStar rx_any) (RCls is_ws))"]
      lang.simps(5) [of "rx_alts flags"] lang_seq_def mem_Collect_eq pre post in_lang_alts
    by blast
qed

lemma flag_test_appended:
  "f \<in> set flags \<Longrightarrow> is_ws b \<Longrightarrow> ending e \<Longrightarrow> flag_test flags ending (s @ b # f @ e # w)"
  unfolding flag_test_iff
  by (rule exI [of _ "s @ [b]"], rule exI [of _ f], rule exI [of _ "e # w"]) auto

lemma flag_test_last:
  "f \<in> set flags \<Longrightarrow> s = [] \<or> is_ws (last s) \<Longrightarrow> flag_test flags ending (s @ f)"
  unfolding flag_test_iff by (metis append_Nil2)

lemma buildDbtAdditionalArgs_Nil [simp]: "buildDbtAdditionalArgs name '''' False = ''''"
  by (simp add: buildDbtAdditionalArgs_def)

lemma target_test_appended: "target_test (s @ '' --target '' @ w)"
  using flag_test_appended [of "''--target''" "[''--target'', ''-t'']" "CHR '' ''"
      "\<lambda>c. is_ws c \<or> c = CHR ''=''" "CHR '' ''" s w]
  by (simp add: target_test_def is_ws_def)

lemma buildDbtCommandWithArgs_keeps:
  "target_test command \<Longrightarrow> buildDbtCommandWithArgs command '''' False target = command"
  by (simp add: buildDbtCommandWithArgs_def Let_def split: option.splits)

text \<open>
  Whenever the selected target has a well-formed name, the built command carries a target flag;
  and a command that carries one is left alone by every later build, whatever the target selected
  then: the target is fixed once and never given twice.
\<close>

lemma buildDbtCommandWithArgs_target_once:
  assumes "rx_match TARGET_NAME_PATTERN (trim name)"
  shows "target_test (buildDbtCommandWithArgs command extraArgs fullRefresh (Some name)) \<and>
    buildDbtCommandWithArgs (buildDbtCommandWithArgs command extraArgs fullRefresh (Some name))
        '''' False other =
      buildDbtCommandWithArgs command extraArgs fullRefresh (Some name)"
proof -
  have "trim name \<noteq> ''''"
    using assms by (auto simp: TARGET_NAME_PATTERN_def)
  then have "target_test (buildDbtCommandWithArgs command extraArgs fullRefresh (Some name))"
    using assms target_test_appended by (simp add: buildDbtCommandWithArgs_def Let_def)
  then show ?thesis by (simp add: buildDbtCommandWithArgs_keeps)
qed

subsection \<open>Full refresh\<close>

text \<open>
  With full refresh on, the argument string of a command that supports it holds the flag exactly
  as often as asked: it is the typed arguments when they already name it, and the typed arguments
  with the flag at the end otherwise; every other command gets the typed arguments unchanged.
\<close>

lemma buildDbtAdditionalArgs_full_refresh:
  "(if fullRefresh \<and> commandName \<in> set COMMANDS_WITH_FULL_REFRESH
    then flag_test [''--full-refresh'', ''-f''] is_ws (buildDbtAdditionalArgs commandName extraArgs fullRefresh)
    else buildDbtAdditionalArgs commandName extraArgs fullRefresh = trim extraArgs) \<and>
   buildDbtAdditionalArgs commandName (buildDbtAdditionalArgs commandName extraArgs fullRefresh) fullRefresh =
     buildDbtAdditionalArgs commandName extraArgs fullRefresh"
proof -
  let ?t = "flag_test [''--full-refresh'', ''-f''] is_ws"
  have alone: "?t ''--full-refresh''" by code_simp
  have last: "?t (s @ '' --full-refresh'')" for s
    using flag_test_last [of "''--full-refresh''" "[''--full-refresh'', ''-f'']" "s @ '' ''" is_ws]
    by (simp add: is_ws_def)
  have trim: "trim (s @ '' --full-refresh'') = s @ '' --full-refresh''" if "is_trimmed s" "s \<noteq> []" for s
    using that by (intro trim_trimmed) (auto simp: is_trimmed_def is_ws_def)
  have trim0: "trim ''--full-refresh'' = ''--full-refresh''" by code_simp
  show ?thesis
    using alone last trim [of "trim extraArgs"] trim0
    by (auto simp: buildDbtAdditionalArgs_def Let_def)
qed

subsection \<open>Cron\<close>

lemma split_ws_no_ws: "w \<in> set (split_ws s) \<Longrightarrow> list_all (\<lambda>c. \<not> is_ws c) w"
  by (induction s arbitrary: w) (auto split: if_splits list.splits)

text \<open>
  An accepted cron expression is five non-empty fields of at most forty characters, each built
  from digits, letters and \<open>* / , -\<close> only; with single blanks between them they take at most 204
  characters.
\<close>

lemma isPlausibleCron_shape:
  assumes "isPlausibleCron (Some expression)"
  shows "\<exists>f1 f2 f3 f4 f5. split_ws (trim expression) = [f1, f2, f3, f4, f5] \<and>
    list_all (\<lambda>f. f \<noteq> '''' \<and> length f \<le> 40 \<and>
      list_all (\<lambda>c. is_alnum c \<or> c \<in> set ''*/,-'') f) [f1, f2, f3, f4, f5] \<and>
    length (join '' '' [f1, f2, f3, f4, f5]) \<le> 204"
proof -
  let ?fs = "split_ws (trim expression)"
  have len: "length ?fs = 5" and all: "list_all (\<lambda>f. length f \<le> 40 \<and> rx_match CRON_FIELD_PATTERN f) ?fs"
    using assms by (simp_all add: isPlausibleCron_def Let_def)
  from len obtain f1 f2 f3 f4 f5 where fs: "?fs = [f1, f2, f3, f4, f5]"
    by (auto simp: length_Suc_conv numeral_eq_Suc)
  moreover have "f \<noteq> '''' \<and> list_all (\<lambda>c. is_alnum c \<or> c \<in> set ''*/,-'') f"
    if "rx_match CRON_FIELD_PATTERN f" for f
    using that by (auto simp: rx_match_iff CRON_FIELD_PATTERN_def rx_lang list_all_iff js_defs)
  ultimately show ?thesis using all by auto
qed

end
