(* ===== verification/Js_Json.thy ===== *)
theory Js_Json
  imports Js_Prelude
begin

text \<open>
  JSON values and plain objects. An object is the list of its properties in insertion order; the
  type of numbers is left open. Lookup is \<open>map_of\<close>, assignment keeps the place of an existing
  property, and deletion removes it.
\<close>

section \<open>Definitions\<close>

datatype 'n json =
  JNull | JBool bool | JNum 'n | JStr string | JArr "'n json list" | JObj "(string \<times> 'n json) list"

type_synonym 'n obj = "(string \<times> 'n json) list"

text \<open>\<open>obj[k] = v\<close>: an existing property keeps its place.\<close>

fun obj_set :: "string \<Rightarrow> 'v \<Rightarrow> (string \<times> 'v) list \<Rightarrow> (string \<times> 'v) list" where
  "obj_set k v [] = [(k, v)]"
| "obj_set k v ((k', v') # kvs) = (if k' = k then (k, v) # kvs else (k', v') # obj_set k v kvs)"


text \<open>\<open>delete obj[k]\<close>.\<close>

definition obj_del :: "string \<Rightarrow> (string \<times> 'v) list \<Rightarrow> (string \<times> 'v) list" where
  "obj_del k kvs = filter (\<lambda>(k', v). k' \<noteq> k) kvs"

text \<open>Whether a value is taken as true by a condition; \<open>zero\<close> tells which numbers are not.\<close>

definition json_truthy :: "('n \<Rightarrow> bool) \<Rightarrow> 'n json option \<Rightarrow> bool" where
  "json_truthy zero x =
     (case x of
        None \<Rightarrow> False
      | Some JNull \<Rightarrow> False
      | Some (JBool b) \<Rightarrow> b
      | Some (JNum n) \<Rightarrow> \<not> zero n
      | Some (JStr s) \<Rightarrow> s \<noteq> ''''
      | Some (JArr _) \<Rightarrow> True
      | Some (JObj _) \<Rightarrow> True)"

text \<open>\<open>String(v)\<close> for a value with integer numbers, and \<open>String(v ?? '')\<close>.\<close>

definition show_int :: "int \<Rightarrow> string" where
  "show_int i = (if i < 0 then CHR ''-'' # show_nat (nat (- i)) else show_nat (nat i))"

fun js_String :: "int json \<Rightarrow> string" where
  "js_String JNull = ''null''"
| "js_String (JBool b) = (if b then ''true'' else ''false'')"
| "js_String (JNum n) = show_int n"
| "js_String (JStr s) = s"
| "js_String (JArr vs) = join '','' (map (\<lambda>v. if v = JNull then '''' else js_String v) vs)"
| "js_String (JObj kvs) = ''[object Object]''"

definition StringOr :: "int json option \<Rightarrow> string \<Rightarrow> string" where
  "StringOr x d = (case x of None \<Rightarrow> d | Some JNull \<Rightarrow> d | Some v \<Rightarrow> js_String v)"

section \<open>Lemmas\<close>

lemma set_obj_set: "fst ` set (obj_set k v kvs) = insert k (fst ` set kvs)"
proof (induction kvs)
  case (Cons kv kvs)
  then show ?case by (cases kv) (simp add: insert_commute)
qed simp

lemma distinct_obj_set: "distinct (map fst kvs) \<Longrightarrow> distinct (map fst (obj_set k v kvs))"
proof (induction kvs)
  case (Cons kv kvs)
  then show ?case using set_obj_set [of k v kvs] by (cases kv) force
qed simp

lemma map_of_obj_set: "map_of (obj_set k v kvs) = (map_of kvs)(k \<mapsto> v)"
  by (induction kvs) auto

lemma map_of_obj_del: "map_of (obj_del k kvs) = (map_of kvs)(k := None)"
  by (induction kvs) (auto simp: obj_del_def)

end
