(* ===== verification/Run_Options.thy ===== *)
theory Run_Options
  imports Js_Regex Js_Json Dbt_Command
begin

text \<open>
  The run options of a dbt command (\<open>features/develop/model/run-options.ts\<close>): validation of the
  variables, the sample size, the event-time window and the selector, the request fields built from
  them for one command, the names of \<open>selectors.yml\<close>, the targets state can be read from, and the
  removal of a model selection from a command line.

  Numbers, JSON text and dates are the host's: a \<open>host\<close> carries \<open>Number\<close>, \<open>JSON.parse\<close>, the byte
  length of \<open>JSON.stringify\<close> and the \<open>Date\<close> constructor with \<open>getTime\<close> and \<open>toISOString\<close>. An object
  is the list of its properties in insertion order.
\<close>

section \<open>Definitions\<close>

subsection \<open>The host\<close>

text \<open>
  \<open>toNumber\<close> is \<open>None\<close> for \<open>NaN\<close>; \<open>stringifyBytes\<close> is the encoded length, or the message of the
  error thrown; \<open>getTime\<close> is \<open>None\<close> for an invalid date.
\<close>

record 'n host =
  toNumber :: "string \<Rightarrow> 'n option"
  isFinite :: "'n \<Rightarrow> bool"
  parseJson :: "string \<Rightarrow> 'n json option"
  stringifyBytes :: "'n obj \<Rightarrow> nat result"
  getTime :: "string \<Rightarrow> int option"
  toISOString :: "int \<Rightarrow> string"

subsection \<open>Option records\<close>

record VarEntry =
  var_key :: string
  var_value :: string

record 'n RunOptionsState =
  o_vars :: "'n obj option"
  o_varEntries :: "VarEntry list option"
  o_empty :: bool
  o_sample :: "string option"
  o_event_time_start :: "string option"
  o_event_time_end :: "string option"
  o_full_refresh :: bool
  o_selector_name :: "string option"
  o_state_target :: "string option"
  o_defer :: bool
  o_favor_state :: bool

record 'n DbtRunOptionsPayload =
  p_vars :: "'n obj option"
  p_empty :: bool
  p_sample :: "string option"
  p_event_time_start :: "string option"
  p_event_time_end :: "string option"
  p_full_refresh :: bool
  p_selector_name :: "string option"
  p_state_target :: "string option"
  p_defer :: bool
  p_favor_state :: bool

definition MAX_VARS_BYTES :: nat where
  "MAX_VARS_BYTES = 16 * 1024"

definition SELECTOR_NAME_PATTERN :: rx where
  "SELECTOR_NAME_PATTERN =
     RSeq (RCls (\<lambda>c. is_alnum c \<or> c = CHR ''_''))
       (rx_upto 127 (RCls (\<lambda>c. is_alnum c \<or> c \<in> set ''_.-'')))"

definition EMPTY_COMMANDS :: "string list" where
  "EMPTY_COMMANDS = [''run'', ''build'', ''compile'', ''snapshot'']"

definition SAMPLE_COMMANDS :: "string list" where
  "SAMPLE_COMMANDS = [''run'', ''build'']"

definition EVENT_TIME_COMMANDS :: "string list" where
  "EVENT_TIME_COMMANDS = [''run'', ''build'']"

definition FULL_REFRESH_COMMANDS :: "string list" where
  "FULL_REFRESH_COMMANDS =
     [''run'', ''build'', ''clone'', ''compile'', ''retry'', ''seed'', ''show'']"

definition SELECTOR_COMMANDS :: "string list" where
  "SELECTOR_COMMANDS =
     [''run'', ''build'', ''test'', ''seed'', ''snapshot'', ''compile'', ''show'', ''ls'', ''list'',
      ''clone'', ''docs generate'', ''docs'', ''source freshness'', ''source'']"

subsection \<open>Variables\<close>

definition coerceVarValue :: "'n host \<Rightarrow> string \<Rightarrow> 'n json" where
  "coerceVarValue h value =
     (let trimmed = trim value in
      if trimmed = '''' then JStr ''''
      else if trimmed = ''true'' then JBool True
      else if trimmed = ''false'' then JBool False
      else if trimmed = ''null'' then JNull
      else if hd trimmed = CHR ''0'' \<and> tl trimmed \<noteq> [] \<and> list_all is_digit (tl trimmed)
        then JStr value
      else
        let bracketed =
          (if startsWith trimmed ''{'' \<and> endsWith trimmed ''}'' \<or>
              startsWith trimmed ''['' \<and> endsWith trimmed '']''
           then (case parseJson h trimmed of Some v \<Rightarrow> v | None \<Rightarrow> JStr value)
           else JStr value)
        in case toNumber h trimmed of
             Some num \<Rightarrow>
               if \<not> startsWith trimmed ''0x'' \<and> isFinite h num then JNum num else bracketed
           | None \<Rightarrow> bracketed)"

fun varsOfEntries :: "'n host \<Rightarrow> VarEntry list \<Rightarrow> 'n obj \<Rightarrow> 'n obj result" where
  "varsOfEntries h [] obj = Inr obj"
| "varsOfEntries h (entry # entries) obj =
     (let k = trim (var_key entry) in
      if k = '''' \<and> trim (var_value entry) = '''' then varsOfEntries h entries obj
      else if k = '''' then Inl ''Variable key cannot be empty''
      else varsOfEntries h entries (obj_set k (coerceVarValue h (var_value entry)) obj))"

text \<open>The argument is a list of entries or an object; the result is the error or the \<open>vars\<close> field.\<close>

definition validateVars :: "'n host \<Rightarrow> (VarEntry list + 'n obj) option \<Rightarrow> 'n obj option result" where
  "validateVars h input =
     (case input of
        None \<Rightarrow> Inr None
      | Some inp \<Rightarrow>
          bindR (case inp of Inl entries \<Rightarrow> varsOfEntries h entries [] | Inr obj \<Rightarrow> Inr obj)
            (\<lambda>obj.
              if obj = [] then Inr None
              else case stringifyBytes h obj of
                Inr bytes \<Rightarrow>
                  if bytes > MAX_VARS_BYTES
                  then Inl (''vars size ('' @ show_nat bytes @ '' bytes) exceeds maximum limit of 16 KiB'')
                  else Inr (Some obj)
              | Inl err \<Rightarrow> Inl (''vars must be JSON serializable: '' @ err)))"

subsection \<open>Sample, event time and selector\<close>

text \<open>
  The match of \<open>SAMPLE_PATTERN\<close> on a trimmed string: the digits up to the first blank, the blanks,
  and a grain with an optional \<open>s\<close>, in any case. The two groups are returned.
\<close>

definition sampleGrains :: "string list" where
  "sampleGrains = [''hour'', ''day'', ''month'', ''year'']"

definition matchSample :: "string \<Rightarrow> (string \<times> string) option" where
  "matchSample trimmed =
     (let count = takeWhile (\<lambda>c. \<not> is_ws c) trimmed;
          rest = dropWhile (\<lambda>c. \<not> is_ws c) trimmed;
          grain = dropWhile is_ws rest
      in if count \<noteq> '''' \<and> hd count \<noteq> CHR ''0'' \<and> list_all is_digit count \<and> length count \<le> 6 \<and>
            rest \<noteq> ''''
         then (if toLowerCase grain \<in> set sampleGrains then Some (count, grain)
               else if grain \<noteq> '''' \<and> toLowerCase (butlast grain) \<in> set sampleGrains \<and>
                       lower_char (last grain) = CHR ''s''
               then Some (count, butlast grain)
               else None)
         else None)"

definition validateSample :: "string option \<Rightarrow> string option result" where
  "validateSample sample =
     (case sample of
        None \<Rightarrow> Inr None
      | Some s \<Rightarrow>
          if trim s = '''' then Inr None
          else
            let trimmed = trim s in
            if length trimmed > 32 then Inl ''sample must be 32 characters or fewer''
            else case matchSample trimmed of
              None \<Rightarrow> Inl (''sample must look like '' @ [CHR 0x27] @ ''<count> <grain>'' @ [CHR 0x27] @
                '', grain one of hour, day, month, year (e.g. '' @ [CHR 0x27] @ ''3 days'' @ [CHR 0x27] @ '')'')
            | Some (digits, grainText) \<Rightarrow>
                let count = read_nat digits;
                    baseGrain = toLowerCase grainText;
                    grain = (if count = 1 then baseGrain else baseGrain @ ''s'')
                in Inr (Some (show_nat count @ '' '' @ grain)))"

definition validateEventTime ::
    "'n host \<Rightarrow> string option \<Rightarrow> string option \<Rightarrow> (string \<times> string) option result" where
  "validateEventTime h start finish =
     (let given = (\<lambda>x. case x of None \<Rightarrow> False | Some t \<Rightarrow> trim t \<noteq> '''');
          hasStart = given start; hasEnd = given finish in
      if \<not> hasStart \<and> \<not> hasEnd then Inr None
      else if hasStart \<noteq> hasEnd
        then Inl ''event_time_start and event_time_end must be given together''
      else case getTime h (trim (the start)) of
          None \<Rightarrow> Inl ''event_time_start must be a valid ISO 8601 datetime''
        | Some s \<Rightarrow>
            (case getTime h (trim (the finish)) of
               None \<Rightarrow> Inl ''event_time_end must be a valid ISO 8601 datetime''
             | Some e \<Rightarrow>
                 if s \<ge> e then Inl ''event_time_start must be before event_time_end''
                 else Inr (Some (toISOString h s, toISOString h e))))"

definition validateSelectorName :: "string option \<Rightarrow> unit result" where
  "validateSelectorName name =
     (case name of
        None \<Rightarrow> Inr ()
      | Some n \<Rightarrow>
          if trim n = '''' then Inr ()
          else if \<not> rx_match SELECTOR_NAME_PATTERN (trim n)
            then Inl (''Invalid selector name '' @ [CHR 0x27] @ trim n @ [CHR 0x27])
          else Inr ())"

subsection \<open>Selectors of the project\<close>

definition selectorChar :: "char \<Rightarrow> bool" where
  "selectorChar c \<longleftrightarrow> is_alnum c \<or> c \<in> set ''_.-''"

text \<open>\<open>key\s*:\<close> at the start of a string: what follows the colon.\<close>

definition afterKey :: "string \<Rightarrow> string \<Rightarrow> string option" where
  "afterKey key s =
     (if startsWith s key
      then (case dropWhile is_ws (drop (length key) s) of
              [] \<Rightarrow> None
            | c # rest \<Rightarrow> if c = CHR '':'' then Some rest else None)
      else None)"

text \<open>\<open>name\s*:\s*['"]?([A-Za-z0-9_.-]+)['"]?\<close> at the start of a string: the group.\<close>

definition matchName :: "string \<Rightarrow> string option" where
  "matchName s =
     (case afterKey ''name'' s of
        None \<Rightarrow> None
      | Some rest \<Rightarrow>
          let v = dropWhile is_ws rest;
              v' = (if v \<noteq> '''' \<and> hd v \<in> {CHR 0x27, CHR 0x22} then tl v else v)
          in or_null (takeWhile selectorChar v'))"

definition matchListName :: "string \<Rightarrow> string option" where
  "matchListName s =
     (case s of
        [] \<Rightarrow> None
      | c # rest \<Rightarrow> if c = CHR ''-'' then matchName (dropWhile is_ws rest) else None)"

definition topLevelKey :: "string \<Rightarrow> bool" where
  "topLevelKey line =
     (let key = takeWhile (\<lambda>c. is_alnum c \<or> c = CHR ''_'' \<or> c = CHR ''-'') line in
      key \<noteq> '''' \<and> afterKey key line \<noteq> None)"

fun parseSelectorLines :: "string list \<Rightarrow> bool \<Rightarrow> string list \<Rightarrow> string list" where
  "parseSelectorLines [] inSelectors names = names"
| "parseSelectorLines (line # lines) inSelectors names =
     (let trimmed = trim line in
      if trimmed = '''' \<or> startsWith trimmed ''#'' then parseSelectorLines lines inSelectors names
      else if afterKey ''selectors'' trimmed \<noteq> None then parseSelectorLines lines True names
      else if inSelectors then
        (if topLevelKey line \<and> \<not> startsWith line '' '' \<and> \<not> startsWith line [CHR 0x09] then names
         else
           case (case matchListName trimmed of Some n \<Rightarrow> Some n | None \<Rightarrow> matchName trimmed) of
             None \<Rightarrow> parseSelectorLines lines inSelectors names
           | Some n \<Rightarrow>
               parseSelectorLines lines inSelectors (if n \<in> set names then names else names @ [n]))
      else parseSelectorLines lines inSelectors names)"

definition parseSelectors :: "string \<Rightarrow> string list" where
  "parseSelectors content =
     (if trim content = '''' then [] else parseSelectorLines (split_lines content) False [])"

subsection \<open>The request payload\<close>

definition extractDbtCommandName :: "string \<Rightarrow> string" where
  "extractDbtCommandName command =
     (let parts = split_ws (trim command) in
      if hd parts = '''' then ''run''
      else if hd parts = ''dbt'' then (case tl parts of [] \<Rightarrow> ''run'' | p # _ \<Rightarrow> or_str p ''run'')
      else hd parts)"

definition supports :: "string option \<Rightarrow> string list \<Rightarrow> bool" where
  "supports cmdName commands = (case cmdName of None \<Rightarrow> True | Some c \<Rightarrow> c \<in> set commands)"

definition buildRunOptionsPayload ::
    "'n host \<Rightarrow> 'n RunOptionsState \<Rightarrow> string option \<Rightarrow> 'n DbtRunOptionsPayload" where
  "buildRunOptionsPayload h opts command =
     (let cmdName = (if truthy command then Some (extractDbtCommandName (the command)) else None);
          vars =
            (case o_varEntries opts of
               Some (e # es) \<Rightarrow>
                 (case validateVars h (Some (Inl (e # es))) of Inr v \<Rightarrow> v | Inl _ \<Rightarrow> None)
             | _ \<Rightarrow> (case o_vars opts of Some (v # vs) \<Rightarrow> Some (v # vs) | _ \<Rightarrow> None));
          sample =
            (if truthy (o_sample opts) \<and> supports cmdName SAMPLE_COMMANDS
             then (case validateSample (o_sample opts) of Inr n \<Rightarrow> n | Inl _ \<Rightarrow> None)
             else None);
          times =
            (if truthy (o_event_time_start opts) \<and> truthy (o_event_time_end opts) \<and>
                supports cmdName EVENT_TIME_COMMANDS
             then (case validateEventTime h (o_event_time_start opts) (o_event_time_end opts) of
                     Inr (Some (s, e)) \<Rightarrow> if s \<noteq> '''' \<and> e \<noteq> '''' then Some (s, e) else None
                   | _ \<Rightarrow> None)
             else None);
          stateTarget = trim_or_null (o_state_target opts)
      in \<lparr> p_vars = vars,
           p_empty = (o_empty opts \<and> supports cmdName EMPTY_COMMANDS),
           p_sample = sample,
           p_event_time_start = map_option fst times,
           p_event_time_end = map_option snd times,
           p_full_refresh = (o_full_refresh opts \<and> supports cmdName FULL_REFRESH_COMMANDS),
           p_selector_name =
             (if truthy (o_selector_name opts) \<and> supports cmdName SELECTOR_COMMANDS
              then map_option trim (o_selector_name opts) else None),
           p_state_target = stateTarget,
           p_defer = (stateTarget \<noteq> None \<and> o_defer opts),
           p_favor_state = (stateTarget \<noteq> None \<and> o_defer opts \<and> o_favor_state opts) \<rparr>)"

definition hasActiveRunOptions :: "'n RunOptionsState \<Rightarrow> bool" where
  "hasActiveRunOptions opts \<longleftrightarrow>
     o_full_refresh opts \<or> o_empty opts \<or>
     trim_or_null (o_sample opts) \<noteq> None \<or>
     (truthy (o_event_time_start opts) \<and> truthy (o_event_time_end opts)) \<or>
     trim_or_null (o_selector_name opts) \<noteq> None \<or>
     (truthy (o_state_target opts) \<and> o_defer opts) \<or>
     (case o_vars opts of Some (v # vs) \<Rightarrow> True | _ \<Rightarrow> False) \<or>
     (case o_varEntries opts of
        None \<Rightarrow> False
      | Some es \<Rightarrow> list_ex (\<lambda>e. trim (var_key e) \<noteq> '''' \<and> trim (var_value e) \<noteq> '''') es)"

definition getRunOptionsStorageKey :: "string \<Rightarrow> string \<Rightarrow> string" where
  "getRunOptionsStorageKey projectId userId = ''dbt-run-options:'' @ userId @ '':'' @ projectId"

subsection \<open>State targets\<close>

record StateTarget =
  st_target :: string
  st_manifest :: bool

record StateTargetResolution =
  candidateTargets :: "string list"
  selectedTarget :: string
  hasState :: bool

definition resolveStateTargets ::
    "string list \<Rightarrow> StateTarget list \<Rightarrow> string option \<Rightarrow> StateTargetResolution" where
  "resolveStateTargets availableTargets stateTargets currentTarget =
     (let named = (\<lambda>t. t \<noteq> '''' \<and> t \<noteq> ''dev'');
          nonDevAvailable = filter named availableTargets;
          fromStateApi = filter named (map st_target stateTargets);
          candidates = js_distinct (nonDevAvailable @ fromStateApi);
          targetsWithState = map st_target
            (filter (\<lambda>s. st_manifest s \<and> st_target s \<noteq> ''dev'') stateTargets);
          firstWithState =
            (case find (\<lambda>t. t \<in> set targetsWithState) candidates of
               Some t \<Rightarrow> t
             | None \<Rightarrow> (case candidates of [] \<Rightarrow> '''' | c # _ \<Rightarrow> c));
          selected =
            (case currentTarget of
               None \<Rightarrow> firstWithState
             | Some cur \<Rightarrow>
                 if cur \<noteq> '''' \<and> cur \<noteq> ''dev'' \<and> cur \<in> set candidates then cur else firstWithState)
      in \<lparr> candidateTargets = candidates, selectedTarget = selected,
           hasState = (selected \<noteq> '''' \<and> selected \<in> set targetsWithState) \<rparr>)"

subsection \<open>Removing a model selection\<close>

text \<open>
  One match of the selection pattern at the start of a string: a flag, blanks or \<open>=\<close>, and a quoted
  or bare value. The rest of the string is returned. White space cannot begin a value, so the
  greedy run of blanks is the only way to match it.
\<close>

definition quotedRest :: "char \<Rightarrow> string \<Rightarrow> string option" where
  "quotedRest q s =
     (if s \<noteq> '''' \<and> hd s = q \<and> q \<in> set (tl s)
      then Some (tl (dropWhile (\<lambda>c. c \<noteq> q) (tl s))) else None)"

definition valueRest :: "string \<Rightarrow> string option" where
  "valueRest s =
     (case quotedRest CHR 0x27 s of
        Some r \<Rightarrow> Some r
      | None \<Rightarrow>
          (case quotedRest CHR 0x22 s of
             Some r \<Rightarrow> Some r
           | None \<Rightarrow> if s \<noteq> '''' \<and> \<not> is_ws (hd s) then Some (dropWhile (\<lambda>c. \<not> is_ws c) s) else None))"

definition afterFlag :: "string \<Rightarrow> string \<Rightarrow> string option" where
  "afterFlag flag s =
     (if startsWith s flag
      then (let t = drop (length flag) s in
            if t \<noteq> '''' \<and> is_ws (hd t) then valueRest (dropWhile is_ws t)
            else if t \<noteq> '''' \<and> hd t = CHR ''='' then valueRest (tl t)
            else None)
      else None)"

definition selectionRest :: "string \<Rightarrow> string option" where
  "selectionRest s =
     (case afterFlag ''--select'' s of Some r \<Rightarrow> Some r | None \<Rightarrow> afterFlag ''-s'' s)"

lemma dropWhile_length_le: "length (dropWhile P xs) \<le> length xs"
  by (induction xs) auto

lemma valueRest_length: "valueRest s = Some r \<Longrightarrow> length r \<le> length s"
proof -
  have "length (tl (dropWhile P (tl s))) \<le> length s" for P
    using dropWhile_length_le [of P "tl s"] by simp
  then show "valueRest s = Some r \<Longrightarrow> length r \<le> length s"
    using dropWhile_length_le [of "\<lambda>c. \<not> is_ws c" s]
    by (auto simp: valueRest_def quotedRest_def split: option.splits if_splits)
qed

lemma afterFlag_length:
  assumes "afterFlag flag s = Some r" "flag \<noteq> ''''"
  shows "length r < length s"
proof -
  let ?t = "drop (length flag) s"
  have "length r \<le> length ?t"
    using assms(1) valueRest_length dropWhile_length_le [of is_ws ?t]
    by (fastforce simp: afterFlag_def Let_def split: if_splits dest: valueRest_length)
  moreover have "?t \<noteq> ''''"
    using assms(1) by (auto simp: afterFlag_def Let_def split: if_splits)
  ultimately show ?thesis using assms(2) by (cases flag) auto
qed

lemma selectionRest_length: "selectionRest s = Some r \<Longrightarrow> length r < length s"
  by (auto simp: selectionRest_def afterFlag_length split: option.splits)

function removeSelection :: "string \<Rightarrow> string" where
  "removeSelection [] = []"
| "removeSelection (c # cs) =
     (case selectionRest (c # cs) of
        Some r \<Rightarrow> removeSelection r
      | None \<Rightarrow> c # removeSelection cs)"
  by pat_completeness auto
termination
  by (relation "measure length") (auto dest: selectionRest_length)

fun collapse_ws :: "string \<Rightarrow> string" where
  "collapse_ws [] = []"
| "collapse_ws (c # cs) =
     (if is_ws c then (if cs \<noteq> [] \<and> is_ws (hd cs) then collapse_ws cs else CHR '' '' # collapse_ws cs)
      else c # collapse_ws cs)"

definition stripModelSelection :: "string \<Rightarrow> string" where
  "stripModelSelection command = trim (collapse_ws (removeSelection command))"

subsection \<open>Local storage\<close>

text \<open>
  Local storage is a map of strings. \<open>window\<close> tells whether there is a browser, \<open>accepts\<close> whether
  the storage takes the new value, and the two codecs are \<open>JSON.stringify\<close> and \<open>JSON.parse\<close>.
\<close>

definition noRunOptions :: "'n RunOptionsState" where
  "noRunOptions =
     \<lparr> o_vars = None, o_varEntries = None, o_empty = False, o_sample = None,
       o_event_time_start = None, o_event_time_end = None, o_full_refresh = False,
       o_selector_name = None, o_state_target = None, o_defer = False, o_favor_state = False \<rparr>"

definition loadRunOptions ::
    "bool \<Rightarrow> (string \<Rightarrow> 'n RunOptionsState option) \<Rightarrow> (string \<rightharpoonup> string) \<Rightarrow> string \<Rightarrow> string
     \<Rightarrow> 'n RunOptionsState" where
  "loadRunOptions window parse store projectId userId =
     (if \<not> window then noRunOptions
      else case store (getRunOptionsStorageKey projectId userId) of
          None \<Rightarrow> noRunOptions
        | Some raw \<Rightarrow>
            if raw = '''' then noRunOptions
            else (case parse raw of Some opts \<Rightarrow> opts | None \<Rightarrow> noRunOptions))"

definition saveRunOptions ::
    "bool \<Rightarrow> ('n RunOptionsState \<Rightarrow> string) \<Rightarrow> ((string \<rightharpoonup> string) \<Rightarrow> string \<Rightarrow> bool) \<Rightarrow>
     (string \<rightharpoonup> string) \<Rightarrow> string \<Rightarrow> string \<Rightarrow> 'n RunOptionsState \<Rightarrow> (string \<rightharpoonup> string)" where
  "saveRunOptions window stringify accepts store projectId userId opts =
     (if \<not> window then store
      else if accepts store (stringify opts)
        then store(getRunOptionsStorageKey projectId userId \<mapsto> stringify opts)
      else store)"

section \<open>Lemmas\<close>

subsection \<open>Sample\<close>

lemma grains_lower: "g \<in> set sampleGrains \<Longrightarrow> toLowerCase g = g"
  by (auto simp: sampleGrains_def lower_char_def js_defs)

lemma grains_no_ws: "g \<in> set sampleGrains \<Longrightarrow> list_all (\<lambda>c. \<not> is_ws c) (g @ ''s'')"
  by (auto simp: sampleGrains_def is_ws_def)

lemma grains_shape: "g \<in> set sampleGrains \<Longrightarrow> g \<noteq> '''' \<and> g @ ''s'' \<notin> set sampleGrains \<and> length g \<le> 5"
  by (auto simp: sampleGrains_def)

lemma takeWhile_nonws: "list_all (\<lambda>c. \<not> is_ws c) ds \<Longrightarrow>
    takeWhile (\<lambda>c. \<not> is_ws c) (ds @ '' '' @ g) = ds \<and>
    dropWhile (\<lambda>c. \<not> is_ws c) (ds @ '' '' @ g) = '' '' @ g"
  by (induction ds) (auto simp: is_ws_def)

lemma matchSample_shape:
  assumes "matchSample s = Some (ds, g)"
  shows "ds \<noteq> '''' \<and> hd ds \<noteq> CHR ''0'' \<and> list_all is_digit ds \<and> length ds \<le> 6 \<and>
    toLowerCase g \<in> set sampleGrains"
  using assms by (auto simp: matchSample_def Let_def split: if_splits)

lemma matchSample_canonical:
  assumes n: "0 < n" "n < 10 ^ 6" and g: "g \<in> set sampleGrains"
  shows "matchSample (show_nat n @ '' '' @ (if n = 1 then g else g @ ''s'')) = Some (show_nat n, g)"
proof -
  let ?g = "if n = 1 then g else g @ ''s''"
  have nows: "list_all (\<lambda>c. \<not> is_ws c) (show_nat n)"
    using show_nat_digits [of n] by (rule list_all_weaken) simp
  have gws: "dropWhile is_ws ('' '' @ ?g) = ?g"
    using grains_no_ws [OF g] grains_shape [OF g] by (cases g) (auto simp: is_ws_def)
  have "toLowerCase (g @ ''s'') = g @ ''s''"
    using grains_lower [OF g] by (simp add: lower_char_def js_defs)
  then show ?thesis
    using takeWhile_nonws [OF nows, of ?g] gws hd_show_nat [OF n(1)] show_nat_digits [of n]
      length_show_nat [OF n(2)] grains_lower [OF g] grains_shape [OF g] g
    by (auto simp: matchSample_def Let_def lower_char_def js_defs)
qed

text \<open>
  An accepted sample size is in normal form: a count from 1 to 999999 without leading zeros, one
  blank and a grain in lower case that is plural exactly when the count is not 1; validating the
  normal form again returns it.
\<close>

lemma validateSample_normal:
  assumes "validateSample (Some sample) = Inr (Some n)"
  shows "\<exists>count g. 1 \<le> count \<and> count < 10 ^ 6 \<and> g \<in> set sampleGrains \<and>
    n = show_nat count @ '' '' @ (if count = 1 then g else g @ ''s'') \<and>
    validateSample (Some n) = Inr (Some n)"
proof -
  obtain ds g where m: "matchSample (trim sample) = Some (ds, g)"
    and n: "n = show_nat (read_nat ds) @ '' '' @
      (if read_nat ds = 1 then toLowerCase g else toLowerCase g @ ''s'')"
    using assms by (auto simp: validateSample_def Let_def split: if_splits option.splits)
  have ds: "ds \<noteq> ''''" "hd ds \<noteq> CHR ''0''" "list_all is_digit ds" "length ds \<le> 6"
    and g: "toLowerCase g \<in> set sampleGrains"
    using matchSample_shape [OF m] by auto
  let ?c = "read_nat ds"
  have c: "0 < ?c" "?c < 10 ^ 6"
    using read_nat_pos [OF ds(3,1,2)] read_nat_less [OF ds(3)]
      power_increasing [OF ds(4), of "10 :: nat"] by simp_all
  have g': "is_digit (hd (show_nat ?c))" "\<not> is_ws (last (toLowerCase g @ ''s''))"
    "\<not> is_ws (last (toLowerCase g))" "toLowerCase g \<noteq> ''''"
    using show_nat_digits [of ?c] grains_no_ws [OF g] grains_shape [OF g]
    by (auto simp: list_all_iff)
  then have "trim n = n"
    unfolding n by (intro trim_trimmed) (auto simp: is_trimmed_def)
  moreover have "length n \<le> 32" "n \<noteq> ''''"
    using length_show_nat [OF c(2)] grains_shape [OF g] by (auto simp: n)
  ultimately have "validateSample (Some n) = Inr (Some n)"
    using matchSample_canonical [OF c g] g by (simp add: validateSample_def Let_def n)
  with c g n show ?thesis by (intro exI [of _ ?c] exI [of _ "toLowerCase g"]) auto
qed

subsection \<open>Event time, variables and the payload\<close>

lemma validateEventTime_Some:
  "validateEventTime h start finish = Inr (Some (s, e)) \<Longrightarrow>
     \<exists>t t'. t < t' \<and> getTime h (trim (the start)) = Some t \<and> getTime h (trim (the finish)) = Some t' \<and>
       s = toISOString h t \<and> e = toISOString h t'"
  by (auto simp: validateEventTime_def Let_def split: if_splits option.splits)

lemma varsOfEntries_keys:
  "varsOfEntries h es obj = Inr vs \<Longrightarrow> distinct (map fst obj) \<Longrightarrow>
     distinct (map fst vs) \<and> fst ` set vs \<subseteq> fst ` set obj \<union> {k. k \<noteq> '''' \<and> trim k = k}"
proof (induction es arbitrary: obj)
  case (Cons e es)
  let ?obj' = "obj_set (trim (var_key e)) (coerceVarValue h (var_value e)) obj"
  have "distinct (map fst ?obj')" using Cons.prems(2) by (rule distinct_obj_set)
  then show ?case
    using Cons.IH [of obj] Cons.IH [of ?obj'] Cons.prems
    by (auto simp: Let_def set_obj_set split: if_splits)
qed simp

text \<open>
  Variables typed as rows are sent only as an object with distinct, trimmed, non-empty names
  whose JSON text is at most 16 KiB.
\<close>

lemma validateVars_sound:
  assumes "validateVars h (Some (Inl entries)) = Inr (Some vs)"
  shows "vs \<noteq> [] \<and> distinct (map fst vs) \<and> list_all (\<lambda>(k, v). k \<noteq> '''' \<and> trim k = k) vs \<and>
    (\<exists>bytes. stringifyBytes h vs = Inr bytes \<and> bytes \<le> 16384)"
proof -
  have obj: "varsOfEntries h entries [] = Inr vs" "vs \<noteq> []"
    and bytes: "\<exists>bytes. stringifyBytes h vs = Inr bytes \<and> bytes \<le> 16384"
    using assms by (auto simp: validateVars_def MAX_VARS_BYTES_def split: if_splits sum.splits)
  then show ?thesis using varsOfEntries_keys [OF obj(1)] by (auto simp: list_all_iff)
qed

definition demo_host :: "nat host" where
  "demo_host =
     \<lparr> toNumber = (\<lambda>s. if list_all is_digit s then Some (read_nat s) else None),
       isFinite = (\<lambda>_. True), parseJson = (\<lambda>_. None),
       stringifyBytes = (\<lambda>obj. Inr (length obj)),
       getTime = (\<lambda>s. if list_all is_digit s then Some (int (read_nat s)) else None),
       toISOString = (\<lambda>t. show_nat (nat t)) \<rparr>"

text \<open>
  The request payload for a command: every flag is sent only when the option is set and the
  command supports it, the sample is in the form the validator produces, event times are sent
  together and in order, and favouring state implies deferring, which implies a named state target.
\<close>

lemma buildRunOptionsPayload_sound:
  assumes "p = buildRunOptionsPayload h opts (Some command)" "command \<noteq> ''''"
    and "name = extractDbtCommandName command"
  shows "(p_empty p \<longrightarrow> o_empty opts \<and> name \<in> set EMPTY_COMMANDS) \<and>
    (p_full_refresh p \<longrightarrow> o_full_refresh opts \<and> name \<in> set FULL_REFRESH_COMMANDS) \<and>
    (\<forall>n. p_sample p = Some n \<longrightarrow>
       name \<in> set SAMPLE_COMMANDS \<and> validateSample (o_sample opts) = Inr (Some n)) \<and>
    (p_event_time_start p = None \<longleftrightarrow> p_event_time_end p = None) \<and>
    (\<forall>s. p_event_time_start p = Some s \<longrightarrow> name \<in> set EVENT_TIME_COMMANDS \<and>
       (\<exists>t t'. t < t' \<and> s = toISOString h t \<and> p_event_time_end p = Some (toISOString h t'))) \<and>
    (\<forall>n. p_selector_name p = Some n \<longrightarrow> name \<in> set SELECTOR_COMMANDS \<and> trim n = n) \<and>
    (p_favor_state p \<longrightarrow> p_defer p) \<and>
    (p_defer p \<longrightarrow> (\<exists>t. p_state_target p = Some t \<and> t \<noteq> '''' \<and> trim t = t))"
proof -
  have cmd: "truthy (Some command)" using assms(2) by (simp add: truthy_def)
  show ?thesis
    unfolding assms(1) assms(3) buildRunOptionsPayload_def Let_def
    using cmd
    by (auto simp: supports_def trim_or_null_Some split: if_splits option.splits sum.splits
        dest!: validateEventTime_Some)
qed

subsection \<open>Selectors and targets\<close>

definition selectorName :: "string \<Rightarrow> bool" where
  "selectorName n \<longleftrightarrow> n \<noteq> '''' \<and> list_all selectorChar n"

lemma matchName_name: "matchName s = Some n \<Longrightarrow> selectorName n"
  by (auto simp: matchName_def selectorName_def Let_def list_all_iff split: option.splits if_splits
      dest: set_takeWhileD)

lemma matchListName_name: "matchListName s = Some n \<Longrightarrow> selectorName n"
  by (auto simp: matchListName_def matchName_name split: list.splits if_splits)

lemma parseSelectorLines_names:
  "distinct names \<Longrightarrow> list_all selectorName names \<Longrightarrow>
     distinct (parseSelectorLines lines b names) \<and>
     list_all selectorName (parseSelectorLines lines b names)"
proof (induction lines b names rule: parseSelectorLines.induct)
  case (2 line lines inSelectors names)
  have n: "selectorName n"
    if "(case matchListName (trim line) of Some n \<Rightarrow> Some n | None \<Rightarrow> matchName (trim line)) = Some n" for n
    using that by (auto simp: matchName_name matchListName_name split: option.splits)
  show ?case
    using 2 n by (auto simp: Let_def split: option.split)
qed simp

text \<open>
  The selectors read from \<open>selectors.yml\<close> are distinct and non-empty words over letters,
  digits, \<open>_\<close>, \<open>.\<close> and \<open>-\<close>; and with no block header nothing is read.
\<close>

lemma parseSelectors_names:
  "distinct (parseSelectors content) \<and>
   list_all (\<lambda>n. n \<noteq> '''' \<and> list_all (\<lambda>c. is_alnum c \<or> c \<in> set ''_.-'') n) (parseSelectors content)"
proof -
  have "distinct (parseSelectors content) \<and> list_all selectorName (parseSelectors content)"
    using parseSelectorLines_names [of "[]" "split_lines content" False]
    by (auto simp: parseSelectors_def)
  then show ?thesis
    by (auto simp: list_all_iff selectorName_def selectorChar_def)
qed

text \<open>
  The targets offered for state are distinct, never \<open>dev\<close> and never empty; they are exactly the
  named targets of the two sources. A target is selected exactly when there is one to offer, it is
  the current one whenever that is offered, and otherwise one with saved state if any has it.
\<close>

lemma resolveStateTargets_correct:
  assumes "r = resolveStateTargets available states current"
    and "C = (set available \<union> st_target ` set states) - {'''', ''dev''}"
    and "S = {t \<in> C. \<exists>s \<in> set states. st_manifest s \<and> st_target s = t}"
  shows "distinct (candidateTargets r) \<and> set (candidateTargets r) = C \<and>
    (if C = {} then selectedTarget r = '''' else selectedTarget r \<in> C) \<and>
    (\<forall>cur \<in> C. current = Some cur \<longrightarrow> selectedTarget r = cur) \<and>
    (hasState r \<longleftrightarrow> selectedTarget r \<in> S) \<and>
    (the current \<in> C \<and> current \<noteq> None \<or> (S \<noteq> {} \<longleftrightarrow> hasState r))"
proof -
  define cs where "cs = js_distinct (filter (\<lambda>t. t \<noteq> '''' \<and> t \<noteq> ''dev'') available @
    filter (\<lambda>t. t \<noteq> '''' \<and> t \<noteq> ''dev'') (map st_target states))"
  define ws where "ws = map st_target (filter (\<lambda>s. st_manifest s \<and> st_target s \<noteq> ''dev'') states)"
  define first where "first = (case find (\<lambda>t. t \<in> set ws) cs of Some t \<Rightarrow> t
    | None \<Rightarrow> (case cs of [] \<Rightarrow> '''' | c # _ \<Rightarrow> c))"
  have C: "set cs = C" "distinct cs" by (auto simp: cs_def assms(2))
  have S: "t \<in> C \<Longrightarrow> t \<in> S \<longleftrightarrow> t \<in> set ws" for t
    unfolding assms(2,3) ws_def by (simp add: image_iff) metis
  have SC: "S \<subseteq> C" by (auto simp: assms(3))
  have ne: "'''' \<notin> C" "''dev'' \<notin> C" by (auto simp: assms(2))
  have first: "if C = {} then first = '''' else first \<in> C \<and> (S \<noteq> {} \<longrightarrow> first \<in> S)"
  proof (cases "find (\<lambda>t. t \<in> set ws) cs")
    case None
    then have "S = {}" using S SC C(1) by (auto simp: find_None_iff)
    then show ?thesis using None C(1) by (auto simp: first_def split: list.splits)
  next
    case (Some t)
    then have "t \<in> set ws" "t \<in> set cs" by (auto simp: find_Some_iff)
    then show ?thesis using Some C(1) S by (auto simp: first_def)
  qed
  have r: "candidateTargets r = cs"
    "selectedTarget r = (case current of None \<Rightarrow> first
       | Some cur \<Rightarrow> if cur \<noteq> '''' \<and> cur \<noteq> ''dev'' \<and> cur \<in> set cs then cur else first)"
    "hasState r \<longleftrightarrow> selectedTarget r \<noteq> '''' \<and> selectedTarget r \<in> set ws"
    unfolding assms(1) resolveStateTargets_def Let_def cs_def ws_def first_def by simp_all
  have sel: "if C = {} then selectedTarget r = '''' else selectedTarget r \<in> C"
    using r(2) first C(1) by (auto split: option.splits if_splits)
  then have has: "hasState r \<longleftrightarrow> selectedTarget r \<in> S" using r(3) S SC ne by (auto split: if_splits)
  have cur: "selectedTarget r = cur" if "cur \<in> C" "current = Some cur" for cur
    using that r(2) C(1) ne by auto
  have "selectedTarget r = first" if "\<not> (the current \<in> C \<and> current \<noteq> None)"
    using that r(2) C(1) by (auto split: option.splits)
  then show ?thesis using r(1) C sel has cur first SC by (auto split: if_splits)
qed

subsection \<open>Storage\<close>

lemma storageKey_inject:
  assumes "CHR '':'' \<notin> set u" "CHR '':'' \<notin> set u'"
  shows "getRunOptionsStorageKey p u = getRunOptionsStorageKey p' u' \<longleftrightarrow> p = p' \<and> u = u'"
proof
  assume "getRunOptionsStorageKey p u = getRunOptionsStorageKey p' u'"
  then have eq: "u @ CHR '':'' # p = u' @ CHR '':'' # p'" by (simp add: getRunOptionsStorageKey_def)
  then have "split_on CHR '':'' (u @ CHR '':'' # p) = split_on CHR '':'' (u' @ CHR '':'' # p')" by simp
  then have "u = u'" using assms by (simp add: split_on_append_sep)
  with eq show "p = p' \<and> u = u'" by simp
qed simp

text \<open>
  Options that were saved are the options loaded again for the same user and project, and no
  save changes what another user or another project loads (user ids hold no colon).
\<close>

lemma saveRunOptions_load:
  assumes "parse (stringify opts) = Some opts" "stringify opts \<noteq> ''''" "accepts store (stringify opts)"
    and "CHR '':'' \<notin> set u" "CHR '':'' \<notin> set u'"
  shows "loadRunOptions True parse (saveRunOptions True stringify accepts store p u opts) p' u' =
    (if p' = p \<and> u' = u then opts else loadRunOptions True parse store p' u')"
  using assms storageKey_inject [OF assms(4,5), of p p']
  by (auto simp: loadRunOptions_def saveRunOptions_def)

subsection \<open>Removing a model selection\<close>

lemma afterFlag_prefix: "afterFlag flag s = Some r \<Longrightarrow> startsWith s flag"
  by (simp add: afterFlag_def split: if_splits)

lemma selectionRest_prefix:
  "selectionRest s = Some r \<Longrightarrow> startsWith s ''--s'' \<or> startsWith s ''-s''"
  by (auto simp: selectionRest_def prefix_def split: option.splits dest!: afterFlag_prefix)

lemma selectionRest_None:
  assumes "\<not> sublist ''-s'' (c # cs)" "rest = '''' \<or> hd rest = CHR '' ''"
  shows "selectionRest ((c # cs) @ rest) = None"
proof (rule ccontr)
  assume "selectionRest ((c # cs) @ rest) \<noteq> None"
  then have "startsWith ((c # cs) @ rest) ''--s'' \<or> startsWith ((c # cs) @ rest) ''-s''"
    using selectionRest_prefix by blast
  then have "sublist ''-s'' (c # cs)"
    using assms(2)
    by (cases cs; cases rest; cases "tl cs") (auto simp: sublist_Cons_right)
  with assms(1) show False by simp
qed

lemma removeSelection_no_flag:
  "\<not> sublist ''-s'' base \<Longrightarrow> rest = '''' \<or> hd rest = CHR '' '' \<Longrightarrow>
     removeSelection (base @ rest) = base @ removeSelection rest"
proof (induction base)
  case (Cons c cs)
  then have "selectionRest (c # cs @ rest) = None"
    using selectionRest_None [of c cs rest] by simp
  then show ?case using Cons by (simp add: sublist_Cons_right)
qed simp

lemma collapse_ws_snoc:
  "collapse_ws (s @ '' '') = (if s \<noteq> [] \<and> is_ws (last s) then collapse_ws s else collapse_ws s @ '' '')"
  by (induction s) (auto simp: is_ws_def)

lemma trim_snoc_blank: "trim (s @ '' '') = trim s"
proof -
  have "is_ws CHR '' ''" by (simp add: is_ws_def)
  moreover have "dropWhile is_ws s = []" if "\<forall>c \<in> set s. is_ws c"
    using that by simp
  ultimately show ?thesis by (cases "\<forall>c \<in> set s. is_ws c") (auto simp: trim_def dropWhile_append dest: set_dropWhileD)
qed

lemma valueRest_nonws: "valueRest v = Some r \<Longrightarrow> v \<noteq> '''' \<and> \<not> is_ws (hd v)"
  by (auto simp: valueRest_def quotedRest_def is_ws_def split: option.splits if_splits)

lemma afterFlag_value:
  assumes "valueRest v = Some r" "sep = '' '' \<or> sep = ''=''"
  shows "afterFlag flag (flag @ sep @ v) = Some r"
proof -
  have "dropWhile is_ws ('' '' @ v) = v"
    using valueRest_nonws [OF assms(1)] by (cases v) (auto simp: is_ws_def)
  moreover have "is_ws CHR '' ''" "\<not> is_ws CHR ''=''" by (simp_all add: is_ws_def)
  ultimately show ?thesis using assms by (auto simp: afterFlag_def Let_def)
qed

text \<open>
  A model selection appended to a command, in either quoting and with either separator, is
  removed again: the stripped command is the stripped command without it.
\<close>

lemma stripModelSelection_appended:
  assumes "\<not> sublist ''-s'' base" "valueRest v = Some ''''" "flag \<in> {''--select'', ''-s''}"
    and "sep \<in> {'' '', ''=''}"
  shows "stripModelSelection (base @ '' '' @ flag @ sep @ v) = stripModelSelection base"
proof -
  have "afterFlag ''--select'' (''-s'' @ t) = None" for t by (simp add: afterFlag_def)
  then have rest: "selectionRest (flag @ sep @ v) = Some ''''"
    using afterFlag_value [OF assms(2), of sep flag] assms(3,4) by (auto simp: selectionRest_def)
  have "selectionRest ('' '' @ flag @ sep @ v) = None"
    using assms(3) by (auto simp: selectionRest_def afterFlag_def)
  moreover have "removeSelection (flag @ sep @ v) = ''''"
    using rest assms(3) by (cases "flag @ sep @ v") simp_all
  ultimately have "removeSelection ('' '' @ flag @ sep @ v) = '' ''"
    by simp
  then have "removeSelection (base @ '' '' @ flag @ sep @ v) = base @ '' ''"
    using removeSelection_no_flag [OF assms(1), of "'' '' @ flag @ sep @ v"] by simp
  moreover have "removeSelection base = base"
    using removeSelection_no_flag [OF assms(1), of "''''"] by simp
  ultimately show ?thesis
    by (simp add: stripModelSelection_def collapse_ws_snoc trim_snoc_blank)
qed

end
