(* ===== verification/Secret_Crypto.thy ===== *)
theory Secret_Crypto
  imports Js_Prelude
begin

text \<open>
  Encryption of stored secrets (\<open>server/crypto.ts\<close>): the text form \<open>v1:gcm:<iv>:<payload>\<close> with both
  parts in base64, the payload being the ciphertext followed by its 16 byte tag. A string stands
  for the bytes of a buffer. Base64 is defined; the AES-256-GCM cipher, the SHA-256 of the key
  material and the random initialisation vector are arguments, gathered in \<open>cipher\<close>.
\<close>

section \<open>Definitions\<close>

subsection \<open>Base64\<close>

definition b64_alphabet :: string where
  "b64_alphabet = ''ABCDEFGHIJKLMNOPQRSTUVWXYZabcdefghijklmnopqrstuvwxyz0123456789+/''"

definition b64_char :: "nat \<Rightarrow> char" where
  "b64_char n = b64_alphabet ! n"

text \<open>The URL-safe letters are accepted too, and anything else is skipped.\<close>

definition b64_val :: "char \<Rightarrow> nat option" where
  "b64_val c =
     (if is_upper c then Some (code c - 65)
      else if is_lower c then Some (code c - 71)
      else if is_digit c then Some (code c + 4)
      else if c = CHR ''+'' \<or> c = CHR ''-'' then Some 62
      else if c = CHR ''/'' \<or> c = CHR ''_'' then Some 63
      else None)"

fun b64_encode :: "string \<Rightarrow> string" where
  "b64_encode [] = []"
| "b64_encode [a] = [b64_char (code a div 4), b64_char (code a mod 4 * 16), CHR ''='', CHR ''='']"
| "b64_encode [a, b] =
     [b64_char (code a div 4), b64_char (code a mod 4 * 16 + code b div 16),
      b64_char (code b mod 16 * 4), CHR ''='']"
| "b64_encode (a # b # c # rest) =
     [b64_char (code a div 4), b64_char (code a mod 4 * 16 + code b div 16),
      b64_char (code b mod 16 * 4 + code c div 64), b64_char (code c mod 64)] @ b64_encode rest"

fun b64_groups :: "nat list \<Rightarrow> string" where
  "b64_groups (w # x # y # z # rest) =
     [char_of (w * 4 + x div 16), char_of (x mod 16 * 16 + y div 4), char_of (y mod 4 * 64 + z)]
     @ b64_groups rest"
| "b64_groups [w, x, y] = [char_of (w * 4 + x div 16), char_of (x mod 16 * 16 + y div 4)]"
| "b64_groups [w, x] = [char_of (w * 4 + x div 16)]"
| "b64_groups _ = []"

definition b64_decode :: "string \<Rightarrow> string" where
  "b64_decode s = b64_groups (List.map_filter b64_val (takeWhile (\<lambda>c. c \<noteq> CHR ''='') s))"

subsection \<open>crypto.ts\<close>

definition PREFIX :: string where
  "PREFIX = ''v1:gcm:''"

text \<open>
  \<open>seal\<close> gives the ciphertext and the tag of a text; \<open>unseal\<close> gives the text, or nothing when the tag
  does not verify. \<open>APP_ENCRYPTION_KEY\<close> is the setting of the deployment.
\<close>

record cipher =
  sha256 :: "string \<Rightarrow> string"
  seal :: "string \<Rightarrow> string \<Rightarrow> string \<Rightarrow> string \<times> string"
  unseal :: "string \<Rightarrow> string \<Rightarrow> string \<Rightarrow> string \<Rightarrow> string option"
  APP_ENCRYPTION_KEY :: "string option"

definition secretKey :: "cipher \<Rightarrow> string result" where
  "secretKey ci =
     (if truthy (APP_ENCRYPTION_KEY ci) then Inr (sha256 ci (the (APP_ENCRYPTION_KEY ci)))
      else Inl ''APP_ENCRYPTION_KEY is required for encrypted secrets'')"

definition encryptSecret :: "cipher \<Rightarrow> string \<Rightarrow> string \<Rightarrow> string result" where
  "encryptSecret ci iv secret =
     (if secret = '''' then Inl ''Cannot encrypt an empty secret''
      else bindR (secretKey ci) (\<lambda>k.
        let (encrypted, tag) = seal ci k iv secret
        in Inr (PREFIX @ b64_encode iv @ '':'' @ b64_encode (encrypted @ tag))))"

definition decryptSecret :: "cipher \<Rightarrow> string option \<Rightarrow> string result" where
  "decryptSecret ci stored =
     (case stored of
        None \<Rightarrow> Inr ''''
      | Some v \<Rightarrow>
          if v = '''' then Inr ''''
          else if \<not> startsWith v PREFIX then Inr v
          else
            let parts = split_on CHR '':'' v;
                ivB64 = (if 2 < length parts then parts ! 2 else '''');
                payloadB64 = (if 3 < length parts then parts ! 3 else '''')
            in if ivB64 = '''' \<or> payloadB64 = '''' then Inl ''Encrypted secret has invalid format''
               else
                 let payload = b64_decode payloadB64 in
                 if length payload < 17 then Inl ''Encrypted secret payload is invalid''
                 else
                   let encrypted = take (length payload - 16) payload;
                       tag = drop (length payload - 16) payload
                   in bindR (secretKey ci) (\<lambda>k.
                        case unseal ci k (b64_decode ivB64) encrypted tag of
                          None \<Rightarrow> Inl ''Unsupported state or unable to authenticate data''
                        | Some text \<Rightarrow> Inr text))"

section \<open>Lemmas\<close>

subsection \<open>Base64\<close>

lemma b64_val_char: "n < 64 \<Longrightarrow> b64_val (b64_char n) = Some n"
proof -
  have "list_all (\<lambda>n. b64_val (b64_char n) = Some n) [0..<64]" by code_simp
  then show "n < 64 \<Longrightarrow> b64_val (b64_char n) = Some n" by (auto simp: list_all_iff)
qed

lemma b64_char_plain: "n < 64 \<Longrightarrow> b64_char n \<noteq> CHR ''='' \<and> b64_char n \<noteq> CHR '':''"
  using b64_val_char [of n] by (auto simp: b64_val_def js_defs)

lemma code_less: "code c < 256"
  by (rule nat_of_char_less_256)

lemma sixbits:
  "code a div 4 < 64" "code a mod 4 * 16 < 64" "code a mod 4 * 16 + code b div 16 < 64"
  "code b mod 16 * 4 < 64" "code b mod 16 * 4 + code c div 64 < 64" "code c mod 64 < 64"
proof -
  have *: "x div 4 < 64" "x mod 4 * 16 < 64" "x mod 4 * 16 + y div 16 < 64"
    "y mod 16 * 4 < 64" "y mod 16 * 4 + z div 64 < 64" "z mod 64 < 64"
    if "x < 256" "y < 256" "z < 256" for x y z :: nat
    using that by auto
  show "code a div 4 < 64" "code a mod 4 * 16 < 64" "code a mod 4 * 16 + code b div 16 < 64"
    "code b mod 16 * 4 < 64" "code b mod 16 * 4 + code c div 64 < 64" "code c mod 64 < 64"
    by (rule * [OF code_less code_less code_less])+
qed

lemmas b64_step = b64_val_char [OF sixbits(1)] b64_val_char [OF sixbits(2)]
  b64_val_char [OF sixbits(3)] b64_val_char [OF sixbits(4)] b64_val_char [OF sixbits(5)]
  b64_val_char [OF sixbits(6)]

lemmas b64_plain = b64_char_plain [OF sixbits(1)] b64_char_plain [OF sixbits(2)]
  b64_char_plain [OF sixbits(3)] b64_char_plain [OF sixbits(4)] b64_char_plain [OF sixbits(5)]
  b64_char_plain [OF sixbits(6)]

lemma code_groups:
  "code b div 16 div 16 = 0" "code b div 16 mod 16 = code b div 16"
  "code b div 64 mod 4 = code b div 64" "code b div 64 div 4 = 0"
proof -
  have *: "x div 16 div 16 = 0" "x div 16 mod 16 = x div 16" "x div 64 mod 4 = x div 64"
    "x div 64 div 4 = 0" if "x < 256" for x :: nat
    using that by auto
  show "code b div 16 div 16 = 0" "code b div 16 mod 16 = code b div 16"
    "code b div 64 mod 4 = code b div 64" "code b div 64 div 4 = 0"
    by (rule * [OF code_less])+
qed

lemma b64_decode_encode [simp]: "b64_decode (b64_encode s) = s"
  by (induction s rule: b64_encode.induct)
    (simp_all add: b64_decode_def b64_step b64_plain code_groups List.map_filter_simps)

lemma b64_encode_no_colon: "CHR '':'' \<notin> set (b64_encode s)"
  by (induction s rule: b64_encode.induct) (auto simp: b64_plain [THEN conjunct2, THEN not_sym])

lemma b64_encode_Nil [simp]: "b64_encode s = [] \<longleftrightarrow> s = []"
  by (cases s rule: b64_encode.cases) auto


subsection \<open>Round trip\<close>

lemma split_encrypted:
  "split_on CHR '':'' (PREFIX @ b64_encode iv @ '':'' @ b64_encode p) =
     [''v1'', ''gcm'', b64_encode iv, b64_encode p]"
proof -
  have "split_on CHR '':'' (b64_encode iv @ CHR '':'' # b64_encode p) = [b64_encode iv, b64_encode p]"
    by (simp add: split_on_append_sep split_on_no_occ b64_encode_no_colon)
  then show ?thesis by (simp add: PREFIX_def)
qed

text \<open>
  C19. A secret that was encrypted decrypts to itself, for every initialisation vector, provided the
  cipher opens what it sealed, its tag has 16 bytes and it never seals a text to nothing. The stored
  form carries the version prefix, so it is never mistaken for a plain legacy value.
\<close>

theorem decrypt_encrypt:
  assumes "encryptSecret ci iv secret = Inr stored" "iv \<noteq> ''''"
    and "\<forall>k c t. seal ci k iv secret = (c, t) \<longrightarrow>
      unseal ci k iv c t = Some secret \<and> length t = 16 \<and> c \<noteq> ''''"
  shows "startsWith stored PREFIX \<and> decryptSecret ci (Some stored) = Inr secret"
proof -
  obtain k where k: "secretKey ci = Inr k"
    using assms(1) by (auto simp: encryptSecret_def split: if_splits)
  obtain c t where ct: "seal ci k iv secret = (c, t)" by fastforce
  have st: "stored = PREFIX @ b64_encode iv @ '':'' @ b64_encode (c @ t)"
    using assms(1) k ct by (auto simp: encryptSecret_def split: if_splits)
  have open_: "unseal ci k iv c t = Some secret" "length t = 16" "c \<noteq> ''''"
    using assms(3) ct by auto
  have parts: "split_on CHR '':'' stored = [''v1'', ''gcm'', b64_encode iv, b64_encode (c @ t)]"
    unfolding st by (rule split_encrypted)
  have "b64_encode (c @ t) \<noteq> ''''" "b64_encode iv \<noteq> ''''" using open_(3) assms(2) by auto
  moreover have "\<not> length (c @ t) < 17" using open_(2,3) by (cases c) auto
  moreover have "startsWith stored PREFIX" "stored \<noteq> ''''" by (simp_all add: st PREFIX_def)
  ultimately show ?thesis using open_ k parts by (simp add: decryptSecret_def Let_def)
qed

text \<open>A cipher that meets the hypotheses: the text reversed, with sixteen letters as its tag.\<close>

definition demo_cipher :: cipher where
  "demo_cipher =
     \<lparr> sha256 = (\<lambda>s. s), seal = (\<lambda>k iv s. (rev s, replicate 16 CHR ''t'')),
       unseal = (\<lambda>k iv c t. if t = replicate 16 CHR ''t'' then Some (rev c) else None),
       APP_ENCRYPTION_KEY = Some ''k'' \<rparr>"

theorem decrypt_encrypt_witness:
  "\<exists>stored. encryptSecret demo_cipher ''0123456789ab'' ''pw:1'' = Inr stored \<and>
     decryptSecret demo_cipher (Some stored) = Inr ''pw:1''"
proof -
  obtain stored where e: "encryptSecret demo_cipher ''0123456789ab'' ''pw:1'' = Inr stored"
    by (simp add: encryptSecret_def demo_cipher_def secretKey_def truthy_def)
  have "decryptSecret demo_cipher (Some stored) = Inr ''pw:1''"
    using decrypt_encrypt [OF e] by (simp add: demo_cipher_def)
  with e show ?thesis by blast
qed

end
