(* ===== verification/Database.thy ===== *)
theory Database
  imports Js_Json
begin

text \<open>
  The database the server code works on, after \<open>nextjs/prisma/schema.prisma\<close>: one record per row
  type with the columns the server code reads or writes, one table per model as an association list
  from ids to rows in insertion order, and the constraints the database enforces on the writes
  (unique keys, foreign keys, and the actions on delete). A violated constraint is the error Prisma
  throws, by its code.

  A request handler is a function from the database to a result and the database it leaves; the
  handlers of the feature modules are composed with \<open>bindS\<close>. Times are milliseconds, and the
  identifier and the time of a write come with the request context.
\<close>

section \<open>Definitions\<close>

subsection \<open>Rows\<close>

record project_row =
  pj_name :: string
  pj_description :: "string option"
  pj_gitUrl :: "string option"
  pj_gitBranch :: "string option"
  pj_gitProjectSubdirectory :: "string option"
  pj_stagingDir :: "string option"
  pj_martsDir :: "string option"
  pj_syncStatus :: "string option"
  pj_dremioSourceId :: "string option"
  pj_connectionId :: "string option"
  pj_lakehouseConnectionId :: "string option"
  pj_deletedAt :: "nat option"
  pj_createdBy :: string
  pj_createdAt :: nat

record target_row =
  tg_projectId :: string
  tg_name :: string
  tg_connectionId :: string

record schedule_row =
  sc_projectId :: string
  sc_name :: string
  sc_command :: string
  sc_selector :: "string option"
  sc_target :: "string option"
  sc_cron :: string
  sc_isActive :: bool
  sc_webhookUrl :: "string option"
  sc_publishSchema :: "string option"
  sc_nextRunAt :: "nat option"
  sc_createdBy :: string
  sc_createdAt :: nat

record connection_row =
  cn_name :: string
  cn_connectionType :: string
  cn_host :: string
  cn_port :: int
  cn_database :: string
  cn_username :: string
  cn_passwordEncrypted :: "string option"
  cn_sslMode :: "string option"
  cn_extraConfig :: "int obj option"
  cn_isActive :: bool
  cn_createdBy :: string
  cn_createdAt :: nat

record dremio_row =
  dr_name :: string
  dr_host :: string
  dr_port :: int
  dr_username :: string
  dr_tokenEncrypted :: string
  dr_catalog :: string
  dr_arrowFlightPort :: int
  dr_createdBy :: string
  dr_createdAt :: nat

record ingest_row =
  in_projectId :: string
  in_sourceConnectionId :: "string option"
  in_sourceType :: string
  in_name :: string
  in_dataset :: string
  in_tables :: "string list"
  in_sourceConfig :: "int obj option"
  in_cursorField :: "string option"
  in_cursorInitialValue :: "string option"
  in_destination :: string
  in_writeDisposition :: string
  in_primaryKey :: "string list option"
  in_partitionBy :: "string list option"
  in_createdBy :: string
  in_createdAt :: nat

record run_row =
  rn_projectId :: string
  rn_command :: string
  rn_selector :: "string option"
  rn_status :: string
  rn_durationMs :: "nat option"
  rn_errorMessage :: "string option"
  rn_logs :: "string option"
  rn_createdAt :: nat

record env_row =
  ev_projectId :: string
  ev_owner :: string
  ev_name :: string
  ev_type :: string
  ev_valueEncrypted :: string
  ev_updatedAt :: nat

text \<open>
  A model entry of an AI provider. An entry of the JSON column that is null or carries no id has
  \<open>None\<close> as its id.
\<close>

record ProviderModel =
  pm_id :: "string option"
  pm_name :: "string option"
  pm_contextWindow :: "int option"
  pm_maxTokens :: "int option"

record provider_row =
  pv_userId :: string
  pv_route :: string
  pv_label :: "string option"
  pv_apiKeyEnv :: string
  pv_api :: "string option"
  pv_baseUrl :: "string option"
  pv_models :: "ProviderModel list option"
  pv_defaultModel :: "string option"
  pv_isDefault :: bool
  pv_updatedAt :: nat

record credential_row =
  cr_userId :: string
  cr_credentialName :: string
  cr_provider :: string
  cr_apiKeyEncrypted :: string

type_synonym 'r table = "(string \<times> 'r) list"

record db =
  users :: "string list"
  dbtProject :: "project_row table"
  projectTarget :: "target_row table"
  dbtSchedule :: "schedule_row table"
  connection :: "connection_row table"
  dremioSource :: "dremio_row table"
  ingestSource :: "ingest_row table"
  dbtRun :: "run_row table"
  dbtEnvironmentVariable :: "env_row table"
  aiProvider :: "provider_row table"
  aiCredential :: "credential_row table"

subsection \<open>Table operations\<close>

definition findUnique :: "'r table \<Rightarrow> string \<Rightarrow> 'r option" where
  "findUnique t rid = map_of t rid"

definition updateRow :: "string \<Rightarrow> ('r \<Rightarrow> 'r) \<Rightarrow> 'r table \<Rightarrow> 'r table" where
  "updateRow rid f t = map (\<lambda>(k, r). (k, if k = rid then f r else r)) t"

definition updateRows :: "('r \<Rightarrow> 'r) \<Rightarrow> 'r table \<Rightarrow> 'r table" where
  "updateRows f t = map (\<lambda>(k, r). (k, f r)) t"

definition deleteRow :: "string \<Rightarrow> 'r table \<Rightarrow> 'r table" where
  "deleteRow rid t = filter (\<lambda>(k, r). k \<noteq> rid) t"

definition deleteMany :: "('r \<Rightarrow> bool) \<Rightarrow> 'r table \<Rightarrow> 'r table" where
  "deleteMany p t = filter (\<lambda>(k, r). \<not> p r) t"

definition insertRow :: "string \<Rightarrow> 'r \<Rightarrow> 'r table \<Rightarrow> 'r table" where
  "insertRow rid r t = t @ [(rid, r)]"

definition findMany :: "('r \<Rightarrow> bool) \<Rightarrow> 'r table \<Rightarrow> 'r table" where
  "findMany p t = filter (\<lambda>(k, r). p r) t"

text \<open>
  A lookup by a compound unique key, and Prisma's \<open>upsert\<close> on one: the matching row is updated, or
  a new one is created under a fresh id.
\<close>

definition findFirst :: "('r \<Rightarrow> bool) \<Rightarrow> 'r table \<Rightarrow> 'r option" where
  "findFirst p t = map_option snd (find (\<lambda>(k, r). p r) t)"

definition upsertRow :: "('r \<Rightarrow> bool) \<Rightarrow> ('r \<Rightarrow> 'r) \<Rightarrow> string \<Rightarrow> 'r \<Rightarrow> 'r table \<Rightarrow> 'r table" where
  "upsertRow p f rid new t =
     (if list_ex (\<lambda>(k, r). p r) t then updateRows (\<lambda>r. if p r then f r else r) t
      else insertRow rid new t)"

text \<open>\<open>orderBy: { f: 'desc' }\<close>: a stable sort with the largest key first.\<close>

definition orderByDesc :: "('r \<Rightarrow> nat) \<Rightarrow> 'r table \<Rightarrow> 'r table" where
  "orderByDesc f t = rev (sort_key (f \<circ> snd) (rev t))"

subsection \<open>Referential actions\<close>

text \<open>Deleting a project cascades to everything that hangs off it.\<close>

definition deleteProjectRow :: "string \<Rightarrow> db \<Rightarrow> db" where
  "deleteProjectRow rid s =
     s\<lparr> dbtProject := deleteRow rid (dbtProject s),
        projectTarget := deleteMany (\<lambda>r. tg_projectId r = rid) (projectTarget s),
        dbtSchedule := deleteMany (\<lambda>r. sc_projectId r = rid) (dbtSchedule s),
        ingestSource := deleteMany (\<lambda>r. in_projectId r = rid) (ingestSource s),
        dbtRun := deleteMany (\<lambda>r. rn_projectId r = rid) (dbtRun s),
        dbtEnvironmentVariable := deleteMany (\<lambda>r. ev_projectId r = rid) (dbtEnvironmentVariable s) \<rparr>"

text \<open>
  Deleting a connection is refused while a target or an ingest source refers to it, and clears the
  reference in the projects that use it.
\<close>

definition connectionInUse :: "string \<Rightarrow> db \<Rightarrow> bool" where
  "connectionInUse rid s \<longleftrightarrow>
     list_ex (\<lambda>(k, r). tg_connectionId r = rid) (projectTarget s) \<or>
     list_ex (\<lambda>(k, r). in_sourceConnectionId r = Some rid) (ingestSource s)"

definition clearConnection :: "string \<Rightarrow> project_row \<Rightarrow> project_row" where
  "clearConnection rid r =
     r\<lparr> pj_connectionId := (if pj_connectionId r = Some rid then None else pj_connectionId r),
        pj_lakehouseConnectionId :=
          (if pj_lakehouseConnectionId r = Some rid then None else pj_lakehouseConnectionId r) \<rparr>"

definition deleteConnectionRow :: "string \<Rightarrow> db \<Rightarrow> db" where
  "deleteConnectionRow rid s =
     s\<lparr> connection := deleteRow rid (connection s),
        dbtProject := updateRows (clearConnection rid) (dbtProject s) \<rparr>"

definition clearDremio :: "string \<Rightarrow> project_row \<Rightarrow> project_row" where
  "clearDremio rid r =
     r\<lparr> pj_dremioSourceId := (if pj_dremioSourceId r = Some rid then None else pj_dremioSourceId r) \<rparr>"

definition deleteDremioRow :: "string \<Rightarrow> db \<Rightarrow> db" where
  "deleteDremioRow rid s =
     s\<lparr> dremioSource := deleteRow rid (dremioSource s),
        dbtProject := updateRows (clearDremio rid) (dbtProject s) \<rparr>"

text \<open>The foreign keys a project write must satisfy.\<close>

definition projectRefsOk :: "project_row \<Rightarrow> db \<Rightarrow> bool" where
  "projectRefsOk r s \<longleftrightarrow>
     (case pj_dremioSourceId r of None \<Rightarrow> True | Some d \<Rightarrow> findUnique (dremioSource s) d \<noteq> None) \<and>
     (case pj_connectionId r of None \<Rightarrow> True | Some c \<Rightarrow> findUnique (connection s) c \<noteq> None)"

subsection \<open>Handlers\<close>

type_synonym 'a handler = "db \<Rightarrow> 'a result \<times> db"

definition returnS :: "'a \<Rightarrow> 'a handler" where
  "returnS a s = (Inr a, s)"

definition failS :: "string \<Rightarrow> 'a handler" where
  "failS msg s = (Inl msg, s)"

definition bindS :: "'a handler \<Rightarrow> ('a \<Rightarrow> 'b handler) \<Rightarrow> 'b handler" where
  "bindS h k s = (case h s of (Inl e, s') \<Rightarrow> (Inl e, s') | (Inr a, s') \<Rightarrow> k a s')"

definition liftR :: "'a result \<Rightarrow> 'a handler" where
  "liftR r s = (r, s)"

definition readS :: "(db \<Rightarrow> 'a) \<Rightarrow> 'a handler" where
  "readS f s = (Inr (f s), s)"

definition writeS :: "(db \<Rightarrow> db) \<Rightarrow> unit handler" where
  "writeS f s = (Inr (), f s)"

definition guardS :: "(db \<Rightarrow> bool) \<Rightarrow> string \<Rightarrow> unit handler" where
  "guardS p msg s = (if p s then Inr () else Inl msg, s)"

text \<open>
  The answer of a route: a status code with an error text or a body. \<open>respond\<close> is the \<open>try\<close> and
  \<open>catch\<close> around a handler, with the status the route gives to an error message.
\<close>

datatype 'a response = Response (status: nat) (body: "string + 'a")

definition respond :: "(string \<Rightarrow> nat) \<Rightarrow> ('a \<Rightarrow> 'b) \<Rightarrow> 'a handler \<Rightarrow> db \<Rightarrow> 'b response \<times> db" where
  "respond st f h s =
     (case h s of
        (Inl e, s') \<Rightarrow> (Response (st e) (Inl e), s')
      | (Inr a, s') \<Rightarrow> (Response 200 (Inr (f a)), s'))"

definition badRequest :: "string \<Rightarrow> db \<Rightarrow> 'b response \<times> db" where
  "badRequest msg s = (Response 400 (Inl msg), s)"

text \<open>The request context: what the session says, the clock, and the next fresh identifier.\<close>

record ctx =
  session :: "string option"
  now :: nat
  newId :: string

section \<open>Lemmas\<close>

named_theorems handler_simps "evaluation of composed handlers"

lemma bindS_simps [handler_simps]:
  "bindS (returnS a) k s = k a s"
  "bindS (failS e) k s = (Inl e, s)"
  "bindS (liftR r) k s = (case r of Inl e \<Rightarrow> (Inl e, s) | Inr a \<Rightarrow> k a s)"
  "bindS (readS f) k s = k (f s) s"
  "bindS (writeS g) k' s = k' () (g s)"
  "bindS (guardS p msg) k' s = (if p s then k' () s else (Inl msg, s))"
  by (simp_all add: bindS_def returnS_def failS_def liftR_def readS_def writeS_def guardS_def
      split: sum.splits)

lemma run_simps [handler_simps]:
  "returnS a s = (Inr a, s)" "failS e s = (Inl e, s)" "readS f s = (Inr (f s), s)"
  "writeS g s = (Inr (), g s)"
  by (simp_all add: returnS_def failS_def readS_def writeS_def)

lemma handler_cases:
  assumes "\<And>e s'. h s = (Inl e, s') \<Longrightarrow> P s'" "\<And>a s'. h s = (Inr a, s') \<Longrightarrow> P s'"
  shows "P (snd (h s))"
  using assms by (cases "h s"; cases "fst (h s)") auto

named_theorems table_simps "lookups after table operations"

lemma findUnique_updateRow [table_simps]:
  "findUnique (updateRow rid f t) k = (if k = rid then map_option f (findUnique t k) else findUnique t k)"
  by (induction t) (auto simp: findUnique_def updateRow_def)

lemma findUnique_updateRows [table_simps]:
  "findUnique (updateRows f t) k = map_option f (findUnique t k)"
  by (induction t) (auto simp: findUnique_def updateRows_def)

lemma findUnique_deleteRow [table_simps]:
  "findUnique (deleteRow rid t) k = (if k = rid then None else findUnique t k)"
  by (induction t) (auto simp: findUnique_def deleteRow_def)

lemma findUnique_insertRow [table_simps]:
  "findUnique t rid = None \<Longrightarrow> findUnique (insertRow rid r t) k = (if k = rid then Some r else findUnique t k)"
  by (auto simp: findUnique_def insertRow_def map_add_def split: option.splits)

lemma findUnique_in_set: "findUnique t rid = Some r \<Longrightarrow> (rid, r) \<in> set t"
  unfolding findUnique_def by (rule map_of_SomeD)

lemma map_fst_table_ops [table_simps]:
  "map fst (updateRow rid f t) = map fst t"
  "map fst (updateRows f t) = map fst t"
  "map fst (insertRow rid r t) = map fst t @ [rid]"
  by (auto simp: updateRow_def updateRows_def insertRow_def)

lemma distinct_deleteRow [table_simps]: "distinct (map fst t) \<Longrightarrow> distinct (map fst (deleteRow rid t))"
  by (induction t) (auto simp: deleteRow_def)

lemma distinct_deleteMany [table_simps]: "distinct (map fst t) \<Longrightarrow> distinct (map fst (deleteMany p t))"
  by (induction t) (auto simp: deleteMany_def)

lemma set_orderByDesc [simp]: "set (orderByDesc f t) = set t"
  by (simp add: orderByDesc_def)

lemma sorted_orderByDesc: "sorted (rev (map (f \<circ> snd) (orderByDesc f t)))"
  by (simp add: orderByDesc_def rev_map)

lemma set_findMany: "x \<in> set (findMany p t) \<longleftrightarrow> x \<in> set t \<and> p (snd x)"
  by (auto simp: findMany_def split: prod.splits)

end
