(* ===== verification/Access.thy ===== *)
theory Access
  imports Database Js_Regex
begin

text \<open>
  Who is asking and what they may touch: \<open>server/session.ts\<close> (the current user behind a session)
  and \<open>server/ownership.ts\<close> (the two row-ownership checks every mutation goes through).

  The interface the feature modules rely on is the locale \<open>guarded\<close>: a check that never writes,
  accepts exactly the owner and answers everyone else with one and the same error. It is
  interpreted for each table checked by \<open>ensureOwnership\<close> and for \<open>ensureProjectOwnership\<close>.
\<close>

section \<open>Definitions\<close>

subsection \<open>session.ts\<close>

definition hex_rx :: rx where
  "hex_rx = RCls (\<lambda>c. is_digit c \<or> lower_char c \<in> set ''abcdef'')"

definition UUID_PATTERN :: rx where
  "UUID_PATTERN =
     RSeq (rx_times 8 hex_rx) (RSeq (rx_chr CHR ''-'')
       (RSeq (rx_times 4 hex_rx) (RSeq (rx_chr CHR ''-'')
         (RSeq (rx_times 4 hex_rx) (RSeq (rx_chr CHR ''-'')
           (RSeq (rx_times 4 hex_rx) (RSeq (rx_chr CHR ''-'') (rx_times 12 hex_rx))))))))"

definition NOT_AUTHENTICATED :: string where
  "NOT_AUTHENTICATED = ''Not authenticated''"

definition NOT_OWNED :: string where
  "NOT_OWNED = ''Not found or not authorized''"

definition getCurrentUserId :: "ctx \<Rightarrow> string handler" where
  "getCurrentUserId c =
     (case session c of
        None \<Rightarrow> failS NOT_AUTHENTICATED
      | Some userId \<Rightarrow>
          if userId = '''' \<or> \<not> rx_match UUID_PATTERN userId then failS NOT_AUTHENTICATED
          else bindS (guardS (\<lambda>s. userId \<in> set (users s)) NOT_AUTHENTICATED) (\<lambda>_. returnS userId))"

definition getSessionOrNull :: "ctx \<Rightarrow> string option" where
  "getSessionOrNull c = (if truthy (session c) then session c else None)"

subsection \<open>ownership.ts\<close>

datatype model = MProject | MDremioSource | MConnection | MIngestSource | MSchedule

fun ownerOf :: "model \<Rightarrow> db \<Rightarrow> string \<Rightarrow> string option" where
  "ownerOf MProject s rid = map_option pj_createdBy (findUnique (dbtProject s) rid)"
| "ownerOf MDremioSource s rid = map_option dr_createdBy (findUnique (dremioSource s) rid)"
| "ownerOf MConnection s rid = map_option cn_createdBy (findUnique (connection s) rid)"
| "ownerOf MIngestSource s rid = map_option in_createdBy (findUnique (ingestSource s) rid)"
| "ownerOf MSchedule s rid = map_option sc_createdBy (findUnique (dbtSchedule s) rid)"

definition ensureOwnership :: "model \<Rightarrow> string \<Rightarrow> string \<Rightarrow> unit handler" where
  "ensureOwnership m rid userId =
     bindS (readS (\<lambda>s. ownerOf m s rid))
       (\<lambda>record. case record of
          None \<Rightarrow> failS NOT_OWNED
        | Some createdBy \<Rightarrow> if createdBy \<noteq> userId then failS NOT_OWNED else returnS ())"

text \<open>\<open>findFirst\<close> with the id, the owner and \<open>deletedAt: null\<close>.\<close>

definition liveProjectOf :: "db \<Rightarrow> string \<Rightarrow> string \<Rightarrow> bool" where
  "liveProjectOf s projectId userId =
     (case findUnique (dbtProject s) projectId of
        None \<Rightarrow> False
      | Some r \<Rightarrow> pj_createdBy r = userId \<and> pj_deletedAt r = None)"

definition ensureProjectOwnership :: "string \<Rightarrow> string \<Rightarrow> unit handler" where
  "ensureProjectOwnership projectId userId =
     guardS (\<lambda>s. liveProjectOf s projectId userId) NOT_OWNED"

subsection \<open>Reference notions\<close>

text \<open>The user a context acts for, if any.\<close>

definition actor :: "ctx \<Rightarrow> db \<Rightarrow> string option" where
  "actor c s =
     (case session c of
        None \<Rightarrow> None
      | Some u \<Rightarrow> if rx_match UUID_PATTERN u \<and> u \<in> set (users s) then Some u else None)"

definition liveOwner :: "db \<Rightarrow> string \<Rightarrow> string option" where
  "liveOwner s projectId =
     (case findUnique (dbtProject s) projectId of
        None \<Rightarrow> None
      | Some r \<Rightarrow> if pj_deletedAt r = None then Some (pj_createdBy r) else None)"

section \<open>The ownership interface\<close>

locale guarded =
  fixes owner :: "db \<Rightarrow> string \<Rightarrow> string option"
    and ensure :: "string \<Rightarrow> string \<Rightarrow> unit handler"
  assumes ensure_pure: "snd (ensure rid u s) = s"
    and ensure_accepts: "fst (ensure rid u s) = Inr () \<longleftrightarrow> owner s rid = Some u"
    and ensure_refuses: "fst (ensure rid u s) = Inl e \<Longrightarrow> e = NOT_OWNED"
begin

lemma ensure_run: "ensure rid u s = (if owner s rid = Some u then Inr () else Inl NOT_OWNED, s)"
proof (cases "fst (ensure rid u s)")
  case (Inl e)
  then show ?thesis
    using ensure_accepts [of rid u s] ensure_refuses [OF Inl] ensure_pure [of rid u s]
    by (auto simp: prod_eq_iff)
next
  case (Inr x)
  then show ?thesis using ensure_accepts [of rid u s] ensure_pure [of rid u s] by (auto simp: prod_eq_iff)
qed

lemma ensure_bind:
  "bindS (ensure rid u) k s = (if owner s rid = Some u then k () s else (Inl NOT_OWNED, s))"
  by (simp add: bindS_def ensure_run)

end

section \<open>Lemmas\<close>

lemma uuid_not_Nil: "\<not> rx_match UUID_PATTERN ''''"
  by code_simp

lemma getCurrentUserId_bind [handler_simps]:
  "bindS (getCurrentUserId c) k s =
     (case actor c s of None \<Rightarrow> (Inl NOT_AUTHENTICATED, s) | Some u \<Rightarrow> k u s)"
  using uuid_not_Nil
  by (auto simp: getCurrentUserId_def actor_def bindS_def handler_simps failS_def returnS_def
      guardS_def split: option.splits)

lemma ensureOwnership_run:
  "ensureOwnership m rid u s = (if ownerOf m s rid = Some u then Inr () else Inl NOT_OWNED, s)"
  by (auto simp: ensureOwnership_def handler_simps split: option.splits)

lemma liveProjectOf_iff: "liveProjectOf s p u \<longleftrightarrow> liveOwner s p = Some u"
  by (auto simp: liveProjectOf_def liveOwner_def split: option.splits)

interpretation projectRows: guarded "ownerOf MProject" "ensureOwnership MProject"
  by unfold_locales (auto simp: ensureOwnership_run split: if_splits)

interpretation dremioRows: guarded "ownerOf MDremioSource" "ensureOwnership MDremioSource"
  by unfold_locales (auto simp: ensureOwnership_run split: if_splits)

interpretation connectionRows: guarded "ownerOf MConnection" "ensureOwnership MConnection"
  by unfold_locales (auto simp: ensureOwnership_run split: if_splits)

interpretation ingestRows: guarded "ownerOf MIngestSource" "ensureOwnership MIngestSource"
  by unfold_locales (auto simp: ensureOwnership_run split: if_splits)

interpretation scheduleRows: guarded "ownerOf MSchedule" "ensureOwnership MSchedule"
  by unfold_locales (auto simp: ensureOwnership_run split: if_splits)

interpretation liveRows: guarded liveOwner ensureProjectOwnership
  by unfold_locales (auto simp: ensureProjectOwnership_def guardS_def liveProjectOf_iff split: if_splits)

lemmas guard_binds = projectRows.ensure_bind dremioRows.ensure_bind connectionRows.ensure_bind
  ingestRows.ensure_bind scheduleRows.ensure_bind liveRows.ensure_bind

declare guard_binds [handler_simps]

lemma liveOwner_owner: "liveOwner s p = Some u \<Longrightarrow> ownerOf MProject s p = Some u"
  by (auto simp: liveOwner_def split: option.splits if_splits)


section \<open>Sample data for witnesses\<close>

definition demo_user :: string where
  "demo_user = ''00000000-0000-0000-0000-00000000000a''"

definition other_user :: string where
  "other_user = ''00000000-0000-0000-0000-00000000000b''"

definition empty_db :: db where
  "empty_db =
     \<lparr> users = [demo_user, other_user], dbtProject = [], projectTarget = [], dbtSchedule = [],
       connection = [], dremioSource = [], ingestSource = [], dbtRun = [],
       dbtEnvironmentVariable = [], aiProvider = [], aiCredential = [] \<rparr>"

definition demo_ctx :: ctx where
  "demo_ctx = \<lparr> session = Some demo_user, now = 7, newId = ''n1'' \<rparr>"

lemma demo_uuid: "rx_match UUID_PATTERN demo_user" "rx_match UUID_PATTERN other_user"
  by code_simp+

lemma actor_demo [simp]: "demo_user \<in> set (users s) \<Longrightarrow> actor demo_ctx s = Some demo_user"
  by (simp add: actor_def demo_ctx_def demo_uuid)

end
