(* ===== verification/Projects.thy ===== *)
theory Projects
  imports Access Dbt_Command
begin

text \<open>
  Projects and their targets: \<open>features/projects/server.ts\<close> and the route \<open>app/api/projects/route.ts\<close>
  and \<open>app/api/targets/route.ts\<close> in front of it. \<open>revalidatePath\<close> only drops cached pages and has no
  effect on the database.

  An input field that may be absent is an option; where the source also takes \<open>null\<close> (the two
  references of an update) the field is an option of an option. A request is a value of the route's
  request type, a response the status code and either the error text or the body.
\<close>

section \<open>Definitions\<close>

subsection \<open>Projects\<close>

record CreateProjectInput =
  cp_name :: string
  cp_description :: "string option"
  cp_dremioSourceId :: "string option"
  cp_connectionId :: "string option"
  cp_gitUrl :: "string option"
  cp_gitBranch :: "string option"

record UpdateProjectInput =
  up_name :: "string option"
  up_description :: "string option"
  up_gitUrl :: "string option"
  up_gitBranch :: "string option"
  up_gitProjectSubdirectory :: "string option"
  up_stagingDir :: "string option"
  up_martsDir :: "string option"
  up_syncStatus :: "string option"
  up_dremioSourceId :: "string option option"
  up_connectionId :: "string option option"

definition getProjects :: "ctx \<Rightarrow> bool \<Rightarrow> project_row table handler" where
  "getProjects c includeDeleted =
     bindS (getCurrentUserId c) (\<lambda>userId.
     readS (\<lambda>s. orderByDesc pj_createdAt
       (findMany (\<lambda>r. pj_createdBy r = userId \<and> (includeDeleted \<or> pj_deletedAt r = None)) (dbtProject s))))"

definition getProjectById :: "ctx \<Rightarrow> string \<Rightarrow> project_row option handler" where
  "getProjectById c rid =
     bindS (getCurrentUserId c) (\<lambda>userId.
     readS (\<lambda>s. case findUnique (dbtProject s) rid of
         None \<Rightarrow> None
       | Some r \<Rightarrow> if pj_createdBy r = userId then Some r else None))"

text \<open>The row a create writes: the given columns, the owner, and the defaults of the schema.\<close>

definition newProject :: "ctx \<Rightarrow> string \<Rightarrow> CreateProjectInput \<Rightarrow> project_row" where
  "newProject c userId d =
     \<lparr> pj_name = cp_name d, pj_description = cp_description d, pj_gitUrl = cp_gitUrl d,
       pj_gitBranch = (case cp_gitBranch d of None \<Rightarrow> Some ''main'' | Some b \<Rightarrow> Some b),
       pj_gitProjectSubdirectory = Some '''', pj_stagingDir = None, pj_martsDir = None,
       pj_syncStatus = Some ''not_synced'', pj_dremioSourceId = cp_dremioSourceId d,
       pj_connectionId = cp_connectionId d, pj_lakehouseConnectionId = None,
       pj_deletedAt = None, pj_createdBy = userId, pj_createdAt = now c \<rparr>"

definition createProject :: "ctx \<Rightarrow> CreateProjectInput \<Rightarrow> string handler" where
  "createProject c d =
     bindS (getCurrentUserId c) (\<lambda>userId.
     bindS (guardS (\<lambda>s. findUnique (dbtProject s) (newId c) = None) ''P2002'') (\<lambda>_.
     bindS (guardS (projectRefsOk (newProject c userId d)) ''P2003'') (\<lambda>_.
     bindS (writeS (\<lambda>s. s\<lparr>dbtProject := insertRow (newId c) (newProject c userId d) (dbtProject s)\<rparr>)) (\<lambda>_.
     returnS (newId c)))))"

definition applyUpdate :: "UpdateProjectInput \<Rightarrow> project_row \<Rightarrow> project_row" where
  "applyUpdate d r =
     (let keep = (\<lambda>new old. case new of None \<Rightarrow> old | Some v \<Rightarrow> Some v) in
      r\<lparr> pj_name := nullish (up_name d) (pj_name r),
         pj_description := keep (up_description d) (pj_description r),
         pj_gitUrl := keep (up_gitUrl d) (pj_gitUrl r),
         pj_gitBranch := keep (up_gitBranch d) (pj_gitBranch r),
         pj_gitProjectSubdirectory := keep (up_gitProjectSubdirectory d) (pj_gitProjectSubdirectory r),
         pj_stagingDir := keep (up_stagingDir d) (pj_stagingDir r),
         pj_martsDir := keep (up_martsDir d) (pj_martsDir r),
         pj_syncStatus := keep (up_syncStatus d) (pj_syncStatus r),
         pj_dremioSourceId := nullish (up_dremioSourceId d) (pj_dremioSourceId r),
         pj_connectionId := nullish (up_connectionId d) (pj_connectionId r) \<rparr>)"

definition updateProject :: "ctx \<Rightarrow> string \<Rightarrow> UpdateProjectInput \<Rightarrow> project_row option handler" where
  "updateProject c rid d =
     bindS (getCurrentUserId c) (\<lambda>userId.
     bindS (ensureOwnership MProject rid userId) (\<lambda>_.
     bindS (guardS (\<lambda>s. case findUnique (dbtProject s) rid of
         None \<Rightarrow> False | Some r \<Rightarrow> projectRefsOk (applyUpdate d r) s) ''P2003'') (\<lambda>_.
     bindS (writeS (\<lambda>s. s\<lparr>dbtProject := updateRow rid (applyUpdate d) (dbtProject s)\<rparr>)) (\<lambda>_.
     readS (\<lambda>s. findUnique (dbtProject s) rid)))))"

definition softDeleteProject :: "ctx \<Rightarrow> string \<Rightarrow> unit handler" where
  "softDeleteProject c rid =
     bindS (getCurrentUserId c) (\<lambda>userId.
     bindS (ensureOwnership MProject rid userId) (\<lambda>_.
     writeS (\<lambda>s. s\<lparr>dbtProject := updateRow rid (\<lambda>r. r\<lparr>pj_deletedAt := Some (now c)\<rparr>) (dbtProject s)\<rparr>)))"

definition restoreProject :: "ctx \<Rightarrow> string \<Rightarrow> unit handler" where
  "restoreProject c rid =
     bindS (getCurrentUserId c) (\<lambda>userId.
     bindS (ensureOwnership MProject rid userId) (\<lambda>_.
     writeS (\<lambda>s. s\<lparr>dbtProject := updateRow rid (\<lambda>r. r\<lparr>pj_deletedAt := None\<rparr>) (dbtProject s)\<rparr>)))"

definition hardDeleteProject :: "ctx \<Rightarrow> string \<Rightarrow> unit handler" where
  "hardDeleteProject c rid =
     bindS (getCurrentUserId c) (\<lambda>userId.
     bindS (ensureOwnership MProject rid userId) (\<lambda>_.
     writeS (deleteProjectRow rid)))"

subsection \<open>Targets\<close>

definition RESERVED_TARGET_NAMES :: "string list" where
  "RESERVED_TARGET_NAMES = [''dev'']"

record ProjectTargetInput =
  ti_projectId :: string
  ti_name :: "string option"
  ti_connectionId :: string

text \<open>Ordering by the unique name: insertion into a list sorted by character codes.\<close>

definition nameKey :: "string \<Rightarrow> nat list" where
  "nameKey s = map of_char s"

fun insertByName :: "('r \<Rightarrow> string) \<Rightarrow> string \<times> 'r \<Rightarrow> 'r table \<Rightarrow> 'r table" where
  "insertByName f x [] = [x]"
| "insertByName f x (y # ys) =
     (if ord.lexordp_eq (<) (nameKey (f (snd x))) (nameKey (f (snd y))) then x # y # ys
      else y # insertByName f x ys)"

definition orderByName :: "('r \<Rightarrow> string) \<Rightarrow> 'r table \<Rightarrow> 'r table" where
  "orderByName f t = foldr (insertByName f) t []"

definition getProjectTargets :: "ctx \<Rightarrow> string \<Rightarrow> target_row table handler" where
  "getProjectTargets c projectId =
     bindS (getCurrentUserId c) (\<lambda>userId.
     bindS (ensureProjectOwnership projectId userId) (\<lambda>_.
     readS (\<lambda>s. orderByName tg_name (findMany (\<lambda>r. tg_projectId r = projectId) (projectTarget s)))))"

definition validateProjectTarget :: "ProjectTargetInput \<Rightarrow> string result" where
  "validateProjectTarget inp =
     (let name = trim (nullish (ti_name inp) '''') in
      if \<not> rx_match TARGET_NAME_PATTERN name then
        Inl ''Target name must start with a lowercase letter and use only lowercase letters, digits and underscores (max 30 characters)''
      else if name \<in> set RESERVED_TARGET_NAMES then
        Inl ([CHR 0x27] @ ''dev'' @ [CHR 0x27] @ '' is the project'' @ [CHR 0x27] @
             ''s own connection and cannot be redefined here'')
      else if ti_connectionId inp = '''' then Inl ''A connection is required''
      else Inr name)"

definition targetNameTaken :: "string \<Rightarrow> string \<Rightarrow> string option \<Rightarrow> db \<Rightarrow> bool" where
  "targetNameTaken projectId name except s =
     list_ex (\<lambda>(k, r). tg_projectId r = projectId \<and> tg_name r = name \<and> except \<noteq> Some k) (projectTarget s)"

definition createProjectTarget :: "ctx \<Rightarrow> ProjectTargetInput \<Rightarrow> string handler" where
  "createProjectTarget c inp =
     bindS (getCurrentUserId c) (\<lambda>userId.
     bindS (liftR (validateProjectTarget inp)) (\<lambda>name.
     bindS (ensureProjectOwnership (ti_projectId inp) userId) (\<lambda>_.
     bindS (ensureOwnership MConnection (ti_connectionId inp) userId) (\<lambda>_.
     bindS (guardS (\<lambda>s. findUnique (projectTarget s) (newId c) = None \<and>
         \<not> targetNameTaken (ti_projectId inp) name None s) ''P2002'') (\<lambda>_.
     bindS (writeS (\<lambda>s. s\<lparr>projectTarget := insertRow (newId c)
         \<lparr>tg_projectId = ti_projectId inp, tg_name = name, tg_connectionId = ti_connectionId inp\<rparr>
         (projectTarget s)\<rparr>)) (\<lambda>_.
     returnS (newId c)))))))"

definition updateProjectTarget :: "ctx \<Rightarrow> string \<Rightarrow> ProjectTargetInput \<Rightarrow> target_row option handler" where
  "updateProjectTarget c rid inp =
     bindS (getCurrentUserId c) (\<lambda>userId.
     bindS (liftR (validateProjectTarget inp)) (\<lambda>name.
     bindS (readS (\<lambda>s. findUnique (projectTarget s) rid)) (\<lambda>existing.
     case existing of
       None \<Rightarrow> failS NOT_OWNED
     | Some old \<Rightarrow>
         bindS (ensureProjectOwnership (tg_projectId old) userId) (\<lambda>_.
         bindS (ensureOwnership MConnection (ti_connectionId inp) userId) (\<lambda>_.
         bindS (guardS (\<lambda>s. \<not> targetNameTaken (tg_projectId old) name (Some rid) s) ''P2002'') (\<lambda>_.
         bindS (writeS (\<lambda>s. s\<lparr>projectTarget := updateRow rid
             (\<lambda>r. r\<lparr>tg_name := name, tg_connectionId := ti_connectionId inp\<rparr>) (projectTarget s)\<rparr>)) (\<lambda>_.
         readS (\<lambda>s. findUnique (projectTarget s) rid))))))))"

definition deleteProjectTarget :: "ctx \<Rightarrow> string \<Rightarrow> unit handler" where
  "deleteProjectTarget c rid =
     bindS (getCurrentUserId c) (\<lambda>userId.
     bindS (readS (\<lambda>s. findUnique (projectTarget s) rid)) (\<lambda>existing.
     case existing of
       None \<Rightarrow> failS NOT_OWNED
     | Some old \<Rightarrow>
         bindS (ensureProjectOwnership (tg_projectId old) userId) (\<lambda>_.
         writeS (\<lambda>s. s\<lparr>projectTarget := deleteRow rid (projectTarget s)\<rparr>))))"

subsection \<open>Routes\<close>

datatype projects_body =
    OneProject project_row
  | ProjectList "project_row table"
  | CreatedProject string
  | UpdatedProject "project_row option"
  | Success

definition readStatus :: "string \<Rightarrow> nat" where
  "readStatus message = (if message = NOT_AUTHENTICATED then 401 else 500)"

definition writeStatus :: "string \<Rightarrow> nat" where
  "writeStatus message =
     (if message = NOT_AUTHENTICATED then 401 else if message = NOT_OWNED then 404 else 500)"

text \<open>A query parameter that is missing is \<open>None\<close>.\<close>

definition projects_GET ::
    "ctx \<Rightarrow> string option \<Rightarrow> string option \<Rightarrow> db \<Rightarrow> projects_body response \<times> db" where
  "projects_GET c rid includeDeleted s =
     (if truthy rid then
        (case getProjectById c (the rid) s of
           (Inr None, s') \<Rightarrow> (Response 404 (Inl ''Not found''), s')
         | (Inr (Some p), s') \<Rightarrow> (Response 200 (Inr (OneProject p)), s')
         | (Inl e, s') \<Rightarrow> (Response (readStatus e) (Inl e), s'))
      else respond readStatus ProjectList (getProjects c (includeDeleted = Some ''true'')) s)"

definition projects_POST :: "ctx \<Rightarrow> CreateProjectInput \<Rightarrow> db \<Rightarrow> projects_body response \<times> db" where
  "projects_POST c d = respond readStatus CreatedProject (createProject c d)"

definition projects_PUT ::
    "ctx \<Rightarrow> string option \<Rightarrow> UpdateProjectInput \<Rightarrow> db \<Rightarrow> projects_body response \<times> db" where
  "projects_PUT c rid d =
     (if \<not> truthy rid then badRequest ''id required''
      else respond writeStatus UpdatedProject (updateProject c (the rid) d))"

definition projects_DELETE ::
    "ctx \<Rightarrow> string option \<Rightarrow> string option \<Rightarrow> db \<Rightarrow> projects_body response \<times> db" where
  "projects_DELETE c rid hard =
     (if \<not> truthy rid then badRequest ''id required''
      else respond writeStatus (\<lambda>_. Success)
        (if hard = Some ''true'' then hardDeleteProject c (the rid) else softDeleteProject c (the rid)))"

datatype targets_body =
    TargetList "target_row table"
  | CreatedTarget string
  | UpdatedTarget "target_row option"
  | TargetDeleted

definition errorStatus :: "string \<Rightarrow> nat" where
  "errorStatus msg =
     (if msg = NOT_AUTHENTICATED then 401 else if msg = NOT_OWNED then 404 else 400)"

definition targets_GET :: "ctx \<Rightarrow> string option \<Rightarrow> db \<Rightarrow> targets_body response \<times> db" where
  "targets_GET c projectId =
     (if \<not> truthy projectId then badRequest ''projectId required''
      else respond errorStatus TargetList (getProjectTargets c (the projectId)))"

definition targets_POST :: "ctx \<Rightarrow> ProjectTargetInput \<Rightarrow> db \<Rightarrow> targets_body response \<times> db" where
  "targets_POST c inp = respond errorStatus CreatedTarget (createProjectTarget c inp)"

definition targets_PATCH ::
    "ctx \<Rightarrow> string option \<Rightarrow> ProjectTargetInput \<Rightarrow> db \<Rightarrow> targets_body response \<times> db" where
  "targets_PATCH c rid inp =
     (if \<not> truthy rid then badRequest ''id required''
      else respond errorStatus UpdatedTarget (updateProjectTarget c (the rid) inp))"

definition targets_DELETE :: "ctx \<Rightarrow> string option \<Rightarrow> db \<Rightarrow> targets_body response \<times> db" where
  "targets_DELETE c rid =
     (if \<not> truthy rid then badRequest ''id required''
      else respond errorStatus (\<lambda>_. TargetDeleted) (deleteProjectTarget c (the rid)))"

section \<open>Lemmas\<close>

lemmas project_ops = createProject_def updateProject_def softDeleteProject_def restoreProject_def
  hardDeleteProject_def createProjectTarget_def updateProjectTarget_def deleteProjectTarget_def
  getProjects_def getProjectById_def getProjectTargets_def

subsection \<open>Soft delete\<close>

lemma updateRow_twice: "updateRow rid f (updateRow rid g t) = updateRow rid (f \<circ> g) t"
  by (auto simp: updateRow_def)

lemma updateRow_same:
  "(\<And>r. (rid, r) \<in> set t \<Longrightarrow> f r = r) \<Longrightarrow> updateRow rid f t = t"
  unfolding updateRow_def by (induction t) auto

lemma distinct_row: "distinct (map fst t) \<Longrightarrow> findUnique t k = Some r \<Longrightarrow> (k, r') \<in> set t \<Longrightarrow> r' = r"
  by (metis eq_key_imp_eq_value findUnique_in_set)

text \<open>
  Soft delete is undone by restore, and in between the project is left out of the default
  listing while every list of all projects still has it: for the owner of a live project, both
  calls succeed and restoring gives back exactly the database before the delete.
\<close>

lemma softDelete_restore:
  assumes "actor c s = Some u" "findUnique (dbtProject s) rid = Some r" "pj_createdBy r = u"
    and "pj_deletedAt r = None" "distinct (map fst (dbtProject s))"
  shows "\<exists>s'. softDeleteProject c rid s = (Inr (), s') \<and> restoreProject c rid s' = (Inr (), s) \<and>
    (\<exists>shown. getProjects c False s' = (Inr shown, s') \<and> rid \<notin> fst ` set shown) \<and>
    (\<exists>all. getProjects c True s' = (Inr all, s') \<and> rid \<in> fst ` set all)"
proof -
  let ?t' = "updateRow rid (\<lambda>r. r\<lparr>pj_deletedAt := Some (now c)\<rparr>) (dbtProject s)"
  let ?s' = "s\<lparr>dbtProject := ?t'\<rparr>"
  have act: "actor c ?s' = Some u" using assms(1) by (simp add: actor_def cong: option.case_cong)
  have own: "ownerOf MProject s rid = Some u" "ownerOf MProject ?s' rid = Some u"
    using assms(2,3) by (simp_all add: table_simps)
  have undo: "updateRow rid (\<lambda>r. r\<lparr>pj_deletedAt := None\<rparr>) ?t' = dbtProject s"
  proof -
    have "r'\<lparr>pj_deletedAt := None\<rparr> = r'" if "(rid, r') \<in> set (dbtProject s)" for r'
      using that distinct_row [OF assms(5,2)] assms(4) by auto
    then show ?thesis by (simp add: updateRow_twice comp_def updateRow_same)
  qed
  have hidden: "pj_deletedAt r' = Some (now c)" if "(rid, r') \<in> set ?t'" for r'
    using that by (auto simp: updateRow_def)
  have present: "\<exists>r'. (rid, r') \<in> set ?t' \<and> pj_createdBy r' = u"
    using assms(3) findUnique_in_set [OF assms(2)] by (force simp: updateRow_def)
  have "softDeleteProject c rid s = (Inr (), ?s')"
    using assms(1) own by (simp add: project_ops handler_simps)
  moreover have "restoreProject c rid ?s' = (Inr (), s)"
    using act own undo by (simp add: project_ops handler_simps)
  moreover have "\<exists>shown. getProjects c False ?s' = (Inr shown, ?s') \<and> rid \<notin> fst ` set shown"
    using act hidden by (fastforce simp: project_ops handler_simps set_findMany)
  moreover have "\<exists>all. getProjects c True ?s' = (Inr all, ?s') \<and> rid \<in> fst ` set all"
    using act present by (force simp: project_ops handler_simps set_findMany)
  ultimately show ?thesis by blast
qed


definition demo_project :: "string \<Rightarrow> project_row" where
  "demo_project u =
     \<lparr> pj_name = ''p'', pj_description = None, pj_gitUrl = None, pj_gitBranch = Some ''main'',
       pj_gitProjectSubdirectory = Some '''', pj_stagingDir = None, pj_martsDir = None,
       pj_syncStatus = Some ''not_synced'', pj_dremioSourceId = None, pj_connectionId = None,
       pj_lakehouseConnectionId = None, pj_deletedAt = None, pj_createdBy = u, pj_createdAt = 1 \<rparr>"

definition demo_db :: db where
  "demo_db = empty_db\<lparr>dbtProject := [(''p1'', demo_project demo_user), (''p2'', demo_project other_user)]\<rparr>"

lemma demo_users [simp]: "demo_user \<in> set (users demo_db)" "demo_user \<in> set (users empty_db)"
  by (simp_all add: demo_db_def empty_db_def)

subsection \<open>Targets\<close>

lemma validateProjectTarget_Inr:
  "validateProjectTarget inp = Inr name \<longleftrightarrow>
     name = trim (nullish (ti_name inp) '''') \<and> rx_match TARGET_NAME_PATTERN name \<and> name \<noteq> ''dev'' \<and>
     ti_connectionId inp \<noteq> ''''"
  by (auto simp: validateProjectTarget_def Let_def RESERVED_TARGET_NAMES_def)

text \<open>
  A target is created only inside a live project of the caller and only on a connection the
  caller owns, under a name that has the target shape, is not the reserved \<open>dev\<close> and is new in the
  project; then exactly that row is added. In every other case the database stays as it was.
\<close>

lemma createProjectTarget_correct:
  "(case createProjectTarget c inp s of
      (Inr k, s') \<Rightarrow> \<exists>u name. actor c s = Some u \<and> liveOwner s (ti_projectId inp) = Some u \<and>
         ownerOf MConnection s (ti_connectionId inp) = Some u \<and>
         rx_match TARGET_NAME_PATTERN name \<and> name \<noteq> ''dev'' \<and>
         (\<nexists>k' r. (k', r) \<in> set (projectTarget s) \<and> tg_projectId r = ti_projectId inp \<and> tg_name r = name) \<and>
         s' = s\<lparr>projectTarget := projectTarget s @
           [(k, \<lparr>tg_projectId = ti_projectId inp, tg_name = name, tg_connectionId = ti_connectionId inp\<rparr>)]\<rparr>
    | (Inl e, s') \<Rightarrow> s' = s)"
proof -
  have taken: "targetNameTaken p n None s \<longleftrightarrow>
      (\<exists>k' r. (k', r) \<in> set (projectTarget s) \<and> tg_projectId r = p \<and> tg_name r = n)" for p n
    by (auto simp: targetNameTaken_def list_ex_iff)
  show ?thesis
    by (auto simp: createProjectTarget_def handler_simps validateProjectTarget_Inr insertRow_def taken
        split: option.split sum.split)
qed

subsection \<open>Routes\<close>

lemma respond_cases:
  "respond st f h s = (Response n b, s') \<longleftrightarrow>
     (\<exists>e. h s = (Inl e, s') \<and> n = st e \<and> b = Inl e) \<or> (\<exists>a. h s = (Inr a, s') \<and> n = 200 \<and> b = Inr (f a))"
  by (auto simp: respond_def split: prod.splits sum.splits)

lemma error_names [simp]: "NOT_OWNED \<noteq> NOT_AUTHENTICATED" "NOT_AUTHENTICATED \<noteq> NOT_OWNED"
  by (simp_all add: NOT_OWNED_def NOT_AUTHENTICATED_def)

text \<open>
  A signed-in user who asks to change, delete or purge a project of somebody else, or one that
  does not exist, gets 404 with one and the same text, and nothing is written; without a valid
  session the answer is 401 and nothing is written.
\<close>

lemma projects_route_denied:
  assumes "rid \<noteq> ''''" "actor c s = None \<or> ownerOf MProject s rid \<noteq> actor c s"
    and "resp = (if actor c s = None then Response 401 (Inl NOT_AUTHENTICATED)
      else Response 404 (Inl NOT_OWNED))"
  shows "projects_PUT c (Some rid) d s = (resp, s) \<and> projects_DELETE c (Some rid) hard s = (resp, s)"
  using assms
  by (cases "actor c s")
    (auto simp: projects_PUT_def projects_DELETE_def truthy_def respond_def project_ops handler_simps
      writeStatus_def)

end
