(* ===== verification/Orchestrate.thy ===== *)
theory Orchestrate
  imports Complex_Main Projects
begin

text \<open>
  Runs and schedules: \<open>features/orchestrate/server.ts\<close> with the routes \<open>app/api/runs\<close>,
  \<open>app/api/runs/[runId]\<close> and \<open>app/api/schedules\<close>. A run as it is serialised keeps its row and, where
  the query includes it, the id and name of its project. The dashboard's four concurrent queries see
  one database state.
\<close>

section \<open>Definitions\<close>

subsection \<open>Runs\<close>

record run_view =
  rv_id :: string
  rv_run :: run_row
  rv_project :: "(string \<times> string) option"

definition serializeRun :: "(string \<times> string) option \<Rightarrow> string \<times> run_row \<Rightarrow> run_view" where
  "serializeRun project run = \<lparr> rv_id = fst run, rv_run = snd run, rv_project = project \<rparr>"

definition projectName :: "db \<Rightarrow> string \<Rightarrow> (string \<times> string) option" where
  "projectName s p = map_option (\<lambda>r. (p, pj_name r)) (findUnique (dbtProject s) p)"

definition getRuns :: "ctx \<Rightarrow> string \<Rightarrow> run_view list handler" where
  "getRuns c projectId =
     bindS (getCurrentUserId c) (\<lambda>userId.
     bindS (guardS (\<lambda>s. liveProjectOf s projectId userId) NOT_OWNED) (\<lambda>_.
     readS (\<lambda>s. map (serializeRun None)
       (take 50 (orderByDesc rn_createdAt (findMany (\<lambda>r. rn_projectId r = projectId) (dbtRun s)))))))"

definition liveProjects :: "string \<Rightarrow> db \<Rightarrow> project_row table" where
  "liveProjects userId s = findMany (\<lambda>r. pj_createdBy r = userId \<and> pj_deletedAt r = None) (dbtProject s)"

definition getAllRunsAcrossProjects :: "ctx \<Rightarrow> run_view list handler" where
  "getAllRunsAcrossProjects c =
     bindS (getCurrentUserId c) (\<lambda>userId.
     readS (\<lambda>s.
       let projectIds = map fst (liveProjects userId s) in
       if length projectIds = 0 then []
       else map (\<lambda>run. serializeRun (projectName s (rn_projectId (snd run))) run)
         (take 100 (orderByDesc rn_createdAt
           (findMany (\<lambda>r. rn_projectId r \<in> set projectIds) (dbtRun s))))))"

record RunLogDashboardQuery =
  q_projectId :: "string option"
  q_status :: "string option"
  q_command :: "string option"
  q_search :: "string option"
  q_from :: "nat option"
  q_to :: "nat option"
  q_page :: int
  q_pageSize :: int

record run_summary =
  sm_total :: nat
  sm_success :: nat
  sm_error :: nat
  sm_cancelled :: nat
  sm_running :: nat
  sm_pending :: nat
  sm_averageDurationMs :: "rat option"

record dashboard =
  db_items :: "run_view list"
  db_page :: nat
  db_pageSize :: nat
  db_total :: nat
  db_totalPages :: nat
  db_summary :: run_summary
  db_projects :: "project_row table"

definition runIdPattern :: rx where
  "runIdPattern =
     RSeq (rx_times 8 hex_rx) (RSeq (rx_chr CHR ''-'')
       (RSeq (rx_times 4 hex_rx) (RSeq (rx_chr CHR ''-'')
         (RSeq (RCls (\<lambda>c. c \<in> set ''12345'')) (RSeq (rx_times 3 hex_rx) (RSeq (rx_chr CHR ''-'')
           (RSeq (RCls (\<lambda>c. lower_char c \<in> set ''89ab'')) (RSeq (rx_times 3 hex_rx)
             (RSeq (rx_chr CHR ''-'') (rx_times 12 hex_rx))))))))))"

text \<open>\<open>contains\<close> in insensitive mode; a NULL column never matches.\<close>

definition containsInsensitive :: "string \<Rightarrow> string option \<Rightarrow> bool" where
  "containsInsensitive search col =
     (case col of None \<Rightarrow> False | Some t \<Rightarrow> includesStr (toLowerCase t) (toLowerCase search))"

definition summaryWhere ::
    "project_row table \<Rightarrow> RunLogDashboardQuery \<Rightarrow> string \<times> run_row \<Rightarrow> bool" where
  "summaryWhere projects q run =
     (let projectIds = map fst projects;
          search = map_option trim (q_search q);
          matchingProjectIds =
            (if truthy search
             then map fst (filter (\<lambda>(k, p).
               includesStr (toLowerCase (pj_name p)) (toLowerCase (the search))) projects)
             else []);
          r = snd run
      in (if truthy (q_projectId q) then rn_projectId r = the (q_projectId q)
          else rn_projectId r \<in> set projectIds) \<and>
         (case q_command q of None \<Rightarrow> True | Some cmd \<Rightarrow> rn_command r = cmd) \<and>
         (case q_from q of None \<Rightarrow> True | Some t \<Rightarrow> t \<le> rn_createdAt r) \<and>
         (case q_to q of None \<Rightarrow> True | Some t \<Rightarrow> rn_createdAt r \<le> t) \<and>
         (\<not> truthy search \<or>
          containsInsensitive (the search) (rn_selector r) \<or>
          containsInsensitive (the search) (rn_errorMessage r) \<or>
          containsInsensitive (the search) (rn_logs r) \<or>
          rn_projectId r \<in> set matchingProjectIds \<or>
          (rx_match runIdPattern (the search) \<and> fst run = the search)))"

definition filteredWhere ::
    "project_row table \<Rightarrow> RunLogDashboardQuery \<Rightarrow> string \<times> run_row \<Rightarrow> bool" where
  "filteredWhere projects q run \<longleftrightarrow>
     summaryWhere projects q run \<and>
     (case q_status q of None \<Rightarrow> True | Some st \<Rightarrow> rn_status (snd run) = st)"

definition averageDuration :: "run_row table \<Rightarrow> rat option" where
  "averageDuration runs =
     (let ds = List.map_filter (\<lambda>run. rn_durationMs (snd run)) runs in
      if ds = [] then None else Some (of_nat (sum_list ds) / of_nat (length ds)))"

definition statusCount :: "string \<Rightarrow> run_row table \<Rightarrow> nat" where
  "statusCount st runs = length (filter (\<lambda>run. rn_status (snd run) = st) runs)"

definition clampPage :: "int \<Rightarrow> nat" where
  "clampPage page = nat (max 1 page)"

definition clampPageSize :: "int \<Rightarrow> nat" where
  "clampPageSize pageSize = nat (min 100 (max 10 pageSize))"

definition buildDashboard :: "project_row table \<Rightarrow> RunLogDashboardQuery \<Rightarrow> db \<Rightarrow> dashboard" where
  "buildDashboard projects q s =
     (let page = clampPage (q_page q);
          pageSize = clampPageSize (q_pageSize q);
          summaryRuns = filter (summaryWhere projects q) (dbtRun s);
          filteredRuns = filter (filteredWhere projects q) (dbtRun s);
          runs = take pageSize (drop ((page - 1) * pageSize) (orderByDesc rn_createdAt filteredRuns));
          total = length filteredRuns;
          statusGroups = map (\<lambda>st. (st, statusCount st summaryRuns))
            (js_distinct (map (\<lambda>run. rn_status (snd run)) summaryRuns));
          counts = (\<lambda>st. nullish (map_of statusGroups st) 0)
      in \<lparr> db_items = map (\<lambda>run. serializeRun (projectName s (rn_projectId (snd run))) run) runs,
           db_page = page, db_pageSize = pageSize, db_total = total,
           db_totalPages = (if total = 0 then 0 else (total + pageSize - 1) div pageSize),
           db_summary =
             \<lparr> sm_total = sum_list (map snd statusGroups),
               sm_success = counts ''success'', sm_error = counts ''error'',
               sm_cancelled = counts ''cancelled'', sm_running = counts ''running'',
               sm_pending = counts ''pending'',
               sm_averageDurationMs = averageDuration summaryRuns \<rparr>,
           db_projects = projects \<rparr>)"

definition emptyDashboard :: "project_row table \<Rightarrow> RunLogDashboardQuery \<Rightarrow> dashboard" where
  "emptyDashboard projects q =
     \<lparr> db_items = [], db_page = clampPage (q_page q), db_pageSize = clampPageSize (q_pageSize q),
       db_total = 0, db_totalPages = 0,
       db_summary = \<lparr> sm_total = 0, sm_success = 0, sm_error = 0, sm_cancelled = 0, sm_running = 0,
         sm_pending = 0, sm_averageDurationMs = None \<rparr>,
       db_projects = projects \<rparr>"

definition getRunLogDashboard :: "ctx \<Rightarrow> RunLogDashboardQuery \<Rightarrow> dashboard handler" where
  "getRunLogDashboard c q =
     bindS (getCurrentUserId c) (\<lambda>userId.
     bindS (readS (\<lambda>s. orderByName pj_name (liveProjects userId s))) (\<lambda>projects.
     if length projects = 0 then returnS (emptyDashboard projects q)
     else if truthy (q_projectId q) \<and> the (q_projectId q) \<notin> fst ` set projects then failS NOT_OWNED
     else readS (buildDashboard projects q)))"

definition getRunById :: "ctx \<Rightarrow> string \<Rightarrow> run_view handler" where
  "getRunById c runId =
     bindS (getCurrentUserId c) (\<lambda>userId.
     bindS (readS (\<lambda>s. findUnique (dbtRun s) runId)) (\<lambda>run.
     case run of
       None \<Rightarrow> failS NOT_OWNED
     | Some r \<Rightarrow>
         bindS (readS (\<lambda>s. findUnique (dbtProject s) (rn_projectId r))) (\<lambda>project.
         case project of
           None \<Rightarrow> failS NOT_OWNED
         | Some p \<Rightarrow>
             if pj_createdBy p \<noteq> userId then failS NOT_OWNED
             else returnS (serializeRun (Some (rn_projectId r, pj_name p)) (runId, r)))))"

subsection \<open>Schedules\<close>

definition RUN_COMMANDS :: "string list" where
  "RUN_COMMANDS =
     [''run'', ''test'', ''build'', ''compile'', ''docs'', ''deps'', ''clean'', ''seed'', ''snapshot'',
      ''source_freshness'', ''parse'', ''ls'', ''debug'', ''run_operation'', ''retry'', ''clone'']"

definition MAX_SELECTOR_LENGTH :: nat where
  "MAX_SELECTOR_LENGTH = 500"

definition SCHEMA_NAME_PATTERN :: rx where
  "SCHEMA_NAME_PATTERN =
     RSeq (RCls (\<lambda>c. is_alpha c \<or> c = CHR ''_''))
       (rx_upto 62 (RCls (\<lambda>c. is_alnum c \<or> c = CHR ''_'' \<or> c = CHR ''$'')))"

record ScheduleInput =
  si_projectId :: string
  si_name :: "string option"
  si_command :: "string option"
  si_selector :: "string option"
  si_target :: "string option"
  si_cron :: string
  si_isActive :: "bool option"
  si_webhookUrl :: "string option"
  si_publishSchema :: "string option"

record CleanSchedule =
  cl_name :: string
  cl_command :: string
  cl_selector :: "string option"
  cl_target :: "string option"
  cl_cron :: string
  cl_webhookUrl :: "string option"
  cl_publishSchema :: "string option"

text \<open>\<open>/^https?:\/\/.+/i\<close>: the scheme in any case and a first character that is no line break.\<close>

definition webhookUrlOk :: "string \<Rightarrow> bool" where
  "webhookUrlOk url =
     list_ex (\<lambda>p. startsWith (toLowerCase url) p \<and> drop (length p) url \<noteq> '''' \<and>
         hd (drop (length p) url) \<notin> {CHR 0x0A, CHR 0x0D})
       [''http://'', ''https://'']"

definition validateSchedule :: "ScheduleInput \<Rightarrow> CleanSchedule result" where
  "validateSchedule inp =
     (let name = trim (nullish (si_name inp) '''');
          command = nullish (si_command inp) ''run'';
          selector = trim_or_null (si_selector inp);
          target = trim_or_null (si_target inp);
          webhookUrl = trim_or_null (si_webhookUrl inp);
          publishSchema = trim_or_null (si_publishSchema inp)
      in if name = '''' then Inl ''Name is required''
         else if \<not> isPlausibleCron (Some (si_cron inp)) then
           Inl (''Cron must be 5 fields, e.g. '' @ [CHR 0x22] @ ''0 2 * * *'' @ [CHR 0x22] @ '' for 02:00 UTC daily'')
         else if command \<notin> set RUN_COMMANDS then Inl (''Unsupported command: '' @ command)
         else if (case selector of None \<Rightarrow> False | Some x \<Rightarrow> length x > MAX_SELECTOR_LENGTH) then
           Inl (''Selector must be '' @ show_nat MAX_SELECTOR_LENGTH @ '' characters or fewer'')
         else if (case target of None \<Rightarrow> False | Some x \<Rightarrow> \<not> rx_match TARGET_NAME_PATTERN x) then
           Inl ''Target name must be lowercase letters, digits and underscores''
         else if (case webhookUrl of None \<Rightarrow> False | Some x \<Rightarrow> \<not> webhookUrlOk x) then
           Inl ''Webhook URL must start with http:// or https://''
         else if (case publishSchema of None \<Rightarrow> False | Some x \<Rightarrow> \<not> rx_match SCHEMA_NAME_PATTERN x) then
           Inl ''Publish schema must start with a letter or underscore and contain only letters, digits, _ or $''
         else Inr \<lparr> cl_name = name, cl_command = command, cl_selector = selector, cl_target = target,
                    cl_cron = trim (si_cron inp), cl_webhookUrl = webhookUrl,
                    cl_publishSchema = publishSchema \<rparr>)"

definition getSchedules :: "ctx \<Rightarrow> string option \<Rightarrow> schedule_row table handler" where
  "getSchedules c projectId =
     bindS (getCurrentUserId c) (\<lambda>userId.
     readS (\<lambda>s. orderByDesc sc_createdAt (findMany
       (\<lambda>r. sc_createdBy r = userId \<and> (\<not> truthy projectId \<or> sc_projectId r = the projectId))
       (dbtSchedule s))))"

definition scheduleNameTaken :: "string \<Rightarrow> string \<Rightarrow> string option \<Rightarrow> db \<Rightarrow> bool" where
  "scheduleNameTaken projectId name except s =
     list_ex (\<lambda>(k, r). sc_projectId r = projectId \<and> sc_name r = name \<and> except \<noteq> Some k) (dbtSchedule s)"

definition newSchedule :: "ctx \<Rightarrow> string \<Rightarrow> ScheduleInput \<Rightarrow> CleanSchedule \<Rightarrow> schedule_row" where
  "newSchedule c userId inp clean =
     \<lparr> sc_projectId = si_projectId inp, sc_name = cl_name clean, sc_command = cl_command clean,
       sc_selector = cl_selector clean, sc_target = cl_target clean, sc_cron = cl_cron clean,
       sc_isActive = nullish (si_isActive inp) True, sc_webhookUrl = cl_webhookUrl clean,
       sc_publishSchema = cl_publishSchema clean, sc_nextRunAt = None, sc_createdBy = userId,
       sc_createdAt = now c \<rparr>"

definition createSchedule :: "ctx \<Rightarrow> ScheduleInput \<Rightarrow> string handler" where
  "createSchedule c inp =
     bindS (getCurrentUserId c) (\<lambda>userId.
     bindS (liftR (validateSchedule inp)) (\<lambda>clean.
     bindS (ensureProjectOwnership (si_projectId inp) userId) (\<lambda>_.
     bindS (guardS (\<lambda>s. findUnique (dbtSchedule s) (newId c) = None \<and>
         \<not> scheduleNameTaken (si_projectId inp) (cl_name clean) None s) ''P2002'') (\<lambda>_.
     bindS (writeS (\<lambda>s. s\<lparr>dbtSchedule :=
         insertRow (newId c) (newSchedule c userId inp clean) (dbtSchedule s)\<rparr>)) (\<lambda>_.
     returnS (newId c))))))"

definition rewriteSchedule :: "ScheduleInput \<Rightarrow> CleanSchedule \<Rightarrow> schedule_row \<Rightarrow> schedule_row" where
  "rewriteSchedule inp clean existing =
     existing\<lparr> sc_projectId := si_projectId inp, sc_name := cl_name clean,
       sc_command := cl_command clean, sc_selector := cl_selector clean,
       sc_target := cl_target clean, sc_cron := cl_cron clean,
       sc_webhookUrl := cl_webhookUrl clean, sc_publishSchema := cl_publishSchema clean,
       sc_isActive := nullish (si_isActive inp) True,
       sc_nextRunAt := (if sc_cron existing = cl_cron clean then sc_nextRunAt existing else None) \<rparr>"

definition updateSchedule :: "ctx \<Rightarrow> string \<Rightarrow> ScheduleInput \<Rightarrow> schedule_row option handler" where
  "updateSchedule c rid inp =
     bindS (getCurrentUserId c) (\<lambda>userId.
     bindS (liftR (validateSchedule inp)) (\<lambda>clean.
     bindS (ensureOwnership MSchedule rid userId) (\<lambda>_.
     bindS (ensureProjectOwnership (si_projectId inp) userId) (\<lambda>_.
     bindS (guardS (\<lambda>s. \<not> scheduleNameTaken (si_projectId inp) (cl_name clean) (Some rid) s) ''P2002'') (\<lambda>_.
     bindS (writeS (\<lambda>s. s\<lparr>dbtSchedule := updateRow rid (rewriteSchedule inp clean) (dbtSchedule s)\<rparr>)) (\<lambda>_.
     readS (\<lambda>s. findUnique (dbtSchedule s) rid)))))))"

definition deleteSchedule :: "ctx \<Rightarrow> string \<Rightarrow> unit handler" where
  "deleteSchedule c rid =
     bindS (getCurrentUserId c) (\<lambda>userId.
     bindS (ensureOwnership MSchedule rid userId) (\<lambda>_.
     writeS (\<lambda>s. s\<lparr>dbtSchedule := deleteRow rid (dbtSchedule s)\<rparr>)))"

subsection \<open>Routes\<close>

datatype schedules_body =
    ScheduleList "schedule_row table"
  | CreatedSchedule string
  | UpdatedSchedule "schedule_row option"
  | ScheduleDeleted

definition schedules_GET :: "ctx \<Rightarrow> string option \<Rightarrow> db \<Rightarrow> schedules_body response \<times> db" where
  "schedules_GET c projectId = respond errorStatus ScheduleList (getSchedules c projectId)"

definition schedules_POST :: "ctx \<Rightarrow> ScheduleInput \<Rightarrow> db \<Rightarrow> schedules_body response \<times> db" where
  "schedules_POST c inp = respond errorStatus CreatedSchedule (createSchedule c inp)"

definition schedules_PATCH ::
    "ctx \<Rightarrow> string option \<Rightarrow> ScheduleInput \<Rightarrow> db \<Rightarrow> schedules_body response \<times> db" where
  "schedules_PATCH c rid inp =
     (if \<not> truthy rid then badRequest ''id required''
      else respond errorStatus UpdatedSchedule (updateSchedule c (the rid) inp))"

definition schedules_DELETE :: "ctx \<Rightarrow> string option \<Rightarrow> db \<Rightarrow> schedules_body response \<times> db" where
  "schedules_DELETE c rid =
     (if \<not> truthy rid then badRequest ''id required''
      else respond errorStatus (\<lambda>_. ScheduleDeleted) (deleteSchedule c (the rid)))"

definition RUN_STATUSES :: "string list" where
  "RUN_STATUSES = [''pending'', ''running'', ''success'', ''error'', ''cancelled'']"

text \<open>
  The query string of the runs route. \<open>toNumber\<close> is \<open>Number\<close> with \<open>None\<close> for anything that is not an
  integer, \<open>parseDate\<close> the \<open>Date\<close> constructor with \<open>None\<close> for an invalid date.
\<close>

record runs_request =
  rq_projectId :: "string option"
  rq_view :: "string option"
  rq_status :: "string option"
  rq_command :: "string option"
  rq_search :: "string option"
  rq_from :: "string option"
  rq_to :: "string option"
  rq_page :: "string option"
  rq_pageSize :: "string option"

definition parsePositiveInt :: "(string option \<Rightarrow> int option) \<Rightarrow> string option \<Rightarrow> int \<Rightarrow> int" where
  "parsePositiveInt toNumber v fallback =
     (case toNumber v of None \<Rightarrow> fallback | Some parsed \<Rightarrow> if parsed > 0 then parsed else fallback)"

definition runsQuery ::
    "(string option \<Rightarrow> int option) \<Rightarrow> (string \<Rightarrow> nat option) \<Rightarrow> runs_request \<Rightarrow> RunLogDashboardQuery" where
  "runsQuery toNumber parseDate rq =
     (let date = (\<lambda>v. if truthy v then parseDate (the v) else None);
          given = (\<lambda>v. if truthy v then v else None)
      in \<lparr> q_projectId = given (rq_projectId rq),
           q_status = (if truthy (rq_status rq) \<and> the (rq_status rq) \<in> set RUN_STATUSES
             then rq_status rq else None),
           q_command = (if truthy (rq_command rq) \<and> the (rq_command rq) \<in> set RUN_COMMANDS
             then rq_command rq else None),
           q_search = given (rq_search rq),
           q_from = date (rq_from rq), q_to = date (rq_to rq),
           q_page = parsePositiveInt toNumber (rq_page rq) 1,
           q_pageSize = min 100 (parsePositiveInt toNumber (rq_pageSize rq) 25) \<rparr>)"

datatype runs_body = Dashboard dashboard | RunList "run_view list" | OneRun run_view

definition runs_GET ::
    "(string option \<Rightarrow> int option) \<Rightarrow> (string \<Rightarrow> nat option) \<Rightarrow> ctx \<Rightarrow> runs_request \<Rightarrow> db \<Rightarrow>
     runs_body response \<times> db" where
  "runs_GET toNumber parseDate c rq =
     (if rq_view rq = Some ''logs'' then
        respond writeStatus Dashboard (getRunLogDashboard c (runsQuery toNumber parseDate rq))
      else if truthy (rq_projectId rq) then respond writeStatus RunList (getRuns c (the (rq_projectId rq)))
      else respond writeStatus RunList (getAllRunsAcrossProjects c))"

definition run_GET :: "ctx \<Rightarrow> string \<Rightarrow> db \<Rightarrow> runs_body response \<times> db" where
  "run_GET c runId = respond writeStatus OneRun (getRunById c runId)"

section \<open>Lemmas\<close>

lemmas orchestrate_ops = getRuns_def getAllRunsAcrossProjects_def getRunLogDashboard_def getRunById_def
  getSchedules_def createSchedule_def updateSchedule_def deleteSchedule_def

subsection \<open>Schedules\<close>

lemma trim_or_null_clean: "trim_or_null x = Some t \<Longrightarrow> trim_or_null (Some t) = Some t"
  by (auto simp: trim_or_null_def split: option.splits)

lemma trim_or_null_idem [simp]: "trim_or_null (trim_or_null x) = trim_or_null x"
  by (cases "trim_or_null x") (auto simp: trim_or_null_clean trim_or_null_def split: option.splits)

lemma isPlausibleCron_trim [simp]: "isPlausibleCron (Some (trim s)) = isPlausibleCron (Some s)"
  by (simp add: isPlausibleCron_def)

lemma validateSchedule_Inr:
  "validateSchedule inp = Inr clean \<longleftrightarrow>
     trim (nullish (si_name inp) '''') \<noteq> '''' \<and> isPlausibleCron (Some (si_cron inp)) \<and>
     nullish (si_command inp) ''run'' \<in> set RUN_COMMANDS \<and>
     pred_option (\<lambda>x. length x \<le> 500) (trim_or_null (si_selector inp)) \<and>
     pred_option (rx_match TARGET_NAME_PATTERN) (trim_or_null (si_target inp)) \<and>
     pred_option webhookUrlOk (trim_or_null (si_webhookUrl inp)) \<and>
     pred_option (rx_match SCHEMA_NAME_PATTERN) (trim_or_null (si_publishSchema inp)) \<and>
     clean = \<lparr> cl_name = trim (nullish (si_name inp) ''''), cl_command = nullish (si_command inp) ''run'',
       cl_selector = trim_or_null (si_selector inp), cl_target = trim_or_null (si_target inp),
       cl_cron = trim (si_cron inp), cl_webhookUrl = trim_or_null (si_webhookUrl inp),
       cl_publishSchema = trim_or_null (si_publishSchema inp) \<rparr>"
proof -
  have opt: "(case x of None \<Rightarrow> False | Some y \<Rightarrow> \<not> P y) \<longleftrightarrow> \<not> pred_option P x" for P and x :: "string option"
    by (cases x) auto
  have len: "(case x of None \<Rightarrow> False | Some y \<Rightarrow> length y > MAX_SELECTOR_LENGTH) \<longleftrightarrow>
      \<not> pred_option (\<lambda>x. length x \<le> 500) x" for x :: "string option"
    by (cases x) (auto simp: MAX_SELECTOR_LENGTH_def)
  show ?thesis unfolding validateSchedule_def Let_def opt len by (auto split: if_splits)
qed

text \<open>The input a client would send to save a clean schedule again.\<close>

definition resubmit :: "ScheduleInput \<Rightarrow> CleanSchedule \<Rightarrow> ScheduleInput" where
  "resubmit inp clean =
     inp\<lparr> si_name := Some (cl_name clean), si_command := Some (cl_command clean),
          si_selector := cl_selector clean, si_target := cl_target clean, si_cron := cl_cron clean,
          si_webhookUrl := cl_webhookUrl clean, si_publishSchema := cl_publishSchema clean \<rparr>"

text \<open>
  A schedule that passes validation has a non-empty name, a known command, a plausible cron, a
  selector of at most 500 characters, a well-formed target and publish schema, and it is a fixed
  point: saving the cleaned fields again validates to the same fields.
\<close>

lemma validateSchedule_clean:
  assumes "validateSchedule inp = Inr clean"
  shows "cl_name clean \<noteq> '''' \<and> cl_command clean \<in> set RUN_COMMANDS \<and>
    isPlausibleCron (Some (cl_cron clean)) \<and>
    pred_option (\<lambda>x. length x \<le> 500) (cl_selector clean) \<and>
    pred_option (rx_match TARGET_NAME_PATTERN) (cl_target clean) \<and>
    pred_option webhookUrlOk (cl_webhookUrl clean) \<and>
    pred_option (rx_match SCHEMA_NAME_PATTERN) (cl_publishSchema clean) \<and>
    validateSchedule (resubmit inp clean) = Inr clean"
  using assms by (simp add: validateSchedule_Inr resubmit_def)

definition demo_schedule :: ScheduleInput where
  "demo_schedule =
     \<lparr> si_projectId = ''p1'', si_name = Some '' nightly '', si_command = None,
       si_selector = Some ''tag:x'', si_target = Some ''prod'', si_cron = '' 0 2 * * * '',
       si_isActive = None, si_webhookUrl = Some ''HTTPS://hooks/x'', si_publishSchema = None \<rparr>"

text \<open>
  When an update of a schedule succeeds, the caller owns the schedule and the live project it
  moves to, only that row changes, its owner and creation time stay, and the due time survives
  exactly when the cron expression is unchanged; a changed expression disarms it.
\<close>

lemma updateSchedule_rearm:
  assumes "updateSchedule c rid inp s = (Inr out, s')"
  shows "\<exists>u old new clean. actor c s = Some u \<and> findUnique (dbtSchedule s) rid = Some old \<and>
    sc_createdBy old = u \<and> liveOwner s (si_projectId inp) = Some u \<and>
    validateSchedule inp = Inr clean \<and>
    findUnique (dbtSchedule s') rid = Some new \<and> out = Some new \<and>
    sc_createdBy new = u \<and> sc_createdAt new = sc_createdAt old \<and> sc_cron new = cl_cron clean \<and>
    sc_nextRunAt new = (if sc_cron old = cl_cron clean then sc_nextRunAt old else None) \<and>
    (\<forall>k. k \<noteq> rid \<longrightarrow> findUnique (dbtSchedule s') k = findUnique (dbtSchedule s) k) \<and>
    s'\<lparr>dbtSchedule := dbtSchedule s\<rparr> = s"
proof -
  obtain u old clean where ok: "actor c s = Some u" "findUnique (dbtSchedule s) rid = Some old"
    "sc_createdBy old = u" "liveOwner s (si_projectId inp) = Some u" "validateSchedule inp = Inr clean"
    and s': "s' = s\<lparr>dbtSchedule := updateRow rid (rewriteSchedule inp clean) (dbtSchedule s)\<rparr>"
    and out: "out = Some (rewriteSchedule inp clean old)"
    using assms
    by (auto simp: updateSchedule_def handler_simps table_simps split: option.splits sum.splits if_splits)
  show ?thesis
    by (rule exI [of _ u], rule exI [of _ old], rule exI [of _ "rewriteSchedule inp clean old"],
        rule exI [of _ clean]) (simp add: ok s' out table_simps, simp add: rewriteSchedule_def ok)
qed

subsection \<open>Runs\<close>

lemma concat_pages:
  "concat (map (\<lambda>i. take n (drop (i * n) xs)) [0..<k]) = take (k * n) xs"
proof (induction k)
  case (Suc k)
  then show ?case using take_add [of "k * n" n xs] by (simp add: add.commute)
qed simp

lemma summaryWhere_page [simp]:
  "summaryWhere projects (q\<lparr>q_page := p\<rparr>) = summaryWhere projects q"
  by (simp add: summaryWhere_def fun_eq_iff)

lemma filteredWhere_page [simp]:
  "filteredWhere projects (q\<lparr>q_page := p\<rparr>) = filteredWhere projects q"
  by (simp add: filteredWhere_def fun_eq_iff)

lemma length_orderByDesc [simp]: "length (orderByDesc f t) = length t"
  by (simp add: orderByDesc_def)

lemma clampPageSize_bounds: "10 \<le> clampPageSize n \<and> clampPageSize n \<le> 100"
  by (auto simp: clampPageSize_def)

lemma ceil_div_covers: "0 < (n::nat) \<Longrightarrow> t \<le> (t + n - 1) div n * n"
proof -
  assume n: "0 < n"
  have "(t + n - 1) div n * n + (t + n - 1) mod n = t + n - 1" by (rule div_mult_mod_eq)
  moreover have "(t + n - 1) mod n < n" using n by simp
  ultimately show ?thesis by linarith
qed

lemma sum_status_counts:
  "sum_list (map (\<lambda>st. statusCount st runs) (js_distinct (map (\<lambda>run. rn_status (snd run)) runs))) =
     length runs"
proof -
  let ?st = "\<lambda>run :: string \<times> run_row. rn_status (snd run)"
  have "sum_list (map (\<lambda>st. statusCount st runs) (js_distinct (map ?st runs))) =
      (\<Sum>st \<in> set (map ?st runs). statusCount st runs)"
    by (simp add: sum_list_distinct_conv_sum_set)
  also have "\<dots> = (\<Sum>st \<in> set (map ?st runs). count_list (map ?st runs) st)"
    by (rule sum.cong) (auto simp: statusCount_def count_list_eq_length_filter filter_map comp_def eq_commute)
  also have "\<dots> = length runs" using sum_count_set [of "map ?st runs" "set (map ?st runs)"] by simp
  finally show ?thesis .
qed



lemma set_insertByName [simp]: "set (insertByName f x t) = insert x (set t)"
  by (induction t) auto

lemma set_orderByName [simp]: "set (orderByName f t) = set t"
  unfolding orderByName_def by (induction t) auto

lemma live_ids:
  assumes "distinct (map fst (dbtProject s))"
  shows "p \<in> fst ` set (liveProjects u s) \<longleftrightarrow> liveOwner s p = Some u"
proof -
  have row: "findUnique (dbtProject s) p = Some r \<longleftrightarrow> (p, r) \<in> set (dbtProject s)" for r
    using assms by (auto simp: findUnique_def)
  have "p \<in> fst ` set (liveProjects u s) \<longleftrightarrow>
      (\<exists>r. (p, r) \<in> set (dbtProject s) \<and> pj_createdBy r = u \<and> pj_deletedAt r = None)"
    by (force simp: liveProjects_def set_findMany)
  then show ?thesis unfolding row [symmetric] by (auto simp: liveOwner_def split: option.splits)
qed

definition runs_of :: "db \<Rightarrow> string \<Rightarrow> run_view list \<Rightarrow> bool" where
  "runs_of s u vs = list_all (\<lambda>v. liveOwner s (rn_projectId (rv_run v)) = Some u) vs"

lemma dashboard_items:
  "v \<in> set (db_items (buildDashboard ps q s)) \<Longrightarrow> \<exists>run. summaryWhere ps q run \<and> rv_run v = snd run"
  by (auto simp: buildDashboard_def Let_def serializeRun_def filteredWhere_def
      dest!: in_set_takeD in_set_dropD)

lemma dashboard_runs_of:
  assumes "distinct (map fst (dbtProject s))" "getRunLogDashboard c q s = (Inr d, s')"
  shows "\<exists>u. actor c s = Some u \<and> s' = s \<and> runs_of s u (db_items d)"
proof -
  obtain u where u: "actor c s = Some u" and s': "s' = s"
    using assms(2) by (auto simp: orchestrate_ops handler_simps split: option.splits if_splits)
  define ps where "ps = orderByName pj_name (liveProjects u s)"
  have ids: "p \<in> fst ` set ps \<longleftrightarrow> liveOwner s p = Some u" for p
    using live_ids [OF assms(1)] by (simp add: ps_def)
  have inside: "rn_projectId (snd run) \<in> fst ` set ps" if "summaryWhere ps q run"
    "truthy (q_projectId q) \<longrightarrow> the (q_projectId q) \<in> fst ` set ps" for run
    using that by (auto simp: summaryWhere_def Let_def split: if_splits)
  consider "d = emptyDashboard ps q"
    | "d = buildDashboard ps q s" "truthy (q_projectId q) \<longrightarrow> the (q_projectId q) \<in> fst ` set ps"
    using assms(2) u by (auto simp: orchestrate_ops handler_simps ps_def split: if_splits)
  then have "runs_of s u (db_items d)"
  proof cases
    case 1
    then show ?thesis by (simp add: runs_of_def emptyDashboard_def)
  next
    case 2
    then have "rn_projectId (rv_run v) \<in> fst ` set ps" if "v \<in> set (db_items d)" for v
      using that dashboard_items [of v ps q s] inside by metis
    then show ?thesis by (simp add: runs_of_def list_all_iff ids)
  qed
  with u s' show ?thesis by blast
qed

lemma allRuns_runs_of:
  assumes "distinct (map fst (dbtProject s))" "getAllRunsAcrossProjects c s = (Inr vs, s')"
  shows "\<exists>u. actor c s = Some u \<and> s' = s \<and> runs_of s u vs"
proof -
  obtain u where u: "actor c s = Some u" and s': "s' = s"
    using assms(2) by (auto simp: orchestrate_ops handler_simps split: option.splits)
  have "runs_of s u vs"
    unfolding runs_of_def list_all_iff live_ids [OF assms(1), symmetric]
    using assms(2) u
    by (auto simp: orchestrate_ops handler_simps Let_def serializeRun_def set_findMany
        dest!: in_set_takeD split: if_splits)
  with u s' show ?thesis by blast
qed

lemma getRuns_runs_of:
  "getRuns c p s = (Inr vs, s') \<Longrightarrow> \<exists>u. actor c s = Some u \<and> s' = s \<and> runs_of s u vs"
  by (auto simp: orchestrate_ops handler_simps runs_of_def list_all_iff serializeRun_def set_findMany
      liveProjectOf_iff dest!: in_set_takeD split: option.splits if_splits)

text \<open>
  C11. No run of somebody else is ever returned: every run the dashboard, the list of one project or
  the list across projects holds belongs to a live project of the caller, and a run fetched by its
  id belongs to a project the caller created. None of the reads changes the database.
\<close>

theorem runs_belong_to_caller:
  assumes "distinct (map fst (dbtProject s))"
  shows "(getRunLogDashboard c q s = (Inr d, s') \<longrightarrow>
      (\<exists>u. actor c s = Some u \<and> s' = s \<and> runs_of s u (db_items d))) \<and>
    (getAllRunsAcrossProjects c s = (Inr vs, s') \<longrightarrow> (\<exists>u. actor c s = Some u \<and> s' = s \<and> runs_of s u vs)) \<and>
    (getRuns c p s = (Inr vs, s') \<longrightarrow> (\<exists>u. actor c s = Some u \<and> s' = s \<and> runs_of s u vs)) \<and>
    (getRunById c runId s = (Inr v, s') \<longrightarrow>
      (\<exists>u. actor c s = Some u \<and> s' = s \<and> ownerOf MProject s (rn_projectId (rv_run v)) = Some u))"
proof (intro conjI impI)
  show "\<exists>u. actor c s = Some u \<and> s' = s \<and> ownerOf MProject s (rn_projectId (rv_run v)) = Some u"
    if "getRunById c runId s = (Inr v, s')"
    using that by (auto simp: orchestrate_ops handler_simps serializeRun_def split: option.splits if_splits)
qed (use assms dashboard_runs_of allRuns_runs_of getRuns_runs_of in blast)+

definition demo_runs_db :: db where
  "demo_runs_db =
     (let run = (\<lambda>p t. \<lparr> rn_projectId = p, rn_command = ''run'', rn_selector = None, rn_status = ''success'',
        rn_durationMs = Some 5, rn_errorMessage = None, rn_logs = None, rn_createdAt = t \<rparr>)
      in demo_db\<lparr>dbtRun := [(''r1'', run ''p1'' 1), (''r2'', run ''p2'' 2), (''r3'', run ''p1'' 3)]\<rparr>)"

theorem runs_belong_to_caller_witness:
  "\<exists>vs s'. getAllRunsAcrossProjects demo_ctx demo_runs_db = (Inr vs, s') \<and> map rv_id vs = [''r3'', ''r1''] \<and>
     runs_of demo_runs_db demo_user vs"
proof -
  let ?r = "getAllRunsAcrossProjects demo_ctx demo_runs_db"
  have e: "map_sum id (map rv_id) (fst ?r) = Inr [''r3'', ''r1'']" by code_simp
  then obtain vs s' where r: "?r = (Inr vs, s')" "map rv_id vs = [''r3'', ''r1'']"
    by (cases ?r; cases "fst ?r") auto
  have d: "distinct (map fst (dbtProject demo_runs_db))" by code_simp
  have "actor demo_ctx demo_runs_db = Some demo_user"
    by (simp add: demo_runs_db_def demo_db_def empty_db_def Let_def)
  then have "runs_of demo_runs_db demo_user vs" using runs_belong_to_caller [OF d, of demo_ctx] r(1) by auto
  with r show ?thesis by (intro exI [of _ vs] exI [of _ s'] conjI)
qed

end
