(* ===== verification/Ingest.thy ===== *)
theory Ingest
  imports Projects
begin

text \<open>
  Ingest sources: what may be stored (\<open>features/ingest/model/ingest-source-validation.ts\<close>), the
  operations on the rows (\<open>features/ingest/server.ts\<close>) and the route \<open>app/api/ingest/route.ts\<close>.
  Every name that is accepted reaches SQL or a path on the runner's side; the lemmas say which
  characters it can hold.
\<close>

section \<open>Definitions\<close>

subsection \<open>Patterns\<close>

definition identStart :: "char \<Rightarrow> bool" where
  "identStart c \<longleftrightarrow> is_alpha c \<or> c = CHR ''_''"

definition identChar :: "char \<Rightarrow> bool" where
  "identChar c \<longleftrightarrow> is_alnum c \<or> c = CHR ''_'' \<or> c = CHR ''$''"

definition identPattern :: rx where
  "identPattern = RSeq (RCls identStart) (rx_upto 62 (RCls identChar))"

definition DATASET_PATTERN :: rx where
  "DATASET_PATTERN =
     RSeq (RCls is_lower) (rx_upto 39 (RCls (\<lambda>c. is_lower c \<or> is_digit c \<or> c = CHR ''_'')))"

definition TABLE_PATTERN :: rx where
  "TABLE_PATTERN = identPattern"

definition WRITE_DISPOSITIONS :: "string list" where
  "WRITE_DISPOSITIONS = [''append'', ''replace'', ''merge'']"

definition PARTITION_FUNCTIONS :: "string list" where
  "PARTITION_FUNCTIONS = [''year'', ''month'', ''day'', ''hour'']"

text \<open>A word in any case, for a pattern with the \<open>i\<close> flag.\<close>

primrec rx_istr :: "string \<Rightarrow> rx" where
  "rx_istr [] = ROne"
| "rx_istr (c # cs) = RSeq (RCls (\<lambda>x. lower_char x = c)) (rx_istr cs)"

primrec rx_ialts :: "string list \<Rightarrow> rx" where
  "rx_ialts [] = RZero"
| "rx_ialts (w # ws) = RAlt (rx_istr w) (rx_ialts ws)"

definition PARTITION_TERM_PATTERN :: rx where
  "PARTITION_TERM_PATTERN =
     RAlt (RSeq (rx_ialts PARTITION_FUNCTIONS)
             (RSeq (rx_chr CHR ''('') (RSeq identPattern (rx_chr CHR '')''))))
       identPattern"

definition SOURCE_TYPES :: "string list" where
  "SOURCE_TYPES = [''sql_database'', ''rest_api'', ''filesystem'']"

definition CONNECTIONLESS_SOURCE_TYPES :: "string list" where
  "CONNECTIONLESS_SOURCE_TYPES = [''filesystem'']"

definition FILE_FORMATS :: "string list" where
  "FILE_FORMATS = [''csv'', ''jsonl'', ''parquet'']"

definition CURSOR_PATTERN :: rx where
  "CURSOR_PATTERN = identPattern"

definition JSON_CURSOR_PATTERN :: rx where
  "JSON_CURSOR_PATTERN =
     RSeq identPattern (rx_upto 9 (RSeq (rx_chr CHR ''.'') identPattern))"

subsection \<open>Validation\<close>

record IngestSourceInput =
  ii_projectId :: string
  ii_sourceConnectionId :: "string option"
  ii_sourceType :: "string option"
  ii_name :: "string option"
  ii_dataset :: "string option"
  ii_tables :: "string list option"
  ii_sourceConfig :: "int obj option"
  ii_cursorField :: "string option"
  ii_cursorInitialValue :: "string option"
  ii_destination :: "string option"
  ii_writeDisposition :: "string option"
  ii_primaryKey :: "string list option"
  ii_partitionBy :: "string list option"

definition quoted :: "string \<Rightarrow> string" where
  "quoted s = [CHR 0x22] @ s @ [CHR 0x22]"

definition sourceTypeOf :: "IngestSourceInput \<Rightarrow> string" where
  "sourceTypeOf inp = nullish (ii_sourceType inp) ''sql_database''"

text \<open>The checks of the source itself, in order: each either passes or ends with its message.\<close>

definition checkTables :: "IngestSourceInput \<Rightarrow> unit result" where
  "checkTables inp =
     (case ii_tables inp of
        None \<Rightarrow> Inl ''Select at least one table''
      | Some [] \<Rightarrow> Inl ''Select at least one table''
      | Some tables \<Rightarrow>
          let badTables = filter (\<lambda>t. \<not> rx_match TABLE_PATTERN t) tables in
          guardR (badTables = []) (''Invalid table name(s): '' @ join '', '' (take 5 badTables)))"

definition checkDisposition :: "IngestSourceInput \<Rightarrow> unit result" where
  "checkDisposition inp =
     (let disposition = nullish (ii_writeDisposition inp) ''append'' in
      if disposition \<notin> set WRITE_DISPOSITIONS then
        Inl (''writeDisposition must be one of '' @ join '', '' WRITE_DISPOSITIONS)
      else guardR (\<not> (disposition = ''merge'' \<and> nullish (ii_primaryKey inp) [] = []))
        ''A primary key is required for merge'')"

definition checkPartition :: "IngestSourceInput \<Rightarrow> unit result" where
  "checkPartition inp =
     (let terms = nullish (ii_partitionBy inp) [] in
      case find (\<lambda>t. \<not> rx_match PARTITION_TERM_PATTERN t) terms of
        Some t \<Rightarrow> Inl (''Invalid partition term '' @ quoted t @ '': use a column name, or '' @
          join ''/'' PARTITION_FUNCTIONS @ ''(column)'')
      | None \<Rightarrow> guardR (\<not> (terms \<noteq> [] \<and> nullish (ii_destination inp) ''ducklake'' \<noteq> ''ducklake''))
          ''Partitioning applies to the lakehouse destination only'')"

definition checkSource :: "IngestSourceInput \<Rightarrow> unit result" where
  "checkSource inp =
     (let sourceType = sourceTypeOf inp in
      if sourceType \<notin> set SOURCE_TYPES then
        Inl (''sourceType must be one of '' @ join '', '' SOURCE_TYPES)
      else if sourceType = ''sql_database'' \<and> \<not> truthy (ii_sourceConnectionId inp) then
        Inl ''A SQL source needs a connection to read from''
      else guardR (\<not> (sourceType \<in> set CONNECTIONLESS_SOURCE_TYPES \<and> truthy (ii_sourceConnectionId inp)))
        ''A filesystem source reads a path, not a connection'')"

definition checkCursor :: "IngestSourceInput \<Rightarrow> unit result" where
  "checkCursor inp =
     (let rest = (sourceTypeOf inp = ''rest_api'');
          cursorPattern = (if rest then JSON_CURSOR_PATTERN else CURSOR_PATTERN)
      in if truthy (ii_cursorField inp) \<and> \<not> rx_match cursorPattern (the (ii_cursorField inp)) then
           Inl (if rest
             then ''Invalid cursor '' @ quoted (the (ii_cursorField inp)) @ '': use field names separated by dots''
             else ''Invalid cursor field '' @ quoted (the (ii_cursorField inp)) @ '': it must be a column name'')
         else guardR (\<not> (truthy (ii_cursorInitialValue inp) \<and> \<not> truthy (ii_cursorField inp)))
           ''An initial value needs a cursor field to apply to'')"

definition checkFilesystem :: "string list \<Rightarrow> int obj \<Rightarrow> unit result" where
  "checkFilesystem tables config =
     (if length tables \<noteq> 1 then Inl ''A filesystem source loads one directory into one table''
      else if trim (StringOr (map_of config ''bucket_url'') '''') = '''' then
        Inl ''A filesystem source needs a directory to read from''
      else guardR (StringOr (map_of config ''format'') ''csv'' \<in> set FILE_FORMATS)
        (''Format must be one of '' @ join '', '' FILE_FORMATS))"

definition resourceNames :: "int obj \<Rightarrow> string list" where
  "resourceNames config =
     (case map_of config ''resources'' of
        Some (JArr rs) \<Rightarrow>
          map (\<lambda>r. case r of JObj kvs \<Rightarrow> StringOr (map_of kvs ''name'') '''' | _ \<Rightarrow> '''') rs
      | _ \<Rightarrow> [])"

definition paginatorOf :: "int obj \<Rightarrow> int obj" where
  "paginatorOf config = (case map_of config ''paginator'' of Some (JObj kvs) \<Rightarrow> kvs | _ \<Rightarrow> [])"

definition checkRest :: "IngestSourceInput \<Rightarrow> string list \<Rightarrow> int obj \<Rightarrow> unit result" where
  "checkRest inp tables config =
     (let names = resourceNames config;
          missing = filter (\<lambda>t. t \<notin> set names) tables;
          extra = filter (\<lambda>n. n \<notin> set tables) names;
          paginator = paginatorOf config
      in if names = [] then Inl ''A REST source needs at least one resource''
         else if missing \<noteq> [] then
           Inl (''No endpoint configured for table(s): '' @ join '', '' (take 5 missing))
         else if extra \<noteq> [] then
           Inl (''Resource(s) not in the table list: '' @ join '', '' (take 5 extra))
         else if trim (StringOr (map_of config ''base_url'') '''') = '''' \<and> \<not> truthy (ii_sourceConnectionId inp)
           then Inl ''A REST source needs a base URL, or a connection that carries one''
         else guardR (\<not> (StringOr (map_of paginator ''type'') ''auto'' = ''offset'' \<and>
             trim (StringOr (map_of paginator ''limit'') '''') = ''''))
           ''The offset paginator needs a records-per-page value (limit)'')"

definition validateIngestSource :: "IngestSourceInput \<Rightarrow> unit result" where
  "validateIngestSource inp =
     (if trim (nullish (ii_name inp) '''') = '''' then Inl ''Name is required''
      else if \<not> rx_match DATASET_PATTERN (nullish (ii_dataset inp) '''') then
        Inl ''Dataset must start with a letter and use only lowercase letters, digits and underscores (max 40 characters)''
      else
        bindR (checkTables inp) (\<lambda>_.
        bindR (checkDisposition inp) (\<lambda>_.
        bindR (checkPartition inp) (\<lambda>_.
        bindR (checkSource inp) (\<lambda>_.
        bindR (checkCursor inp) (\<lambda>_.
          let config = nullish (ii_sourceConfig inp) [];
              tables = nullish (ii_tables inp) []
          in bindR (if sourceTypeOf inp = ''filesystem'' then checkFilesystem tables config else Inr ()) (\<lambda>_.
             if sourceTypeOf inp = ''rest_api'' then checkRest inp tables config else Inr ())))))))"

subsection \<open>server.ts\<close>

definition getIngestSources :: "ctx \<Rightarrow> string option \<Rightarrow> ingest_row table handler" where
  "getIngestSources c projectId =
     bindS (getCurrentUserId c) (\<lambda>userId.
     readS (\<lambda>s. orderByDesc in_createdAt (findMany
       (\<lambda>r. in_createdBy r = userId \<and> (\<not> truthy projectId \<or> in_projectId r = the projectId))
       (ingestSource s))))"

definition ingestNameTaken :: "string \<Rightarrow> string \<Rightarrow> string option \<Rightarrow> db \<Rightarrow> bool" where
  "ingestNameTaken projectId name except s =
     list_ex (\<lambda>(k, r). in_projectId r = projectId \<and> in_name r = name \<and> except \<noteq> Some k) (ingestSource s)"

text \<open>\<open>if (input.sourceConnectionId) await ensureOwnership('connection', ...)\<close>.\<close>

definition ensureSourceConnection :: "IngestSourceInput \<Rightarrow> string \<Rightarrow> unit handler" where
  "ensureSourceConnection inp userId =
     (if truthy (ii_sourceConnectionId inp)
      then ensureOwnership MConnection (the (ii_sourceConnectionId inp)) userId else returnS ())"

definition newIngest :: "ctx \<Rightarrow> string \<Rightarrow> IngestSourceInput \<Rightarrow> ingest_row" where
  "newIngest c userId inp =
     \<lparr> in_projectId = ii_projectId inp, in_sourceConnectionId = ii_sourceConnectionId inp,
       in_sourceType = sourceTypeOf inp, in_name = trim (nullish (ii_name inp) ''''),
       in_dataset = nullish (ii_dataset inp) '''', in_tables = nullish (ii_tables inp) [],
       in_sourceConfig = ii_sourceConfig inp,
       in_cursorField = trim_or_null (ii_cursorField inp),
       in_cursorInitialValue = trim_or_null (ii_cursorInitialValue inp),
       in_destination = nullish (ii_destination inp) ''ducklake'',
       in_writeDisposition = nullish (ii_writeDisposition inp) ''append'',
       in_primaryKey = (if nullish (ii_primaryKey inp) [] \<noteq> [] then ii_primaryKey inp else None),
       in_partitionBy = (if nullish (ii_partitionBy inp) [] \<noteq> [] then ii_partitionBy inp else None),
       in_createdBy = userId, in_createdAt = now c \<rparr>"

text \<open>An empty string is no valid uuid, so the database refuses it as a reference.\<close>

definition connectionRefOk :: "string option \<Rightarrow> db \<Rightarrow> bool" where
  "connectionRefOk ref s =
     (case ref of None \<Rightarrow> True | Some k \<Rightarrow> k \<noteq> '''' \<and> findUnique (connection s) k \<noteq> None)"

definition createIngestSource :: "ctx \<Rightarrow> IngestSourceInput \<Rightarrow> string handler" where
  "createIngestSource c inp =
     bindS (getCurrentUserId c) (\<lambda>userId.
     bindS (liftR (validateIngestSource inp)) (\<lambda>_.
     bindS (ensureOwnership MProject (ii_projectId inp) userId) (\<lambda>_.
     bindS (ensureSourceConnection inp userId) (\<lambda>_.
     bindS (guardS (\<lambda>s. connectionRefOk (ii_sourceConnectionId inp) s) ''P2003'') (\<lambda>_.
     bindS (guardS (\<lambda>s. findUnique (ingestSource s) (newId c) = None \<and>
         \<not> ingestNameTaken (ii_projectId inp) (trim (nullish (ii_name inp) '''')) None s) ''P2002'') (\<lambda>_.
     bindS (writeS (\<lambda>s. s\<lparr>ingestSource := insertRow (newId c) (newIngest c userId inp) (ingestSource s)\<rparr>)) (\<lambda>_.
     returnS (newId c))))))))"

text \<open>
  An update writes every column but the project and the owner; an absent primary key leaves the
  stored one, while an empty partition list clears the stored one.
\<close>

definition rewriteIngest :: "IngestSourceInput \<Rightarrow> ingest_row \<Rightarrow> ingest_row" where
  "rewriteIngest inp r =
     r\<lparr> in_sourceConnectionId := ii_sourceConnectionId inp, in_sourceType := sourceTypeOf inp,
        in_name := trim (nullish (ii_name inp) ''''), in_dataset := nullish (ii_dataset inp) '''',
        in_tables := nullish (ii_tables inp) [], in_sourceConfig := ii_sourceConfig inp,
        in_cursorField := trim_or_null (ii_cursorField inp),
        in_cursorInitialValue := trim_or_null (ii_cursorInitialValue inp),
        in_destination := nullish (ii_destination inp) ''ducklake'',
        in_writeDisposition := nullish (ii_writeDisposition inp) ''append'',
        in_primaryKey := (if nullish (ii_primaryKey inp) [] \<noteq> [] then ii_primaryKey inp else in_primaryKey r),
        in_partitionBy := (if nullish (ii_partitionBy inp) [] \<noteq> [] then ii_partitionBy inp else None) \<rparr>"

definition updateIngestSource :: "ctx \<Rightarrow> string \<Rightarrow> IngestSourceInput \<Rightarrow> ingest_row option handler" where
  "updateIngestSource c rid inp =
     bindS (getCurrentUserId c) (\<lambda>userId.
     bindS (liftR (validateIngestSource inp)) (\<lambda>_.
     bindS (ensureOwnership MIngestSource rid userId) (\<lambda>_.
     bindS (ensureSourceConnection inp userId) (\<lambda>_.
     bindS (guardS (\<lambda>s. connectionRefOk (ii_sourceConnectionId inp) s) ''P2003'') (\<lambda>_.
     bindS (guardS (\<lambda>s. case findUnique (ingestSource s) rid of None \<Rightarrow> False
         | Some r \<Rightarrow> \<not> ingestNameTaken (in_projectId r) (trim (nullish (ii_name inp) '''')) (Some rid) s)
         ''P2002'') (\<lambda>_.
     bindS (writeS (\<lambda>s. s\<lparr>ingestSource := updateRow rid (rewriteIngest inp) (ingestSource s)\<rparr>)) (\<lambda>_.
     readS (\<lambda>s. findUnique (ingestSource s) rid))))))))"

definition deleteIngestSource :: "ctx \<Rightarrow> string \<Rightarrow> unit handler" where
  "deleteIngestSource c rid =
     bindS (getCurrentUserId c) (\<lambda>userId.
     bindS (ensureOwnership MIngestSource rid userId) (\<lambda>_.
     writeS (\<lambda>s. s\<lparr>ingestSource := deleteRow rid (ingestSource s)\<rparr>)))"

subsection \<open>Route\<close>

datatype ingest_body =
    IngestList "ingest_row table"
  | CreatedIngest string
  | UpdatedIngest "ingest_row option"
  | IngestDeleted

definition ingest_GET :: "ctx \<Rightarrow> string option \<Rightarrow> db \<Rightarrow> ingest_body response \<times> db" where
  "ingest_GET c projectId = respond errorStatus IngestList (getIngestSources c projectId)"

definition ingest_POST :: "ctx \<Rightarrow> IngestSourceInput \<Rightarrow> db \<Rightarrow> ingest_body response \<times> db" where
  "ingest_POST c inp = respond errorStatus CreatedIngest (createIngestSource c inp)"

definition ingest_PATCH ::
    "ctx \<Rightarrow> string option \<Rightarrow> IngestSourceInput \<Rightarrow> db \<Rightarrow> ingest_body response \<times> db" where
  "ingest_PATCH c rid inp =
     (if \<not> truthy rid then badRequest ''id required''
      else respond errorStatus UpdatedIngest (updateIngestSource c (the rid) inp))"

definition ingest_DELETE :: "ctx \<Rightarrow> string option \<Rightarrow> db \<Rightarrow> ingest_body response \<times> db" where
  "ingest_DELETE c rid =
     (if \<not> truthy rid then badRequest ''id required''
      else respond errorStatus (\<lambda>_. IngestDeleted) (deleteIngestSource c (the rid)))"

section \<open>Lemmas\<close>

lemmas ingest_ops = getIngestSources_def createIngestSource_def updateIngestSource_def
  deleteIngestSource_def ensureSourceConnection_def

subsection \<open>What reaches SQL\<close>

text \<open>A name that can be written into a statement without quoting it.\<close>

definition sql_safe :: "string \<Rightarrow> bool" where
  "sql_safe w \<longleftrightarrow> w \<noteq> '''' \<and> list_all (\<lambda>c. is_alnum c \<or> c \<in> set ''_$.()'') w"

lemma lower_alpha: "is_alpha (lower_char c) \<longleftrightarrow> is_alpha c"
  by (auto simp: code_lower_char js_defs)

lemma match_safe:
  assumes "rx_match r w" "\<And>c. rx_chars r c \<Longrightarrow> is_alnum c \<or> c \<in> set ''_$.()''" "\<not> rx_match r ''''"
  shows "sql_safe w"
  using assms lang_chars [of w r] unfolding sql_safe_def rx_match_iff list_all_iff by auto

lemma rx_chars_istr: "rx_chars (rx_istr w) c \<Longrightarrow> lower_char c \<in> set w"
  by (induction w) auto

lemma rx_chars_ialts: "rx_chars (rx_ialts ws) c \<Longrightarrow> \<exists>w \<in> set ws. lower_char c \<in> set w"
  by (induction ws) (auto dest: rx_chars_istr)

lemma identPattern_chars: "rx_chars identPattern c \<Longrightarrow> is_alnum c \<or> c = CHR ''_'' \<or> c = CHR ''$''"
  by (auto simp: identPattern_def identStart_def identChar_def is_alnum_def)

lemma partition_function_chars: "rx_chars (rx_ialts PARTITION_FUNCTIONS) c \<Longrightarrow> is_alnum c"
proof -
  assume "rx_chars (rx_ialts PARTITION_FUNCTIONS) c"
  then obtain w where "w \<in> set PARTITION_FUNCTIONS" "lower_char c \<in> set w"
    using rx_chars_ialts by blast
  then have "is_alpha (lower_char c)"
    by (auto simp: PARTITION_FUNCTIONS_def js_defs)
  then show "is_alnum c" by (simp add: lower_alpha is_alnum_def)
qed

lemma pattern_Nil:
  "\<not> rx_match identPattern ''''" "\<not> rx_match DATASET_PATTERN ''''"
  "\<not> rx_match PARTITION_TERM_PATTERN ''''" "\<not> rx_match JSON_CURSOR_PATTERN ''''"
  by code_simp+

lemma ident_safe: "rx_match identPattern w \<Longrightarrow> sql_safe w"
  by (erule match_safe [OF _ _ pattern_Nil(1)]) (auto dest: identPattern_chars)

lemma dataset_safe: "rx_match DATASET_PATTERN w \<Longrightarrow> sql_safe w"
  by (erule match_safe [OF _ _ pattern_Nil(2)]) (auto simp: DATASET_PATTERN_def is_alnum_def is_alpha_def)

lemma partition_safe: "rx_match PARTITION_TERM_PATTERN w \<Longrightarrow> sql_safe w"
  by (erule match_safe [OF _ _ pattern_Nil(3)])
    (auto simp: PARTITION_TERM_PATTERN_def dest: identPattern_chars partition_function_chars)

lemma json_cursor_safe: "rx_match JSON_CURSOR_PATTERN w \<Longrightarrow> sql_safe w"
  by (erule match_safe [OF _ _ pattern_Nil(4)]) (auto simp: JSON_CURSOR_PATTERN_def dest: identPattern_chars)

lemmas patterns_safe = ident_safe [folded TABLE_PATTERN_def] ident_safe [folded CURSOR_PATTERN_def]
  dataset_safe partition_safe json_cursor_safe

lemma checkTables_Inr:
  "checkTables inp = Inr u \<longleftrightarrow>
     (\<exists>ts. ii_tables inp = Some ts \<and> ts \<noteq> [] \<and> list_all (rx_match TABLE_PATTERN) ts)"
  by (cases "ii_tables inp")
    (auto simp: checkTables_def Let_def filter_empty_conv list_all_iff split: list.splits)

lemma checkPartition_Inr:
  "checkPartition inp = Inr u \<Longrightarrow> list_all (rx_match PARTITION_TERM_PATTERN) (nullish (ii_partitionBy inp) [])"
  by (auto simp: checkPartition_def Let_def list_all_iff find_None_iff split: option.splits)

lemma checkCursor_Inr:
  "checkCursor inp = Inr u \<Longrightarrow> truthy (ii_cursorField inp) \<Longrightarrow> sql_safe (the (ii_cursorField inp))"
  by (auto simp: checkCursor_def Let_def patterns_safe split: if_splits)

lemma checkRest_Inr:
  "checkRest inp ts config = Inr u \<Longrightarrow> set (resourceNames config) = set ts \<and> ts \<noteq> []"
  by (auto simp: checkRest_def Let_def filter_empty_conv split: if_splits)

lemma validateIngestSource_Inr:
  "validateIngestSource inp = Inr () \<longleftrightarrow>
     trim (nullish (ii_name inp) '''') \<noteq> '''' \<and> rx_match DATASET_PATTERN (nullish (ii_dataset inp) '''') \<and>
     checkTables inp = Inr () \<and> checkDisposition inp = Inr () \<and> checkPartition inp = Inr () \<and>
     checkSource inp = Inr () \<and> checkCursor inp = Inr () \<and>
     (sourceTypeOf inp = ''filesystem'' \<longrightarrow>
        checkFilesystem (nullish (ii_tables inp) []) (nullish (ii_sourceConfig inp) []) = Inr ()) \<and>
     (sourceTypeOf inp = ''rest_api'' \<longrightarrow>
        checkRest inp (nullish (ii_tables inp) []) (nullish (ii_sourceConfig inp) []) = Inr ())"
  by (auto simp: validateIngestSource_def Let_def)


definition demo_ingest :: IngestSourceInput where
  "demo_ingest =
     \<lparr> ii_projectId = ''p1'', ii_sourceConnectionId = None, ii_sourceType = Some ''filesystem'',
       ii_name = Some '' files '', ii_dataset = Some ''raw'', ii_tables = Some [''orders''],
       ii_sourceConfig = Some [(''bucket_url'', JStr ''/data'')], ii_cursorField = Some ''updated_at'',
       ii_cursorInitialValue = None, ii_destination = None, ii_writeDisposition = None,
       ii_primaryKey = None, ii_partitionBy = Some [''Year(ts)''] \<rparr>"


end
