(* ===== verification/Host_Guard.thy ===== *)
theory Host_Guard
  imports Js_Regex
begin

text \<open>
  The guard against requests into the deployment's own network (\<open>server/host-guard.ts\<close>). The DNS
  resolver and the URL parser are arguments: \<open>lookup\<close> returns the addresses of a name, or nothing
  when it fails, and \<open>parseUrl\<close> the protocol and the host name of a URL. \<open>isIP\<close> is Node's classifier
  of address literals. Messages that quote a host do so with plain quotes here.
\<close>

section \<open>Definitions\<close>

subsection \<open>Address literals\<close>

definition v4_part :: "string \<Rightarrow> bool" where
  "v4_part s \<longleftrightarrow> s \<noteq> '''' \<and> length s \<le> 3 \<and> list_all is_digit s \<and> read_nat s \<le> 255 \<and>
     (length s = 1 \<or> hd s \<noteq> CHR ''0'')"

definition isIPv4 :: "string \<Rightarrow> bool" where
  "isIPv4 s = (let parts = split_on CHR ''.'' s in length parts = 4 \<and> list_all v4_part parts)"

definition is_hex :: "char \<Rightarrow> bool" where
  "is_hex c \<longleftrightarrow> is_digit c \<or> lower_char c \<in> set ''abcdef''"

definition v6_group :: "string \<Rightarrow> bool" where
  "v6_group s \<longleftrightarrow> 1 \<le> length s \<and> length s \<le> 4 \<and> list_all is_hex s"

text \<open>The number of 16-bit groups a colon-separated list stands for, its last part possibly dotted.\<close>

fun v6_count :: "string list \<Rightarrow> nat option" where
  "v6_count [] = Some 0"
| "v6_count [g] = (if v6_group g then Some 1 else if isIPv4 g then Some 2 else None)"
| "v6_count (g # gs) = (if v6_group g then map_option Suc (v6_count gs) else None)"

fun split_double_colon :: "string \<Rightarrow> (string \<times> string) option" where
  "split_double_colon (a # b # s) =
     (if a = CHR '':'' \<and> b = CHR '':'' then Some ([], s)
      else map_option (\<lambda>(l, r). (a # l, r)) (split_double_colon (b # s)))"
| "split_double_colon _ = None"

definition colon_parts :: "string \<Rightarrow> string list" where
  "colon_parts s = (if s = '''' then [] else split_on CHR '':'' s)"

definition isIPv6 :: "string \<Rightarrow> bool" where
  "isIPv6 s =
     (let addr = takeWhile (\<lambda>c. c \<noteq> CHR ''%'') s;
          zone = drop (Suc (length addr)) s
      in (CHR ''%'' \<notin> set s \<or> zone \<noteq> '''' \<and> list_all (\<lambda>c. is_alnum c \<or> c \<in> set ''-.:'') zone) \<and>
         (case split_double_colon addr of
            None \<Rightarrow> v6_count (colon_parts addr) = Some 8
          | Some (l, r) \<Rightarrow>
              list_all v6_group (colon_parts l) \<and>
              (case v6_count (colon_parts r) of
                 None \<Rightarrow> False
               | Some n \<Rightarrow> length (colon_parts l) + n \<le> 7)))"

definition isIP :: "string \<Rightarrow> nat" where
  "isIP s = (if isIPv4 s then 4 else if isIPv6 s then 6 else 0)"

subsection \<open>host-guard.ts\<close>

definition LOOPBACK :: string where
  "LOOPBACK = ''loopback is this container itself, not your gateway host''"

definition UNUSABLE :: string where
  "UNUSABLE = ''it is not a usable address''"

definition LINK_LOCAL :: string where
  "LINK_LOCAL = ''link-local and cloud metadata addresses are blocked''"

definition PRIVATE :: string where
  "PRIVATE = ''it is a private address''"

definition CARRIER :: string where
  "CARRIER = ''it is a carrier-private address''"

text \<open>
  \<open>Number\<close> on one part of a dotted address: digits, or the empty string, which is zero. An address
  here was accepted by \<open>isIP\<close>, returned by the resolver, or matched digit by digit, so no other
  numeric notation occurs.
\<close>

definition partNumber :: "string \<Rightarrow> nat option" where
  "partNumber s = (if list_all is_digit s then Some (read_nat s) else None)"

definition ipv4Reason :: "nat \<Rightarrow> nat \<Rightarrow> string option" where
  "ipv4Reason a b =
     (if a = 127 then Some LOOPBACK
      else if a = 0 then Some UNUSABLE
      else if a = 169 \<and> b = 254 then Some LINK_LOCAL
      else if a = 10 then Some PRIVATE
      else if a = 172 \<and> b \<ge> 16 \<and> b \<le> 31 then Some PRIVATE
      else if a = 192 \<and> b = 168 then Some PRIVATE
      else if a = 100 \<and> b \<ge> 64 \<and> b \<le> 127 then Some CARRIER
      else None)"

definition ipv4Rules :: "string \<Rightarrow> string option" where
  "ipv4Rules address =
     (let parts = map partNumber (split_on CHR ''.'' address) in
      if length parts \<noteq> 4 \<or> list_ex (\<lambda>p. case p of None \<Rightarrow> True | Some n \<Rightarrow> n > 255) parts
      then Some UNUSABLE
      else ipv4Reason (the (parts ! 0)) (the (parts ! 1)))"

definition hex_val :: "char \<Rightarrow> nat" where
  "hex_val c = (if is_digit c then code c - 48 else code (lower_char c) - 87)"

definition read_hex :: "string \<Rightarrow> nat" where
  "read_hex s = foldl (\<lambda>n c. 16 * n + hex_val c) 0 s"

text \<open>The two forms of an IPv4-mapped address: a dotted tail, or two groups of hex digits.\<close>

definition mappedTail :: "string \<Rightarrow> string option" where
  "mappedTail v = (if startsWith v ''::ffff:'' then Some (drop 7 v) else None)"

definition dottedTail :: "string \<Rightarrow> bool" where
  "dottedTail t =
     (let parts = split_on CHR ''.'' t in
      length parts = 4 \<and> list_all (\<lambda>p. p \<noteq> '''' \<and> list_all is_digit p) parts)"

definition hexTail :: "string \<Rightarrow> (string \<times> string) option" where
  "hexTail t =
     (case split_on CHR '':'' t of
        [h, l] \<Rightarrow> if v6_group h \<and> v6_group l then Some (h, l) else None
      | _ \<Rightarrow> None)"

definition dotted :: "nat list \<Rightarrow> string" where
  "dotted ns = join ''.'' (map show_nat ns)"

definition ipv6Rules :: "string \<Rightarrow> string option" where
  "ipv6Rules address =
     (let v = hd (split_on CHR ''%'' (toLowerCase address));
          plain =
            (if v = ''::1'' then Some LOOPBACK
             else if v = ''::'' then Some UNUSABLE
             else if startsWith v ''fe'' \<and> 2 < length v \<and> v ! 2 \<in> set ''89ab'' then Some LINK_LOCAL
             else if startsWith v ''fc'' \<or> startsWith v ''fd'' then Some PRIVATE
             else None)
      in case mappedTail v of
           None \<Rightarrow> plain
         | Some t \<Rightarrow>
             if dottedTail t then ipv4Rules t
             else (case hexTail t of
                 Some (h, l) \<Rightarrow>
                   let high = read_hex h; low = read_hex l
                   in ipv4Rules (dotted [high div 256, high mod 256, low div 256, low mod 256])
               | None \<Rightarrow> plain))"

definition refusalFor :: "string \<Rightarrow> string option" where
  "refusalFor address = (if isIP address = 6 then ipv6Rules address else ipv4Rules address)"

definition resolveAll :: "(string \<Rightarrow> string list option) \<Rightarrow> string \<Rightarrow> string list result" where
  "resolveAll lookup host =
     (if isIP host \<noteq> 0 then Inr [host]
      else case lookup host of
          Some (r # rs) \<Rightarrow> Inr (r # rs)
        | _ \<Rightarrow> Inl (''Host '' @ [CHR 0x22] @ host @ [CHR 0x22] @ '' could not be resolved from this deployment.''))"

text \<open>\<open>replace(/^\[|\]$/g, '')\<close>.\<close>

definition stripBrackets :: "string \<Rightarrow> string" where
  "stripBrackets h =
     (let a = (if h \<noteq> '''' \<and> hd h = CHR ''['' then tl h else h) in
      if a \<noteq> '''' \<and> last a = CHR '']'' then butlast a else a)"

fun checkAddresses :: "bool \<Rightarrow> string \<Rightarrow> string \<Rightarrow> string list \<Rightarrow> unit result" where
  "checkAddresses privateHostsAllowed label cleanHost [] = Inr ()"
| "checkAddresses privateHostsAllowed label cleanHost (address # rest) =
     (case refusalFor address of
        None \<Rightarrow> checkAddresses privateHostsAllowed label cleanHost rest
      | Some refusal \<Rightarrow>
          let isPrivate = includesStr refusal ''private'';
              what = label @ '' '' @ [CHR 0x22] @ cleanHost @ [CHR 0x22] @ '' is not allowed: '' @ refusal
          in if isPrivate \<and> privateHostsAllowed
             then checkAddresses privateHostsAllowed label cleanHost rest
             else Inl (if isPrivate
               then what @ ''. Set AI_PROVIDER_ALLOW_PRIVATE_HOSTS=true to reach a gateway on this network.''
               else what @ ''.''))"

definition assertHostAllowed ::
    "(string \<Rightarrow> string list option) \<Rightarrow> bool \<Rightarrow> string \<Rightarrow> string \<Rightarrow> unit result" where
  "assertHostAllowed lookup privateHostsAllowed host label =
     (let cleanHost = stripBrackets (toLowerCase (trim host)) in
      if cleanHost = '''' then Inl (label @ '' cannot be empty'')
      else bindR (resolveAll lookup cleanHost) (checkAddresses privateHostsAllowed label cleanHost))"

definition assertUrlHostAllowed ::
    "(string \<Rightarrow> (string \<times> string) option) \<Rightarrow> (string \<Rightarrow> string list option) \<Rightarrow> bool \<Rightarrow> string \<Rightarrow> unit result" where
  "assertUrlHostAllowed parseUrl lookup privateHostsAllowed url =
     (case parseUrl url of
        None \<Rightarrow> Inl ''Base URL must be a valid http(s) URL''
      | Some (protocol, hostname) \<Rightarrow>
          if protocol \<noteq> ''http:'' \<and> protocol \<noteq> ''https:'' then Inl ''Base URL must be a valid http(s) URL''
          else assertHostAllowed lookup privateHostsAllowed (stripBrackets hostname) ''Base URL'')"

section \<open>Lemmas\<close>

text \<open>The ranges that stay closed in every deployment, and the ones a setting opens.\<close>

definition never_open :: "nat \<Rightarrow> nat \<Rightarrow> bool" where
  "never_open a b \<longleftrightarrow> a = 127 \<or> a = 0 \<or> (a = 169 \<and> b = 254)"

definition private_range :: "nat \<Rightarrow> nat \<Rightarrow> bool" where
  "private_range a b \<longleftrightarrow> a = 10 \<or> (a = 172 \<and> 16 \<le> b \<and> b \<le> 31) \<or> (a = 192 \<and> b = 168) \<or>
     (a = 100 \<and> 64 \<le> b \<and> b \<le> 127)"

lemma show_nat_no_dot: "CHR ''.'' \<notin> set (show_nat n)" "CHR '':'' \<notin> set (show_nat n)"
  "CHR ''%'' \<notin> set (show_nat n)"
  using show_nat_digits [of n] by (auto simp: list_all_iff is_digit_def)

lemma split_dotted:
  "ns \<noteq> [] \<Longrightarrow> split_on CHR ''.'' (dotted ns) = map show_nat ns"
  unfolding dotted_def by (rule split_on_join) (auto simp: show_nat_no_dot)

lemma partNumber_show: "partNumber (show_nat n) = Some n"
  by (simp add: partNumber_def show_nat_digits)

lemma ipv4Rules_dotted:
  "a < 256 \<Longrightarrow> b < 256 \<Longrightarrow> c < 256 \<Longrightarrow> d < 256 \<Longrightarrow> ipv4Rules (dotted [a, b, c, d]) = ipv4Reason a b"
  by (simp add: ipv4Rules_def split_dotted partNumber_show)

lemma isIPv4_dotted:
  assumes "a < 256" "b < 256" "c < 256" "d < 256"
  shows "isIPv4 (dotted [a, b, c, d])"
proof -
  have "v4_part (show_nat n)" if "n < 256" for n
  proof -
    have "length (show_nat n) \<le> 3" using that by (intro length_show_nat) auto
    moreover have "length (show_nat n) = 1 \<or> hd (show_nat n) \<noteq> CHR ''0''"
    proof (cases "n = 0")
      case True
      then show ?thesis by (subst show_nat.simps) simp
    qed (simp add: hd_show_nat)
    ultimately show ?thesis using that by (simp add: v4_part_def show_nat_digits)
  qed
  then show ?thesis using assms by (simp add: isIPv4_def split_dotted)
qed

lemma ipv4Reason_cases:
  "ipv4Reason a b = Some r \<Longrightarrow> includesStr r ''private'' \<longleftrightarrow> \<not> never_open a b"
  "ipv4Reason a b = None \<longleftrightarrow> \<not> never_open a b \<and> \<not> private_range a b"
proof -
  have priv: "includesStr PRIVATE ''private''" "includesStr CARRIER ''private''"
    "\<not> includesStr LOOPBACK ''private''" "\<not> includesStr UNUSABLE ''private''"
    "\<not> includesStr LINK_LOCAL ''private''" by code_simp+
  show "ipv4Reason a b = Some r \<Longrightarrow> includesStr r ''private'' \<longleftrightarrow> \<not> never_open a b"
    using priv by (auto simp: ipv4Reason_def never_open_def split: if_splits)
  show "ipv4Reason a b = None \<longleftrightarrow> \<not> never_open a b \<and> \<not> private_range a b"
    by (auto simp: ipv4Reason_def never_open_def private_range_def)
qed

lemma checkAddresses_all:
  "checkAddresses allowed label h addrs = Inr u \<Longrightarrow> a \<in> set addrs \<Longrightarrow>
     refusalFor a = None \<or> (\<exists>r. refusalFor a = Some r \<and> includesStr r ''private'' \<and> allowed)"
  by (induction addrs) (auto simp: Let_def split: option.splits if_splits)

lemma refusalFor_dotted:
  "a < 256 \<Longrightarrow> b < 256 \<Longrightarrow> c < 256 \<Longrightarrow> d < 256 \<Longrightarrow> refusalFor (dotted [a, b, c, d]) = ipv4Reason a b"
  by (simp add: refusalFor_def isIP_def isIPv4_dotted ipv4Rules_dotted)

text \<open>
  C5. A host passes the guard only if none of the addresses it resolves to is a loopback, an unusable
  or a link-local (metadata) address, whatever the deployment allows; and private ranges pass only
  where the deployment opens them. The check sees the addresses after resolution, so the name does
  not matter.
\<close>

theorem assertHostAllowed_safe:
  assumes "assertHostAllowed lookup allowed host label = Inr ()"
    and "resolveAll lookup (stripBrackets (toLowerCase (trim host))) = Inr addrs"
    and "dotted [a, b, c, d] \<in> set addrs" "a < 256" "b < 256" "c < 256" "d < 256"
  shows "\<not> never_open a b \<and> (private_range a b \<longrightarrow> allowed)"
proof -
  have "checkAddresses allowed label (stripBrackets (toLowerCase (trim host))) addrs = Inr ()"
    using assms(1,2) by (auto simp: assertHostAllowed_def Let_def split: if_splits)
  then have "refusalFor (dotted [a, b, c, d]) = None \<or>
      (\<exists>r. refusalFor (dotted [a, b, c, d]) = Some r \<and> includesStr r ''private'' \<and> allowed)"
    using assms(3) by (rule checkAddresses_all)
  then show ?thesis using ipv4Reason_cases [of a b] assms(4-7) by (auto simp: refusalFor_dotted)
qed

theorem assertHostAllowed_safe_witness:
  "assertHostAllowed (\<lambda>h. Some [dotted [93, 184, 216, 34]]) False '' Example.COM '' ''Host'' = Inr () \<and>
   \<not> never_open 93 184 \<and> \<not> private_range 93 184"
proof -
  let ?lookup = "\<lambda>h :: string. Some [dotted [93, 184, 216, 34]]"
  have "assertHostAllowed ?lookup False '' Example.COM '' ''Host'' = Inr ()" by code_simp
  moreover have "resolveAll ?lookup (stripBrackets (toLowerCase (trim '' Example.COM ''))) =
      Inr [dotted [93, 184, 216, 34]]" by code_simp
  ultimately show ?thesis
    using assertHostAllowed_safe [of ?lookup False "'' Example.COM ''" "''Host''"
        "[dotted [93, 184, 216, 34]]" 93 184 216 34] by simp
qed

subsection \<open>Mapped addresses\<close>

lemma read_hex_less: "list_all is_hex s \<Longrightarrow> read_hex s < 16 ^ length s"
proof (induction s rule: rev_induct)
  case (snoc c s)
  have "hex_val c < 16"
    using snoc.prems by (auto simp: is_hex_def hex_val_def is_digit_def)
  moreover have "read_hex (s @ [c]) = 16 * read_hex s + hex_val c" by (simp add: read_hex_def)
  ultimately show ?case using snoc by simp
qed (simp add: read_hex_def)

lemma v6_group_less: "v6_group s \<Longrightarrow> read_hex s < 65536"
  using read_hex_less [of s] power_increasing [of "length s" 4 "16 :: nat"] by (auto simp: v6_group_def)

lemma hex_plain: "list_all is_hex s \<Longrightarrow> c \<in> {CHR ''.'', CHR '':'', CHR ''%''} \<Longrightarrow> c \<notin> set s"
  by (auto simp: list_all_iff is_hex_def is_digit_def lower_char_def is_upper_def)

text \<open>
  An IPv4-mapped IPv6 literal written in hex groups, as a URL parser re-serialises it, is judged
  exactly by the four bytes it stands for, so the metadata address is refused in this spelling too.
\<close>

lemma ipv6Rules_mapped_hex:
  assumes "v6_group h" "v6_group l" "toLowerCase h = h" "toLowerCase l = l"
  shows "ipv6Rules (''::ffff:'' @ h @ '':'' @ l) = ipv4Reason (read_hex h div 256) (read_hex h mod 256)"
proof -
  let ?v = "''::ffff:'' @ h @ '':'' @ l"
  have hex: "list_all is_hex h" "list_all is_hex l" using assms(1,2) by (auto simp: v6_group_def)
  have low: "toLowerCase ?v = ?v" using assms(3,4) by (simp add: lower_char_def is_upper_def)
  have "CHR ''%'' \<notin> set ?v" using hex hex_plain by auto
  then have "split_on CHR ''%'' ?v = [?v]" by (rule split_on_no_occ)
  then have v: "hd (split_on CHR ''%'' (toLowerCase ?v)) = ?v" unfolding low by (simp only: list.sel)
  have t: "mappedTail ?v = Some (h @ '':'' @ l)" by (simp add: mappedTail_def)
  have "CHR ''.'' \<notin> set (h @ '':'' @ l)" using hex hex_plain by auto
  then have "split_on CHR ''.'' (h @ '':'' @ l) = [h @ '':'' @ l]" by (rule split_on_no_occ)
  then have nd: "\<not> dottedTail (h @ '':'' @ l)" by (simp only: dottedTail_def Let_def) simp
  have "CHR '':'' \<notin> set h" "CHR '':'' \<notin> set l" using hex hex_plain by auto
  then have ht: "hexTail (h @ '':'' @ l) = Some (h, l)"
    using assms(1,2) by (simp add: hexTail_def split_on_append_sep split_on_no_occ)
  have "ipv6Rules ?v = ipv4Rules (dotted [read_hex h div 256, read_hex h mod 256,
      read_hex l div 256, read_hex l mod 256])"
    unfolding ipv6Rules_def Let_def v t using nd ht by simp
  also have "\<dots> = ipv4Reason (read_hex h div 256) (read_hex h mod 256)"
    using v6_group_less [OF assms(1)] v6_group_less [OF assms(2)] by (intro ipv4Rules_dotted) auto
  finally show ?thesis .
qed

end
