(* ===== verification/Connections.thy ===== *)
theory Connections
  imports Projects Secret_Crypto Host_Guard
begin

text \<open>
  Warehouse connections and Dremio sources: the normalisation of Snowflake and Databricks
  coordinates (\<open>features/connections/model/validation.ts\<close>), the operations on the rows
  (\<open>features/connections/server.ts\<close>), the route \<open>app/api/connections/route.ts\<close> and the payload of a
  connection test (\<open>features/connections/model/test-payload.ts\<close>).

  A value the source takes as \<open>unknown\<close> is an optional JSON value. The two random initialisation
  vectors a request may need come with the cipher in \<open>crypto_env\<close>; the lakehouse service of the
  runner is an argument of the routes that call it.
\<close>

section \<open>Definitions\<close>

subsection \<open>validation.ts\<close>

definition SNOWFLAKE_DOMAIN :: string where
  "SNOWFLAKE_DOMAIN = ''snowflakecomputing.com''"

definition low_alnum :: "char \<Rightarrow> bool" where
  "low_alnum c \<longleftrightarrow> is_lower c \<or> is_digit c"

definition HOST_LABEL :: rx where
  "HOST_LABEL =
     RSeq (RCls low_alnum)
       (rx_opt (RSeq (rx_upto 61 (RCls (\<lambda>c. low_alnum c \<or> c = CHR ''-''))) (RCls low_alnum)))"

definition ACCOUNT_RE :: rx where
  "ACCOUNT_RE =
     RSeq (RCls low_alnum)
       (RSeq (rx_opt (RSeq (rx_upto 253 (RCls (\<lambda>c. low_alnum c \<or> c = CHR ''_'' \<or> c = CHR ''-'')))
          (RCls low_alnum)))
         (rx_upto 3 (RSeq (rx_chr CHR ''.'') HOST_LABEL)))"

definition WORKSPACE_HOST_RE :: rx where
  "WORKSPACE_HOST_RE =
     RSeq (rx_plus (RSeq HOST_LABEL (rx_chr CHR ''.'')))
       (rx_alts [''cloud.databricks.com'', ''azuredatabricks.net'', ''gcp.databricks.com''])"

definition WAREHOUSE_PATH_RE :: rx where
  "WAREHOUSE_PATH_RE = RSeq (rx_str ''/sql/1.0/warehouses/'') (rx_times 16 (RCls low_alnum))"

definition CLUSTER_PATH_RE :: rx where
  "CLUSTER_PATH_RE =
     RSeq (rx_str ''/sql/protocolv1/o/'') (RSeq (rx_plus (RCls is_digit)) (RSeq (rx_chr CHR ''/'')
       (RSeq (RCls low_alnum)
         (rx_opt (RSeq (rx_upto 126 (RCls (\<lambda>c. low_alnum c \<or> c = CHR ''-''))) (RCls low_alnum))))))"

definition sq :: string where
  "sq = [CHR 0x27]"

definition normalizeSnowflakeAccount :: "int json option \<Rightarrow> string result" where
  "normalizeSnowflakeAccount account =
     (let v = toLowerCase (trim (StringOr account '''')) in
      if v = '''' then Inl ''A Snowflake connection needs an account identifier, for example myorg-myaccount''
      else if includesStr v SNOWFLAKE_DOMAIN \<or> list_ex (\<lambda>c. c \<in> set '':/@'') v then
        Inl (''Give only the account identifier, not a URL or host name. '' @ sq @ SNOWFLAKE_DOMAIN @ sq @
          '' and '' @ sq @ '':@/'' @ sq @ '' are not part of an account.'')
      else if \<not> rx_match ACCOUNT_RE v then
        Inl (sq @ v @ sq @ '' is not a valid Snowflake account identifier. Expected '' @ sq @
          ''orgname-accountname'' @ sq @ '' or an account locator.'')
      else Inr (map (\<lambda>c. if c = CHR ''_'' then CHR ''-'' else c) v))"

definition snowflakeAccountHost :: "int json option \<Rightarrow> string result" where
  "snowflakeAccountHost account =
     bindR (normalizeSnowflakeAccount account) (\<lambda>a. Inr (a @ ''.'' @ SNOWFLAKE_DOMAIN))"

definition normalizeDatabricksHost :: "int json option \<Rightarrow> string result" where
  "normalizeDatabricksHost host =
     (let v = toLowerCase (trim (StringOr host '''')) in
      if v = '''' then
        Inl ''A Databricks connection needs a workspace hostname, for example dbc-a1b2c3d4-e5f6.cloud.databricks.com''
      else if length v > 253 \<or> \<not> rx_match WORKSPACE_HOST_RE v then
        Inl ''Give only a Databricks workspace hostname ending in .cloud.databricks.com, .azuredatabricks.net, or .gcp.databricks.com (no scheme, port, path, or query)''
      else Inr v)"

definition normalizeDatabricksHttpPath :: "int json option \<Rightarrow> string result" where
  "normalizeDatabricksHttpPath httpPath =
     (let v = trim (StringOr httpPath '''') in
      if v = '''' \<or> (\<not> rx_match WAREHOUSE_PATH_RE v \<and> \<not> rx_match CLUSTER_PATH_RE v) then
        Inl ''Give a Databricks HTTP path shaped like /sql/1.0/warehouses/<16-character-id> or /sql/protocolv1/o/<workspace-id>/<cluster-id>''
      else Inr v)"

definition normalizeWarehouseSchema :: "int json option \<Rightarrow> string \<Rightarrow> string result" where
  "normalizeWarehouseSchema schema warehouse =
     (let v = trim (StringOr schema '''') in
      if v = '''' then
        Inl (''A '' @ warehouse @ '' connection needs a schema, for example '' @ sq @ ''PUBLIC'' @ sq @ '' or '' @
          sq @ ''analytics'' @ sq)
      else Inr v)"

record SecretFieldState =
  canKeepExisting :: bool
  isRequired :: bool

definition getSecretFieldState :: "bool \<Rightarrow> string option \<Rightarrow> string \<Rightarrow> SecretFieldState" where
  "getSecretFieldState isEdit storedAuthType selectedAuthType =
     (let keep = isEdit \<and> truthy storedAuthType \<and> storedAuthType = Some selectedAuthType in
      \<lparr> canKeepExisting = keep, isRequired = \<not> keep \<rparr>)"

subsection \<open>server.ts\<close>

record crypto_env =
  ce_cipher :: cipher
  ce_iv1 :: string
  ce_iv2 :: string

definition SECONDARY :: string where
  "SECONDARY = ''secondary_secret_encrypted''"

record CreateDremioInput =
  cd_name :: string
  cd_host :: string
  cd_port :: int
  cd_username :: string
  cd_token :: string
  cd_catalog :: "string option"
  cd_arrowFlightPort :: "int option"

definition getDremioSources :: "ctx \<Rightarrow> dremio_row table handler" where
  "getDremioSources c =
     bindS (getCurrentUserId c) (\<lambda>userId.
     readS (\<lambda>s. orderByDesc dr_createdAt (findMany (\<lambda>r. dr_createdBy r = userId) (dremioSource s))))"

definition dremioNameTaken :: "string \<Rightarrow> string \<Rightarrow> string option \<Rightarrow> db \<Rightarrow> bool" where
  "dremioNameTaken name userId except s =
     list_ex (\<lambda>(k, r). dr_name r = name \<and> dr_createdBy r = userId \<and> except \<noteq> Some k) (dremioSource s)"

definition createDremioSource :: "crypto_env \<Rightarrow> ctx \<Rightarrow> CreateDremioInput \<Rightarrow> string handler" where
  "createDremioSource ce c d =
     bindS (getCurrentUserId c) (\<lambda>userId.
     bindS (liftR (encryptSecret (ce_cipher ce) (ce_iv1 ce) (cd_token d))) (\<lambda>tokenEncrypted.
     bindS (guardS (\<lambda>s. findUnique (dremioSource s) (newId c) = None \<and>
         \<not> dremioNameTaken (cd_name d) userId None s) ''P2002'') (\<lambda>_.
     bindS (writeS (\<lambda>s. s\<lparr>dremioSource := insertRow (newId c)
         \<lparr> dr_name = cd_name d, dr_host = cd_host d, dr_port = cd_port d, dr_username = cd_username d,
           dr_tokenEncrypted = tokenEncrypted, dr_catalog = nullish (cd_catalog d) '''',
           dr_arrowFlightPort = nullish (cd_arrowFlightPort d) 32010, dr_createdBy = userId,
           dr_createdAt = now c \<rparr> (dremioSource s)\<rparr>)) (\<lambda>_.
     returnS (newId c)))))"

definition deleteDremioSource :: "ctx \<Rightarrow> string \<Rightarrow> unit handler" where
  "deleteDremioSource c rid =
     bindS (getCurrentUserId c) (\<lambda>userId.
     bindS (ensureOwnership MDremioSource rid userId) (\<lambda>_.
     writeS (deleteDremioRow rid)))"

definition getConnections :: "ctx \<Rightarrow> connection_row table handler" where
  "getConnections c =
     bindS (getCurrentUserId c) (\<lambda>userId.
     readS (\<lambda>s. orderByDesc cn_createdAt
       (findMany (\<lambda>r. cn_createdBy r = userId \<and> cn_isActive r) (connection s))))"

record ConnectionInput =
  ci_id :: "string option"
  ci_name :: string
  ci_connectionType :: "string option"
  ci_host :: string
  ci_port :: int
  ci_database :: string
  ci_username :: string
  ci_password :: "string option"
  ci_token :: "string option"
  ci_sslMode :: "string option"
  ci_extraConfig :: "int obj option"

text \<open>Sealing the second secret of a new connection: a non-empty string is encrypted, else it goes.\<close>

definition sealExtra :: "crypto_env \<Rightarrow> int obj \<Rightarrow> int obj result" where
  "sealExtra ce extra =
     (case map_of extra SECONDARY of
        Some (JStr v) \<Rightarrow>
          if v \<noteq> '''' then
            bindR (encryptSecret (ce_cipher ce) (ce_iv1 ce) v) (\<lambda>e. Inr (obj_set SECONDARY (JStr e) extra))
          else Inr (obj_del SECONDARY extra)
      | _ \<Rightarrow> Inr (obj_del SECONDARY extra))"

definition sealPassword :: "crypto_env \<Rightarrow> string option \<Rightarrow> string option result" where
  "sealPassword ce pw =
     (if truthy pw
      then bindR (encryptSecret (ce_cipher ce) (ce_iv2 ce) (the pw)) (\<lambda>e. Inr (Some e))
      else Inr None)"

definition optR :: "('a \<Rightarrow> 'b result) \<Rightarrow> 'a option \<Rightarrow> 'b option result" where
  "optR f x = (case x of None \<Rightarrow> Inr None | Some a \<Rightarrow> bindR (f a) (\<lambda>b. Inr (Some b)))"

definition createConnection :: "crypto_env \<Rightarrow> ctx \<Rightarrow> ConnectionInput \<Rightarrow> connection_row handler" where
  "createConnection ce c d =
     bindS (getCurrentUserId c) (\<lambda>userId.
     bindS (liftR (optR (sealExtra ce) (ci_extraConfig d))) (\<lambda>extraConfig.
     bindS (liftR (sealPassword ce (ci_password d))) (\<lambda>passwordEncrypted.
       let rid = nullish (ci_id d) (newId c);
           row = \<lparr> cn_name = ci_name d, cn_connectionType = nullish (ci_connectionType d) '''',
             cn_host = ci_host d, cn_port = ci_port d, cn_database = ci_database d,
             cn_username = ci_username d, cn_passwordEncrypted = passwordEncrypted,
             cn_sslMode = (case ci_sslMode d of None \<Rightarrow> Some ''prefer'' | Some m \<Rightarrow> Some m),
             cn_extraConfig = extraConfig, cn_isActive = True, cn_createdBy = userId,
             cn_createdAt = now c \<rparr>
       in bindS (guardS (\<lambda>s. findUnique (connection s) rid = None) ''P2002'') (\<lambda>_.
          bindS (writeS (\<lambda>s. s\<lparr>connection := insertRow rid row (connection s)\<rparr>)) (\<lambda>_.
          returnS row)))))"

definition deleteConnection :: "ctx \<Rightarrow> string \<Rightarrow> unit handler" where
  "deleteConnection c rid =
     bindS (getCurrentUserId c) (\<lambda>userId.
     bindS (ensureOwnership MConnection rid userId) (\<lambda>_.
     bindS (guardS (\<lambda>s. \<not> connectionInUse rid s) ''P2003'') (\<lambda>_.
     writeS (deleteConnectionRow rid))))"

definition getConnectionById :: "ctx \<Rightarrow> string \<Rightarrow> connection_row option handler" where
  "getConnectionById c rid =
     bindS (getCurrentUserId c) (\<lambda>userId.
     readS (\<lambda>s. case findUnique (connection s) rid of
         None \<Rightarrow> None | Some r \<Rightarrow> if cn_createdBy r = userId then Some r else None))"

definition getDremioSourceById :: "ctx \<Rightarrow> string \<Rightarrow> dremio_row option handler" where
  "getDremioSourceById c rid =
     bindS (getCurrentUserId c) (\<lambda>userId.
     readS (\<lambda>s. case findUnique (dremioSource s) rid of
         None \<Rightarrow> None | Some r \<Rightarrow> if dr_createdBy r = userId then Some r else None))"

text \<open>
  The second secret of an updated connection: a new string is encrypted, \<open>null\<close> removes it, and with
  nothing given the stored one is kept only for the two kinds of authentication that use it.
\<close>

definition usesSecondary :: "string \<Rightarrow> int obj \<Rightarrow> bool" where
  "usesSecondary connType extra \<longleftrightarrow>
     connType = ''snowflake'' \<and> map_of extra ''auth_type'' = Some (JStr ''keypair'') \<or>
     connType = ''databricks'' \<and> map_of extra ''auth_type'' = Some (JStr ''oauth_m2m'')"

definition resealExtra :: "crypto_env \<Rightarrow> string \<Rightarrow> int obj \<Rightarrow> int obj \<Rightarrow> int obj result" where
  "resealExtra ce connType existingExtra extra =
     (let stored = map_of existingExtra SECONDARY;
          keep =
            (if json_truthy (\<lambda>n. n = 0) stored \<and> usesSecondary connType extra
             then obj_set SECONDARY (the stored) extra else obj_del SECONDARY extra)
      in case map_of extra SECONDARY of
           Some (JStr v) \<Rightarrow>
             if v \<noteq> '''' then
               bindR (encryptSecret (ce_cipher ce) (ce_iv1 ce) v) (\<lambda>e. Inr (obj_set SECONDARY (JStr e) extra))
             else Inr keep
         | Some JNull \<Rightarrow> Inr (obj_del SECONDARY extra)
         | _ \<Rightarrow> Inr keep)"

definition rewriteConnection ::
    "ConnectionInput \<Rightarrow> int obj option \<Rightarrow> string option \<Rightarrow> connection_row \<Rightarrow> connection_row" where
  "rewriteConnection d extraConfig passwordEncrypted r =
     r\<lparr> cn_name := ci_name d,
        cn_connectionType := (if truthy (ci_connectionType d) then the (ci_connectionType d) else cn_connectionType r),
        cn_host := ci_host d, cn_port := ci_port d, cn_database := ci_database d,
        cn_username := ci_username d, cn_sslMode := ci_sslMode d,
        cn_extraConfig := (case extraConfig of None \<Rightarrow> cn_extraConfig r | Some e \<Rightarrow> Some e),
        cn_passwordEncrypted := (case passwordEncrypted of None \<Rightarrow> cn_passwordEncrypted r | Some p \<Rightarrow> Some p) \<rparr>"

definition updateConnection ::
    "crypto_env \<Rightarrow> ctx \<Rightarrow> string \<Rightarrow> ConnectionInput \<Rightarrow> connection_row option handler" where
  "updateConnection ce c rid d =
     bindS (getCurrentUserId c) (\<lambda>userId.
     bindS (ensureOwnership MConnection rid userId) (\<lambda>_.
     bindS (readS (\<lambda>s. findUnique (connection s) rid)) (\<lambda>existing.
       let existingExtra = (case existing of None \<Rightarrow> [] | Some r \<Rightarrow> nullish (cn_extraConfig r) []);
           connType = (if truthy (ci_connectionType d) then the (ci_connectionType d)
             else (case existing of None \<Rightarrow> '''' | Some r \<Rightarrow> cn_connectionType r))
       in bindS (liftR (optR (resealExtra ce connType existingExtra) (ci_extraConfig d))) (\<lambda>extraConfig.
          bindS (liftR (sealPassword ce (ci_password d))) (\<lambda>passwordEncrypted.
          bindS (writeS (\<lambda>s. s\<lparr>connection :=
              updateRow rid (rewriteConnection d extraConfig passwordEncrypted) (connection s)\<rparr>)) (\<lambda>_.
          readS (\<lambda>s. findUnique (connection s) rid)))))))"

record UpdateDremioInput =
  ud_name :: string
  ud_host :: string
  ud_port :: int
  ud_username :: string
  ud_token :: "string option"
  ud_catalog :: "string option"
  ud_arrowFlightPort :: "int option"

definition updateDremioSource ::
    "crypto_env \<Rightarrow> ctx \<Rightarrow> string \<Rightarrow> UpdateDremioInput \<Rightarrow> dremio_row option handler" where
  "updateDremioSource ce c rid d =
     bindS (getCurrentUserId c) (\<lambda>userId.
     bindS (ensureOwnership MDremioSource rid userId) (\<lambda>_.
     bindS (liftR (sealPassword ce (ud_token d))) (\<lambda>token.
     bindS (guardS (\<lambda>s. \<not> dremioNameTaken (ud_name d) userId (Some rid) s) ''P2002'') (\<lambda>_.
     bindS (writeS (\<lambda>s. s\<lparr>dremioSource := updateRow rid
         (\<lambda>r. r\<lparr> dr_name := ud_name d, dr_host := ud_host d, dr_port := ud_port d,
            dr_username := ud_username d, dr_catalog := nullish (ud_catalog d) '''',
            dr_arrowFlightPort := nullish (ud_arrowFlightPort d) 32010,
            dr_tokenEncrypted := nullish token (dr_tokenEncrypted r) \<rparr>) (dremioSource s)\<rparr>)) (\<lambda>_.
     readS (\<lambda>s. findUnique (dremioSource s) rid))))))"

subsection \<open>route.ts\<close>

definition LAKEHOUSE_TYPE :: string where
  "LAKEHOUSE_TYPE = ''ducklake''"

definition CONNECTION_TYPES :: "string list" where
  "CONNECTION_TYPES =
     [''postgresql'', ''duckdb'', ''dremio'', ''oracle'', ''spark'', ''snowflake'', ''databricks'',
      ''mysql'', ''rest'', LAKEHOUSE_TYPE]"

text \<open>
  What a route needs from outside: the resolver and the setting of the host guard, and the runner's
  lakehouse service, which answers a check with an error or the configuration to store and a release
  with an error or nothing.
\<close>

record outside =
  dns :: "string \<Rightarrow> string list option"
  allowPrivate :: bool
  checkLakehouse :: "ConnectionInput \<Rightarrow> string \<Rightarrow> int obj result"
  releaseLakehouse :: "string \<Rightarrow> unit result"

definition validateAndGuardConnection :: "outside \<Rightarrow> ConnectionInput \<Rightarrow> ConnectionInput result" where
  "validateAndGuardConnection env b =
     (let extra = nullish (ci_extraConfig b) [] in
      if ci_connectionType b = Some ''snowflake'' then
        bindR (normalizeSnowflakeAccount (map_of extra ''account'')) (\<lambda>account.
        bindR (snowflakeAccountHost (Some (JStr account))) (\<lambda>derivedHost.
        bindR (assertHostAllowed (dns env) (allowPrivate env) derivedHost ''Host'') (\<lambda>_.
        Inr (b\<lparr> ci_host := derivedHost, ci_port := 443,
          ci_extraConfig := map_option (obj_set ''account'' (JStr account)) (ci_extraConfig b) \<rparr>))))
      else if ci_connectionType b = Some ''databricks'' then
        bindR (normalizeDatabricksHost (Some (JStr (ci_host b)))) (\<lambda>normalizedHost.
        bindR (if json_truthy (\<lambda>n. n = 0) (map_of extra ''http_path'')
               then bindR (normalizeDatabricksHttpPath (map_of extra ''http_path''))
                 (\<lambda>p. Inr (map_option (obj_set ''http_path'' (JStr p)) (ci_extraConfig b)))
               else Inr (ci_extraConfig b)) (\<lambda>extra'.
        bindR (assertHostAllowed (dns env) (allowPrivate env) normalizedHost ''Host'') (\<lambda>_.
        Inr (b\<lparr> ci_host := normalizedHost, ci_port := 443, ci_extraConfig := extra' \<rparr>))))
      else Inr b)"

text \<open>A deleted column is \<open>None\<close>, or the empty string where the column is not optional.\<close>

definition omitSecrets :: "connection_row \<Rightarrow> connection_row" where
  "omitSecrets row =
     row\<lparr> cn_passwordEncrypted := None, cn_extraConfig := map_option (obj_del SECONDARY) (cn_extraConfig row) \<rparr>"

definition omitDremioSecrets :: "dremio_row \<Rightarrow> dremio_row" where
  "omitDremioSecrets row = row\<lparr> dr_tokenEncrypted := '''' \<rparr>"

datatype source_view = DremioSourceView string dremio_row | ConnectionView string connection_row

datatype connections_body =
    SourceList "source_view list"
  | SavedConnection connection_row
  | UpdatedConnection "connection_row option"
  | UpdatedDremio "dremio_row option"
  | SourceDeleted

definition connections_GET :: "ctx \<Rightarrow> db \<Rightarrow> connections_body response \<times> db" where
  "connections_GET c =
     respond readStatus SourceList
       (bindS (getConnections c) (\<lambda>connections.
        bindS (getDremioSources c) (\<lambda>dremioSources.
        returnS (map (\<lambda>(k, d). DremioSourceView k (omitDremioSecrets d)) dremioSources @
                 map (\<lambda>(k, r). ConnectionView k (omitSecrets r)) connections))))"

definition connections_POST ::
    "outside \<Rightarrow> crypto_env \<Rightarrow> ctx \<Rightarrow> ConnectionInput \<Rightarrow> db \<Rightarrow> connections_body response \<times> db" where
  "connections_POST env ce c b =
     (let saved = SavedConnection \<circ> omitSecrets in
      if nullish (ci_connectionType b) '''' \<notin> set CONNECTION_TYPES then
        badRequest (''Unsupported connectionType: '' @ nullish (ci_connectionType b) ''(missing)'' @
          ''. Supported: '' @ join '', '' CONNECTION_TYPES @ ''.'')
      else case validateAndGuardConnection env b of
          Inl e \<Rightarrow> badRequest e
        | Inr b' \<Rightarrow>
            if ci_connectionType b' = Some LAKEHOUSE_TYPE then
              (case checkLakehouse env b' (newId c) of
                 Inl e \<Rightarrow> badRequest e
               | Inr extra \<Rightarrow>
                   respond readStatus saved
                     (createConnection ce c (b'\<lparr> ci_id := Some (newId c), ci_extraConfig := Some extra \<rparr>)))
            else respond readStatus saved (createConnection ce c b'))"

definition deleteEither :: "ctx \<Rightarrow> string \<Rightarrow> unit handler" where
  "deleteEither c rid s =
     (case deleteConnection c rid s of
        (Inr u, s') \<Rightarrow> (Inr u, s')
      | (Inl e, s') \<Rightarrow> if e = NOT_OWNED then deleteDremioSource c rid s' else (Inl e, s'))"

definition connections_DELETE ::
    "outside \<Rightarrow> ctx \<Rightarrow> string option \<Rightarrow> string option \<Rightarrow> db \<Rightarrow> connections_body response \<times> db" where
  "connections_DELETE env c rid type s =
     (if \<not> truthy rid then badRequest ''id required'' s
      else
        let existing = (if type = Some ''dremio'' then None
              else (case getConnectionById c (the rid) s of (Inr r, _) \<Rightarrow> r | (Inl _, _) \<Rightarrow> None));
            released = (case existing of
                None \<Rightarrow> Inr ()
              | Some r \<Rightarrow> if cn_connectionType r = LAKEHOUSE_TYPE then releaseLakehouse env (the rid) else Inr ())
        in case released of
             Inl e \<Rightarrow> (Response 409 (Inl e), s)
           | Inr _ \<Rightarrow>
               respond writeStatus (\<lambda>_. SourceDeleted)
                 (if type = Some ''dremio'' then deleteDremioSource c (the rid)
                  else if type = Some ''connection'' then deleteConnection c (the rid)
                  else deleteEither c (the rid)) s)"

definition connections_PUT ::
    "outside \<Rightarrow> crypto_env \<Rightarrow> ctx \<Rightarrow> string option \<Rightarrow> string option \<Rightarrow> ConnectionInput \<Rightarrow> db \<Rightarrow>
     connections_body response \<times> db" where
  "connections_PUT env ce c rid type b =
     (if \<not> truthy rid then badRequest ''id required''
      else if type = Some ''dremio'' then
        respond writeStatus (UpdatedDremio \<circ> map_option omitDremioSecrets)
          (updateDremioSource ce c (the rid)
            \<lparr> ud_name = ci_name b, ud_host = ci_host b, ud_port = ci_port b, ud_username = ci_username b,
              ud_token = (if truthy (ci_token b) then ci_token b else None),
              ud_catalog = Some (ci_database b), ud_arrowFlightPort = None \<rparr>)
      else case (if truthy (ci_connectionType b) then validateAndGuardConnection env b else Inr b) of
          Inl e \<Rightarrow> badRequest e
        | Inr b' \<Rightarrow>
            (case (if ci_connectionType b' = Some LAKEHOUSE_TYPE
                   then bindR (checkLakehouse env b' (the rid)) (\<lambda>e. Inr (Some e))
                   else Inr (ci_extraConfig b')) of
               Inl e \<Rightarrow> badRequest e
             | Inr extraConfig \<Rightarrow>
                 respond writeStatus (UpdatedConnection \<circ> map_option omitSecrets)
                   (updateConnection ce c (the rid)
                     (b'\<lparr> ci_connectionType :=
                            (if nullish (ci_connectionType b') '''' \<in> set CONNECTION_TYPES
                             then ci_connectionType b' else None),
                          ci_extraConfig := extraConfig \<rparr>))))"

subsection \<open>test-payload.ts\<close>

text \<open>\<open>(extra[k] as string) || d\<close> and the copy of a property that is set.\<close>

definition orDefault :: "int obj \<Rightarrow> string \<Rightarrow> string \<Rightarrow> int json" where
  "orDefault extra k d =
     (if json_truthy (\<lambda>n. n = 0) (map_of extra k) then the (map_of extra k) else JStr d)"

definition copyTruthy :: "int obj \<Rightarrow> string \<Rightarrow> int obj \<Rightarrow> int obj" where
  "copyTruthy extra k config =
     (if json_truthy (\<lambda>n. n = 0) (map_of extra k) then obj_set k (the (map_of extra k)) config else config)"

definition copyDefined :: "int obj \<Rightarrow> string \<Rightarrow> int obj \<Rightarrow> int obj" where
  "copyDefined extra k config =
     (case map_of extra k of None \<Rightarrow> config | Some v \<Rightarrow> obj_set k v config)"

definition spread :: "int obj \<Rightarrow> int obj \<Rightarrow> int obj" where
  "spread extra config = fold (\<lambda>(k, v). obj_set k v) extra config"

definition snowflakeProfileKeys :: "string list" where
  "snowflakeProfileKeys =
     [''query_tag'', ''client_session_keep_alive'', ''connect_retries'', ''connect_timeout'',
      ''retry_on_database_errors'', ''retry_all'', ''reuse_connections'']"

definition snowflakeConfig :: "connection_row \<Rightarrow> int obj \<Rightarrow> string \<Rightarrow> string \<Rightarrow> int obj" where
  "snowflakeConfig row extra password secondarySecret =
     (let authType = (if map_of extra ''auth_type'' = Some (JStr ''keypair'') then ''keypair'' else ''password'');
          base = [(''account'', orDefault extra ''account'' ''''), (''user'', JStr (cn_username row)),
            (''auth_type'', JStr authType), (''database'', JStr (cn_database row)),
            (''schema'', orDefault extra ''schema'' '''')];
          creds =
            (if authType = ''password'' then base @ [(''password'', JStr password)]
             else base @ [(''private_key'', JStr password)] @
               (if secondarySecret \<noteq> '''' then [(''private_key_passphrase'', JStr secondarySecret)] else []));
          named = copyTruthy extra ''warehouse'' (copyTruthy extra ''role'' creds)
      in fold (copyDefined extra) snowflakeProfileKeys named)"

definition databricksConfig :: "connection_row \<Rightarrow> int obj \<Rightarrow> string \<Rightarrow> string \<Rightarrow> int obj" where
  "databricksConfig row extra password secondarySecret =
     (let authType = (if map_of extra ''auth_type'' = Some (JStr ''oauth_m2m'') then ''oauth_m2m'' else ''pat'');
          base = [(''host'', JStr (cn_host row)), (''http_path'', orDefault extra ''http_path'' ''''),
            (''auth_type'', JStr authType)];
          cat = (if cn_database row \<noteq> '''' then base @ [(''catalog'', JStr (cn_database row))] else base);
          sch = copyTruthy extra ''schema'' cat
      in if authType = ''pat'' then obj_set ''token'' (JStr password) sch
         else obj_set ''client_secret'' (JStr secondarySecret)
           (obj_set ''client_id'' (orDefault extra ''client_id'' '''') sch))"

definition sparkConfig :: "connection_row \<Rightarrow> int obj \<Rightarrow> string \<Rightarrow> int obj" where
  "sparkConfig row extra password =
     (let secretType = (case map_of extra ''secret_type'' of
              Some (JStr t) \<Rightarrow> if t = ''password'' \<or> t = ''token'' then t else ''none''
            | _ \<Rightarrow> ''none'');
          base = spread extra [(''host'', JStr (cn_host row)), (''port'', JNum (cn_port row)),
            (''schema'', JStr (cn_database row)), (''user'', JStr (cn_username row))]
      in if secretType = ''password'' then obj_set ''password'' (JStr password) base
         else if secretType = ''token'' then obj_set ''token'' (JStr password) base
         else base)"

text \<open>The result is the type and the configuration; the name is always the one of the row.\<close>

definition buildConnectionTestPayload ::
    "connection_row \<Rightarrow> string option \<Rightarrow> string option \<Rightarrow> (string \<times> string \<times> int obj) result" where
  "buildConnectionTestPayload row pw secondary =
     (let extra = nullish (cn_extraConfig row) [];
          password = nullish pw '''';
          secondarySecret = nullish secondary '''';
          t = cn_connectionType row;
          payload = (\<lambda>config. Inr (t, cn_name row, config));
          server = [(''host'', JStr (cn_host row)), (''port'', JNum (cn_port row)),
            (''user'', JStr (cn_username row))]
      in if t = ''snowflake'' then payload (snowflakeConfig row extra password secondarySecret)
         else if t = ''databricks'' then payload (databricksConfig row extra password secondarySecret)
         else if t = ''dremio'' then
           payload (spread extra (server @
             [(''dremio_space'', JStr (or_str (cn_database row) (''@'' @ cn_username row))),
              (if map_of extra ''auth_type'' = Some (JStr ''password'') then ''password'' else ''pat'',
               JStr password)]))
         else if t = ''duckdb'' then payload [(''path'', JStr (cn_database row))]
         else if t = ''oracle'' then
           payload (server @ [(''password'', JStr password), (''service'', JStr (cn_database row)),
             (''schema'', orDefault extra ''schema'' (toUpperCase (cn_username row)))])
         else if t = ''spark'' then payload (sparkConfig row extra password)
         else if t = ''postgresql'' then
           payload (server @ [(''password'', JStr password), (''dbname'', JStr (cn_database row)),
             (''schema'', orDefault extra ''schema'' ''public'')])
         else Inl (''Unhandled connection type: '' @ t))"

section \<open>Lemmas\<close>

subsection \<open>Snowflake accounts\<close>

text \<open>A pattern whose classes are closed under a character map matches the mapped string too.\<close>

fun rx_closed :: "(char \<Rightarrow> char) \<Rightarrow> rx \<Rightarrow> bool" where
  "rx_closed f RZero = True"
| "rx_closed f ROne = True"
| "rx_closed f (RCls p) = (\<forall>c. p c \<longrightarrow> p (f c))"
| "rx_closed f (RAlt r s) = (rx_closed f r \<and> rx_closed f s)"
| "rx_closed f (RSeq r s) = (rx_closed f r \<and> rx_closed f s)"
| "rx_closed f (RStar r) = rx_closed f r"

lemma lang_star_map: "s \<in> lang_star L \<Longrightarrow> (\<And>w. w \<in> L \<Longrightarrow> map f w \<in> L) \<Longrightarrow> map f s \<in> lang_star L"
  by (induction rule: lang_star.induct) (auto intro: lang_star.intros)

lemma lang_map_closed: "rx_closed f r \<Longrightarrow> s \<in> lang r \<Longrightarrow> map f s \<in> lang r"
proof (induction r arbitrary: s)
  case (RStar r)
  then show ?case by (auto intro: lang_star_map)
next
  case (RSeq r1 r2)
  then show ?case by (auto elim!: lang_seqE intro!: lang_seqI)
qed auto

lemma rx_closed_upto: "rx_closed f r \<Longrightarrow> rx_closed f (rx_upto n r)"
  by (induction n) (auto simp: rx_opt_def)

definition hyphen :: "char \<Rightarrow> char" where
  "hyphen c = (if c = CHR ''_'' then CHR ''-'' else c)"

lemma hyphen_low [simp]: "low_alnum c \<Longrightarrow> hyphen c = c"
  by (auto simp: hyphen_def low_alnum_def js_defs)

lemma account_closed: "rx_closed hyphen ACCOUNT_RE"
proof -
  have "rx_closed hyphen (RCls low_alnum)" by auto
  moreover have "rx_closed hyphen (RCls (\<lambda>c. low_alnum c \<or> c = CHR ''-''))" by (auto simp: hyphen_def)
  moreover have "rx_closed hyphen (RCls (\<lambda>c. low_alnum c \<or> c = CHR ''_'' \<or> c = CHR ''-''))"
    by (auto simp: hyphen_def)
  moreover have "rx_closed hyphen (rx_chr CHR ''.'')" by (simp add: rx_chr_def hyphen_def)
  ultimately show ?thesis
    by (simp add: ACCOUNT_RE_def HOST_LABEL_def rx_opt_def rx_closed_upto del: rx_closed.simps(3))
qed

lemma sublist_hyphen:
  assumes "sublist d (map hyphen s)" "CHR ''-'' \<notin> set d"
  shows "sublist d s"
proof -
  obtain x y where "map hyphen s = x @ d @ y" using assms(1) by (auto simp: sublist_def)
  then obtain x' t where t: "s = x' @ t" "map hyphen t = d @ y"
    by (metis map_eq_append_conv)
  then obtain d' y' where "t = d' @ y'" and d': "map hyphen d' = d"
    by (metis map_eq_append_conv)
  with t have s: "s = x' @ d' @ y'" "map hyphen d' = d" by auto
  have "map hyphen d' = d'"
    using s(2) assms(2) by (intro map_idI) (auto simp: hyphen_def split: if_splits)
  with s show ?thesis by (auto simp: sublist_def)
qed

lemma normalizeSnowflakeAccount_Inr:
  "normalizeSnowflakeAccount x = Inr a \<longleftrightarrow>
     (\<exists>v. v = toLowerCase (trim (StringOr x '''')) \<and> v \<noteq> '''' \<and> \<not> sublist SNOWFLAKE_DOMAIN v \<and>
       list_all (\<lambda>c. c \<notin> set '':/@'') v \<and> rx_match ACCOUNT_RE v \<and> a = map hyphen v)"
proof -
  have h: "(\<lambda>c. if c = CHR ''_'' then CHR ''-'' else c) = hyphen" by (simp add: fun_eq_iff hyphen_def)
  have l: "list_ex (\<lambda>c. c \<in> set '':/@'') v \<longleftrightarrow> \<not> list_all (\<lambda>c. c \<notin> set '':/@'') v" for v
    unfolding list_ex_iff list_all_iff by blast
  show ?thesis
    unfolding normalizeSnowflakeAccount_def Let_def h l by (simp split: if_split) blast
qed

lemma account_chars: "rx_match ACCOUNT_RE v \<Longrightarrow> list_all (\<lambda>c. low_alnum c \<or> c \<in> set ''._-'') v"
  using lang_chars [of v ACCOUNT_RE]
  by (auto simp: rx_match_iff list_all_iff ACCOUNT_RE_def HOST_LABEL_def)

lemma low_alnum_fixed: "low_alnum c \<or> c \<in> set ''.-'' \<Longrightarrow> lower_char c = c \<and> \<not> is_ws c"
  by (auto simp: low_alnum_def lower_char_def js_defs is_ws_def)

text \<open>
  An accepted account is already in the form used in the host name: normalising it again returns
  it, so the host derived from it always exists; and that host lies under the Snowflake domain and
  holds nothing but lower-case letters, digits, dots and hyphens, hence no scheme, port, path or user
  part.
\<close>

lemma snowflake_account_host:
  assumes "normalizeSnowflakeAccount x = Inr a"
  shows "normalizeSnowflakeAccount (Some (JStr a)) = Inr a \<and>
    snowflakeAccountHost (Some (JStr a)) = Inr (a @ ''.'' @ SNOWFLAKE_DOMAIN) \<and>
    list_all (\<lambda>c. low_alnum c \<or> c \<in> set ''.-'') (a @ ''.'' @ SNOWFLAKE_DOMAIN) \<and> a \<noteq> ''''"
proof -
  obtain v where v: "v \<noteq> ''''" "\<not> sublist SNOWFLAKE_DOMAIN v" "rx_match ACCOUNT_RE v" "a = map hyphen v"
    using assms by (auto simp: normalizeSnowflakeAccount_Inr)
  have chars: "list_all (\<lambda>c. low_alnum c \<or> c \<in> set ''.-'') a"
    using account_chars [OF v(3)] by (auto simp: v(4) list_all_iff hyphen_def)
  have fixed: "toLowerCase a = a" "trim a = a" "map hyphen a = a"
  proof -
    have "\<forall>c \<in> set a. lower_char c = c \<and> \<not> is_ws c" using chars low_alnum_fixed by (auto simp: list_all_iff)
    then show "toLowerCase a = a" "trim a = a"
      by (auto simp: toLowerCase_def list_all_iff intro: map_idI trim_no_ws)
    show "map hyphen a = a" by (auto simp: v(4) hyphen_def)
  qed
  have "rx_match ACCOUNT_RE a"
    using v(3) lang_map_closed [OF account_closed] by (simp add: v(4) rx_match_iff)
  moreover have "\<not> sublist SNOWFLAKE_DOMAIN a"
    using v(2) sublist_hyphen [of SNOWFLAKE_DOMAIN v] by (auto simp: v(4) SNOWFLAKE_DOMAIN_def)
  moreover have "list_all (\<lambda>c. c \<notin> set '':/@'') a"
    using chars by (auto simp: list_all_iff low_alnum_def js_defs)
  ultimately have norm: "normalizeSnowflakeAccount (Some (JStr a)) = Inr a"
    using v(1,4) fixed by (simp add: normalizeSnowflakeAccount_Inr StringOr_def)
  moreover have "list_all (\<lambda>c. low_alnum c \<or> c \<in> set ''.-'') SNOWFLAKE_DOMAIN"
    by (simp add: SNOWFLAKE_DOMAIN_def low_alnum_def js_defs)
  ultimately show ?thesis using chars v(1,4) by (simp add: snowflakeAccountHost_def)
qed

subsection \<open>Secrets\<close>

lemma obj_del_set [simp]: "obj_del k (obj_set k v kvs) = obj_del k kvs"
  by (induction kvs) (auto simp: obj_del_def)

text \<open>Two rows that differ at most in their secrets.\<close>

definition same_but_secrets :: "connection_row \<Rightarrow> connection_row \<Rightarrow> bool" where
  "same_but_secrets r r' \<longleftrightarrow>
     r'\<lparr>cn_passwordEncrypted := cn_passwordEncrypted r, cn_extraConfig := cn_extraConfig r\<rparr> = r \<and>
     map_option (obj_del SECONDARY) (cn_extraConfig r) = map_option (obj_del SECONDARY) (cn_extraConfig r')"

lemma omitSecrets_blind: "same_but_secrets r r' \<Longrightarrow> omitSecrets r = omitSecrets r'"
  by (cases r, cases r') (simp add: same_but_secrets_def omitSecrets_def)


definition demo_connection :: "string \<Rightarrow> connection_row" where
  "demo_connection u =
     \<lparr> cn_name = ''wh'', cn_connectionType = ''snowflake'', cn_host = ''h'', cn_port = 443,
       cn_database = ''d'', cn_username = ''u'', cn_passwordEncrypted = Some ''v1:gcm:aa:bb'',
       cn_sslMode = None,
       cn_extraConfig = Some [(''auth_type'', JStr ''keypair''), (SECONDARY, JStr ''v1:gcm:cc:dd'')],
       cn_isActive = True, cn_createdBy = u, cn_createdAt = 1 \<rparr>"


text \<open>A stored secret is in the encrypted form.\<close>

definition sealed :: "string \<Rightarrow> bool" where
  "sealed v \<longleftrightarrow> startsWith v PREFIX"

definition sealed_extra :: "int obj \<Rightarrow> bool" where
  "sealed_extra extra =
     (case map_of extra SECONDARY of None \<Rightarrow> True | Some (JStr v) \<Rightarrow> sealed v | _ \<Rightarrow> False)"

definition sealed_row :: "connection_row \<Rightarrow> bool" where
  "sealed_row r \<longleftrightarrow> pred_option sealed (cn_passwordEncrypted r) \<and> pred_option sealed_extra (cn_extraConfig r)"

definition secrets_sealed :: "db \<Rightarrow> bool" where
  "secrets_sealed s \<longleftrightarrow> list_all (\<lambda>(k, r). sealed_row r) (connection s) \<and>
     list_all (\<lambda>(k, r). sealed (dr_tokenEncrypted r)) (dremioSource s)"

lemma encryptSecret_sealed: "encryptSecret ci iv v = Inr e \<Longrightarrow> sealed e"
  by (auto simp: encryptSecret_def sealed_def Let_def case_prod_beta split: if_splits)

lemma sealPassword_sealed: "sealPassword ce pw = Inr p \<Longrightarrow> pred_option sealed p"
  by (auto simp: sealPassword_def encryptSecret_sealed split: if_splits)

lemma sealExtra_sealed: "sealExtra ce extra = Inr e \<Longrightarrow> sealed_extra e"
  by (auto simp: sealExtra_def sealed_extra_def map_of_obj_set map_of_obj_del encryptSecret_sealed
      split: option.splits json.splits if_splits)

lemma resealExtra_sealed:
  "sealed_extra old \<Longrightarrow> resealExtra ce t old extra = Inr e \<Longrightarrow> sealed_extra e"
  by (auto simp: resealExtra_def Let_def sealed_extra_def map_of_obj_set map_of_obj_del
      encryptSecret_sealed json_truthy_def split: option.splits json.splits if_splits)

lemma list_all_updateRow:
  "list_all (\<lambda>(k, r). P r) t \<Longrightarrow> (\<And>r. (rid, r) \<in> set t \<Longrightarrow> P r \<Longrightarrow> P (f r)) \<Longrightarrow>
     list_all (\<lambda>(k, r). P r) (updateRow rid f t)"
  by (fastforce simp: updateRow_def list_all_iff)

lemma list_all_deleteRow: "list_all p t \<Longrightarrow> list_all p (deleteRow rid t)"
  by (auto simp: deleteRow_def list_all_iff)


lemmas connection_ops = createConnection_def updateConnection_def deleteConnection_def
  getConnections_def getConnectionById_def createDremioSource_def updateDremioSource_def
  deleteDremioSource_def getDremioSources_def getDremioSourceById_def

lemma optR_Inr: "optR f x = Inr y \<longleftrightarrow> (case x of None \<Rightarrow> y = None | Some a \<Rightarrow> \<exists>b. f a = Inr b \<and> y = Some b)"
  by (auto simp: optR_def split: option.splits)

text \<open>What a successful write of a connection does, without the handler plumbing.\<close>

lemma createConnection_ok:
  "createConnection ce c d s = (Inr row, s') \<Longrightarrow>
     \<exists>rid extra pw. actor c s = Some (cn_createdBy row) \<and> findUnique (connection s) rid = None \<and>
       optR (sealExtra ce) (ci_extraConfig d) = Inr extra \<and> sealPassword ce (ci_password d) = Inr pw \<and>
       cn_extraConfig row = extra \<and> cn_passwordEncrypted row = pw \<and>
       s' = s\<lparr>connection := insertRow rid row (connection s)\<rparr>"
  by (auto simp: createConnection_def handler_simps Let_def split: option.splits sum.splits if_splits)

lemma updateConnection_ok:
  assumes "updateConnection ce c rid d s = (Inr out, s')"
  obtains u old extra pw connType where "actor c s = Some u" "findUnique (connection s) rid = Some old"
    "cn_createdBy old = u"
    "connType = (if truthy (ci_connectionType d) then the (ci_connectionType d) else cn_connectionType old)"
    "optR (resealExtra ce connType (nullish (cn_extraConfig old) [])) (ci_extraConfig d) = Inr extra"
    "sealPassword ce (ci_password d) = Inr pw"
    "out = Some (rewriteConnection d extra pw old)"
    "s' = s\<lparr>connection := updateRow rid (rewriteConnection d extra pw) (connection s)\<rparr>"
  using assms that
  by (auto simp: updateConnection_def handler_simps table_simps Let_def
      split: option.splits sum.splits if_splits)

lemma rewrite_sealed:
  assumes "sealed_row r" "pred_option sealed pw" "pred_option sealed_extra extra"
  shows "sealed_row (rewriteConnection d extra pw r)"
  using assms by (auto simp: sealed_row_def rewriteConnection_def split: option.splits)

lemma sealed_row_in: "secrets_sealed s \<Longrightarrow> (k, r) \<in> set (connection s) \<Longrightarrow> sealed_row r"
  by (auto simp: secrets_sealed_def list_all_iff)

lemma updateConnection_sealed:
  assumes "secrets_sealed s" "updateConnection ce c rid d s = (Inr out, s')"
  shows "secrets_sealed s'"
proof -
  obtain old extra pw t where old: "findUnique (connection s) rid = Some old"
    and extra: "optR (resealExtra ce t (nullish (cn_extraConfig old) [])) (ci_extraConfig d) = Inr extra"
    and pw: "sealPassword ce (ci_password d) = Inr pw"
    and s': "s' = s\<lparr>connection := updateRow rid (rewriteConnection d extra pw) (connection s)\<rparr>"
    using updateConnection_ok [OF assms(2)] by metis
  have "sealed_extra (nullish (cn_extraConfig old) [])"
    using sealed_row_in [OF assms(1) findUnique_in_set [OF old]]
    by (cases "cn_extraConfig old") (auto simp: sealed_row_def sealed_extra_def)
  then have "pred_option sealed_extra extra"
    using extra resealExtra_sealed by (auto simp: optR_Inr split: option.splits)
  then show ?thesis
    using assms(1) sealPassword_sealed [OF pw]
    by (auto simp: s' secrets_sealed_def intro!: list_all_updateRow rewrite_sealed)
qed

lemma createConnection_sealed:
  assumes "secrets_sealed s" "createConnection ce c d s = (Inr row, s')"
  shows "secrets_sealed s'"
proof -
  obtain k where "sealed_row row" "s' = s\<lparr>connection := insertRow k row (connection s)\<rparr>"
    using createConnection_ok [OF assms(2)] sealPassword_sealed sealExtra_sealed
    by (fastforce simp: sealed_row_def optR_Inr split: option.splits)
  then show ?thesis using assms(1) by (auto simp: secrets_sealed_def insertRow_def)
qed

lemma connection_errors_pure:
  "createConnection ce c d s = (Inl e, s') \<Longrightarrow> s' = s"
  "updateConnection ce c rid d s = (Inl e, s') \<Longrightarrow> s' = s"
  by (auto simp: createConnection_def updateConnection_def handler_simps Let_def
      split: option.splits sum.splits if_splits)

text \<open>
  C7. Secrets at rest stay encrypted: if every stored password, second secret and Dremio token is in
  the encrypted form, it is so after any create, update or delete of a connection or a Dremio source,
  whatever the request holds and whether the operation succeeds or fails.
\<close>

theorem connection_writes_keep_secrets_sealed:
  assumes "secrets_sealed s"
  shows "secrets_sealed (snd (createConnection ce c d s)) \<and>
    secrets_sealed (snd (updateConnection ce c rid d s)) \<and>
    secrets_sealed (snd (deleteConnection c rid s)) \<and>
    secrets_sealed (snd (createDremioSource ce c cd s)) \<and>
    secrets_sealed (snd (updateDremioSource ce c rid ud s)) \<and>
    secrets_sealed (snd (deleteDremioSource c rid s))"
proof (intro conjI)
  show "secrets_sealed (snd (createConnection ce c d s))"
    by (rule handler_cases [of "createConnection ce c d"])
      (use assms createConnection_sealed connection_errors_pure(1) in metis)+
  show "secrets_sealed (snd (updateConnection ce c rid d s))"
    by (rule handler_cases [of "updateConnection ce c rid d"])
      (use assms updateConnection_sealed connection_errors_pure(2) in metis)+
  show "secrets_sealed (snd (deleteConnection c rid s))"
    using assms by (auto simp: connection_ops handler_simps deleteConnectionRow_def secrets_sealed_def
        intro: list_all_deleteRow split: option.splits)
  show "secrets_sealed (snd (createDremioSource ce c cd s))"
    using assms by (auto simp: connection_ops handler_simps secrets_sealed_def insertRow_def
        encryptSecret_sealed split: option.splits sum.splits)
  show "secrets_sealed (snd (updateDremioSource ce c rid ud s))"
    using assms sealPassword_sealed
    by (fastforce simp: connection_ops handler_simps secrets_sealed_def nullish_def
        intro!: list_all_updateRow split: option.splits sum.splits)
  show "secrets_sealed (snd (deleteDremioSource c rid s))"
    using assms by (auto simp: connection_ops handler_simps deleteDremioRow_def secrets_sealed_def
        intro: list_all_deleteRow split: option.splits)
qed


definition demo_env :: crypto_env where
  "demo_env = \<lparr> ce_cipher = demo_cipher, ce_iv1 = ''abcdefghijkl'', ce_iv2 = ''mnopqrstuvwx'' \<rparr>"

definition demo_input :: ConnectionInput where
  "demo_input =
     \<lparr> ci_id = None, ci_name = ''wh'', ci_connectionType = Some ''snowflake'', ci_host = ''h'',
       ci_port = 443, ci_database = ''d'', ci_username = ''u'', ci_password = None, ci_token = None,
       ci_sslMode = None, ci_extraConfig = Some [(''auth_type'', JStr ''keypair'')] \<rparr>"

definition demo_conn_db :: db where
  "demo_conn_db = demo_db\<lparr>connection := [(''c1'', demo_connection demo_user), (''c2'', demo_connection other_user)]\<rparr>"

theorem connection_writes_keep_secrets_sealed_witness:
  "secrets_sealed demo_conn_db \<and>
   secrets_sealed (snd (updateConnection demo_env demo_ctx ''c1''
     (demo_input\<lparr>ci_password := Some ''new''\<rparr>) demo_conn_db))"
proof -
  have s: "secrets_sealed demo_conn_db"
    by (simp add: secrets_sealed_def demo_conn_db_def demo_db_def empty_db_def demo_connection_def
        sealed_row_def sealed_extra_def sealed_def PREFIX_def SECONDARY_def)
  with connection_writes_keep_secrets_sealed [OF s] show ?thesis by blast
qed

subsection \<open>Updates\<close>

text \<open>
  An update of a connection keeps exactly the secrets it should: the password is replaced when
  the request brings a new one and kept otherwise; when the configuration is rewritten without a
  second secret, the stored one survives exactly for Snowflake key pairs and Databricks OAuth; the
  owner never changes.
\<close>

lemma updateConnection_retention:
  assumes "updateConnection ce c rid d s = (Inr out, s')"
    and "findUnique (connection s) rid = Some old" "cn_extraConfig old = Some oldExtra"
    and "ci_extraConfig d = Some extra" "map_of extra SECONDARY = None"
    and "map_of oldExtra SECONDARY = Some (JStr stored)" "stored \<noteq> ''''"
  shows "\<exists>new newExtra. findUnique (connection s') rid = Some new \<and> out = Some new \<and>
    cn_createdBy new = cn_createdBy old \<and> Some (cn_createdBy old) = actor c s \<and>
    cn_extraConfig new = Some newExtra \<and>
    map_of newExtra SECONDARY =
      (if usesSecondary (cn_connectionType new) extra then Some (JStr stored) else None) \<and>
    (\<not> truthy (ci_password d) \<longrightarrow> cn_passwordEncrypted new = cn_passwordEncrypted old) \<and>
    (truthy (ci_password d) \<longrightarrow>
      (\<exists>e. encryptSecret (ce_cipher ce) (ce_iv2 ce) (the (ci_password d)) = Inr e \<and>
        cn_passwordEncrypted new = Some e))"
proof -
  obtain u o' ex pw t where ok: "actor c s = Some u" "findUnique (connection s) rid = Some o'"
    "cn_createdBy o' = u"
    "t = (if truthy (ci_connectionType d) then the (ci_connectionType d) else cn_connectionType o')"
    "optR (resealExtra ce t (nullish (cn_extraConfig o') [])) (ci_extraConfig d) = Inr ex"
    and pw: "sealPassword ce (ci_password d) = Inr pw"
    and out': "out = Some (rewriteConnection d ex pw o')"
    and s': "s' = s\<lparr>connection := updateRow rid (rewriteConnection d ex pw) (connection s)\<rparr>"
    by (rule updateConnection_ok [OF assms(1)])
  have o': "o' = old" using ok(2) assms(2) by simp
  note own = ok(1) [folded ok(3), unfolded o'] and t = ok(4) [unfolded o'] and ex = ok(5) [unfolded o']
    and out = out' [unfolded o']
  have ex': "ex = Some (if usesSecondary t extra then obj_set SECONDARY (JStr stored) extra
      else obj_del SECONDARY extra)"
    using ex assms(3-7) by (auto simp: optR_Inr resealExtra_def Let_def json_truthy_def)
  have row: "findUnique (connection s') rid = Some (rewriteConnection d ex pw old)"
    using assms(2) by (simp add: s' table_simps)
  have t': "cn_connectionType (rewriteConnection d ex pw old) = t"
    by (simp add: rewriteConnection_def t)
  have pw': "(\<not> truthy (ci_password d) \<longrightarrow> pw = None) \<and> (truthy (ci_password d) \<longrightarrow>
      (\<exists>e. encryptSecret (ce_cipher ce) (ce_iv2 ce) (the (ci_password d)) = Inr e \<and> pw = Some e))"
    using pw by (auto simp: sealPassword_def)
  show ?thesis
    by (rule exI [of _ "rewriteConnection d ex pw old"], rule exI [of _ "the ex"])
      (use row out own t' ex' pw' in \<open>auto simp: rewriteConnection_def map_of_obj_set map_of_obj_del\<close>)
qed

subsection \<open>The delete route\<close>

lemma deleteConnection_run:
  "deleteConnection c rid s =
     (case actor c s of None \<Rightarrow> (Inl NOT_AUTHENTICATED, s)
      | Some u \<Rightarrow> if ownerOf MConnection s rid \<noteq> Some u then (Inl NOT_OWNED, s)
          else if connectionInUse rid s then (Inl ''P2003'', s) else (Inr (), deleteConnectionRow rid s))"
  by (auto simp: deleteConnection_def handler_simps split: option.splits)

lemma deleteDremioSource_run:
  "deleteDremioSource c rid s =
     (case actor c s of None \<Rightarrow> (Inl NOT_AUTHENTICATED, s)
      | Some u \<Rightarrow> if ownerOf MDremioSource s rid \<noteq> Some u then (Inl NOT_OWNED, s)
          else (Inr (), deleteDremioRow rid s))"
  by (auto simp: deleteDremioSource_def handler_simps split: option.splits)



definition demo_outside :: outside where
  "demo_outside =
     \<lparr> dns = (\<lambda>_. None), allowPrivate = False, checkLakehouse = (\<lambda>_ _. Inl ''down''),
       releaseLakehouse = (\<lambda>_. Inr ()) \<rparr>"


end
