(* ===== verification/Env_Vars.thy ===== *)
theory Env_Vars
  imports Connections
begin

text \<open>
  The environment variables of a project: which names are accepted
  (\<open>features/projects/model/env-vars.ts\<close>) and the route that lists and replaces them
  (\<open>app/api/projects/[projectId]/env-vars/route.ts\<close>). The route has no \<open>catch\<close>: an exception is the
  framework's answer 500. The random vectors and the fresh identifiers of one request are indexed by
  the position of the variable; the transaction is one write.
\<close>

section \<open>Definitions\<close>

subsection \<open>env-vars.ts\<close>

definition ENV_NAME_RE :: rx where
  "ENV_NAME_RE =
     RSeq (RCls (\<lambda>c. is_alpha c \<or> c = CHR ''_'')) (rx_upto 127 (RCls (\<lambda>c. is_alnum c \<or> c = CHR ''_'')))"

definition DBT_PROFILE_SECRET_PREFIX :: string where
  "DBT_PROFILE_SECRET_PREFIX = ''DBT_ENV_SECRET_DBT_CRAFT_''"

definition DBT_LAKE_CATALOG_PASSWORD_ENV :: string where
  "DBT_LAKE_CATALOG_PASSWORD_ENV = ''DBT_ENV_SECRET_LAKE_CATALOG_PASSWORD''"

definition LEGACY_DBT_CLI_FLAGS :: "string list" where
  "LEGACY_DBT_CLI_FLAGS =
     [''DBT_ARTIFACT_STATE_PATH'', ''DBT_CACHE_SELECTED_ONLY'', ''DBT_CLEAN_PROJECT_FILES_ONLY'',
      ''DBT_DEBUG'', ''DBT_DEFER'', ''DBT_DEFER_STATE'', ''DBT_DEFER_TO_STATE'', ''DBT_EMPTY'',
      ''DBT_EVENT_TIME_END'', ''DBT_EVENT_TIME_START'', ''DBT_EXCLUDE_RESOURCE_TYPES'',
      ''DBT_EXPORT_SAVED_QUERIES'', ''DBT_FAIL_FAST'', ''DBT_FAVOR_STATE'', ''DBT_FAVOR_STATE_MODE'',
      ''DBT_FULL_REFRESH'', ''DBT_HOST'', ''DBT_INCLUDE_SAVED_QUERY'', ''DBT_INDIRECT_SELECTION'',
      ''DBT_INTROSPECT'', ''DBT_LOG_CACHE_EVENTS'', ''DBT_LOG_FILE_MAX_BYTES'', ''DBT_LOG_FORMAT'',
      ''DBT_LOG_FORMAT_FILE'', ''DBT_LOG_LEVEL'', ''DBT_LOG_LEVEL_FILE'', ''DBT_LOG_PATH'',
      ''DBT_MACRO_DEBUGGING'', ''DBT_NO_PRINT'', ''DBT_PACKAGES_INSTALL_PATH'', ''DBT_PARTIAL_PARSE'',
      ''DBT_PARTIAL_PARSE_FILE_DIFF'', ''DBT_PARTIAL_PARSE_FILE_PATH'', ''DBT_POPULATE_CACHE'',
      ''DBT_PRINT'', ''DBT_PRINTER_WIDTH'', ''DBT_PROFILE'', ''DBT_PROFILES_DIR'', ''DBT_PROJECT_DIR'',
      ''DBT_QUIET'', ''DBT_RESOURCE_TYPES'', ''DBT_SAMPLE'', ''DBT_SEND_ANONYMOUS_USAGE_STATS'',
      ''DBT_SHOW_RESOURCE_REPORT'', ''DBT_SINGLE_THREADED'', ''DBT_STATE'', ''DBT_STATIC_PARSER'',
      ''DBT_STORE_FAILURES'', ''DBT_TARGET'', ''DBT_TARGET_PATH'',
      ''DBT_UPLOAD_TO_ARTIFACTS_INGEST_API'', ''DBT_USE_COLORS'', ''DBT_USE_COLORS_FILE'',
      ''DBT_USE_EXPERIMENTAL_PARSER'', ''DBT_USE_FAST_TEST_EDGES'', ''DBT_VERSION_CHECK'',
      ''DBT_WARN_ERROR'', ''DBT_WARN_ERROR_OPTIONS'', ''DBT_WRITE_JSON'']"

text \<open>\<open>name.replace(/^DBT_/, '')\<close>.\<close>

definition dropDbt :: "string \<Rightarrow> string" where
  "dropDbt name = (if startsWith name ''DBT_'' then drop 4 name else name)"

definition FORBIDDEN_DBT_CLI_ENV_VARS :: "string list" where
  "FORBIDDEN_DBT_CLI_ENV_VARS =
     LEGACY_DBT_CLI_FLAGS @ [''DBT_ENGINE_SQLPARSE''] @
     map (\<lambda>name. ''DBT_ENGINE_'' @ dropDbt name) LEGACY_DBT_CLI_FLAGS"

definition getForbiddenEnvVarReason :: "string \<Rightarrow> string option" where
  "getForbiddenEnvVarReason name =
     (let normalized = toUpperCase name in
      if normalized \<in> set FORBIDDEN_DBT_CLI_ENV_VARS then Some ''dbt treats it as a CLI option''
      else if normalized \<in> set [''PATH'', ''HOME'', ''VIRTUAL_ENV''] then
        Some ''it controls the dbt process environment''
      else if startsWith normalized ''PYTHON'' \<or> startsWith normalized ''LD_'' \<or>
              startsWith normalized ''DYLD_'' \<or> startsWith normalized ''UV_'' then
        Some ''it controls Python or native code loading''
      else if startsWith normalized DBT_PROFILE_SECRET_PREFIX \<or> normalized = DBT_LAKE_CATALOG_PASSWORD_ENV then
        Some ''it is reserved for a server-managed credential''
      else None)"

definition validateEnvVarName :: "string \<Rightarrow> unit result" where
  "validateEnvVarName name =
     (if name = '''' then Inl ''Environment variable name cannot be empty''
      else if \<not> rx_match ENV_NAME_RE name then Inl (''Invalid environment variable name: '' @ name)
      else case getForbiddenEnvVarReason name of
          Some reason \<Rightarrow> Inl (''Environment variable '' @ sq @ name @ sq @ '' is not allowed because '' @ reason)
        | None \<Rightarrow> Inr ())"

subsection \<open>The route\<close>

record env_view =
  vw_id :: string
  vw_name :: string
  vw_type :: string
  vw_hasValue :: bool
  vw_updatedAt :: nat

definition serializeEnvVar :: "string \<times> env_row \<Rightarrow> env_view" where
  "serializeEnvVar row =
     \<lparr> vw_id = fst row, vw_name = ev_name (snd row),
       vw_type = (if ev_type (snd row) = ''password'' then ''password'' else ''text''),
       vw_hasValue = (ev_valueEncrypted (snd row) \<noteq> ''''), vw_updatedAt = ev_updatedAt (snd row) \<rparr>"

definition ownVars :: "db \<Rightarrow> string \<Rightarrow> string \<Rightarrow> env_row table" where
  "ownVars s projectId userId =
     findMany (\<lambda>r. ev_projectId r = projectId \<and> ev_owner r = userId) (dbtEnvironmentVariable s)"

definition envVars_GET :: "ctx \<Rightarrow> string \<Rightarrow> db \<Rightarrow> env_view list response \<times> db" where
  "envVars_GET c projectId s =
     (case getSessionOrNull c of
        None \<Rightarrow> (Response 401 (Inl NOT_AUTHENTICATED), s)
      | Some userId \<Rightarrow>
          if \<not> liveProjectOf s projectId userId then (Response 404 (Inl ''Project not found''), s)
          else (Response 200 (Inr (map serializeEnvVar (orderByName ev_name (ownVars s projectId userId)))), s))"

text \<open>One entry of the body; a property of something that is no object is undefined.\<close>

definition itemField :: "int json \<Rightarrow> string \<Rightarrow> int json option" where
  "itemField item k = (case item of JObj kvs \<Rightarrow> map_of kvs k | _ \<Rightarrow> None)"

definition stringField :: "int json \<Rightarrow> string \<Rightarrow> string option" where
  "stringField item k = (case itemField item k of Some (JStr v) \<Rightarrow> Some v | _ \<Rightarrow> None)"

record replacement =
  rp_name :: string
  rp_type :: string
  rp_valueEncrypted :: string

text \<open>
  The loop over the body, with the variables stored before, the position, the names seen and the
  replacements collected so far; an error carries the status of its response. Reading a property of
  \<open>null\<close> throws.
\<close>

fun collectVars :: "cipher \<Rightarrow> (nat \<Rightarrow> string) \<Rightarrow> (string \<Rightarrow> env_row option) \<Rightarrow> nat \<Rightarrow> string list \<Rightarrow>
    replacement list \<Rightarrow> int json list \<Rightarrow> (nat \<times> string) + replacement list" where
  "collectVars ci ivs existing i seen acc [] = Inr acc"
| "collectVars ci ivs existing i seen acc (item # items) =
     (if item = JNull then Inl (500, ''Cannot read properties of null'')
      else
        let name = trim (nullish (stringField item ''name'') '''') in
        if name = '''' then collectVars ci ivs existing (Suc i) seen acc items
        else case validateEnvVarName name of
            Inl e \<Rightarrow> Inl (400, e)
          | Inr _ \<Rightarrow>
              if name \<in> set seen then Inl (400, ''Duplicate environment variable name: '' @ name)
              else
                let type = (if itemField item ''type'' = Some (JStr ''password'') then ''password'' else ''text'');
                    push = (\<lambda>v. collectVars ci ivs existing (Suc i) (seen @ [name])
                      (acc @ [\<lparr>rp_name = name, rp_type = type, rp_valueEncrypted = v\<rparr>]) items)
                in if (case stringField item ''type'' of None \<Rightarrow> False | Some t \<Rightarrow> t \<notin> set [''text'', ''password''])
                   then Inl (400, ''Invalid environment variable type for '' @ name)
                   else if truthy (stringField item ''value'') then
                     (case encryptSecret ci (ivs i) (the (stringField item ''value'')) of
                        Inl e \<Rightarrow> Inl (500, e)
                      | Inr v \<Rightarrow> push v)
                   else if itemField item ''keepExisting'' = Some (JBool True) \<and> existing name \<noteq> None then
                     push (ev_valueEncrypted (the (existing name)))
                   else Inl (400, ''Missing value for environment variable: '' @ name))"

text \<open>\<open>new Map(rows.map(row => [row.name, row]))\<close>: the last row of a name counts.\<close>

definition existingByName :: "env_row table \<Rightarrow> string \<Rightarrow> env_row option" where
  "existingByName rows = map_of (rev (map (\<lambda>(k, r). (ev_name r, r)) rows))"

definition newVars :: "ctx \<Rightarrow> (nat \<Rightarrow> string) \<Rightarrow> string \<Rightarrow> string \<Rightarrow> replacement list \<Rightarrow> env_row table" where
  "newVars c ids projectId userId rps =
     map (\<lambda>(i, rp). (ids i, \<lparr> ev_projectId = projectId, ev_owner = userId, ev_name = rp_name rp,
         ev_type = rp_type rp, ev_valueEncrypted = rp_valueEncrypted rp, ev_updatedAt = now c \<rparr>))
       (zip [0..<length rps] rps)"

definition envVars_PUT ::
    "cipher \<Rightarrow> (nat \<Rightarrow> string) \<Rightarrow> (nat \<Rightarrow> string) \<Rightarrow> ctx \<Rightarrow> string \<Rightarrow> int json option \<Rightarrow> db \<Rightarrow>
     env_view list response \<times> db" where
  "envVars_PUT ci ivs ids c projectId reqBody s =
     (case getSessionOrNull c of
        None \<Rightarrow> (Response 401 (Inl NOT_AUTHENTICATED), s)
      | Some userId \<Rightarrow>
          if \<not> liveProjectOf s projectId userId then (Response 404 (Inl ''Project not found''), s)
          else (case reqBody of
              Some (JArr items) \<Rightarrow>
                (case collectVars ci ivs (existingByName (ownVars s projectId userId)) 0 [] [] items of
                   Inl (st, e) \<Rightarrow> (Response st (Inl e), s)
                 | Inr rps \<Rightarrow>
                     let others = deleteMany (\<lambda>r. ev_projectId r = projectId \<and> ev_owner r = userId)
                           (dbtEnvironmentVariable s);
                         fresh = newVars c ids projectId userId rps
                     in if distinct (map fst (others @ fresh)) then
                          let s' = s\<lparr>dbtEnvironmentVariable := others @ fresh\<rparr>
                          in (Response 200 (Inr (map serializeEnvVar (orderByName ev_name (ownVars s' projectId userId)))), s')
                        else (Response 500 (Inl ''P2002''), s))
            | _ \<Rightarrow> (Response 400 (Inl ''Expected an array of environment variables''), s)))"

section \<open>Lemmas\<close>

subsection \<open>Names\<close>

text \<open>
  No accepted name, in any mixture of upper and lower case, reaches a variable that steers dbt,
  the process or code loading, or a credential the server manages: its upper-case form is none of the
  listed flags (nor their engine form), not PATH, HOME or VIRTUAL_ENV, and has none of the reserved
  prefixes; and it is an identifier of at most 128 characters.
\<close>

lemma validateEnvVarName_safe:
  assumes "validateEnvVarName name = Inr ()" "toUpperCase other = toUpperCase name"
  shows "other \<notin> set LEGACY_DBT_CLI_FLAGS \<and>
    (\<forall>flag \<in> set LEGACY_DBT_CLI_FLAGS. other \<noteq> ''DBT_ENGINE_'' @ dropDbt flag) \<and>
    other \<notin> {''PATH'', ''HOME'', ''VIRTUAL_ENV'', DBT_LAKE_CATALOG_PASSWORD_ENV} \<and>
    \<not> startsWith other ''PYTHON'' \<and> \<not> startsWith other ''LD_'' \<and> \<not> startsWith other ''DYLD_'' \<and>
    \<not> startsWith other ''UV_'' \<and> \<not> startsWith other DBT_PROFILE_SECRET_PREFIX \<and>
    name \<noteq> '''' \<and> length name \<le> 128 \<and> list_all (\<lambda>c. is_alnum c \<or> c = CHR ''_'') name"
proof -
  let ?n = "toUpperCase name"
  have ok: "rx_match ENV_NAME_RE name" "getForbiddenEnvVarReason name = None"
    using assms(1) by (auto simp: validateEnvVarName_def split: if_splits option.splits)
  have n: "?n \<notin> set FORBIDDEN_DBT_CLI_ENV_VARS" "?n \<notin> {''PATH'', ''HOME'', ''VIRTUAL_ENV''}"
    "\<not> startsWith ?n ''PYTHON''" "\<not> startsWith ?n ''LD_''" "\<not> startsWith ?n ''DYLD_''"
    "\<not> startsWith ?n ''UV_''" "\<not> startsWith ?n DBT_PROFILE_SECRET_PREFIX"
    "?n \<noteq> DBT_LAKE_CATALOG_PASSWORD_ENV"
    using ok(2) by (auto simp: getForbiddenEnvVarReason_def Let_def split: if_splits)
  have up: "toUpperCase w = w" if "w \<in> set FORBIDDEN_DBT_CLI_ENV_VARS" for w
  proof -
    have "list_all (\<lambda>w. toUpperCase w = w) FORBIDDEN_DBT_CLI_ENV_VARS" by code_simp
    then show ?thesis using that by (simp add: list_all_iff)
  qed
  have up': "toUpperCase w = w" if "w \<in> {''PATH'', ''HOME'', ''VIRTUAL_ENV'', ''PYTHON'', ''LD_'', ''DYLD_'',
      ''UV_'', DBT_PROFILE_SECRET_PREFIX, DBT_LAKE_CATALOG_PASSWORD_ENV}" for w
  proof -
    have "list_all (\<lambda>w. toUpperCase w = w) [''PATH'', ''HOME'', ''VIRTUAL_ENV'', ''PYTHON'', ''LD_'', ''DYLD_'',
      ''UV_'', DBT_PROFILE_SECRET_PREFIX, DBT_LAKE_CATALOG_PASSWORD_ENV]" by code_simp
    then show ?thesis using that by (auto simp: list_all_iff)
  qed
  have pre: "startsWith ?n w" if "startsWith other w" "toUpperCase w = w" for w
    using that assms(2) by (metis prefix_def toUpperCase_simps(3))
  have mem: "other \<notin> set FORBIDDEN_DBT_CLI_ENV_VARS" using n(1) up assms(2) by metis
  have "other \<notin> {''PATH'', ''HOME'', ''VIRTUAL_ENV'', DBT_LAKE_CATALOG_PASSWORD_ENV}"
    using n(2,8) up' assms(2) by (metis insert_iff singletonD)
  moreover have "name \<noteq> '''' \<and> length name \<le> 128 \<and> list_all (\<lambda>c. is_alnum c \<or> c = CHR ''_'') name"
    using ok(1) by (auto simp: rx_match_iff ENV_NAME_RE_def rx_lang is_alnum_def simp del: lang.simps)
  moreover have "other \<notin> set LEGACY_DBT_CLI_FLAGS"
    "\<forall>flag \<in> set LEGACY_DBT_CLI_FLAGS. other \<noteq> ''DBT_ENGINE_'' @ dropDbt flag"
    using mem by (auto simp only: FORBIDDEN_DBT_CLI_ENV_VARS_def set_append set_map Un_iff image_iff)
  ultimately show ?thesis using n(3-7) pre up' by blast
qed

subsection \<open>Replacing the variables\<close>

definition good_replacement :: "(string \<Rightarrow> env_row option) \<Rightarrow> replacement \<Rightarrow> bool" where
  "good_replacement existing rp \<longleftrightarrow>
     validateEnvVarName (rp_name rp) = Inr () \<and> rp_type rp \<in> {''text'', ''password''} \<and>
     (sealed (rp_valueEncrypted rp) \<or>
      (\<exists>r. existing (rp_name rp) = Some r \<and> rp_valueEncrypted rp = ev_valueEncrypted r))"

lemma collectVars_good:
  "collectVars ci ivs existing i seen acc items = Inr rps \<Longrightarrow> map rp_name acc = seen \<Longrightarrow> distinct seen \<Longrightarrow>
     list_all (good_replacement existing) acc \<Longrightarrow>
     distinct (map rp_name rps) \<and> list_all (good_replacement existing) rps"
proof (induction items arbitrary: i seen acc)
  case (Cons item items)
  let ?name = "trim (nullish (stringField item ''name'') '''')"
  let ?push = "\<lambda>t v. collectVars ci ivs existing (Suc i) (seen @ [?name])
     (acc @ [\<lparr>rp_name = ?name, rp_type = t, rp_valueEncrypted = v\<rparr>]) items"
  have step: "distinct (map rp_name rps) \<and> list_all (good_replacement existing) rps"
    if "?push t v = Inr rps" "validateEnvVarName ?name = Inr ()" "?name \<notin> set seen" "t \<in> {''text'', ''password''}"
      "sealed v \<or> (\<exists>r. existing ?name = Some r \<and> v = ev_valueEncrypted r)" for t v
  proof -
    have "good_replacement existing \<lparr>rp_name = ?name, rp_type = t, rp_valueEncrypted = v\<rparr>"
      using that by (simp add: good_replacement_def)
    then show ?thesis using Cons.IH [OF that(1)] Cons.prems(2-4) that(3) by simp
  qed
  show ?case
    using Cons.prems(1) Cons.IH [of "Suc i" seen acc] Cons.prems(2-) step
    by (auto simp: Let_def encryptSecret_sealed split: if_splits sum.splits)
qed simp

lemma newVars_rows:
  "(k, r) \<in> set (newVars c ids p u rps) \<Longrightarrow>
     ev_projectId r = p \<and> ev_owner r = u \<and> (\<exists>rp \<in> set rps. ev_name r = rp_name rp \<and> ev_type r = rp_type rp \<and>
       ev_valueEncrypted r = rp_valueEncrypted rp)"
  by (auto simp: newVars_def dest!: set_zip_rightD)

lemma newVars_names: "map (\<lambda>(k, r). ev_name r) (newVars c ids p u rps) = map rp_name rps"
proof -
  have "map (\<lambda>(k, r). ev_name r) (newVars c ids p u rps) = map (rp_name \<circ> snd) (zip [0..<length rps] rps)"
    by (auto simp: newVars_def)
  then show ?thesis by (simp flip: map_map)
qed

lemma filter_deleteMany:
  "findMany p (deleteMany p t) = []" "deleteMany p (deleteMany p t) = deleteMany p t"
  by (auto simp: findMany_def deleteMany_def filter_empty_conv intro: filter_True)

lemma ownVars_replaced:
  "ownVars (s\<lparr>dbtEnvironmentVariable := deleteMany (\<lambda>r. ev_projectId r = p \<and> ev_owner r = u)
     (dbtEnvironmentVariable s) @ newVars c ids p u rps\<rparr>) p u = newVars c ids p u rps"
proof -
  have "findMany (\<lambda>r. ev_projectId r = p \<and> ev_owner r = u) (newVars c ids p u rps) = newVars c ids p u rps"
    unfolding findMany_def by (rule filter_True) (auto dest: newVars_rows)
  then show ?thesis
    using filter_deleteMany(1) [of "\<lambda>r. ev_projectId r = p \<and> ev_owner r = u" "dbtEnvironmentVariable s"]
    by (simp add: ownVars_def findMany_def)
qed

lemma collectVars_status:
  "collectVars ci ivs existing i seen acc items = Inl (st, e) \<Longrightarrow> st \<noteq> 200"
  by (induction items arbitrary: i seen acc) (auto simp: Let_def split: if_splits sum.splits)

lemma envVars_PUT_cases:
  assumes "envVars_PUT ci ivs ids c p reqBody s = (resp, s')"
  shows "(status resp \<noteq> 200 \<and> s' = s) \<or>
    (\<exists>u items rps. getSessionOrNull c = Some u \<and> liveProjectOf s p u \<and>
      collectVars ci ivs (existingByName (ownVars s p u)) 0 [] [] items = Inr rps \<and>
      s' = s\<lparr>dbtEnvironmentVariable := deleteMany (\<lambda>r. ev_projectId r = p \<and> ev_owner r = u)
        (dbtEnvironmentVariable s) @ newVars c ids p u rps\<rparr>)"
proof (cases "\<exists>u items. getSessionOrNull c = Some u \<and> liveProjectOf s p u \<and> reqBody = Some (JArr items)")
  case False
  then show ?thesis
    using assms by (auto simp: envVars_PUT_def split: option.splits if_splits json.splits)
next
  case True
  then obtain u items where u: "getSessionOrNull c = Some u" "liveProjectOf s p u" "reqBody = Some (JArr items)"
    by blast
  show ?thesis
  proof (cases "collectVars ci ivs (existingByName (ownVars s p u)) 0 [] [] items")
    case (Inl err)
    then show ?thesis using assms u collectVars_status by (cases err) (auto simp: envVars_PUT_def)
  next
    case (Inr rps)
    then show ?thesis using assms u by (auto simp: envVars_PUT_def Let_def split: if_splits)
  qed
qed

text \<open>
  C4. Replacing the variables of a project is all or nothing. Any answer but 200 leaves the database
  as it was. With 200 the caller owns the live project, only the caller's variables of that project
  change, their names are distinct and admissible, and every stored value is either freshly encrypted
  or the value that was stored under that name before.
\<close>

theorem envVars_PUT_replaces:
  assumes "envVars_PUT ci ivs ids c projectId reqBody s = (resp, s')"
  shows "(status resp \<noteq> 200 \<and> s' = s) \<or>
    (\<exists>u. session c = Some u \<and> liveOwner s projectId = Some u \<and>
      (let mine = (\<lambda>r. ev_projectId r = projectId \<and> ev_owner r = u) in
       s'\<lparr>dbtEnvironmentVariable := dbtEnvironmentVariable s\<rparr> = s \<and>
       deleteMany mine (dbtEnvironmentVariable s') = deleteMany mine (dbtEnvironmentVariable s) \<and>
       distinct (map (\<lambda>(k, r). ev_name r) (ownVars s' projectId u)) \<and>
       list_all (\<lambda>(k, r). validateEnvVarName (ev_name r) = Inr () \<and>
         (sealed (ev_valueEncrypted r) \<or>
          (\<exists>old. existingByName (ownVars s projectId u) (ev_name r) = Some old \<and>
            ev_valueEncrypted r = ev_valueEncrypted old))) (ownVars s' projectId u)))"
proof (rule disjE [OF envVars_PUT_cases [OF assms]])
  assume "\<exists>u items rps. getSessionOrNull c = Some u \<and> liveProjectOf s projectId u \<and>
      collectVars ci ivs (existingByName (ownVars s projectId u)) 0 [] [] items = Inr rps \<and>
      s' = s\<lparr>dbtEnvironmentVariable := deleteMany (\<lambda>r. ev_projectId r = projectId \<and> ev_owner r = u)
        (dbtEnvironmentVariable s) @ newVars c ids projectId u rps\<rparr>"
  then obtain u items rps where u: "getSessionOrNull c = Some u" "liveProjectOf s projectId u"
    and rps: "collectVars ci ivs (existingByName (ownVars s projectId u)) 0 [] [] items = Inr rps"
    and s': "s' = s\<lparr>dbtEnvironmentVariable := deleteMany (\<lambda>r. ev_projectId r = projectId \<and> ev_owner r = u)
      (dbtEnvironmentVariable s) @ newVars c ids projectId u rps\<rparr>"
    by blast
  have good: "distinct (map rp_name rps)" "list_all (good_replacement (existingByName (ownVars s projectId u))) rps"
    using collectVars_good [OF rps] by auto
  have own: "ownVars s' projectId u = newVars c ids projectId u rps"
    unfolding s' by (rule ownVars_replaced)
  have "deleteMany (\<lambda>r. ev_projectId r = projectId \<and> ev_owner r = u) (newVars c ids projectId u rps) = []"
    by (auto simp: deleteMany_def filter_empty_conv dest: newVars_rows)
  then have rest: "deleteMany (\<lambda>r. ev_projectId r = projectId \<and> ev_owner r = u) (dbtEnvironmentVariable s') =
      deleteMany (\<lambda>r. ev_projectId r = projectId \<and> ev_owner r = u) (dbtEnvironmentVariable s)"
    using filter_deleteMany(2) [of "\<lambda>r. ev_projectId r = projectId \<and> ev_owner r = u" "dbtEnvironmentVariable s"]
    by (simp add: s' deleteMany_def)
  have vals: "list_all (\<lambda>(k, r). validateEnvVarName (ev_name r) = Inr () \<and>
         (sealed (ev_valueEncrypted r) \<or>
          (\<exists>old. existingByName (ownVars s projectId u) (ev_name r) = Some old \<and>
            ev_valueEncrypted r = ev_valueEncrypted old))) (ownVars s' projectId u)"
    unfolding own using good(2) by (fastforce simp: list_all_iff good_replacement_def dest!: newVars_rows)
  have names: "distinct (map (\<lambda>(k, r). ev_name r) (ownVars s' projectId u))"
    unfolding own newVars_names by (rule good(1))
  have "session c = Some u" "liveOwner s projectId = Some u"
    using u by (auto simp: getSessionOrNull_def liveProjectOf_iff split: if_splits)
  moreover have "s'\<lparr>dbtEnvironmentVariable := dbtEnvironmentVariable s\<rparr> = s" by (simp add: s')
  ultimately show ?thesis
    using names rest vals unfolding Let_def by (intro disjI2 exI [of _ u] conjI)
qed (rule disjI1)

theorem envVars_PUT_replaces_witness:
  "\<exists>resp s'. envVars_PUT demo_cipher (\<lambda>i. ''abcdefghijkl'') (\<lambda>i. show_nat i) demo_ctx ''p1''
      (Some (JArr [JObj [(''name'', JStr ''TOKEN''), (''value'', JStr ''x'')]])) demo_db = (resp, s') \<and>
     status resp = 200 \<and> (\<exists>u. session demo_ctx = Some u \<and> liveOwner demo_db ''p1'' = Some u)"
proof -
  let ?r = "envVars_PUT demo_cipher (\<lambda>i. ''abcdefghijkl'') (\<lambda>i. show_nat i) demo_ctx ''p1''
      (Some (JArr [JObj [(''name'', JStr ''TOKEN''), (''value'', JStr ''x'')]])) demo_db"
  have st: "status (fst ?r) = 200" by code_simp
  obtain resp s' where r: "?r = (resp, s')" by fastforce
  from envVars_PUT_replaces [OF r] st r show ?thesis by auto
qed

end
