(* ===== verification/Ai_Providers.thy ===== *)
theory Ai_Providers
  imports Connections
begin

text \<open>
  The model providers of the assistant: the preset catalogue
  (\<open>features/settings/model/ai-provider-definitions.ts\<close>), the operations on a user's providers and
  credentials (\<open>features/settings/server.ts\<close>), the settings form
  (\<open>features/settings/model/ai-provider-form.ts\<close>), the connection check
  (\<open>features/settings/server-connection.ts\<close>) and the routes under \<open>app/api/ai-providers\<close>.

  A provider row names the reference of a credential and the endpoint it talks to; the credential is
  a row of its own, keyed by that reference. URL parsing, DNS and \<open>fetch\<close> are arguments. The rows a
  \<open>findMany\<close> without an order returns come in the order of the table.
\<close>

section \<open>Definitions\<close>

subsection \<open>ai-provider-definitions.ts\<close>

definition PROTOCOLS :: "string list" where
  "PROTOCOLS = [''openai-completions'', ''openai-responses'', ''anthropic-messages'']"

datatype ProviderAuth = Bearer | AnthropicAuth | GoogleAuth

text \<open>The description and the placeholder of a preset are copy of the form and left out.\<close>

record ProviderPreset =
  pp_route :: string
  pp_label :: string
  pp_baseUrl :: string
  pp_auth :: ProviderAuth

definition PROVIDER_PRESETS :: "ProviderPreset list" where
  "PROVIDER_PRESETS =
     [\<lparr> pp_route = ''openai'', pp_label = ''OpenAI'',
        pp_baseUrl = ''https://api.openai.com/v1'', pp_auth = Bearer \<rparr>,
      \<lparr> pp_route = ''anthropic'', pp_label = ''Anthropic'',
        pp_baseUrl = ''https://api.anthropic.com/v1'', pp_auth = AnthropicAuth \<rparr>,
      \<lparr> pp_route = ''deepseek'', pp_label = ''DeepSeek'',
        pp_baseUrl = ''https://api.deepseek.com'', pp_auth = Bearer \<rparr>,
      \<lparr> pp_route = ''google'', pp_label = ''Google Gemini'',
        pp_baseUrl = ''https://generativelanguage.googleapis.com/v1beta'', pp_auth = GoogleAuth \<rparr>,
      \<lparr> pp_route = ''xai'', pp_label = ''xAI'',
        pp_baseUrl = ''https://api.x.ai/v1'', pp_auth = Bearer \<rparr>,
      \<lparr> pp_route = ''groq'', pp_label = ''Groq'',
        pp_baseUrl = ''https://api.groq.com/openai/v1'', pp_auth = Bearer \<rparr>,
      \<lparr> pp_route = ''mistral'', pp_label = ''Mistral AI'',
        pp_baseUrl = ''https://api.mistral.ai/v1'', pp_auth = Bearer \<rparr>]"

definition CATALOG_ROUTES :: "string list" where
  "CATALOG_ROUTES = map pp_route PROVIDER_PRESETS"

definition findProviderPreset :: "string \<Rightarrow> ProviderPreset option" where
  "findProviderPreset route = find (\<lambda>p. pp_route p = route) PROVIDER_PRESETS"

subsection \<open>server.ts: the shape of a provider\<close>

record ProviderInput =
  pi_route :: "string option"
  pi_label :: "string option"
  pi_apiKeyEnv :: "string option"
  pi_api :: "string option"
  pi_baseUrl :: "string option"
  pi_models :: "ProviderModel list option"
  pi_defaultModel :: "string option"
  pi_isDefault :: "bool option"
  pi_apiKey :: "string option"

record ProviderView =
  vw_route :: string
  vw_label :: "string option"
  vw_apiKeyEnv :: string
  vw_api :: "string option"
  vw_baseUrl :: "string option"
  vw_models :: "ProviderModel list"
  vw_defaultModel :: "string option"
  vw_isDefault :: bool
  vw_credentialConfigured :: bool
  vw_updatedAt :: nat

text \<open>\<open>replace(/[^A-Za-z0-9]+/g, '_')\<close> and \<open>replace(/^_+|_+$/g, '')\<close>.\<close>

fun collapse :: "string \<Rightarrow> string" where
  "collapse [] = []"
| "collapse (x # xs) =
     (if is_alnum x then x # collapse xs
      else if xs \<noteq> [] \<and> \<not> is_alnum (hd xs) then collapse xs
      else CHR ''_'' # collapse xs)"

definition stripUnderscores :: "string \<Rightarrow> string" where
  "stripUnderscores s =
     rev (dropWhile (\<lambda>c. c = CHR ''_'') (rev (dropWhile (\<lambda>c. c = CHR ''_'') s)))"

definition defaultApiKeyEnv :: "string \<Rightarrow> string" where
  "defaultApiKeyEnv route = toUpperCase (stripUnderscores (collapse route)) @ ''_API_KEY''"

definition declaredModels :: "ProviderModel list \<Rightarrow> string option \<Rightarrow> ProviderModel list" where
  "declaredModels models defaultModel =
     (case map_option trim defaultModel of
        None \<Rightarrow> models
      | Some chosen \<Rightarrow>
          if chosen = '''' \<or> list_ex (\<lambda>m. pm_id m = Some chosen) models then models
          else models @ [\<lparr> pm_id = Some chosen, pm_name = None, pm_contextWindow = None,
                           pm_maxTokens = None \<rparr>])"

definition nonZero :: "int option \<Rightarrow> int option" where
  "nonZero x = (if x = Some 0 then None else x)"

definition cleanModel :: "ProviderModel \<Rightarrow> ProviderModel" where
  "cleanModel m =
     \<lparr> pm_id = Some (trim (nullish (pm_id m) '''')),
       pm_name = (if truthy (pm_name m) then pm_name m else None),
       pm_contextWindow = nonZero (pm_contextWindow m), pm_maxTokens = nonZero (pm_maxTokens m) \<rparr>"

text \<open>The filter with its set of ids already seen.\<close>

fun keepFirst :: "string set \<Rightarrow> ProviderModel list \<Rightarrow> ProviderModel list" where
  "keepFirst seen [] = []"
| "keepFirst seen (m # ms) =
     (let mid = nullish (pm_id m) '''' in
      if mid = '''' \<or> mid \<in> seen then keepFirst seen ms
      else m # keepFirst (insert mid seen) ms)"

definition normalizeModels :: "ProviderModel list option \<Rightarrow> ProviderModel list" where
  "normalizeModels models =
     (case models of None \<Rightarrow> [] | Some ms \<Rightarrow> keepFirst {} (map cleanModel ms))"

definition ROUTE_PATTERN :: rx where
  "ROUTE_PATTERN =
     RSeq (RCls (\<lambda>c. is_lower c \<or> is_digit c)) (rx_upto 39 (RCls (\<lambda>c. is_lower c \<or> is_digit c \<or> c = CHR ''-'')))"

definition CREDENTIAL_PATTERN :: rx where
  "CREDENTIAL_PATTERN =
     RSeq (RCls is_upper) (rx_upto 63 (RCls (\<lambda>c. is_upper c \<or> is_digit c \<or> c = CHR ''_'')))"

text \<open>\<open>new URL(u)\<close> succeeds and its protocol is http or https.\<close>

definition httpUrl :: "(string \<Rightarrow> (string \<times> string) option) \<Rightarrow> string \<Rightarrow> bool" where
  "httpUrl parseUrl u =
     (case parseUrl u of None \<Rightarrow> False | Some (protocol, h) \<Rightarrow> protocol = ''https:'' \<or> protocol = ''http:'')"

definition credentialOf :: "ProviderInput \<Rightarrow> string \<Rightarrow> string" where
  "credentialOf inp route = trim (nullish (pi_apiKeyEnv inp) (defaultApiKeyEnv route))"

definition validateProvider ::
    "(string \<Rightarrow> (string \<times> string) option) \<Rightarrow> ProviderInput \<Rightarrow> string option" where
  "validateProvider parseUrl inp =
     (let route = trim (nullish (pi_route inp) '''');
          isCatalog = route \<in> set CATALOG_ROUTES;
          models = normalizeModels (pi_models inp);
          defaultModel = trim_or_null (pi_defaultModel inp)
      in if \<not> rx_match ROUTE_PATTERN route then
           Some ''Provider id must be lowercase letters, digits or dashes''
         else if \<not> rx_match CREDENTIAL_PATTERN (credentialOf inp route) then
           Some ''Credential reference must look like OPENAI_API_KEY''
         else if truthy (pi_api inp) \<and> the (pi_api inp) \<notin> set PROTOCOLS then
           Some (''Protocol must be one of '' @ join '', '' PROTOCOLS)
         else if truthy (pi_baseUrl inp) \<and> \<not> httpUrl parseUrl (the (pi_baseUrl inp)) then
           Some ''Base URL must be a valid http(s) URL''
         else if \<not> isCatalog \<and> \<not> truthy (pi_api inp) then
           Some ''Protocol is required for a custom provider''
         else if \<not> isCatalog \<and> \<not> truthy (pi_baseUrl inp) then
           Some ''Base URL is required for a custom provider''
         else if \<not> isCatalog \<and> models = [] then
           Some ''At least one model ID is required for a custom provider''
         else if \<not> isCatalog \<and> defaultModel \<noteq> None \<and> \<not> list_ex (\<lambda>m. pm_id m = defaultModel) models then
           Some ''Default model must match one of the configured model IDs''
         else None)"

subsection \<open>server.ts: reading and writing\<close>

definition providerOf :: "string \<Rightarrow> string \<Rightarrow> db \<Rightarrow> provider_row option" where
  "providerOf userId route s = findFirst (\<lambda>r. pv_userId r = userId \<and> pv_route r = route) (aiProvider s)"

definition credentialRowOf :: "string \<Rightarrow> string \<Rightarrow> db \<Rightarrow> credential_row option" where
  "credentialRowOf userId name s =
     findFirst (\<lambda>r. cr_userId r = userId \<and> cr_credentialName r = name) (aiCredential s)"

definition readProviderCredentialForTest ::
    "cipher \<Rightarrow> string \<Rightarrow> string \<Rightarrow> string \<Rightarrow> string option \<Rightarrow> db \<Rightarrow> string option" where
  "readProviderCredentialForTest ci userId route credentialName baseUrl s =
     (case providerOf userId route s of
        None \<Rightarrow> None
      | Some provider \<Rightarrow>
          if pv_apiKeyEnv provider \<noteq> credentialName \<or> pv_baseUrl provider \<noteq> trim_or_null baseUrl then None
          else case credentialRowOf userId credentialName s of
              None \<Rightarrow> None
            | Some row \<Rightarrow>
                (case decryptSecret ci (Some (cr_apiKeyEncrypted row)) of Inl e \<Rightarrow> None | Inr k \<Rightarrow> Some k))"

definition providerView :: "string set \<Rightarrow> provider_row \<Rightarrow> ProviderView" where
  "providerView configured r =
     \<lparr> vw_route = pv_route r, vw_label = pv_label r, vw_apiKeyEnv = pv_apiKeyEnv r, vw_api = pv_api r,
       vw_baseUrl = pv_baseUrl r, vw_models = normalizeModels (pv_models r),
       vw_defaultModel = pv_defaultModel r, vw_isDefault = pv_isDefault r,
       vw_credentialConfigured = (pv_apiKeyEnv r \<in> configured), vw_updatedAt = pv_updatedAt r \<rparr>"

definition listProviders :: "string \<Rightarrow> db \<Rightarrow> ProviderView list" where
  "listProviders userId s =
     (let rows = orderByName pv_route (findMany (\<lambda>r. pv_userId r = userId) (aiProvider s));
          configured = set (map (cr_credentialName \<circ> snd)
            (findMany (\<lambda>r. cr_userId r = userId) (aiCredential s)))
      in map (providerView configured \<circ> snd) rows)"

text \<open>The data a write stores, and the transaction: the other defaults, the row, the credential.\<close>

definition storedRow :: "ctx \<Rightarrow> string \<Rightarrow> ProviderInput \<Rightarrow> string \<Rightarrow> provider_row" where
  "storedRow c userId inp route =
     (let models = normalizeModels (pi_models inp) in
      \<lparr> pv_userId = userId, pv_route = route, pv_label = trim_or_null (pi_label inp),
        pv_apiKeyEnv = credentialOf inp route, pv_api = trim_or_null (pi_api inp),
        pv_baseUrl = trim_or_null (pi_baseUrl inp),
        pv_models = (if models \<noteq> [] then Some models else None),
        pv_defaultModel =
          (case trim_or_null (pi_defaultModel inp) of
             Some m \<Rightarrow> Some m
           | None \<Rightarrow> (case models of [] \<Rightarrow> None | m # _ \<Rightarrow> pm_id m)),
        pv_isDefault = nullish (pi_isDefault inp) False, pv_updatedAt = now c \<rparr>)"

definition upsertTransaction ::
    "ctx \<Rightarrow> string \<Rightarrow> ProviderInput \<Rightarrow> string \<Rightarrow> string option \<Rightarrow> db \<Rightarrow> db" where
  "upsertTransaction c userId inp route apiKeyEncrypted s =
     (let row = storedRow c userId inp route;
          name = credentialOf inp route;
          cleared = (if pi_isDefault inp = Some True
            then updateRows (\<lambda>r. if pv_userId r = userId then r\<lparr>pv_isDefault := False\<rparr> else r) (aiProvider s)
            else aiProvider s)
      in s\<lparr>aiProvider := upsertRow (\<lambda>r. pv_userId r = userId \<and> pv_route r = route) (\<lambda>_. row) (newId c) row cleared,
           aiCredential := (case apiKeyEncrypted of
               None \<Rightarrow> aiCredential s
             | Some e \<Rightarrow> upsertRow (\<lambda>r. cr_userId r = userId \<and> cr_credentialName r = name)
                 (\<lambda>r. r\<lparr>cr_provider := route, cr_apiKeyEncrypted := e\<rparr>) (newId c)
                 \<lparr> cr_userId = userId, cr_credentialName = name, cr_provider = route,
                   cr_apiKeyEncrypted = e \<rparr> (aiCredential s))\<rparr>)"

definition movesStoredCredential :: "string \<Rightarrow> ProviderInput \<Rightarrow> string \<Rightarrow> db \<Rightarrow> bool" where
  "movesStoredCredential userId inp route s =
     (let name = credentialOf inp route in
      credentialRowOf userId name s \<noteq> None \<and>
      (case providerOf userId route s of
         None \<Rightarrow> True
       | Some existing \<Rightarrow> pv_apiKeyEnv existing \<noteq> name \<or> pv_baseUrl existing \<noteq> trim_or_null (pi_baseUrl inp)))"

text \<open>An exception of \<open>encryptSecret\<close> inside the transaction rolls it back.\<close>

definition upsertProvider ::
    "(string \<Rightarrow> (string \<times> string) option) \<Rightarrow> cipher \<Rightarrow> string \<Rightarrow> ctx \<Rightarrow> string \<Rightarrow> ProviderInput \<Rightarrow>
     ProviderView list handler" where
  "upsertProvider parseUrl ci iv c userId inp =
     bindS (liftR (case validateProvider parseUrl inp of Some problem \<Rightarrow> Inl problem | None \<Rightarrow> Inr ())) (\<lambda>_.
     let route = trim (nullish (pi_route inp) '''');
         suppliedApiKey = trim_or_null (pi_apiKey inp)
     in bindS (guardS (\<lambda>s. providerOf userId route s \<noteq> None \<or> suppliedApiKey \<noteq> None)
          ''API key is required when creating a personal AI connection'') (\<lambda>_.
        bindS (guardS (\<lambda>s. \<not> (movesStoredCredential userId inp route s \<and> suppliedApiKey = None))
          ''Re-enter the API key when changing its connection or Base URL'') (\<lambda>_.
        bindS (liftR (optR (encryptSecret ci iv) suppliedApiKey)) (\<lambda>apiKeyEncrypted.
        bindS (writeS (upsertTransaction c userId inp route apiKeyEncrypted)) (\<lambda>_.
        readS (listProviders userId))))))"

text \<open>The row is deleted by its id, which the compound key determines.\<close>

definition deleteProvider :: "string \<Rightarrow> string \<Rightarrow> ProviderView list handler" where
  "deleteProvider userId route =
     bindS (readS (providerOf userId route)) (\<lambda>row.
     bindS (case row of
         None \<Rightarrow> returnS ()
       | Some r \<Rightarrow> writeS (\<lambda>s. s\<lparr>
           aiProvider := deleteMany (\<lambda>r. pv_userId r = userId \<and> pv_route r = route) (aiProvider s),
           aiCredential := deleteMany (\<lambda>k. cr_userId k = userId \<and> cr_credentialName k = pv_apiKeyEnv r)
             (aiCredential s)\<rparr>)) (\<lambda>_.
     readS (listProviders userId)))"

record provider_config =
  pc_apiKeyEnv :: string
  pc_displayName :: "string option"
  pc_api :: "string option"
  pc_baseURL :: "string option"
  pc_models :: "ProviderModel list option"

record ResolvedRoutes =
  rr_providers :: "(string \<times> provider_config) list"
  rr_credentials :: "(string \<times> string) list"
  rr_route :: "string option"
  rr_model :: "string option"

definition providerConfig :: "provider_row \<Rightarrow> provider_config" where
  "providerConfig r =
     (let models = declaredModels (normalizeModels (pv_models r)) (pv_defaultModel r);
          ifTruthy = (\<lambda>x. if truthy x then x else None)
      in \<lparr> pc_apiKeyEnv = pv_apiKeyEnv r, pc_displayName = ifTruthy (pv_label r),
           pc_api = ifTruthy (pv_api r), pc_baseURL = ifTruthy (pv_baseUrl r),
           pc_models = (if models \<noteq> [] then Some models else None) \<rparr>)"

fun collectSecrets :: "cipher \<Rightarrow> (string \<times> string) list \<Rightarrow> credential_row list \<Rightarrow> (string \<times> string) list" where
  "collectSecrets ci acc [] = acc"
| "collectSecrets ci acc (r # rs) =
     (case decryptSecret ci (Some (cr_apiKeyEncrypted r)) of
        Inl e \<Rightarrow> collectSecrets ci acc rs
      | Inr k \<Rightarrow> collectSecrets ci (obj_set (cr_credentialName r) k acc) rs)"

definition chosenRow :: "provider_row list \<Rightarrow> provider_row option" where
  "chosenRow rows =
     (case find pv_isDefault rows of
        Some r \<Rightarrow> Some r
      | None \<Rightarrow> (case rows of [] \<Rightarrow> None | r # _ \<Rightarrow> Some r))"

definition resolveRoutes :: "cipher \<Rightarrow> string \<Rightarrow> db \<Rightarrow> ResolvedRoutes" where
  "resolveRoutes ci userId s =
     (let rows = map snd (findMany (\<lambda>r. pv_userId r = userId) (aiProvider s));
          credentials = map snd (findMany (\<lambda>r. cr_userId r = userId) (aiCredential s));
          chosen = chosenRow rows
      in \<lparr> rr_providers = foldl (\<lambda>acc r. obj_set (pv_route r) (providerConfig r) acc) [] rows,
           rr_credentials = collectSecrets ci [] credentials,
           rr_route = map_option pv_route chosen,
           rr_model = (case chosen of
               None \<Rightarrow> None
             | Some r \<Rightarrow> (case pv_defaultModel r of
                   Some m \<Rightarrow> Some m
                 | None \<Rightarrow> (case normalizeModels (pv_models r) of [] \<Rightarrow> None | m # _ \<Rightarrow> pm_id m))) \<rparr>)"

subsection \<open>app/api/ai-providers/route.ts\<close>

definition aiStatus :: "string \<Rightarrow> nat" where
  "aiStatus message = (if message = NOT_AUTHENTICATED then 401 else 400)"

definition aiProviders_GET :: "ctx \<Rightarrow> db \<Rightarrow> ProviderView list response \<times> db" where
  "aiProviders_GET c =
     respond aiStatus (\<lambda>v. v) (bindS (getCurrentUserId c) (\<lambda>userId. readS (listProviders userId)))"

definition aiProviders_PUT ::
    "(string \<Rightarrow> (string \<times> string) option) \<Rightarrow> cipher \<Rightarrow> string \<Rightarrow> ctx \<Rightarrow> ProviderInput \<Rightarrow> db \<Rightarrow>
     ProviderView list response \<times> db" where
  "aiProviders_PUT parseUrl ci iv c inp =
     respond aiStatus (\<lambda>v. v) (bindS (getCurrentUserId c) (\<lambda>userId.
       if pi_route inp = None then failS ''route is required''
       else upsertProvider parseUrl ci iv c userId inp))"

definition aiProviders_DELETE :: "ctx \<Rightarrow> string option \<Rightarrow> db \<Rightarrow> ProviderView list response \<times> db" where
  "aiProviders_DELETE c route =
     respond aiStatus (\<lambda>v. v) (bindS (getCurrentUserId c) (\<lambda>userId.
       if \<not> truthy route then failS ''route is required''
       else deleteProvider userId (the route)))"


subsection \<open>server-connection.ts\<close>

record ProviderConnectionConfig =
  cc_route :: string
  cc_apiKey :: string
  cc_baseUrl :: "string option"
  cc_defaultModel :: "string option"

datatype conn_status = Connected | Warning | Failed

record ProviderConnectionResult =
  rs_status :: conn_status
  rs_message :: string
  rs_latencyMs :: int
  rs_modelCount :: "nat option"
  rs_modelMatched :: "bool option"

text \<open>
  What \<open>fetch\<close> gives back: a response with its status, content type and JSON body (none when it does
  not parse), a time-out, or another failure. A request is the URL with the authentication headers.
\<close>

datatype fetched = Fetched nat "string option" "int json option" | TimedOut | Unreachable

type_synonym request = "string \<times> (string \<times> string) list"

fun dropTrailing :: "char \<Rightarrow> string \<Rightarrow> string" where
  "dropTrailing c s = rev (dropWhile (\<lambda>x. x = c) (rev s))"

definition modelsUrl :: "string \<Rightarrow> string" where
  "modelsUrl baseUrl = dropTrailing CHR ''/'' (trim baseUrl) @ ''/models''"

fun authenticationHeaders :: "ProviderAuth \<Rightarrow> string \<Rightarrow> (string \<times> string) list" where
  "authenticationHeaders AnthropicAuth apiKey =
     [(''x-api-key'', apiKey), (''anthropic-version'', ''2023-06-01'')]"
| "authenticationHeaders GoogleAuth apiKey = [(''x-goog-api-key'', apiKey)]"
| "authenticationHeaders Bearer apiKey = [(''Authorization'', ''Bearer '' @ apiKey)]"

definition dropModelsPrefix :: "string \<Rightarrow> string" where
  "dropModelsPrefix v = (if startsWith v ''models/'' then drop 7 v else v)"

fun modelIdOf :: "int json \<Rightarrow> string" where
  "modelIdOf (JObj row) =
     (case (if map_of row ''id'' \<noteq> None then map_of row ''id'' else map_of row ''name'') of
        Some (JStr v) \<Rightarrow> dropModelsPrefix v
      | _ \<Rightarrow> '''')"
| "modelIdOf _ = ''''"

definition modelIds :: "int json option \<Rightarrow> string list" where
  "modelIds payload =
     (case payload of
        Some (JObj obj) \<Rightarrow>
          (let rows = (case map_of obj ''data'' of
               Some (JArr ds) \<Rightarrow> ds
             | _ \<Rightarrow> (case map_of obj ''models'' of Some (JArr ms) \<Rightarrow> ms | _ \<Rightarrow> []))
           in filter (\<lambda>m. m \<noteq> '''') (map modelIdOf rows))
      | _ \<Rightarrow> [])"

definition elapsedSince :: "int \<Rightarrow> int \<Rightarrow> int" where
  "elapsedSince startedAt nowMs = max 0 (nowMs - startedAt)"

definition errorMessage :: "nat \<Rightarrow> bool \<Rightarrow> string" where
  "errorMessage st isCustom =
     (if st = 401 \<or> st = 403 then
        ''Authentication failed ('' @ show_nat st @
        ''). Check that the API key is correct and has model access.''
      else if st = 404 \<and> isCustom then
        ''Models endpoint not found (404). For most OpenAI-compatible servers, Base URL should end in /v1.''
      else if st = 429 then
        ''The provider accepted the request but rate-limited it (429). Check quota and try again.''
      else ''Provider returned HTTP '' @ show_nat st @ ''. Check the Base URL and provider status.'')"

text \<open>The endpoint the check uses, and the request it sends, if it gets that far.\<close>

definition checkBaseUrl :: "ProviderConnectionConfig \<Rightarrow> string option" where
  "checkBaseUrl config =
     (case trim_or_null (cc_baseUrl config) of
        Some u \<Rightarrow> Some u
      | None \<Rightarrow> map_option pp_baseUrl (findProviderPreset (cc_route config)))"

definition authOf :: "string \<Rightarrow> ProviderAuth" where
  "authOf route = (case findProviderPreset route of None \<Rightarrow> Bearer | Some p \<Rightarrow> pp_auth p)"

definition checkRequest :: "ProviderConnectionConfig \<Rightarrow> request option" where
  "checkRequest config =
     (case checkBaseUrl config of
        None \<Rightarrow> None
      | Some baseUrl \<Rightarrow>
          if baseUrl = '''' \<or> trim (cc_apiKey config) = '''' then None
          else Some (modelsUrl baseUrl,
            (''Accept'', ''application/json'') #
            authenticationHeaders (authOf (cc_route config)) (cc_apiKey config)))"

text \<open>
  The two clock readings are arguments. The typographic quotes around a model name in the source
  lie outside the code units modelled and are plain quotes here.
\<close>

definition checkProviderConnection ::
    "(request \<Rightarrow> fetched) \<Rightarrow> nat \<Rightarrow> int \<Rightarrow> int \<Rightarrow> ProviderConnectionConfig \<Rightarrow> ProviderConnectionResult" where
  "checkProviderConnection fetcher timeoutSeconds startedAt endedAt config =
     (let latency = elapsedSince startedAt endedAt;
          isCustom = (findProviderPreset (cc_route config) = None);
          problem = (\<lambda>msg. \<lparr> rs_status = Failed, rs_message = msg, rs_latencyMs = latency,
            rs_modelCount = None, rs_modelMatched = None \<rparr>)
      in if nullish (checkBaseUrl config) '''' = '''' then
           problem ''Base URL is required for a custom OpenAI-compatible connection.''
         else case checkRequest config of
             None \<Rightarrow> problem ''API key is required before the connection can be checked.''
           | Some req \<Rightarrow>
               (case fetcher req of
                  TimedOut \<Rightarrow> problem (''Connection timed out after '' @ show_nat timeoutSeconds @
                    '' seconds. Check that the server is reachable from this deployment.'')
                | Unreachable \<Rightarrow> problem (''Could not reach the provider. Check the Base URL, DNS, '' @
                    ''TLS certificate, and network access from this deployment.'')
                | Fetched st contentType json \<Rightarrow>
                    if \<not> (200 \<le> st \<and> st \<le> 299) then problem (errorMessage st isCustom)
                    else
                      let models = modelIds (if includesStr (nullish contentType '''') ''json'' then json else None);
                          selected = trim_or_null (cc_defaultModel config);
                          matched = (case selected of
                              None \<Rightarrow> None
                            | Some m \<Rightarrow> if models \<noteq> [] then Some (m \<in> set models) else None)
                      in if matched = Some False then
                           \<lparr> rs_status = Warning,
                             rs_message = ''Connected, but model '' @ [CHR 0x22] @ the selected @ [CHR 0x22] @
                               '' was not returned by this provider. Check the model ID.'',
                             rs_latencyMs = latency, rs_modelCount = Some (length models),
                             rs_modelMatched = Some False \<rparr>
                         else
                           \<lparr> rs_status = Connected,
                             rs_message = (if models \<noteq> []
                               then ''Connected successfully. '' @ show_nat (length models) @ '' model'' @
                                 (if length models = 1 then '''' else ''s'') @ '' available.''
                               else ''Connected successfully. The API key was accepted.''),
                             rs_latencyMs = latency, rs_modelCount = Some (length models),
                             rs_modelMatched = matched \<rparr>))"

subsection \<open>app/api/ai-providers/test/route.ts\<close>

text \<open>What the route needs of the outside: the URL parser, DNS, the setting, the cipher.\<close>

record test_env =
  te_parseUrl :: "string \<Rightarrow> (string \<times> string) option"
  te_lookup :: "string \<Rightarrow> string list option"
  te_privateHostsAllowed :: bool
  te_cipher :: cipher

text \<open>
  The connection the route is about to check, or the error it answers with. The first model's id
  stands in for a missing default model.
\<close>

definition firstModelId :: "ProviderModel list option \<Rightarrow> string option" where
  "firstModelId models = (case models of Some (m # _) \<Rightarrow> pm_id m | _ \<Rightarrow> None)"

definition testConfig :: "test_env \<Rightarrow> string \<Rightarrow> ProviderInput \<Rightarrow> db \<Rightarrow> ProviderConnectionConfig result" where
  "testConfig env userId inp s =
     (case pi_route inp of
        None \<Rightarrow> Inl ''Provider is required''
      | Some route \<Rightarrow>
          (case validateProvider (te_parseUrl env) inp of
             Some problem \<Rightarrow> Inl problem
           | None \<Rightarrow>
               bindR (case trim_or_null (pi_baseUrl inp) of
                   None \<Rightarrow> Inr ()
                 | Some overrideUrl \<Rightarrow>
                     assertUrlHostAllowed (te_parseUrl env) (te_lookup env) (te_privateHostsAllowed env) overrideUrl)
                 (\<lambda>_.
                 let credentialName = credentialOf inp route;
                     apiKey = (case trim_or_null (pi_apiKey inp) of
                         Some k \<Rightarrow> Some k
                       | None \<Rightarrow> readProviderCredentialForTest (te_cipher env) userId (trim route) credentialName
                           (pi_baseUrl inp) s)
                 in if \<not> truthy apiKey then
                      Inl ''Enter an API key to check this connection. An existing saved key can also be reused.''
                    else Inr \<lparr> cc_route = trim route, cc_apiKey = the apiKey, cc_baseUrl = pi_baseUrl inp,
                      cc_defaultModel = (if truthy (pi_defaultModel inp) then pi_defaultModel inp
                        else firstModelId (pi_models inp)) \<rparr>)))"

definition aiProvidersTest_POST ::
    "test_env \<Rightarrow> (request \<Rightarrow> fetched) \<Rightarrow> int \<Rightarrow> int \<Rightarrow> ctx \<Rightarrow> ProviderInput \<Rightarrow> db \<Rightarrow>
     ProviderConnectionResult response \<times> db" where
  "aiProvidersTest_POST env fetcher startedAt endedAt c inp =
     respond aiStatus (checkProviderConnection fetcher 10 startedAt endedAt)
       (bindS (getCurrentUserId c) (\<lambda>userId.
        bindS (readS (testConfig env userId inp)) (\<lambda>config. liftR config)))"


subsection \<open>ai-provider-form.ts\<close>

record ProviderDraft =
  dr_connectionType :: string
  dr_editingRoute :: "string option"
  dr_route :: string
  dr_label :: string
  dr_apiKeyEnv :: string
  dr_api :: string
  dr_baseUrl :: string
  dr_models :: string
  dr_defaultModel :: string
  dr_apiKey :: string
  dr_isDefault :: bool
  dr_credentialConfigured :: bool

definition formApiKeyEnv :: "string \<Rightarrow> string" where
  "formApiKeyEnv route =
     (let cleaned = stripUnderscores (collapse route) in
      if cleaned \<noteq> '''' then toUpperCase cleaned @ ''_API_KEY'' else '''')"

text \<open>\<open>value.split(/[\s,]+/)\<close>: every maximal run of blanks and commas is one separator.\<close>

definition model_sep :: "char \<Rightarrow> bool" where
  "model_sep c \<longleftrightarrow> is_ws c \<or> c = CHR '',''"

fun split_models :: "string \<Rightarrow> string list" where
  "split_models [] = [[]]"
| "split_models (x # xs) =
     (if model_sep x then (if xs \<noteq> [] \<and> model_sep (hd xs) then split_models xs else [] # split_models xs)
      else (case split_models xs of [] \<Rightarrow> [[x]] | w # ws \<Rightarrow> (x # w) # ws))"

definition parseModelIds :: "string \<Rightarrow> string list" where
  "parseModelIds v = js_distinct (filter (\<lambda>m. m \<noteq> '''') (map trim (split_models v)))"

definition createProviderDraft :: "string \<Rightarrow> ProviderView option \<Rightarrow> ProviderDraft" where
  "createProviderDraft connectionType provider =
     (let route = (case provider of Some p \<Rightarrow> vw_route p
            | None \<Rightarrow> if connectionType = ''custom'' then '''' else connectionType);
          field = (\<lambda>f d. case provider of Some p \<Rightarrow> f p | None \<Rightarrow> d)
      in \<lparr> dr_connectionType = (case provider of
              Some p \<Rightarrow> if vw_route p \<notin> set CATALOG_ROUTES then ''custom'' else connectionType
            | None \<Rightarrow> connectionType),
           dr_editingRoute = map_option vw_route provider,
           dr_route = route,
           dr_label = nullish (field vw_label None) '''',
           dr_apiKeyEnv = (case provider of Some p \<Rightarrow> vw_apiKeyEnv p | None \<Rightarrow> formApiKeyEnv route),
           dr_api = nullish (field vw_api None) (if connectionType = ''custom'' then ''openai-completions'' else ''''),
           dr_baseUrl = nullish (field vw_baseUrl None) '''',
           dr_models = (case provider of
               Some p \<Rightarrow> join '', '' (map (\<lambda>m. nullish (pm_id m) '''') (vw_models p)) | None \<Rightarrow> ''''),
           dr_defaultModel = nullish (field vw_defaultModel None) '''',
           dr_apiKey = '''',
           dr_isDefault = nullish (map_option vw_isDefault provider) False,
           dr_credentialConfigured = nullish (map_option vw_credentialConfigured provider) False \<rparr>)"

definition draftToProviderInput :: "ProviderDraft \<Rightarrow> ProviderInput" where
  "draftToProviderInput draft =
     (let route = trim (dr_route draft);
          ids = parseModelIds (dr_models draft)
      in \<lparr> pi_route = Some route,
           pi_label = or_null (trim (dr_label draft)),
           pi_apiKeyEnv = Some (or_str (trim (dr_apiKeyEnv draft)) (formApiKeyEnv route)),
           pi_api = or_null (dr_api draft),
           pi_baseUrl = or_null (trim (dr_baseUrl draft)),
           pi_models = Some (map (\<lambda>m. \<lparr> pm_id = Some m, pm_name = None, pm_contextWindow = None,
             pm_maxTokens = None \<rparr>) ids),
           pi_defaultModel = (case or_null (trim (dr_defaultModel draft)) of
               Some m \<Rightarrow> Some m
             | None \<Rightarrow> (case ids of [] \<Rightarrow> None | m # _ \<Rightarrow> Some m)),
           pi_isDefault = Some (dr_isDefault draft),
           pi_apiKey = or_null (trim (dr_apiKey draft)) \<rparr>)"

definition validateProviderDraft ::
    "(string \<Rightarrow> (string \<times> string) option) \<Rightarrow> ProviderDraft \<Rightarrow> string option" where
  "validateProviderDraft parseUrl draft =
     (let isCustom = (dr_connectionType draft = ''custom'');
          route = trim (dr_route draft);
          models = parseModelIds (dr_models draft);
          defaultModel = trim (dr_defaultModel draft)
      in if isCustom \<and> route = '''' then Some ''Enter a connection name''
         else if route = '''' then Some ''Choose a provider''
         else if \<not> rx_match ROUTE_PATTERN route then
           Some ''Connection name can use lowercase letters, numbers, and dashes only''
         else if isCustom \<and> trim (dr_baseUrl draft) = '''' then Some ''Enter the API Base URL''
         else if trim (dr_baseUrl draft) \<noteq> '''' \<and> \<not> httpUrl parseUrl (dr_baseUrl draft) then
           Some ''API Base URL must be a valid http(s) URL''
         else if isCustom \<and> models = [] then Some ''Enter at least one model ID''
         else if trim (dr_apiKey draft) = '''' \<and> \<not> dr_credentialConfigured draft then Some ''Enter an API key''
         else if defaultModel \<noteq> '''' \<and> models \<noteq> [] \<and> defaultModel \<notin> set models then
           Some ''Default model must match one of the model IDs''
         else None)"

section \<open>Lemmas\<close>

subsection \<open>Keys and tables\<close>

lemma findFirst_simps [simp]:
  "findFirst p [] = None"
  "findFirst p (x # t) = (if p (snd x) then Some (snd x) else findFirst p t)"
  by (auto simp: findFirst_def split: prod.splits)

lemma findFirst_Some: "findFirst p t = Some r \<Longrightarrow> p r \<and> r \<in> snd ` set t"
  by (induction t) (auto simp: findFirst_def split: if_splits)

lemma findFirst_None: "findFirst p t = None \<longleftrightarrow> \<not> list_ex (\<lambda>(k, r). p r) t"
  by (auto simp: findFirst_def find_None_iff list_ex_iff)

text \<open>A lookup after a write that keeps the key of every row, and after an upsert.\<close>

lemma findFirst_updateRows:
  "(\<And>r. p (f r) \<longleftrightarrow> p r) \<Longrightarrow> findFirst p (updateRows f t) = map_option f (findFirst p t)"
  by (induction t) (auto simp: findFirst_def updateRows_def)

lemma findFirst_updateRows_other:
  assumes "\<And>r. p r \<Longrightarrow> \<not> q r \<and> \<not> q (f r)"
  shows "findFirst q (updateRows (\<lambda>r. if p r then f r else r) t) = findFirst q t"
proof (induction t)
  case (Cons x t)
  then show ?case using assms [of "snd x"] by (cases x) (auto simp: updateRows_def)
qed (simp add: updateRows_def)

lemma findFirst_insertRow:
  "findFirst p (insertRow rid r t) =
     (case findFirst p t of Some x \<Rightarrow> Some x | None \<Rightarrow> if p r then Some r else None)"
  by (induction t) (auto simp: findFirst_def insertRow_def)

lemma findFirst_deleteMany: "(\<And>r. p r \<Longrightarrow> \<not> q r) \<Longrightarrow> findFirst p (deleteMany q t) = findFirst p t"
  by (induction t) (auto simp: deleteMany_def)

lemma findFirst_deleteMany_None: "(\<And>r. p r \<Longrightarrow> q r) \<Longrightarrow> findFirst p (deleteMany q t) = None"
  by (auto simp: findFirst_None deleteMany_def list_ex_iff)

lemma findFirst_upsert_same:
  "p new \<Longrightarrow> (\<And>r. p r \<Longrightarrow> p (f r)) \<Longrightarrow>
     findFirst p (upsertRow p f rid new t) =
       (case findFirst p t of Some r \<Rightarrow> Some (f r) | None \<Rightarrow> Some new)"
  using findFirst_None [of p t]
  by (cases "findFirst p t")
    (auto simp: upsertRow_def findFirst_updateRows findFirst_insertRow dest: findFirst_Some)

lemma findFirst_upsert_other:
  "\<not> q new \<Longrightarrow> (\<And>r. p r \<Longrightarrow> \<not> q r \<and> \<not> q (f r)) \<Longrightarrow> findFirst q (upsertRow p f rid new t) = findFirst q t"
  by (auto simp: upsertRow_def findFirst_updateRows_other findFirst_insertRow split: option.splits)


subsection \<open>Endpoints and secrets\<close>

text \<open>What a provider row points at, and what is stored under a credential reference.\<close>

definition endpointOf :: "string \<Rightarrow> string \<Rightarrow> db \<Rightarrow> (string \<times> string option) option" where
  "endpointOf userId route s = map_option (\<lambda>p. (pv_apiKeyEnv p, pv_baseUrl p)) (providerOf userId route s)"

definition secretOf :: "string \<Rightarrow> string \<Rightarrow> db \<Rightarrow> string option" where
  "secretOf userId name s = map_option cr_apiKeyEncrypted (credentialRowOf userId name s)"

lemma readProviderCredentialForTest_Some:
  "readProviderCredentialForTest ci u route name url s = Some k \<longleftrightarrow>
     endpointOf u route s = Some (name, trim_or_null url) \<and>
     (\<exists>x. secretOf u name s = Some x \<and> decryptSecret ci (Some x) = Inr k)"
  by (auto simp: readProviderCredentialForTest_def endpointOf_def secretOf_def split: option.splits sum.splits)

lemma endpointOf_upsert:
  "endpointOf v r (upsertTransaction c u inp route e s) =
     (if v = u \<and> r = route then Some (credentialOf inp route, trim_or_null (pi_baseUrl inp))
      else endpointOf v r s)"
proof -
  let ?row = "storedRow c u inp route"
  let ?clear = "updateRows (\<lambda>r. if pv_userId r = u then r\<lparr>pv_isDefault := False\<rparr> else r) (aiProvider s)"
  have row: "pv_userId ?row = u" "pv_route ?row = route" "pv_apiKeyEnv ?row = credentialOf inp route"
    "pv_baseUrl ?row = trim_or_null (pi_baseUrl inp)"
    by (simp_all add: storedRow_def Let_def)
  have clear: "map_option (\<lambda>p. (pv_apiKeyEnv p, pv_baseUrl p))
      (findFirst (\<lambda>x. pv_userId x = v \<and> pv_route x = r) ?clear) = endpointOf v r s"
    by (subst findFirst_updateRows) (auto simp: endpointOf_def providerOf_def option.map_comp comp_def
        intro!: option.map_cong0)
  show ?thesis
  proof (cases "v = u \<and> r = route")
    case True
    then show ?thesis
      by (auto simp: endpointOf_def providerOf_def upsertTransaction_def Let_def findFirst_upsert_same row
          split: option.splits)
  next
    case False
    then have "findFirst (\<lambda>x. pv_userId x = v \<and> pv_route x = r)
        (upsertRow (\<lambda>r. pv_userId r = u \<and> pv_route r = route) (\<lambda>_. ?row) (newId c) ?row t) =
      findFirst (\<lambda>x. pv_userId x = v \<and> pv_route x = r) t" for t
      by (intro findFirst_upsert_other) (auto simp: row)
    then show ?thesis using False clear
      by (auto simp: endpointOf_def providerOf_def upsertTransaction_def Let_def)
  qed
qed

lemma secretOf_upsert:
  "secretOf v n (upsertTransaction c u inp route e s) =
     (if v = u \<and> n = credentialOf inp route \<and> e \<noteq> None then e else secretOf v n s)"
proof (cases "v = u \<and> n = credentialOf inp route")
  case True
  then show ?thesis
    by (auto simp: secretOf_def credentialRowOf_def upsertTransaction_def Let_def findFirst_upsert_same
        split: option.splits)
next
  case False
  then have "findFirst (\<lambda>r. cr_userId r = v \<and> cr_credentialName r = n)
      (aiCredential (upsertTransaction c u inp route e s)) =
    findFirst (\<lambda>r. cr_userId r = v \<and> cr_credentialName r = n) (aiCredential s)"
    by (cases e) (auto simp: upsertTransaction_def Let_def intro!: findFirst_upsert_other)
  then show ?thesis using False by (auto simp: secretOf_def credentialRowOf_def)
qed

lemma upsertProvider_run:
  "upsertProvider parseUrl ci iv c u inp s =
     (let route = trim (nullish (pi_route inp) '''');
          supplied = trim_or_null (pi_apiKey inp)
      in case validateProvider parseUrl inp of
           Some problem \<Rightarrow> (Inl problem, s)
         | None \<Rightarrow>
             if endpointOf u route s = None \<and> supplied = None then
               (Inl ''API key is required when creating a personal AI connection'', s)
             else if secretOf u (credentialOf inp route) s \<noteq> None \<and> supplied = None \<and>
                 endpointOf u route s \<noteq> Some (credentialOf inp route, trim_or_null (pi_baseUrl inp)) then
               (Inl ''Re-enter the API key when changing its connection or Base URL'', s)
             else case optR (encryptSecret ci iv) supplied of
                 Inl e \<Rightarrow> (Inl e, s)
               | Inr e \<Rightarrow> (let s' = upsertTransaction c u inp route e s in (Inr (listProviders u s'), s')))"
  by (auto simp: upsertProvider_def handler_simps Let_def endpointOf_def secretOf_def
      movesStoredCredential_def split: option.splits sum.splits)

lemma deleteProvider_run:
  "snd (deleteProvider u route s) =
     (case endpointOf u route s of
        None \<Rightarrow> s
      | Some (name, _) \<Rightarrow> s\<lparr>
          aiProvider := deleteMany (\<lambda>r. pv_userId r = u \<and> pv_route r = route) (aiProvider s),
          aiCredential := deleteMany (\<lambda>k. cr_userId k = u \<and> cr_credentialName k = name) (aiCredential s)\<rparr>)"
  by (auto simp: deleteProvider_def handler_simps endpointOf_def split: option.splits)

lemma endpointOf_delete:
  "endpointOf v r (snd (deleteProvider u route s)) = (if v = u \<and> r = route then None else endpointOf v r s)"
proof (cases "v = u \<and> r = route")
  case True
  then show ?thesis
    by (auto simp: deleteProvider_run endpointOf_def providerOf_def findFirst_deleteMany_None split: option.splits)
next
  case False
  then have "findFirst (\<lambda>x. pv_userId x = v \<and> pv_route x = r)
      (deleteMany (\<lambda>x. pv_userId x = u \<and> pv_route x = route) (aiProvider s)) =
    findFirst (\<lambda>x. pv_userId x = v \<and> pv_route x = r) (aiProvider s)"
    by (intro findFirst_deleteMany) auto
  then show ?thesis using False
    by (auto simp: deleteProvider_run endpointOf_def providerOf_def split: option.splits)
qed

lemma secretOf_delete:
  "secretOf v n (snd (deleteProvider u route s)) =
     (if v = u \<and> map_option fst (endpointOf u route s) = Some n then None else secretOf v n s)"
proof (cases "endpointOf u route s")
  case (Some p)
  obtain name url where p: "p = (name, url)" by (cases p)
  have "findFirst (\<lambda>x. cr_userId x = v \<and> cr_credentialName x = n)
      (deleteMany (\<lambda>k. cr_userId k = u \<and> cr_credentialName k = name) (aiCredential s)) =
    (if v = u \<and> name = n then None
     else findFirst (\<lambda>x. cr_userId x = v \<and> cr_credentialName x = n) (aiCredential s))"
    by (auto intro!: findFirst_deleteMany findFirst_deleteMany_None)
  then show ?thesis by (auto simp: deleteProvider_run Some p secretOf_def credentialRowOf_def)
qed (simp add: deleteProvider_run)

text \<open>
  C6. No write opens a new endpoint for a stored key. Whatever an upsert (accepted or refused) or a
  delete does, a key the connection check could read afterwards for a route and an endpoint could be
  read for the same route and endpoint before, unless it is the key the request itself supplied, under
  the reference the request names.
\<close>

theorem stored_key_stays_at_its_endpoint:
  assumes "s' = snd (upsertProvider parseUrl ci iv c u inp s) \<or> s' = snd (deleteProvider u gone s)"
    and "readProviderCredentialForTest ci v route name url s' = Some k"
  shows "readProviderCredentialForTest ci v route name url s = Some k \<or>
    (v = u \<and> name = credentialOf inp (trim (nullish (pi_route inp) '''')) \<and>
     (\<exists>supplied stored. trim_or_null (pi_apiKey inp) = Some supplied \<and>
        encryptSecret ci iv supplied = Inr stored \<and> decryptSecret ci (Some stored) = Inr k))"
proof (rule disjE [OF assms(1)])
  assume "s' = snd (deleteProvider u gone s)"
  then show ?thesis using assms(2)
    by (auto simp: readProviderCredentialForTest_Some endpointOf_delete secretOf_delete split: if_splits)
next
  assume "s' = snd (upsertProvider parseUrl ci iv c u inp s)"
  then show ?thesis using assms(2)
    by (auto simp: readProviderCredentialForTest_Some upsertProvider_run Let_def endpointOf_upsert
        secretOf_upsert optR_def split: if_splits option.splits sum.splits prod.splits)
qed

text \<open>A provider saved with a key, the URL parser of a sample deployment, and a change of its label.\<close>

definition demo_parse :: "string \<Rightarrow> (string \<times> string) option" where
  "demo_parse u = (if startsWith u ''https://'' then Some (''https:'', drop 8 u) else None)"

definition demo_provider :: "string \<Rightarrow> string \<Rightarrow> string option \<Rightarrow> provider_row" where
  "demo_provider route name url =
     \<lparr> pv_userId = demo_user, pv_route = route, pv_label = None, pv_apiKeyEnv = name,
       pv_api = Some ''openai-completions'', pv_baseUrl = url, pv_models = None, pv_defaultModel = None,
       pv_isDefault = False, pv_updatedAt = 1 \<rparr>"

definition demo_ai_db :: db where
  "demo_ai_db =
     empty_db\<lparr>aiProvider := [(''a1'', demo_provider ''xai'' ''K'' None)],
       aiCredential := [(''k1'', \<lparr> cr_userId = demo_user, cr_credentialName = ''K'', cr_provider = ''xai'',
         cr_apiKeyEncrypted = ''sk'' \<rparr>)]\<rparr>"

definition demo_provider_input :: ProviderInput where
  "demo_provider_input =
     \<lparr> pi_route = Some ''xai'', pi_label = Some ''X'', pi_apiKeyEnv = Some ''K'', pi_api = None,
       pi_baseUrl = None, pi_models = None, pi_defaultModel = Some ''m'', pi_isDefault = Some True,
       pi_apiKey = None \<rparr>"

theorem stored_key_stays_at_its_endpoint_witness:
  "\<exists>s'. s' = snd (upsertProvider demo_parse demo_cipher ''iv'' demo_ctx demo_user demo_provider_input demo_ai_db) \<and>
     s' \<noteq> demo_ai_db \<and>
     readProviderCredentialForTest demo_cipher demo_user ''xai'' ''K'' None s' = Some ''sk'' \<and>
     readProviderCredentialForTest demo_cipher demo_user ''xai'' ''K'' None demo_ai_db = Some ''sk''"
proof -
  let ?s = "snd (upsertProvider demo_parse demo_cipher ''iv'' demo_ctx demo_user demo_provider_input demo_ai_db)"
  have r: "readProviderCredentialForTest demo_cipher demo_user ''xai'' ''K'' None ?s = Some ''sk''" by code_simp
  have "map (pv_isDefault \<circ> snd) (aiProvider ?s) = [True]" by code_simp
  moreover have "map (pv_isDefault \<circ> snd) (aiProvider demo_ai_db) = [False]" by code_simp
  ultimately have ne: "?s \<noteq> demo_ai_db" by auto
  have "readProviderCredentialForTest demo_cipher demo_user ''xai'' ''K'' None demo_ai_db = Some ''sk''"
    using stored_key_stays_at_its_endpoint [OF disjI1 [OF refl] r]
    by (auto simp: demo_provider_input_def trim_or_null_def)
  with r ne show ?thesis by blast
qed

text \<open>
  A saved key is not bound to the endpoint it was saved for. The reference of a credential can be
  shared by two routes, so a key saved for one route is read back for the other route's endpoint: here
  a key supplied for xAI is handed out for the earlier route \<open>evil\<close>, which the user never entered that
  key for.
\<close>

lemma shared_reference_redirects_key:
  "let s = demo_ai_db\<lparr>aiProvider := [(''a1'', demo_provider ''evil'' ''K'' (Some ''https://e''))]\<rparr>;
       inp = demo_provider_input\<lparr>pi_apiKey := Some ''secret''\<rparr>;
       s' = snd (upsertProvider demo_parse demo_cipher ''iv'' demo_ctx demo_user inp s)
   in readProviderCredentialForTest demo_cipher demo_user ''evil'' ''K'' (Some ''https://e'') s' = Some ''secret''"
  by code_simp

subsection \<open>The tables\<close>

text \<open>Unique keys, and at most one default per user.\<close>

definition providers_ok :: "db \<Rightarrow> bool" where
  "providers_ok s \<longleftrightarrow>
     distinct (map (\<lambda>(k, r). (pv_userId r, pv_route r)) (aiProvider s)) \<and>
     distinct (map (\<lambda>(k, r). (cr_userId r, cr_credentialName r)) (aiCredential s)) \<and>
     list_all (\<lambda>(k, r). list_all (\<lambda>(k', r'). pv_isDefault r \<and> pv_isDefault r' \<and> pv_userId r = pv_userId r' \<longrightarrow>
       pv_route r = pv_route r') (aiProvider s)) (aiProvider s)"

text \<open>What another user sees of the tables of this theory.\<close>

definition ai_rows_of_others :: "string \<Rightarrow> db \<Rightarrow> provider_row table \<times> credential_row table" where
  "ai_rows_of_others u s =
     (findMany (\<lambda>r. pv_userId r \<noteq> u) (aiProvider s), findMany (\<lambda>r. cr_userId r \<noteq> u) (aiCredential s))"

lemma map_updateRows: "(\<And>r. g (f r) = g r) \<Longrightarrow> map (\<lambda>(k, r). g r) (updateRows f t) = map (\<lambda>(k, r). g r) t"
  by (induction t) (auto simp: updateRows_def)

lemma distinct_upsertRow:
  assumes "\<And>r. p r \<longleftrightarrow> g r = g new" "\<And>r. p r \<Longrightarrow> g (f r) = g r" "distinct (map (\<lambda>(k, r). g r) t)"
  shows "distinct (map (\<lambda>(k, r). g r) (upsertRow p f rid new t))"
proof (cases "list_ex (\<lambda>(k, r). p r) t")
  case True
  have "map (\<lambda>(k, r). g r) (updateRows (\<lambda>r. if p r then f r else r) t) = map (\<lambda>(k, r). g r) t"
    using assms(2) by (intro map_updateRows) simp
  with True show ?thesis using assms(3) by (simp add: upsertRow_def)
next
  case False
  then show ?thesis using assms(1,3) by (auto simp: upsertRow_def insertRow_def list_ex_iff)
qed

lemma set_upsertRow_const:
  "(k, r) \<in> set (upsertRow p (\<lambda>_. new) rid new t) \<Longrightarrow> r = new \<or> (k, r) \<in> set t \<and> \<not> p r"
  by (auto simp: upsertRow_def updateRows_def insertRow_def list_ex_iff split: if_splits)

lemma findMany_upsertRow:
  assumes "\<not> q new" "\<And>r. p r \<Longrightarrow> \<not> q r \<and> \<not> q (f r)"
  shows "findMany q (upsertRow p f rid new t) = findMany q t"
proof -
  have "findMany q (updateRows (\<lambda>r. if p r then f r else r) t) = findMany q t"
  proof (induction t)
    case (Cons x t)
    then show ?case using assms(2) [of "snd x"] by (cases x) (auto simp: updateRows_def findMany_def)
  qed (simp add: updateRows_def)
  then show ?thesis using assms(1) by (simp add: upsertRow_def insertRow_def findMany_def)
qed

lemma findMany_updateRows:
  "(\<And>r. q (f r) \<longleftrightarrow> q r) \<Longrightarrow> (\<And>r. q r \<Longrightarrow> f r = r) \<Longrightarrow> findMany q (updateRows f t) = findMany q t"
  by (induction t) (auto simp: updateRows_def findMany_def)

lemma findMany_deleteMany: "(\<And>r. q r \<Longrightarrow> \<not> p r) \<Longrightarrow> findMany q (deleteMany p t) = findMany q t"
  by (induction t) (auto simp: deleteMany_def findMany_def)

lemma distinct_map_deleteMany:
  "distinct (map f t) \<Longrightarrow> distinct (map f (deleteMany p t))"
  by (simp add: deleteMany_def distinct_map_filter)

text \<open>The provider table the transaction starts from, and the invariant of the transaction.\<close>

lemma providers_ok_iff:
  "providers_ok s \<longleftrightarrow>
     distinct (map (\<lambda>(k, r). (pv_userId r, pv_route r)) (aiProvider s)) \<and>
     distinct (map (\<lambda>(k, r). (cr_userId r, cr_credentialName r)) (aiCredential s)) \<and>
     (\<forall>k r k' r'. (k, r) \<in> set (aiProvider s) \<longrightarrow> (k', r') \<in> set (aiProvider s) \<longrightarrow>
        pv_isDefault r \<longrightarrow> pv_isDefault r' \<longrightarrow> pv_userId r = pv_userId r' \<longrightarrow> pv_route r = pv_route r')"
  by (auto simp: providers_ok_def list_all_iff)

lemma providers_ok_keys:
  assumes "providers_ok s"
  shows "distinct (map (\<lambda>(k, r). (pv_userId r, pv_route r)) (aiProvider s))"
    "distinct (map (\<lambda>(k, r). (cr_userId r, cr_credentialName r)) (aiCredential s))"
  using assms unfolding providers_ok_def by blast+

lemma providers_ok_default:
  "providers_ok s \<Longrightarrow> (k, r) \<in> set (aiProvider s) \<Longrightarrow> (k', r') \<in> set (aiProvider s) \<Longrightarrow>
     pv_isDefault r \<Longrightarrow> pv_isDefault r' \<Longrightarrow> pv_userId r = pv_userId r' \<Longrightarrow> pv_route r = pv_route r'"
  unfolding providers_ok_iff by blast

lemma storedRow_sel [simp]:
  "pv_userId (storedRow c u inp route) = u" "pv_route (storedRow c u inp route) = route"
  "pv_isDefault (storedRow c u inp route) = nullish (pi_isDefault inp) False"
  "pv_apiKeyEnv (storedRow c u inp route) = credentialOf inp route"
  by (simp_all add: storedRow_def Let_def)

lemma upsertTransaction_ok:
  assumes "providers_ok s"
  shows "providers_ok (upsertTransaction c u inp route e s)"
proof -
  let ?row = "storedRow c u inp route"
  let ?t = "if pi_isDefault inp = Some True
    then updateRows (\<lambda>r. if pv_userId r = u then r\<lparr>pv_isDefault := False\<rparr> else r) (aiProvider s) else aiProvider s"
  let ?p = "\<lambda>r. pv_userId r = u \<and> pv_route r = route"
  have keys: "distinct (map (\<lambda>(k, r). (pv_userId r, pv_route r)) ?t)"
  proof -
    have "map (\<lambda>(k, r). (pv_userId r, pv_route r)) ?t = map (\<lambda>(k, r). (pv_userId r, pv_route r)) (aiProvider s)"
      by (auto intro!: map_updateRows)
    then show ?thesis using providers_ok_keys(1) [OF assms] by (simp only:)
  qed
  have one: "pv_route r = pv_route r'"
    if "(k, r) \<in> set ?t" "(k', r') \<in> set ?t" "pv_isDefault r" "pv_isDefault r'" "pv_userId r = pv_userId r'"
    for k r k' r'
  proof -
    note hyp = that
    have from_s: "\<exists>r0. (k, r0) \<in> set (aiProvider s) \<and> pv_isDefault r0 \<and> pv_userId r0 = pv_userId r \<and>
        pv_route r0 = pv_route r" if "(k, r) \<in> set ?t" "pv_isDefault r" for k r
      using that by (force simp: updateRows_def split: if_splits)
    obtain r0 where r0: "(k, r0) \<in> set (aiProvider s)" "pv_isDefault r0" "pv_userId r0 = pv_userId r"
        "pv_route r0 = pv_route r"
      using from_s [OF hyp(1,3)] by (elim exE conjE)
    obtain r1 where r1: "(k', r1) \<in> set (aiProvider s)" "pv_isDefault r1" "pv_userId r1 = pv_userId r'"
        "pv_route r1 = pv_route r'"
      using from_s [OF hyp(2,4)] by (elim exE conjE)
    have "pv_userId r0 = pv_userId r1" unfolding r0(3) r1(3) by (rule hyp(5))
    then have "pv_route r0 = pv_route r1" by (rule providers_ok_default [OF assms r0(1) r1(1) r0(2) r1(2)])
    then show ?thesis unfolding r0(4) r1(4) .
  qed
  have off: "\<not> pv_isDefault r" if "(k, r) \<in> set ?t" "pv_userId r = u" "nullish (pi_isDefault inp) False" for k r
  proof -
    have "pi_isDefault inp = Some True" using that(3) by (cases "pi_isDefault inp") auto
    then have "\<exists>r0. r = (if pv_userId r0 = u then r0\<lparr>pv_isDefault := False\<rparr> else r0)"
      using that(1) by (auto simp: updateRows_def)
    then obtain r0 where "r = (if pv_userId r0 = u then r0\<lparr>pv_isDefault := False\<rparr> else r0)" ..
    with that(2) show ?thesis by (cases "pv_userId r0 = u") simp_all
  qed
  show ?thesis
    unfolding providers_ok_iff
  proof (intro conjI allI impI)
    show "distinct (map (\<lambda>(k, r). (pv_userId r, pv_route r)) (aiProvider (upsertTransaction c u inp route e s)))"
      using keys by (auto simp: upsertTransaction_def Let_def intro!: distinct_upsertRow)
    show "distinct (map (\<lambda>(k, r). (cr_userId r, cr_credentialName r)) (aiCredential (upsertTransaction c u inp route e s)))"
      using providers_ok_keys(2) [OF assms]
      by (auto simp: upsertTransaction_def Let_def intro!: distinct_upsertRow split: option.splits)
  next
    fix k r k' r'
    assume "(k, r) \<in> set (aiProvider (upsertTransaction c u inp route e s))"
      and "(k', r') \<in> set (aiProvider (upsertTransaction c u inp route e s))"
    then have r: "r = ?row \<or> (k, r) \<in> set ?t" and r': "r' = ?row \<or> (k', r') \<in> set ?t"
      using set_upsertRow_const by (fastforce simp: upsertTransaction_def Let_def)+
    assume def: "pv_isDefault r" "pv_isDefault r'" and user: "pv_userId r = pv_userId r'"
    show "pv_route r = pv_route r'"
    proof (rule ccontr)
      assume ne: "pv_route r \<noteq> pv_route r'"
      then consider "r = ?row" "(k', r') \<in> set ?t" | "r' = ?row" "(k, r) \<in> set ?t"
        using r r' one [OF _ _ def user] by blast
      then show False
      proof cases
        case 1
        then have "pv_userId r' = u" "nullish (pi_isDefault inp) False" using def(1) user by auto
        then show False using off [OF 1(2)] def(2) by blast
      next
        case 2
        then have "pv_userId r = u" "nullish (pi_isDefault inp) False" using def(2) user by auto
        then show False using off [OF 2(2)] def(1) by blast
      qed
    qed
  qed
qed

lemma upsertTransaction_others:
  "ai_rows_of_others u (upsertTransaction c u inp route e s) = ai_rows_of_others u s"
proof -
  have "findMany (\<lambda>r. pv_userId r \<noteq> u)
      (updateRows (\<lambda>r. if pv_userId r = u then r\<lparr>pv_isDefault := False\<rparr> else r) (aiProvider s)) =
    findMany (\<lambda>r. pv_userId r \<noteq> u) (aiProvider s)"
    by (rule findMany_updateRows) auto
  moreover have "findMany (\<lambda>r. pv_userId r \<noteq> u)
      (upsertRow (\<lambda>r. pv_userId r = u \<and> pv_route r = route) (\<lambda>_. storedRow c u inp route) rid
        (storedRow c u inp route) t) = findMany (\<lambda>r. pv_userId r \<noteq> u) t" for rid t
    by (rule findMany_upsertRow) auto
  moreover have "findMany (\<lambda>r. cr_userId r \<noteq> u) (aiCredential (upsertTransaction c u inp route e s)) =
      findMany (\<lambda>r. cr_userId r \<noteq> u) (aiCredential s)"
    by (cases e) (auto simp: upsertTransaction_def Let_def intro!: findMany_upsertRow)
  ultimately show ?thesis by (auto simp: ai_rows_of_others_def upsertTransaction_def Let_def)
qed

lemma deleteProvider_ok:
  assumes "providers_ok s"
  shows "providers_ok (snd (deleteProvider u route s))"
proof (cases "endpointOf u route s")
  case (Some p)
  let ?s = "snd (deleteProvider u route s)"
  have sub: "x \<in> set (aiProvider ?s) \<Longrightarrow> x \<in> set (aiProvider s)" for x
    by (cases p) (auto simp: deleteProvider_run Some deleteMany_def)
  have "distinct (map (\<lambda>(k, r). (pv_userId r, pv_route r)) (aiProvider ?s))"
    "distinct (map (\<lambda>(k, r). (cr_userId r, cr_credentialName r)) (aiCredential ?s))"
    using providers_ok_keys [OF assms] by (cases p; simp add: deleteProvider_run Some distinct_map_deleteMany)+
  then show ?thesis
    unfolding providers_ok_iff [of ?s]
    by (intro conjI allI impI) (assumption, assumption, rule providers_ok_default [OF assms sub sub])
qed (simp add: deleteProvider_run assms)

lemma deleteProvider_others: "ai_rows_of_others u (snd (deleteProvider u route s)) = ai_rows_of_others u s"
  by (auto simp: deleteProvider_run ai_rows_of_others_def findMany_deleteMany split: option.splits)

text \<open>
  C14. The tables keep their shape: after any upsert or delete, accepted or refused, a user has at most
  one row per route, one credential per reference and one default provider; the rows of every other
  user, and every other table, are as they were.
\<close>

theorem providers_invariant:
  assumes "providers_ok s"
    and "s' = snd (upsertProvider parseUrl ci iv c u inp s) \<or> s' = snd (deleteProvider u route s)"
  shows "providers_ok s' \<and> ai_rows_of_others u s' = ai_rows_of_others u s \<and>
    s'\<lparr>aiProvider := aiProvider s, aiCredential := aiCredential s\<rparr> = s"
proof (rule disjE [OF assms(2)])
  assume "s' = snd (deleteProvider u route s)"
  then show ?thesis
    using deleteProvider_ok [OF assms(1)] deleteProvider_others
    by (auto simp: deleteProvider_run split: option.splits)
next
  assume "s' = snd (upsertProvider parseUrl ci iv c u inp s)"
  then have "s' = s \<or> (\<exists>route e. s' = upsertTransaction c u inp route e s)"
    by (auto simp: upsertProvider_run Let_def split: option.splits sum.splits if_splits)
  then show ?thesis
    using upsertTransaction_ok [OF assms(1)] upsertTransaction_others assms(1)
    by (auto simp: upsertTransaction_def Let_def)
qed

theorem providers_invariant_witness:
  "providers_ok demo_ai_db \<and>
   providers_ok (snd (upsertProvider demo_parse demo_cipher ''iv'' demo_ctx demo_user demo_provider_input demo_ai_db))"
proof -
  have ok: "providers_ok demo_ai_db" by code_simp
  with providers_invariant [OF ok disjI1 [OF refl]] show ?thesis by blast
qed

subsection \<open>Resolution\<close>

lemma map_of_foldl_obj_set:
  "distinct (map f rows) \<Longrightarrow>
     map_of (foldl (\<lambda>acc r. obj_set (f r) (g r) acc) acc rows) k =
       (case find (\<lambda>r. f r = k) rows of Some r \<Rightarrow> Some (g r) | None \<Rightarrow> map_of acc k)"
proof (induction rows arbitrary: acc)
  case (Cons r rows)
  have "k \<notin> f ` set rows \<Longrightarrow> find (\<lambda>r. f r = k) rows = None" by (auto simp: find_None_iff)
  then show ?case using Cons by (auto simp: map_of_obj_set split: option.splits)
qed simp

lemma map_of_collectSecrets:
  assumes "distinct (map cr_credentialName rows)" "r \<in> set rows"
    and "decryptSecret ci (Some (cr_apiKeyEncrypted r)) = Inr k"
  shows "map_of (collectSecrets ci acc rows) (cr_credentialName r) = Some k"
proof -
  have keep: "name \<notin> cr_credentialName ` set rows \<Longrightarrow> map_of (collectSecrets ci acc rows) name = map_of acc name"
    for name acc and rows :: "credential_row list"
    by (induction rows arbitrary: acc) (auto simp: map_of_obj_set split: sum.splits)
  show ?thesis
    using assms by (induction rows arbitrary: acc) (auto simp: keep map_of_obj_set split: sum.splits)
qed

lemma keepFirst_ids: "m \<in> set (keepFirst seen ms) \<Longrightarrow> m \<in> set ms \<and> nullish (pm_id m) '''' \<notin> insert '''' seen"
  by (induction seen ms rule: keepFirst.induct) (auto simp: Let_def split: if_splits)

lemma normalizeModels_ids:
  "m \<in> set (normalizeModels ms) \<Longrightarrow> \<exists>i. pm_id m = Some i \<and> i \<noteq> '''' \<and> trim i = i"
  by (auto simp: normalizeModels_def cleanModel_def split: option.splits dest!: keepFirst_ids)

lemma declaredModels_has:
  "trim m = m \<Longrightarrow> m \<noteq> '''' \<Longrightarrow> \<exists>x \<in> set (declaredModels ms (Some m)). pm_id x = Some m"
  by (auto simp: declaredModels_def list_ex_iff)

lemma providerOf_upsert:
  "providerOf u route (upsertTransaction c u inp route e s) = Some (storedRow c u inp route)"
  by (auto simp: providerOf_def upsertTransaction_def Let_def findFirst_upsert_same split: option.splits)

lemma providerOf_Some: "providerOf u route s = Some r \<Longrightarrow> r \<in> set (map snd (findMany (\<lambda>r. pv_userId r = u) (aiProvider s)))
    \<and> pv_userId r = u \<and> pv_route r = route"
  by (force simp: providerOf_def findMany_def image_iff dest!: findFirst_Some)

lemma credentialRowOf_Some:
  "credentialRowOf u name s = Some r \<Longrightarrow> r \<in> set (map snd (findMany (\<lambda>r. cr_userId r = u) (aiCredential s)))
    \<and> cr_userId r = u \<and> cr_credentialName r = name"
  by (force simp: credentialRowOf_def findMany_def image_iff dest!: findFirst_Some)

text \<open>A user's rows: their routes and references are distinct, and the default is the chosen one.\<close>

lemma distinct_own:
  "distinct (map (\<lambda>(k, r). (g r, h r)) t) \<Longrightarrow> distinct (map h (map snd (findMany (\<lambda>r. g r = u) t)))"
  by (induction t) (auto simp: findMany_def image_iff)

lemma chosenRow_default:
  assumes ok: "providers_ok s" and r: "providerOf u route s = Some r" "pv_isDefault r"
  shows "chosenRow (map snd (findMany (\<lambda>r. pv_userId r = u) (aiProvider s))) = Some r"
proof -
  let ?rows = "map snd (findMany (\<lambda>r. pv_userId r = u) (aiProvider s))"
  have d: "distinct (map pv_route ?rows)" using distinct_own [OF providers_ok_keys(1) [OF ok]] .
  have mem: "r \<in> set ?rows" "pv_userId r = u" using providerOf_Some [OF r(1)] by auto
  obtain x where x: "find pv_isDefault ?rows = Some x" "x \<in> set ?rows" "pv_isDefault x"
  proof (cases "find pv_isDefault ?rows")
    case None
    then show thesis using mem r(2) unfolding find_None_iff by blast
  next
    case (Some x)
    then show thesis using that by (metis find_Some_iff nth_mem)
  qed
  have rows: "y \<in> set ?rows \<Longrightarrow> pv_userId y = u \<and> (\<exists>k. (k, y) \<in> set (aiProvider s))" for y
    by (auto simp: findMany_def)
  obtain k k' where k: "(k, x) \<in> set (aiProvider s)" "(k', r) \<in> set (aiProvider s)"
    using rows x(2) mem(1) by blast
  have "pv_route x = pv_route r"
    using providers_ok_default [OF ok k x(3) r(2)] rows x(2) mem by metis
  then have "x = r" using d x(2) mem(1) by (metis distinct_map inj_onD)
  with x(1) show ?thesis by (simp add: chosenRow_def)
qed

lemma find_distinct: "distinct (map f xs) \<Longrightarrow> x \<in> set xs \<Longrightarrow> find (\<lambda>y. f y = f x) xs = Some x"
  by (induction xs) (auto simp: image_iff)

lemma resolveRoutes_provider:
  assumes "providers_ok s" "providerOf u route s = Some r"
  shows "map_of (rr_providers (resolveRoutes ci u s)) route = Some (providerConfig r)"
proof -
  let ?rows = "map snd (findMany (\<lambda>r. pv_userId r = u) (aiProvider s))"
  have d: "distinct (map pv_route ?rows)" using distinct_own [OF providers_ok_keys(1) [OF assms(1)]] .
  have r: "r \<in> set ?rows" "pv_route r = route" using providerOf_Some [OF assms(2)] by auto
  have "find (\<lambda>x. pv_route x = route) ?rows = Some r"
    using find_distinct [OF d r(1)] r(2) by simp
  then show ?thesis using d by (simp add: resolveRoutes_def Let_def map_of_foldl_obj_set)
qed

text \<open>The model a session on a row starts on. For a stored row it is always declared to the adapter.\<close>

definition rowModel :: "provider_row \<Rightarrow> string option" where
  "rowModel r =
     (case pv_defaultModel r of
        Some m \<Rightarrow> Some m
      | None \<Rightarrow> (case normalizeModels (pv_models r) of [] \<Rightarrow> None | m # _ \<Rightarrow> pm_id m))"

lemma providerConfig_name: "pc_apiKeyEnv (providerConfig r) = pv_apiKeyEnv r"
  by (simp add: providerConfig_def Let_def)

lemma storedRow_model:
  assumes "rowModel (storedRow c u inp route) = Some model"
  shows "\<exists>ms. pc_models (providerConfig (storedRow c u inp route)) = Some ms \<and>
    list_ex (\<lambda>m. pm_id m = Some model) ms"
proof -
  let ?row = "storedRow c u inp route"
  let ?ms = "normalizeModels (pv_models ?row)"
  have "pv_defaultModel ?row = Some model \<and> model \<noteq> '''' \<and> trim model = model"
  proof (cases "trim_or_null (pi_defaultModel inp)")
    case None
    then show ?thesis using assms normalizeModels_ids [of _ "pi_models inp"]
      by (cases "normalizeModels (pi_models inp)")
        (fastforce simp: storedRow_def Let_def rowModel_def normalizeModels_def)+
  next
    case (Some m)
    then show ?thesis using assms
      by (auto simp: storedRow_def Let_def rowModel_def trim_or_null_def split: option.splits)
  qed
  then obtain x where "x \<in> set (declaredModels ?ms (pv_defaultModel ?row))" "pm_id x = Some model"
    using declaredModels_has by metis
  then show ?thesis by (auto simp: providerConfig_def Let_def list_ex_iff)
qed

lemma resolveRoutes_chosen:
  assumes "chosenRow (map snd (findMany (\<lambda>r. pv_userId r = u) (aiProvider s))) = Some r"
  shows "rr_route (resolveRoutes ci u s) = Some (pv_route r)" "rr_model (resolveRoutes ci u s) = rowModel r"
  using assms by (simp_all add: resolveRoutes_def Let_def rowModel_def)

text \<open>
  Saving a provider as the default takes effect: the agent's next session starts on that route,
  the model it starts on is declared to the adapter among that route's models, the route refers to the
  credential of the request, and a key supplied with the request is the secret resolved for it.
\<close>

lemma upsert_default_resolves:
  assumes "providers_ok s" "upsertProvider parseUrl ci iv c u inp s = (Inr views, s')"
    and "pi_isDefault inp = Some True"
    and "\<forall>key stored. trim_or_null (pi_apiKey inp) = Some key \<longrightarrow> encryptSecret ci iv key = Inr stored \<longrightarrow>
      decryptSecret ci (Some stored) = Inr key"
  shows "\<exists>cfg. let route = trim (nullish (pi_route inp) ''''); resolved = resolveRoutes ci u s' in
    rr_route resolved = Some route \<and> map_of (rr_providers resolved) route = Some cfg \<and>
    pc_apiKeyEnv cfg = credentialOf inp route \<and>
    (\<forall>model. rr_model resolved = Some model \<longrightarrow>
       (\<exists>ms. pc_models cfg = Some ms \<and> list_ex (\<lambda>m. pm_id m = Some model) ms)) \<and>
    (\<forall>key. trim_or_null (pi_apiKey inp) = Some key \<longrightarrow>
       map_of (rr_credentials resolved) (credentialOf inp route) = Some key)"
proof -
  let ?route = "trim (nullish (pi_route inp) '''')"
  let ?row = "storedRow c u inp ?route"
  obtain e where e: "optR (encryptSecret ci iv) (trim_or_null (pi_apiKey inp)) = Inr e"
    and s': "s' = upsertTransaction c u inp ?route e s"
    using assms(2) by (auto simp: upsertProvider_run Let_def split: option.splits sum.splits if_splits)
  have ok: "providers_ok s'" unfolding s' by (rule upsertTransaction_ok [OF assms(1)])
  have row: "providerOf u ?route s' = Some ?row" unfolding s' by (rule providerOf_upsert)
  have chosen: "chosenRow (map snd (findMany (\<lambda>r. pv_userId r = u) (aiProvider s'))) = Some ?row"
    by (rule chosenRow_default [OF ok row]) (simp add: assms(3))
  have key: "map_of (rr_credentials (resolveRoutes ci u s')) (credentialOf inp ?route) = Some k"
    if "trim_or_null (pi_apiKey inp) = Some k" for k
  proof -
    obtain x where x: "encryptSecret ci iv k = Inr x" "e = Some x"
      using e \<open>trim_or_null (pi_apiKey inp) = Some k\<close> by (auto simp: optR_def)
    then have "secretOf u (credentialOf inp ?route) s' = Some x" by (simp add: s' secretOf_upsert)
    then obtain r where r: "credentialRowOf u (credentialOf inp ?route) s' = Some r" "cr_apiKeyEncrypted r = x"
      by (auto simp: secretOf_def)
    show ?thesis
      using map_of_collectSecrets [OF distinct_own [OF providers_ok_keys(2) [OF ok]], of r u ci k "[]"]
        credentialRowOf_Some [OF r(1)] r(2) x(1) assms(4) \<open>trim_or_null (pi_apiKey inp) = Some k\<close>
      by (auto simp: resolveRoutes_def Let_def)
  qed
  show ?thesis
    using resolveRoutes_chosen [OF chosen, of ci] resolveRoutes_provider [OF ok row, of ci] key storedRow_model
      providerConfig_name [of ?row]
    by (intro exI [of _ "providerConfig ?row"]) (simp add: Let_def)
qed

subsection \<open>The connection check\<close>

text \<open>
  The requests the check of an input may send: the endpoint is the override, which passed the host
  guard, or the preset's own; the key is the one supplied, or one saved for that route and endpoint.
\<close>

definition allowedRequest :: "test_env \<Rightarrow> string \<Rightarrow> ProviderInput \<Rightarrow> db \<Rightarrow> request \<Rightarrow> bool" where
  "allowedRequest env u inp s req \<longleftrightarrow>
     (\<exists>route base key. pi_route inp = Some route \<and>
        req = (modelsUrl base, (''Accept'', ''application/json'') # authenticationHeaders (authOf (trim route)) key) \<and>
        (case trim_or_null (pi_baseUrl inp) of
           Some override \<Rightarrow> base = override \<and>
             assertUrlHostAllowed (te_parseUrl env) (te_lookup env) (te_privateHostsAllowed env) override = Inr ()
         | None \<Rightarrow> map_option pp_baseUrl (findProviderPreset (trim route)) = Some base) \<and>
        (case trim_or_null (pi_apiKey inp) of
           Some supplied \<Rightarrow> key = supplied
         | None \<Rightarrow> readProviderCredentialForTest (te_cipher env) u (trim route) (credentialOf inp route)
             (pi_baseUrl inp) s = Some key))"

lemma checkProviderConnection_cong:
  "(\<And>req. checkRequest config = Some req \<Longrightarrow> f req = g req) \<Longrightarrow>
     checkProviderConnection f n t1 t2 config = checkProviderConnection g n t1 t2 config"
  by (simp add: checkProviderConnection_def Let_def split: option.splits)

lemma checkRequest_allowed:
  assumes "testConfig env u inp s = Inr config" "checkRequest config = Some req"
  shows "allowedRequest env u inp s req"
  using assms
  by (auto simp: testConfig_def allowedRequest_def checkRequest_def checkBaseUrl_def Let_def truthy_def
      split: option.splits if_splits)



subsection \<open>The form and the server\<close>

definition idOnly :: "string \<Rightarrow> ProviderModel" where
  "idOnly m = \<lparr> pm_id = Some m, pm_name = None, pm_contextWindow = None, pm_maxTokens = None \<rparr>"

lemma parseModelIds_ids: "distinct (parseModelIds v) \<and> (\<forall>m \<in> set (parseModelIds v). m \<noteq> '''' \<and> trim m = m)"
  by (auto simp: parseModelIds_def)

lemma keepFirst_distinct:
  "distinct ids \<Longrightarrow> '''' \<notin> set ids \<Longrightarrow> set ids \<inter> seen = {} \<Longrightarrow> keepFirst seen (map idOnly ids) = map idOnly ids"
  by (induction ids arbitrary: seen) (auto simp: idOnly_def)

lemma normalizeModels_parsed: "normalizeModels (Some (map idOnly (parseModelIds v))) = map idOnly (parseModelIds v)"
proof -
  have "map cleanModel (map idOnly (parseModelIds v)) = map idOnly (parseModelIds v)"
    using parseModelIds_ids [of v] by (auto simp: cleanModel_def idOnly_def nonZero_def truthy_def)
  moreover have "keepFirst {} (map idOnly (parseModelIds v)) = map idOnly (parseModelIds v)"
    using parseModelIds_ids [of v] by (intro keepFirst_distinct) auto
  ultimately show ?thesis by (simp only: normalizeModels_def option.case)
qed

lemma credential_trimmed: "rx_match CREDENTIAL_PATTERN x \<Longrightarrow> trim x = x"
proof -
  assume "rx_match CREDENTIAL_PATTERN x"
  then have "list_all (rx_chars CREDENTIAL_PATTERN) x" by (simp add: rx_match_iff lang_chars)
  then have "list_all (\<lambda>c. \<not> is_ws c) x"
    by (rule list_all_weaken) (auto simp: CREDENTIAL_PATTERN_def is_ws_def is_upper_def is_digit_def)
  then show "trim x = x" by (rule trim_no_ws)
qed

text \<open>
  The form and the server agree: a draft the form accepts turns into an input the server accepts,
  provided its protocol is a listed one (and not empty for a custom connection), its credential
  reference is well-formed, a preset connection keeps the preset's route, and the URL parser ignores
  the blanks around the base URL.
\<close>

lemma validated_draft_is_accepted:
  assumes "validateProviderDraft parseUrl draft = None"
    and "dr_connectionType draft = ''custom'' \<or> trim (dr_route draft) \<in> set CATALOG_ROUTES"
    and "dr_api draft \<in> set PROTOCOLS \<or> dr_api draft = '''' \<and> dr_connectionType draft \<noteq> ''custom''"
    and "rx_match CREDENTIAL_PATTERN (or_str (trim (dr_apiKeyEnv draft)) (formApiKeyEnv (trim (dr_route draft))))"
    and "httpUrl parseUrl (trim (dr_baseUrl draft)) = httpUrl parseUrl (dr_baseUrl draft)"
  shows "validateProvider parseUrl (draftToProviderInput draft) = None"
proof -
  let ?inp = "draftToProviderInput draft" and ?route = "trim (dr_route draft)"
  let ?ids = "parseModelIds (dr_models draft)"
  have ids: "pi_models ?inp = Some (map idOnly ?ids)"
    by (simp add: draftToProviderInput_def Let_def idOnly_def)
  have models: "normalizeModels (pi_models ?inp) = map idOnly ?ids" unfolding ids by (rule normalizeModels_parsed)
  have fields: "pi_route ?inp = Some ?route" "credentialOf ?inp ?route =
      trim (or_str (trim (dr_apiKeyEnv draft)) (formApiKeyEnv ?route))"
    "pi_api ?inp = or_null (dr_api draft)" "pi_baseUrl ?inp = or_null (trim (dr_baseUrl draft))"
    by (simp_all add: draftToProviderInput_def Let_def credentialOf_def)
  have default: "trim_or_null (pi_defaultModel ?inp) =
      (if trim (dr_defaultModel draft) \<noteq> '''' then Some (trim (dr_defaultModel draft))
       else case ?ids of [] \<Rightarrow> None | m # _ \<Rightarrow> Some m)"
    using parseModelIds_ids [of "dr_models draft"]
    by (auto simp: draftToProviderInput_def Let_def trim_or_null_def or_null_def split: list.splits)
  have member: "list_ex (\<lambda>m. pm_id m = Some x) (map idOnly ?ids) \<longleftrightarrow> x \<in> set ?ids" for x
    by (auto simp: list_ex_iff idOnly_def)
  have form: "rx_match ROUTE_PATTERN ?route" "trim (dr_baseUrl draft) = '''' \<or> httpUrl parseUrl (dr_baseUrl draft)"
    "dr_connectionType draft = ''custom'' \<Longrightarrow> trim (dr_baseUrl draft) \<noteq> '''' \<and> ?ids \<noteq> []"
    "trim (dr_defaultModel draft) \<noteq> '''' \<and> ?ids \<noteq> [] \<Longrightarrow> trim (dr_defaultModel draft) \<in> set ?ids"
    using assms(1) by (auto simp: validateProviderDraft_def Let_def split: if_splits)
  have custom: "\<not> dr_connectionType draft = ''custom'' \<Longrightarrow> ?route \<in> set CATALOG_ROUTES" using assms(2) by blast
  have default_ok: "?ids \<noteq> [] \<Longrightarrow> trim_or_null (pi_defaultModel ?inp) = Some d \<Longrightarrow> d \<in> set ?ids" for d
    using form(4) by (auto simp: default split: if_splits list.splits)
  have api: "truthy (pi_api ?inp) \<Longrightarrow> the (pi_api ?inp) \<in> set PROTOCOLS"
    "dr_connectionType draft = ''custom'' \<Longrightarrow> truthy (pi_api ?inp)"
    using assms(3) by (auto simp: fields truthy_def or_null_def PROTOCOLS_def split: if_splits)
  have url: "truthy (pi_baseUrl ?inp) \<Longrightarrow> httpUrl parseUrl (the (pi_baseUrl ?inp))"
    "dr_connectionType draft = ''custom'' \<Longrightarrow> truthy (pi_baseUrl ?inp)"
    using form(2,3) assms(5) by (auto simp: fields truthy_def or_null_def split: if_splits)
  have cred: "rx_match CREDENTIAL_PATTERN (credentialOf ?inp ?route)"
    unfolding fields(2) credential_trimmed [OF assms(4)] by (rule assms(4))
  have ok: "\<not> (truthy (pi_api ?inp) \<and> the (pi_api ?inp) \<notin> set PROTOCOLS)"
    "\<not> (truthy (pi_baseUrl ?inp) \<and> \<not> httpUrl parseUrl (the (pi_baseUrl ?inp)))"
    "\<not> (?route \<notin> set CATALOG_ROUTES \<and> \<not> truthy (pi_api ?inp))"
    "\<not> (?route \<notin> set CATALOG_ROUTES \<and> \<not> truthy (pi_baseUrl ?inp))"
    "\<not> (?route \<notin> set CATALOG_ROUTES \<and> map idOnly ?ids = [])"
    using custom api url form(3) by auto
  have ok_default: "\<not> (?route \<notin> set CATALOG_ROUTES \<and> trim_or_null (pi_defaultModel ?inp) \<noteq> None \<and>
      \<not> list_ex (\<lambda>m. pm_id m = trim_or_null (pi_defaultModel ?inp)) (map idOnly ?ids))"
  proof (cases "trim_or_null (pi_defaultModel ?inp)")
    case (Some d)
    show ?thesis unfolding Some member using custom form(3) default_ok Some by blast
  qed simp
  show ?thesis
    unfolding validateProvider_def Let_def fields(1) nullish_simps trim_idem models
    by (simp only: form(1) cred ok ok_default not_True_eq_False if_False)
qed

end
