(* ===== verification/Tenancy.thy ===== *)
theory Tenancy
  imports Orchestrate Ingest Connections Env_Vars Ai_Providers
begin

text \<open>
  The server as a whole: every route and action that writes, over one database. \<open>serve\<close> dispatches a
  request to its handler and gives the status of the answer and the database it leaves.

  The abstract specification is \<open>tenant_step a\<close>: the writes a user \<open>a\<close> may cause, table by table, each
  on rows of \<open>a\<close> only. The refinement lemma shows that every request of a session of \<open>a\<close> is such a step
  or no write at all; the invariant (rows agree with their project and connection on the owner) and
  the isolation of tenants are proved once, on the abstract steps, and carried over.
\<close>

section \<open>Definitions\<close>

subsection \<open>The dispatcher\<close>

datatype api_request =
    ProjectsPOST CreateProjectInput
  | ProjectsPUT "string option" UpdateProjectInput
  | ProjectsDELETE "string option" "string option"
  | RestoreProject string
  | TargetsPOST ProjectTargetInput
  | TargetsPATCH "string option" ProjectTargetInput
  | TargetsDELETE "string option"
  | SchedulesPOST ScheduleInput
  | SchedulesPATCH "string option" ScheduleInput
  | SchedulesDELETE "string option"
  | IngestPOST IngestSourceInput
  | IngestPATCH "string option" IngestSourceInput
  | IngestDELETE "string option"
  | ConnectionsPOST ConnectionInput
  | ConnectionsPUT "string option" "string option" ConnectionInput
  | ConnectionsDELETE "string option" "string option"
  | CreateDremio CreateDremioInput
  | EnvVarsPUT string "int json option"
  | AiProvidersPUT ProviderInput
  | AiProvidersDELETE "string option"

text \<open>What the server draws from outside while it serves a request.\<close>

record world =
  w_outside :: outside
  w_crypto :: crypto_env
  w_ivs :: "nat \<Rightarrow> string"
  w_ids :: "nat \<Rightarrow> string"
  w_parseUrl :: "string \<Rightarrow> (string \<times> string) option"

definition outcome :: "'b response \<times> db \<Rightarrow> nat \<times> db" where
  "outcome r = (status (fst r), snd r)"

fun serve :: "world \<Rightarrow> ctx \<Rightarrow> api_request \<Rightarrow> db \<Rightarrow> nat \<times> db" where
  "serve w c (ProjectsPOST d) s = outcome (projects_POST c d s)"
| "serve w c (ProjectsPUT rid d) s = outcome (projects_PUT c rid d s)"
| "serve w c (ProjectsDELETE rid hard) s = outcome (projects_DELETE c rid hard s)"
| "serve w c (RestoreProject rid) s = outcome (respond writeStatus (\<lambda>u. u) (restoreProject c rid) s)"
| "serve w c (TargetsPOST inp) s = outcome (targets_POST c inp s)"
| "serve w c (TargetsPATCH rid inp) s = outcome (targets_PATCH c rid inp s)"
| "serve w c (TargetsDELETE rid) s = outcome (targets_DELETE c rid s)"
| "serve w c (SchedulesPOST inp) s = outcome (schedules_POST c inp s)"
| "serve w c (SchedulesPATCH rid inp) s = outcome (schedules_PATCH c rid inp s)"
| "serve w c (SchedulesDELETE rid) s = outcome (schedules_DELETE c rid s)"
| "serve w c (IngestPOST inp) s = outcome (ingest_POST c inp s)"
| "serve w c (IngestPATCH rid inp) s = outcome (ingest_PATCH c rid inp s)"
| "serve w c (IngestDELETE rid) s = outcome (ingest_DELETE c rid s)"
| "serve w c (ConnectionsPOST b) s = outcome (connections_POST (w_outside w) (w_crypto w) c b s)"
| "serve w c (ConnectionsPUT rid type b) s = outcome (connections_PUT (w_outside w) (w_crypto w) c rid type b s)"
| "serve w c (ConnectionsDELETE rid type) s = outcome (connections_DELETE (w_outside w) c rid type s)"
| "serve w c (CreateDremio d) s = outcome (respond writeStatus (\<lambda>u. u) (createDremioSource (w_crypto w) c d) s)"
| "serve w c (EnvVarsPUT projectId b) s =
     outcome (envVars_PUT (ce_cipher (w_crypto w)) (w_ivs w) (w_ids w) c projectId b s)"
| "serve w c (AiProvidersPUT inp) s =
     outcome (aiProviders_PUT (w_parseUrl w) (ce_cipher (w_crypto w)) (ce_iv1 (w_crypto w)) c inp s)"
| "serve w c (AiProvidersDELETE route) s = outcome (aiProviders_DELETE c route s)"

text \<open>The databases the server can reach from one without rows, whatever it is asked.\<close>

definition no_rows :: "db \<Rightarrow> bool" where
  "no_rows s \<longleftrightarrow>
     dbtProject s = [] \<and> projectTarget s = [] \<and> dbtSchedule s = [] \<and> connection s = [] \<and>
     dremioSource s = [] \<and> ingestSource s = [] \<and> dbtRun s = [] \<and> dbtEnvironmentVariable s = [] \<and>
     aiProvider s = [] \<and> aiCredential s = []"

inductive reachable :: "db \<Rightarrow> bool" where
  start: "no_rows s \<Longrightarrow> reachable s"
| request: "reachable s \<Longrightarrow> reachable (snd (serve w c req s))"

subsection \<open>The abstract steps\<close>

inductive tenant_step :: "string \<Rightarrow> db \<Rightarrow> db \<Rightarrow> bool" for a :: string where
  project_insert:
    "findUnique (dbtProject s) k = None \<Longrightarrow> pj_createdBy r = a \<Longrightarrow>
     tenant_step a s (s\<lparr>dbtProject := insertRow k r (dbtProject s)\<rparr>)"
| project_change:
    "ownerOf MProject s k = Some a \<Longrightarrow> (\<And>r. pj_createdBy (f r) = pj_createdBy r) \<Longrightarrow>
     tenant_step a s (s\<lparr>dbtProject := updateRow k f (dbtProject s)\<rparr>)"
| project_delete:
    "ownerOf MProject s k = Some a \<Longrightarrow> tenant_step a s (deleteProjectRow k s)"
| target_insert:
    "findUnique (projectTarget s) k = None \<Longrightarrow> ownerOf MProject s (tg_projectId r) = Some a \<Longrightarrow>
     ownerOf MConnection s (tg_connectionId r) = Some a \<Longrightarrow>
     tenant_step a s (s\<lparr>projectTarget := insertRow k r (projectTarget s)\<rparr>)"
| target_change:
    "findUnique (projectTarget s) k = Some old \<Longrightarrow> ownerOf MProject s (tg_projectId old) = Some a \<Longrightarrow>
     (\<And>r. tg_projectId (f r) = tg_projectId r) \<Longrightarrow>
     (\<And>r. ownerOf MConnection s (tg_connectionId (f r)) = Some a) \<Longrightarrow>
     tenant_step a s (s\<lparr>projectTarget := updateRow k f (projectTarget s)\<rparr>)"
| target_delete:
    "findUnique (projectTarget s) k = Some old \<Longrightarrow> ownerOf MProject s (tg_projectId old) = Some a \<Longrightarrow>
     tenant_step a s (s\<lparr>projectTarget := deleteRow k (projectTarget s)\<rparr>)"
| schedule_insert:
    "findUnique (dbtSchedule s) k = None \<Longrightarrow> sc_createdBy r = a \<Longrightarrow>
     ownerOf MProject s (sc_projectId r) = Some a \<Longrightarrow>
     tenant_step a s (s\<lparr>dbtSchedule := insertRow k r (dbtSchedule s)\<rparr>)"
| schedule_change:
    "ownerOf MSchedule s k = Some a \<Longrightarrow> (\<And>r. sc_createdBy (f r) = sc_createdBy r) \<Longrightarrow>
     (\<And>r. ownerOf MProject s (sc_projectId (f r)) = Some a) \<Longrightarrow>
     tenant_step a s (s\<lparr>dbtSchedule := updateRow k f (dbtSchedule s)\<rparr>)"
| schedule_delete:
    "ownerOf MSchedule s k = Some a \<Longrightarrow>
     tenant_step a s (s\<lparr>dbtSchedule := deleteRow k (dbtSchedule s)\<rparr>)"
| ingest_insert:
    "findUnique (ingestSource s) k = None \<Longrightarrow> in_createdBy r = a \<Longrightarrow>
     ownerOf MProject s (in_projectId r) = Some a \<Longrightarrow>
     pred_option (\<lambda>n. ownerOf MConnection s n = Some a) (in_sourceConnectionId r) \<Longrightarrow>
     tenant_step a s (s\<lparr>ingestSource := insertRow k r (ingestSource s)\<rparr>)"
| ingest_change:
    "ownerOf MIngestSource s k = Some a \<Longrightarrow>
     (\<And>r. in_createdBy (f r) = in_createdBy r \<and> in_projectId (f r) = in_projectId r) \<Longrightarrow>
     (\<And>r. pred_option (\<lambda>n. ownerOf MConnection s n = Some a) (in_sourceConnectionId (f r))) \<Longrightarrow>
     tenant_step a s (s\<lparr>ingestSource := updateRow k f (ingestSource s)\<rparr>)"
| ingest_delete:
    "ownerOf MIngestSource s k = Some a \<Longrightarrow>
     tenant_step a s (s\<lparr>ingestSource := deleteRow k (ingestSource s)\<rparr>)"
| connection_insert:
    "findUnique (connection s) k = None \<Longrightarrow> cn_createdBy r = a \<Longrightarrow>
     tenant_step a s (s\<lparr>connection := insertRow k r (connection s)\<rparr>)"
| connection_change:
    "ownerOf MConnection s k = Some a \<Longrightarrow> (\<And>r. cn_createdBy (f r) = cn_createdBy r) \<Longrightarrow>
     tenant_step a s (s\<lparr>connection := updateRow k f (connection s)\<rparr>)"
| connection_delete:
    "ownerOf MConnection s k = Some a \<Longrightarrow> \<not> connectionInUse k s \<Longrightarrow>
     tenant_step a s (deleteConnectionRow k s)"
| dremio_insert:
    "findUnique (dremioSource s) k = None \<Longrightarrow> dr_createdBy r = a \<Longrightarrow>
     tenant_step a s (s\<lparr>dremioSource := insertRow k r (dremioSource s)\<rparr>)"
| dremio_change:
    "ownerOf MDremioSource s k = Some a \<Longrightarrow> (\<And>r. dr_createdBy (f r) = dr_createdBy r) \<Longrightarrow>
     tenant_step a s (s\<lparr>dremioSource := updateRow k f (dremioSource s)\<rparr>)"
| dremio_delete:
    "ownerOf MDremioSource s k = Some a \<Longrightarrow> tenant_step a s (deleteDremioRow k s)"
| variables_replace:
    "ownerOf MProject s p = Some a \<Longrightarrow>
     list_all (\<lambda>(k, r). ev_projectId r = p \<and> ev_owner r = a) fresh \<Longrightarrow>
     tenant_step a s (s\<lparr>dbtEnvironmentVariable :=
       deleteMany (\<lambda>r. ev_projectId r = p \<and> ev_owner r = a) (dbtEnvironmentVariable s) @ fresh\<rparr>)"
| providers_change:
    "ai_rows_of_others a s' = ai_rows_of_others a s \<Longrightarrow>
     s'\<lparr>aiProvider := aiProvider s, aiCredential := aiCredential s\<rparr> = s \<Longrightarrow> tenant_step a s s'"

section \<open>Lemmas\<close>

subsection \<open>Every handler is confined\<close>

text \<open>
  A handler is confined on a database when a failure leaves the database alone, and a success either
  does too or is a step of the user whose session it is.
\<close>

definition confined :: "ctx \<Rightarrow> 'a handler \<Rightarrow> db \<Rightarrow> bool" where
  "confined c h s \<longleftrightarrow>
     (case h s of
        (Inl e, s') \<Rightarrow> s' = s
      | (Inr x, s') \<Rightarrow> s' = s \<or> (\<exists>a. session c = Some a \<and> tenant_step a s s'))"

named_theorems confined_intros "handlers that are confined"

lemma actor_session: "actor c s = Some u \<Longrightarrow> session c = Some u"
  by (auto simp: actor_def split: option.splits if_splits)

text \<open>The same for the answer of a route.\<close>

definition admitted :: "ctx \<Rightarrow> db \<Rightarrow> nat \<times> db \<Rightarrow> bool" where
  "admitted c s r \<longleftrightarrow>
     snd r = s \<or> fst r = 200 \<and> (\<exists>a. session c = Some a \<and> tenant_step a s (snd r))"

lemma admitted_respond:
  "confined c h s \<Longrightarrow> (\<And>e. st e \<noteq> 200) \<Longrightarrow> admitted c s (outcome (respond st f h s))"
  by (auto simp: confined_def admitted_def outcome_def respond_def split: prod.splits sum.splits)

lemma admitted_unchanged: "admitted c s (outcome (badRequest e s))" "admitted c s (outcome (r, s))"
  by (simp_all add: admitted_def outcome_def badRequest_def)

lemma status_not_200: "readStatus e \<noteq> 200" "writeStatus e \<noteq> 200" "errorStatus e \<noteq> 200" "aiStatus e \<noteq> 200"
  by (simp_all add: readStatus_def writeStatus_def errorStatus_def aiStatus_def)

lemma confined_project [confined_intros]:
  "confined c (createProject c d) s" "confined c (updateProject c rid ud) s"
  "confined c (softDeleteProject c rid) s" "confined c (restoreProject c rid) s"
  "confined c (hardDeleteProject c rid) s"
  by (auto simp: confined_def createProject_def updateProject_def softDeleteProject_def restoreProject_def
      hardDeleteProject_def handler_simps newProject_def applyUpdate_def Let_def dest!: actor_session
      split: option.splits if_splits
      intro!: tenant_step.project_insert tenant_step.project_change tenant_step.project_delete)

lemma confined_target [confined_intros]:
  "confined c (createProjectTarget c inp) s" "confined c (updateProjectTarget c rid inp) s"
  "confined c (deleteProjectTarget c rid) s"
  by (auto simp: confined_def createProjectTarget_def updateProjectTarget_def deleteProjectTarget_def
      handler_simps dest!: actor_session liveOwner_owner split: option.splits sum.splits if_splits
      intro!: tenant_step.target_insert tenant_step.target_change tenant_step.target_delete)

lemma confined_schedule [confined_intros]:
  "confined c (createSchedule c si) s" "confined c (updateSchedule c rid si) s"
  "confined c (deleteSchedule c rid) s"
  by (auto simp: confined_def createSchedule_def updateSchedule_def deleteSchedule_def newSchedule_def
      rewriteSchedule_def handler_simps dest!: actor_session liveOwner_owner
      split: option.splits sum.splits if_splits
      intro!: tenant_step.schedule_insert tenant_step.schedule_change tenant_step.schedule_delete)

lemma connectionRefOk_owned:
  "connectionRefOk ref s \<Longrightarrow> (truthy ref \<Longrightarrow> ownerOf MConnection s (the ref) = Some a) \<Longrightarrow>
     pred_option (\<lambda>n. ownerOf MConnection s n = Some a) ref"
  by (cases ref) (auto simp: connectionRefOk_def truthy_def)

lemma ingest_row_owner [simp]:
  "in_createdBy (newIngest c u ii) = u" "in_projectId (newIngest c u ii) = ii_projectId ii"
  "in_sourceConnectionId (newIngest c u ii) = ii_sourceConnectionId ii"
  "in_createdBy (rewriteIngest ii r) = in_createdBy r" "in_projectId (rewriteIngest ii r) = in_projectId r"
  "in_sourceConnectionId (rewriteIngest ii r) = ii_sourceConnectionId ii"
  by (simp_all add: newIngest_def rewriteIngest_def)

lemma ensureSourceConnection_bind:
  "bindS (ensureSourceConnection inp u) k s =
     (if truthy (ii_sourceConnectionId inp) \<and> ownerOf MConnection s (the (ii_sourceConnectionId inp)) \<noteq> Some u
      then (Inl NOT_OWNED, s) else k () s)"
  by (auto simp: ensureSourceConnection_def handler_simps)

lemma confined_ingest [confined_intros]:
  "confined c (createIngestSource c ii) s" "confined c (updateIngestSource c rid ii) s"
  "confined c (deleteIngestSource c rid) s"
  using connectionRefOk_owned [of "ii_sourceConnectionId ii" s]
  by (auto simp: confined_def createIngestSource_def updateIngestSource_def deleteIngestSource_def
      ensureSourceConnection_bind handler_simps simp del: ownerOf.simps dest!: actor_session
      split: option.splits sum.splits
      intro!: tenant_step.ingest_insert tenant_step.ingest_change tenant_step.ingest_delete)

lemma confined_connection [confined_intros]:
  "confined c (createConnection ce c d) s" "confined c (updateConnection ce c rid d) s"
  "confined c (deleteConnection c rid) s"
  by (auto simp: confined_def createConnection_def updateConnection_def deleteConnection_def Let_def
      rewriteConnection_def handler_simps dest!: actor_session split: option.splits sum.splits if_splits
      intro!: tenant_step.connection_insert tenant_step.connection_change tenant_step.connection_delete)

lemma confined_createDremio [confined_intros]: "confined c (createDremioSource ce c cd) s"
  by (auto simp: confined_def createDremioSource_def handler_simps dest!: actor_session
      split: option.splits sum.splits if_splits intro!: tenant_step.dremio_insert)

lemma confined_updateDremio [confined_intros]: "confined c (updateDremioSource ce c rid du) s"
  by (auto simp: confined_def updateDremioSource_def handler_simps dest!: actor_session
      split: option.splits sum.splits if_splits intro!: tenant_step.dremio_change)

lemma confined_deleteDremio [confined_intros]: "confined c (deleteDremioSource c rid) s"
  by (auto simp: confined_def deleteDremioSource_def handler_simps dest!: actor_session
      split: option.splits sum.splits if_splits intro!: tenant_step.dremio_delete)

lemma confined_deleteEither [confined_intros]: "confined c (deleteEither c rid) s"
  using confined_connection(3) [of c rid s] confined_deleteDremio [of c rid s]
  by (auto simp: confined_def deleteEither_def split: prod.splits sum.splits)

lemma confined_providers [confined_intros]:
  assumes "actor c s = Some u"
  shows "confined c (upsertProvider parseUrl ci iv c u inp) s" "confined c (deleteProvider u route) s"
proof -
  note a = actor_session [OF assms]
  have "tenant_step u s (upsertTransaction c u inp r e s)" for r e
    by (rule tenant_step.providers_change)
      (rule upsertTransaction_others, simp add: upsertTransaction_def Let_def)
  then show "confined c (upsertProvider parseUrl ci iv c u inp) s"
    using a by (auto simp: confined_def upsertProvider_run Let_def split: option.splits sum.splits)
  have "tenant_step u s (snd (deleteProvider u route s))"
    by (rule tenant_step.providers_change)
      (rule deleteProvider_others, auto simp: deleteProvider_run split: option.splits)
  moreover have "\<not> isl (fst (deleteProvider u route s))"
    by (auto simp: deleteProvider_def handler_simps split: option.splits)
  ultimately show "confined c (deleteProvider u route) s"
    using a by (cases "deleteProvider u route s") (auto simp: confined_def split: sum.splits)
qed

lemma confined_current:
  "(\<And>u. actor c s = Some u \<Longrightarrow> confined c (k u) s) \<Longrightarrow> confined c (bindS (getCurrentUserId c) k) s"
  by (auto simp: confined_def handler_simps split: option.splits)

lemma confined_fail: "confined c (failS e) s"
  by (simp add: confined_def handler_simps)

lemma admitted_envVars: "admitted c s (outcome (envVars_PUT ci ivs ids c p b s))"
proof -
  obtain resp s' where r: "envVars_PUT ci ivs ids c p b s = (resp, s')" by fastforce
  have ok: "s' = s \<or> status resp = 200"
    using r by (auto simp: envVars_PUT_def Let_def split: option.splits if_splits json.splits sum.splits)
  consider "s' = s" | u rps where "getSessionOrNull c = Some u" "liveProjectOf s p u"
      "s' = s\<lparr>dbtEnvironmentVariable := deleteMany (\<lambda>r. ev_projectId r = p \<and> ev_owner r = u)
        (dbtEnvironmentVariable s) @ newVars c ids p u rps\<rparr>"
    using envVars_PUT_cases [OF r] by blast
  then show ?thesis
  proof cases
    case 1
    then show ?thesis by (simp add: r admitted_unchanged)
  next
    case 2
    have "session c = Some u" using 2(1) by (auto simp: getSessionOrNull_def split: if_splits)
    moreover have "tenant_step u s s'"
      unfolding 2(3) using 2(2) liveOwner_owner
      by (intro tenant_step.variables_replace) (auto simp: liveProjectOf_iff newVars_def list_all_iff)
    ultimately show ?thesis using ok by (auto simp: r admitted_def outcome_def)
  qed
qed

lemmas route_defs = projects_POST_def projects_PUT_def projects_DELETE_def targets_POST_def targets_PATCH_def
  targets_DELETE_def schedules_POST_def schedules_PATCH_def schedules_DELETE_def ingest_POST_def
  ingest_PATCH_def ingest_DELETE_def aiProviders_PUT_def aiProviders_DELETE_def

lemmas admitted_rules = admitted_respond admitted_unchanged confined_intros status_not_200

lemma admitted_connections:
  "admitted c s (outcome (connections_POST env ce c b s))"
  "admitted c s (outcome (connections_PUT env ce c rid type b s))"
  "admitted c s (outcome (connections_DELETE env c rid type s))"
  by (simp_all add: connections_POST_def connections_PUT_def connections_DELETE_def Let_def admitted_rules
      split: sum.split)

lemma serve_admitted: "admitted c s (serve w c req s)"
  by (cases req)
    (simp_all add: route_defs admitted_connections admitted_envVars admitted_rules confined_current confined_fail)

subsection \<open>The invariant\<close>

text \<open>
  Identifiers are unique, and everything that hangs off a project belongs to the project's owner: the
  creator of a schedule or an ingest source, the owner of a variable, and the owner of the connection a
  target or an ingest source reads.
\<close>

definition ids_ok :: "db \<Rightarrow> bool" where
  "ids_ok s \<longleftrightarrow>
     distinct (map fst (dbtProject s)) \<and> distinct (map fst (projectTarget s)) \<and>
     distinct (map fst (dbtSchedule s)) \<and> distinct (map fst (connection s)) \<and>
     distinct (map fst (dremioSource s)) \<and> distinct (map fst (ingestSource s))"

definition target_ok :: "db \<Rightarrow> target_row \<Rightarrow> bool" where
  "target_ok s r \<longleftrightarrow>
     ownerOf MProject s (tg_projectId r) \<noteq> None \<and>
     ownerOf MConnection s (tg_connectionId r) = ownerOf MProject s (tg_projectId r)"

definition schedule_ok :: "db \<Rightarrow> schedule_row \<Rightarrow> bool" where
  "schedule_ok s r \<longleftrightarrow> ownerOf MProject s (sc_projectId r) = Some (sc_createdBy r)"

definition ingest_ok :: "db \<Rightarrow> ingest_row \<Rightarrow> bool" where
  "ingest_ok s r \<longleftrightarrow>
     ownerOf MProject s (in_projectId r) = Some (in_createdBy r) \<and>
     (case in_sourceConnectionId r of None \<Rightarrow> True | Some n \<Rightarrow> ownerOf MConnection s n = Some (in_createdBy r))"

definition variable_ok :: "db \<Rightarrow> env_row \<Rightarrow> bool" where
  "variable_ok s r \<longleftrightarrow> ownerOf MProject s (ev_projectId r) = Some (ev_owner r)"

definition tenant_ok :: "db \<Rightarrow> bool" where
  "tenant_ok s \<longleftrightarrow>
     ids_ok s \<and> list_all (target_ok s \<circ> snd) (projectTarget s) \<and>
     list_all (schedule_ok s \<circ> snd) (dbtSchedule s) \<and> list_all (ingest_ok s \<circ> snd) (ingestSource s) \<and>
     list_all (variable_ok s \<circ> snd) (dbtEnvironmentVariable s)"

lemmas row_ok_defs = target_ok_def schedule_ok_def ingest_ok_def variable_ok_def

text \<open>The rows stay in order while the owners they refer to stay.\<close>

lemma rows_ok_mono:
  assumes p: "\<And>k u. ownerOf MProject s k = Some u \<Longrightarrow> ownerOf MProject s' k = Some u"
    and n: "\<And>k u. ownerOf MConnection s k = Some u \<Longrightarrow> ownerOf MConnection s' k = Some u"
  shows "target_ok s tr \<Longrightarrow> target_ok s' tr" "schedule_ok s sr \<Longrightarrow> schedule_ok s' sr"
    "ingest_ok s ir \<Longrightarrow> ingest_ok s' ir" "variable_ok s vr \<Longrightarrow> variable_ok s' vr"
  using p n unfolding row_ok_defs by (fastforce split: option.splits)+

lemma tables_ok_mono:
  assumes "tenant_ok s" "ids_ok s'"
    and p: "\<And>k u. ownerOf MProject s k = Some u \<Longrightarrow> ownerOf MProject s' k = Some u"
    and n: "\<And>k u. ownerOf MConnection s k = Some u \<Longrightarrow> ownerOf MConnection s' k = Some u"
    and rows: "\<And>k r. (k, r) \<in> set (projectTarget s') \<Longrightarrow> (k, r) \<in> set (projectTarget s) \<or> target_ok s' r"
      "\<And>k r. (k, r) \<in> set (dbtSchedule s') \<Longrightarrow> (k, r) \<in> set (dbtSchedule s) \<or> schedule_ok s' r"
      "\<And>k r. (k, r) \<in> set (ingestSource s') \<Longrightarrow> (k, r) \<in> set (ingestSource s) \<or> ingest_ok s' r"
      "\<And>k r. (k, r) \<in> set (dbtEnvironmentVariable s') \<Longrightarrow> (k, r) \<in> set (dbtEnvironmentVariable s) \<or> variable_ok s' r"
  shows "tenant_ok s'"
proof -
  have "target_ok s' r" if "(k, r) \<in> set (projectTarget s')" for k r
    using rows(1) [OF that] assms(1) rows_ok_mono(1) [OF p n] by (auto simp: tenant_ok_def list_all_iff)
  moreover have "schedule_ok s' r" if "(k, r) \<in> set (dbtSchedule s')" for k r
    using rows(2) [OF that] assms(1) rows_ok_mono(2) [OF p n] by (auto simp: tenant_ok_def list_all_iff)
  moreover have "ingest_ok s' r" if "(k, r) \<in> set (ingestSource s')" for k r
    using rows(3) [OF that] assms(1) rows_ok_mono(3) [OF p n] by (auto simp: tenant_ok_def list_all_iff)
  moreover have "variable_ok s' r" if "(k, r) \<in> set (dbtEnvironmentVariable s')" for k r
    using rows(4) [OF that] assms(1) rows_ok_mono(4) [OF p n] by (auto simp: tenant_ok_def list_all_iff)
  ultimately show ?thesis using assms(2) by (auto simp: tenant_ok_def list_all_iff)
qed

lemma findUnique_None: "findUnique t k = None \<longleftrightarrow> k \<notin> fst ` set t"
  by (simp add: findUnique_def map_of_eq_None_iff)

lemma set_table_ops:
  "set (insertRow k r t) = insert (k, r) (set t)"
  "x \<in> set (deleteRow k t) \<longleftrightarrow> x \<in> set t \<and> fst x \<noteq> k"
  "(k', r') \<in> set (updateRow k f t) \<longleftrightarrow> (\<exists>r. (k', r) \<in> set t \<and> r' = (if k' = k then f r else r))"
  "x \<in> set (deleteMany p t) \<longleftrightarrow> x \<in> set t \<and> \<not> p (snd x)"
  by (auto simp: insertRow_def deleteRow_def updateRow_def deleteMany_def image_iff Bex_def split: prod.splits)

lemma same_tables:
  assumes "s'\<lparr>aiProvider := x, aiCredential := y\<rparr> = s"
  shows "dbtProject s' = dbtProject s" "projectTarget s' = projectTarget s" "dbtSchedule s' = dbtSchedule s"
    "connection s' = connection s" "dremioSource s' = dremioSource s" "ingestSource s' = ingestSource s"
    "dbtRun s' = dbtRun s" "dbtEnvironmentVariable s' = dbtEnvironmentVariable s"
  using assms by auto

lemma tenant_step_ids: "tenant_step a s s' \<Longrightarrow> ids_ok s \<Longrightarrow> ids_ok s'"
proof (induction rule: tenant_step.induct)
  case (providers_change s' s)
  then show ?case using same_tables by (metis ids_ok_def)
qed (auto simp: ids_ok_def table_simps findUnique_None deleteProjectRow_def deleteConnectionRow_def
    deleteDremioRow_def)

lemma findUnique_row: "ids_ok s \<Longrightarrow> findUnique (dbtProject s) k = Some r \<longleftrightarrow> (k, r) \<in> set (dbtProject s)"
  by (simp add: ids_ok_def findUnique_def)

text \<open>Owners change only where a project or a connection is deleted.\<close>

lemma owner_insert:
  "findUnique (dbtProject s) k = None \<Longrightarrow>
     ownerOf MProject (s\<lparr>dbtProject := insertRow k r (dbtProject s)\<rparr>) =
       (ownerOf MProject s)(k := Some (pj_createdBy r))"
  "findUnique (connection s) k = None \<Longrightarrow>
     ownerOf MConnection (s\<lparr>connection := insertRow k n (connection s)\<rparr>) =
       (ownerOf MConnection s)(k := Some (cn_createdBy n))"
  by (auto simp: fun_eq_iff table_simps)

lemma owner_change:
  "(\<And>r. pj_createdBy (f r) = pj_createdBy r) \<Longrightarrow>
     ownerOf MProject (s\<lparr>dbtProject := updateRow k f (dbtProject s)\<rparr>) = ownerOf MProject s"
  "(\<And>r. cn_createdBy (g r) = cn_createdBy r) \<Longrightarrow>
     ownerOf MConnection (s\<lparr>connection := updateRow k g (connection s)\<rparr>) = ownerOf MConnection s"
  by (auto simp: fun_eq_iff table_simps option.map_comp comp_def)

lemma owner_delete:
  "ownerOf MProject (deleteProjectRow k s) = (ownerOf MProject s)(k := None)"
  "ownerOf MConnection (deleteProjectRow k s) = ownerOf MConnection s"
  "ownerOf MConnection (deleteConnectionRow k s) = (ownerOf MConnection s)(k := None)"
  "ownerOf MProject (deleteConnectionRow k s) = ownerOf MProject s"
  "ownerOf MProject (deleteDremioRow k s) = ownerOf MProject s"
  "ownerOf MConnection (deleteDremioRow k s) = ownerOf MConnection s"
  by (auto simp: fun_eq_iff table_simps deleteProjectRow_def deleteConnectionRow_def deleteDremioRow_def
      option.map_comp comp_def clearConnection_def clearDremio_def)

lemma tenant_ok_mono_tables:
  assumes "tenant_ok s" "ids_ok s'"
    and "\<And>k u. ownerOf MProject s k = Some u \<Longrightarrow> ownerOf MProject s' k = Some u"
    and "\<And>k u. ownerOf MConnection s k = Some u \<Longrightarrow> ownerOf MConnection s' k = Some u"
    and "projectTarget s' = projectTarget s" "dbtSchedule s' = dbtSchedule s" "ingestSource s' = ingestSource s"
    and "dbtEnvironmentVariable s' = dbtEnvironmentVariable s"
  shows "tenant_ok s'"
  using assms by (intro tables_ok_mono [OF assms(1,2)]) auto

lemma tenant_ok_project_delete:
  assumes ok: "tenant_ok s"
  shows "tenant_ok (deleteProjectRow k s)"
proof -
  have "ids_ok (deleteProjectRow k s)"
    using ok by (auto simp: tenant_ok_def ids_ok_def deleteProjectRow_def table_simps)
  then show ?thesis
    using ok unfolding tenant_ok_def list_all_iff row_ok_defs owner_delete
    by (auto simp: deleteProjectRow_def set_table_ops simp del: ownerOf.simps)
qed

lemma tenant_ok_connection_delete:
  assumes ok: "tenant_ok s" and free: "\<not> connectionInUse k s"
  shows "tenant_ok (deleteConnectionRow k s)"
proof -
  have "ids_ok (deleteConnectionRow k s)"
    using ok by (auto simp: tenant_ok_def ids_ok_def deleteConnectionRow_def table_simps)
  moreover have "\<forall>x \<in> set (projectTarget s). tg_connectionId (snd x) \<noteq> k"
    "\<forall>x \<in> set (ingestSource s). in_sourceConnectionId (snd x) \<noteq> Some k"
    using free by (auto simp: connectionInUse_def list_ex_iff)
  moreover have "projectTarget (deleteConnectionRow k s) = projectTarget s"
    "dbtSchedule (deleteConnectionRow k s) = dbtSchedule s" "ingestSource (deleteConnectionRow k s) = ingestSource s"
    "dbtEnvironmentVariable (deleteConnectionRow k s) = dbtEnvironmentVariable s"
    by (simp_all add: deleteConnectionRow_def)
  ultimately show ?thesis
    using ok unfolding tenant_ok_def list_all_iff row_ok_defs owner_delete
    by (auto simp del: ownerOf.simps split: option.splits)
qed

text \<open>The row an identifier names, in a table whose identifiers are unique.\<close>

lemma findUnique_member: "distinct (map fst t) \<Longrightarrow> (k, r) \<in> set t \<Longrightarrow> findUnique t k = Some r"
  by (simp add: findUnique_def)

lemma updateRow_member:
  "distinct (map fst t) \<Longrightarrow> findUnique t k = Some old \<Longrightarrow> (k', r') \<in> set (updateRow k f t) \<Longrightarrow>
     (k', r') \<in> set t \<or> k' = k \<and> r' = f old"
  by (cases "k' = k") (auto simp: set_table_ops dest: findUnique_member)

lemma tenant_step_ok:
  assumes step: "tenant_step a s s'" and ok: "tenant_ok s"
  shows "tenant_ok s'"
proof -
  have ids: "ids_ok s'" using tenant_step_ids [OF step] ok by (simp add: tenant_ok_def)
  have d: "distinct (map fst (projectTarget s))" "distinct (map fst (dbtSchedule s))"
    "distinct (map fst (ingestSource s))" using ok by (auto simp: tenant_ok_def ids_ok_def)
  note mono = tenant_ok_mono_tables [OF ok ids] and rows = tables_ok_mono [OF ok ids]
  show ?thesis
    using step
  proof cases
    case (project_insert k r)
    then show ?thesis by (intro mono) (auto simp: table_simps)
  next
    case (project_change k f)
    then show ?thesis by (intro mono) (auto simp: table_simps)
  next
    case (project_delete k)
    then show ?thesis using tenant_ok_project_delete [OF ok] by simp
  next
    case (target_insert k r)
    then show ?thesis by (intro rows) (auto simp: set_table_ops target_ok_def)
  next
    case (target_change k old f)
    then show ?thesis by (intro rows) (auto simp: target_ok_def dest!: updateRow_member [OF d(1)])
  next
    case (target_delete k old)
    then show ?thesis by (intro rows) (auto simp: set_table_ops)
  next
    case (schedule_insert k r)
    then show ?thesis by (intro rows) (auto simp: set_table_ops schedule_ok_def)
  next
    case (schedule_change k f)
    then obtain old where "findUnique (dbtSchedule s) k = Some old" "sc_createdBy old = a" by auto
    with schedule_change show ?thesis by (intro rows) (auto simp: schedule_ok_def dest!: updateRow_member [OF d(2)])
  next
    case (schedule_delete k)
    then show ?thesis by (intro rows) (auto simp: set_table_ops)
  next
    case (ingest_insert k r)
    then show ?thesis by (intro rows) (auto simp: set_table_ops ingest_ok_def split: option.splits)
  next
    case (ingest_change k f)
    then obtain old where old: "findUnique (ingestSource s) k = Some old" "in_createdBy old = a" by auto
    then have "ownerOf MProject s (in_projectId old) = Some a"
      using ok findUnique_in_set [OF old(1)] by (auto simp: tenant_ok_def list_all_iff ingest_ok_def)
    then have "ingest_ok s' (f old)"
      using ingest_change(1,3) ingest_change(4) [of old] old(2) by (auto simp: ingest_ok_def split: option.splits)
    with ingest_change(1) old(1) show ?thesis by (intro rows) (auto dest!: updateRow_member [OF d(3)])
  next
    case (ingest_delete k)
    then show ?thesis by (intro rows) (auto simp: set_table_ops)
  next
    case (connection_insert k r)
    then show ?thesis by (intro mono) (auto simp: table_simps)
  next
    case (connection_change k f)
    then show ?thesis by (intro mono) (auto simp: table_simps)
  next
    case (connection_delete k)
    then show ?thesis using tenant_ok_connection_delete [OF ok] by simp
  next
    case (dremio_insert k r)
    then show ?thesis by (intro mono) auto
  next
    case (dremio_change k f)
    then show ?thesis by (intro mono) auto
  next
    case (dremio_delete k)
    then show ?thesis
      by (intro mono) (simp_all add: owner_delete del: ownerOf.simps, simp_all add: deleteDremioRow_def)
  next
    case (variables_replace p fresh)
    then show ?thesis by (intro rows) (auto simp: set_table_ops variable_ok_def list_all_iff)
  next
    case providers_change
    then show ?thesis using same_tables [OF providers_change(2)] by (intro mono) auto
  qed
qed

subsection \<open>What a tenant sees\<close>

text \<open>
  A tenant's view: the rows that belong to them, with a project's reference to a connection or a Dremio
  source shown only where the row it names is their own. A project can hold a reference to a row of
  somebody else, since the project routes do not check the owner of what they store; deleting that row
  clears it.
\<close>

definition ownRef :: "(string \<Rightarrow> string option) \<Rightarrow> string \<Rightarrow> string option \<Rightarrow> string option" where
  "ownRef owner b ref = (case ref of None \<Rightarrow> None | Some k \<Rightarrow> if owner k = Some b then Some k else None)"

definition maskProject :: "string \<Rightarrow> db \<Rightarrow> project_row \<Rightarrow> project_row" where
  "maskProject b s r =
     r\<lparr> pj_connectionId := ownRef (ownerOf MConnection s) b (pj_connectionId r),
        pj_lakehouseConnectionId := ownRef (ownerOf MConnection s) b (pj_lakehouseConnectionId r),
        pj_dremioSourceId := ownRef (ownerOf MDremioSource s) b (pj_dremioSourceId r) \<rparr>"

record tenant_view =
  tv_projects :: "project_row table"
  tv_targets :: "target_row table"
  tv_schedules :: "schedule_row table"
  tv_connections :: "connection_row table"
  tv_dremio :: "dremio_row table"
  tv_ingest :: "ingest_row table"
  tv_runs :: "run_row table"
  tv_variables :: "env_row table"
  tv_providers :: "provider_row table"
  tv_credentials :: "credential_row table"

definition tenantView :: "string \<Rightarrow> db \<Rightarrow> tenant_view" where
  "tenantView b s =
     \<lparr> tv_projects = map (\<lambda>(k, r). (k, maskProject b s r)) (findMany (\<lambda>r. pj_createdBy r = b) (dbtProject s)),
       tv_targets = findMany (\<lambda>r. ownerOf MProject s (tg_projectId r) = Some b) (projectTarget s),
       tv_schedules = findMany (\<lambda>r. sc_createdBy r = b) (dbtSchedule s),
       tv_connections = findMany (\<lambda>r. cn_createdBy r = b) (connection s),
       tv_dremio = findMany (\<lambda>r. dr_createdBy r = b) (dremioSource s),
       tv_ingest = findMany (\<lambda>r. in_createdBy r = b) (ingestSource s),
       tv_runs = findMany (\<lambda>r. ownerOf MProject s (rn_projectId r) = Some b) (dbtRun s),
       tv_variables = findMany (\<lambda>r. ev_owner r = b) (dbtEnvironmentVariable s),
       tv_providers = findMany (\<lambda>r. pv_userId r = b) (aiProvider s),
       tv_credentials = findMany (\<lambda>r. cr_userId r = b) (aiCredential s) \<rparr>"

lemma findMany_insertRow: "\<not> q r \<Longrightarrow> findMany q (insertRow k r t) = findMany q t"
  by (simp add: findMany_def insertRow_def)

lemma findMany_updateRow_in:
  assumes "\<And>r. (k, r) \<in> set t \<Longrightarrow> \<not> q r \<and> \<not> q (f r)"
  shows "findMany q (updateRow k f t) = findMany q t"
  using assms
proof (induction t)
  case (Cons x t)
  then show ?case by (cases x; cases "fst x = k") (auto simp: findMany_def updateRow_def)
qed (simp add: updateRow_def)

lemma findMany_updateRow:
  "distinct (map fst t) \<Longrightarrow> findUnique t k = Some old \<Longrightarrow> \<not> q old \<Longrightarrow> \<not> q (f old) \<Longrightarrow>
     findMany q (updateRow k f t) = findMany q t"
  by (rule findMany_updateRow_in) (auto dest: findUnique_member)

lemma findMany_deleteRow:
  assumes "distinct (map fst t)" "findUnique t k = Some old" "\<not> q old"
  shows "findMany q (deleteRow k t) = findMany q t"
proof -
  have "\<not> q r" if "(k, r) \<in> set t" for r using findUnique_member [OF assms(1) that] assms by simp
  then show ?thesis by (auto simp: findMany_def deleteRow_def intro!: filter_cong)
qed

lemma findMany_cong: "(\<And>k r. (k, r) \<in> set t \<Longrightarrow> q r \<longleftrightarrow> q' r) \<Longrightarrow> findMany q t = findMany q' t"
  by (auto simp: findMany_def intro: filter_cong)

lemma findMany_deleteMany_in:
  "(\<And>k r. (k, r) \<in> set t \<Longrightarrow> p r \<Longrightarrow> \<not> q r) \<Longrightarrow> findMany q (deleteMany p t) = findMany q t"
  by (induction t) (auto simp: deleteMany_def findMany_def)

lemma findMany_updateRows_map:
  "(\<And>r. q (f r) \<longleftrightarrow> q r) \<Longrightarrow> findMany q (updateRows f t) = updateRows f (findMany q t)"
  by (induction t) (auto simp: updateRows_def findMany_def)

lemma ownRef_cong: "(\<And>k. o1 k = Some b \<longleftrightarrow> o2 k = Some b) \<Longrightarrow> ownRef o1 b = ownRef o2 b"
  by (auto simp: ownRef_def fun_eq_iff split: option.splits)

lemma tenantView_cong:
  assumes owners: "\<And>k. ownerOf MProject s' k = Some b \<longleftrightarrow> ownerOf MProject s k = Some b"
      "\<And>k. ownerOf MConnection s' k = Some b \<longleftrightarrow> ownerOf MConnection s k = Some b"
      "\<And>k. ownerOf MDremioSource s' k = Some b \<longleftrightarrow> ownerOf MDremioSource s k = Some b"
    and projects: "map (\<lambda>(k, r). (k, maskProject b s r)) (findMany (\<lambda>r. pj_createdBy r = b) (dbtProject s')) =
      map (\<lambda>(k, r). (k, maskProject b s r)) (findMany (\<lambda>r. pj_createdBy r = b) (dbtProject s))"
    and tables: "findMany (\<lambda>r. ownerOf MProject s (tg_projectId r) = Some b) (projectTarget s') =
        findMany (\<lambda>r. ownerOf MProject s (tg_projectId r) = Some b) (projectTarget s)"
      "findMany (\<lambda>r. sc_createdBy r = b) (dbtSchedule s') = findMany (\<lambda>r. sc_createdBy r = b) (dbtSchedule s)"
      "findMany (\<lambda>r. cn_createdBy r = b) (connection s') = findMany (\<lambda>r. cn_createdBy r = b) (connection s)"
      "findMany (\<lambda>r. dr_createdBy r = b) (dremioSource s') = findMany (\<lambda>r. dr_createdBy r = b) (dremioSource s)"
      "findMany (\<lambda>r. in_createdBy r = b) (ingestSource s') = findMany (\<lambda>r. in_createdBy r = b) (ingestSource s)"
      "findMany (\<lambda>r. ownerOf MProject s (rn_projectId r) = Some b) (dbtRun s') =
        findMany (\<lambda>r. ownerOf MProject s (rn_projectId r) = Some b) (dbtRun s)"
      "findMany (\<lambda>r. ev_owner r = b) (dbtEnvironmentVariable s') = findMany (\<lambda>r. ev_owner r = b) (dbtEnvironmentVariable s)"
      "findMany (\<lambda>r. pv_userId r = b) (aiProvider s') = findMany (\<lambda>r. pv_userId r = b) (aiProvider s)"
      "findMany (\<lambda>r. cr_userId r = b) (aiCredential s') = findMany (\<lambda>r. cr_userId r = b) (aiCredential s)"
  shows "tenantView b s' = tenantView b s"
proof -
  have "maskProject b s' = maskProject b s"
    using ownRef_cong [of "ownerOf MConnection s'" b "ownerOf MConnection s"] owners(2,3)
      ownRef_cong [of "ownerOf MDremioSource s'" b "ownerOf MDremioSource s"]
    by (simp add: maskProject_def fun_eq_iff del: ownerOf.simps)
  then show ?thesis using projects tables unfolding tenantView_def owners(1) by simp
qed

lemma tenantView_project_delete:
  assumes ok: "tenant_ok s" and own: "ownerOf MProject s k = Some a" and "a \<noteq> b"
  shows "tenantView b (deleteProjectRow k s) = tenantView b s"
proof -
  have foreign: "sc_createdBy r = a" if "(j, r) \<in> set (dbtSchedule s)" "sc_projectId r = k" for j r
    using ok that own by (auto simp: tenant_ok_def list_all_iff schedule_ok_def)
  have foreign': "in_createdBy r = a" if "(j, r) \<in> set (ingestSource s)" "in_projectId r = k" for j r
    using ok that own by (auto simp: tenant_ok_def list_all_iff ingest_ok_def)
  have foreign'': "ev_owner r = a" if "(j, r) \<in> set (dbtEnvironmentVariable s)" "ev_projectId r = k" for j r
    using ok that own by (auto simp: tenant_ok_def list_all_iff variable_ok_def)
  have "findMany (\<lambda>r. pj_createdBy r = b) (deleteRow k (dbtProject s)) = findMany (\<lambda>r. pj_createdBy r = b) (dbtProject s)"
    using ok own \<open>a \<noteq> b\<close> by (auto simp: tenant_ok_def ids_ok_def intro!: findMany_deleteRow)
  then show ?thesis
    using own \<open>a \<noteq> b\<close> foreign foreign' foreign''
    by (intro tenantView_cong)
      (auto simp: deleteProjectRow_def table_simps intro!: findMany_deleteMany_in)
qed

lemma mask_clearConnection:
  "ownerOf MConnection s k = Some a \<Longrightarrow> a \<noteq> b \<Longrightarrow> maskProject b s (clearConnection k r) = maskProject b s r"
  "ownerOf MDremioSource s k = Some a \<Longrightarrow> a \<noteq> b \<Longrightarrow> maskProject b s (clearDremio k r) = maskProject b s r"
  by (auto simp: maskProject_def clearConnection_def clearDremio_def ownRef_def)

lemma tenantView_reference_delete:
  assumes ok: "ids_ok s" and "a \<noteq> b"
  shows "ownerOf MConnection s k = Some a \<Longrightarrow> tenantView b (deleteConnectionRow k s) = tenantView b s"
    and "ownerOf MDremioSource s k = Some a \<Longrightarrow> tenantView b (deleteDremioRow k s) = tenantView b s"
proof -
  have cleared: "map (\<lambda>(k, r). (k, maskProject b s r)) (findMany (\<lambda>r. pj_createdBy r = b) (updateRows f (dbtProject s))) =
      map (\<lambda>(k, r). (k, maskProject b s r)) (findMany (\<lambda>r. pj_createdBy r = b) (dbtProject s))"
    if "\<And>r. pj_createdBy (f r) = pj_createdBy r" "\<And>r. maskProject b s (f r) = maskProject b s r" for f
  proof -
    have "findMany (\<lambda>r. pj_createdBy r = b) (updateRows f (dbtProject s)) =
        updateRows f (findMany (\<lambda>r. pj_createdBy r = b) (dbtProject s))"
      using that(1) by (intro findMany_updateRows_map) simp
    then show ?thesis using that(2) by (simp add: updateRows_def comp_def case_prod_beta)
  qed
  show "tenantView b (deleteConnectionRow k s) = tenantView b s" if own: "ownerOf MConnection s k = Some a"
  proof (rule tenantView_cong)
    show "map (\<lambda>(k, r). (k, maskProject b s r)) (findMany (\<lambda>r. pj_createdBy r = b) (dbtProject (deleteConnectionRow k s))) =
        map (\<lambda>(k, r). (k, maskProject b s r)) (findMany (\<lambda>r. pj_createdBy r = b) (dbtProject s))"
      using cleared [of "clearConnection k"] mask_clearConnection(1) [OF own \<open>a \<noteq> b\<close>]
      by (simp add: deleteConnectionRow_def clearConnection_def)
    show "findMany (\<lambda>r. cn_createdBy r = b) (connection (deleteConnectionRow k s)) =
        findMany (\<lambda>r. cn_createdBy r = b) (connection s)"
      using ok own \<open>a \<noteq> b\<close> by (auto simp: ids_ok_def deleteConnectionRow_def intro!: findMany_deleteRow)
  qed (use own \<open>a \<noteq> b\<close> in \<open>auto simp: deleteConnectionRow_def table_simps option.map_comp comp_def clearConnection_def\<close>)
  show "tenantView b (deleteDremioRow k s) = tenantView b s" if own: "ownerOf MDremioSource s k = Some a"
  proof (rule tenantView_cong)
    show "map (\<lambda>(k, r). (k, maskProject b s r)) (findMany (\<lambda>r. pj_createdBy r = b) (dbtProject (deleteDremioRow k s))) =
        map (\<lambda>(k, r). (k, maskProject b s r)) (findMany (\<lambda>r. pj_createdBy r = b) (dbtProject s))"
      using cleared [of "clearDremio k"] mask_clearConnection(2) [OF own \<open>a \<noteq> b\<close>]
      by (simp add: deleteDremioRow_def clearDremio_def)
    show "findMany (\<lambda>r. dr_createdBy r = b) (dremioSource (deleteDremioRow k s)) =
        findMany (\<lambda>r. dr_createdBy r = b) (dremioSource s)"
      using ok own \<open>a \<noteq> b\<close> by (auto simp: ids_ok_def deleteDremioRow_def intro!: findMany_deleteRow)
  qed (use own \<open>a \<noteq> b\<close> in \<open>auto simp: deleteDremioRow_def table_simps option.map_comp comp_def clearDremio_def\<close>)
qed

lemma findMany_append: "findMany q (t @ u) = findMany q t @ findMany q u"
  by (simp add: findMany_def)

lemma findMany_nested: "a \<noteq> b \<Longrightarrow> findMany (\<lambda>r. g r = b) (findMany (\<lambda>r. g r \<noteq> a) t) = findMany (\<lambda>r. g r = b) t"
  by (auto simp: findMany_def intro!: filter_cong)

lemma findMany_others:
  assumes "ai_rows_of_others a s' = ai_rows_of_others a s" "a \<noteq> b"
  shows "findMany (\<lambda>r. pv_userId r = b) (aiProvider s') = findMany (\<lambda>r. pv_userId r = b) (aiProvider s)"
    "findMany (\<lambda>r. cr_userId r = b) (aiCredential s') = findMany (\<lambda>r. cr_userId r = b) (aiCredential s)"
  using findMany_nested [OF assms(2), of pv_userId "aiProvider s"] findMany_nested [OF assms(2), of pv_userId "aiProvider s'"]
    findMany_nested [OF assms(2), of cr_userId "aiCredential s"] findMany_nested [OF assms(2), of cr_userId "aiCredential s'"]
    assms(1)
  by (simp_all add: ai_rows_of_others_def)

lemma tenant_step_isolated:
  assumes step: "tenant_step a s s'" and ok: "tenant_ok s" and ne: "a \<noteq> b"
  shows "tenantView b s' = tenantView b s"
proof -
  have ids: "distinct (map fst (dbtProject s))" "distinct (map fst (projectTarget s))"
    "distinct (map fst (dbtSchedule s))" "distinct (map fst (connection s))"
    "distinct (map fst (dremioSource s))" "distinct (map fst (ingestSource s))"
    using ok by (auto simp: tenant_ok_def ids_ok_def)
  show ?thesis
    using step
  proof cases
    case (project_delete k)
    then show ?thesis using tenantView_project_delete [OF ok _ ne] by simp
  next
    case (connection_delete k)
    then show ?thesis using tenantView_reference_delete(1) [OF _ ne] ok by (simp add: tenant_ok_def)
  next
    case (dremio_delete k)
    then show ?thesis using tenantView_reference_delete(2) [OF _ ne] ok by (simp add: tenant_ok_def)
  next
    case (variables_replace p fresh)
    then have "findMany (\<lambda>r. ev_owner r = b) fresh = []"
      using ne by (auto simp: findMany_def list_all_iff filter_empty_conv)
    with variables_replace show ?thesis
      using ne by (intro tenantView_cong) (auto simp: findMany_append intro!: findMany_deleteMany_in)
  next
    case providers_change
    then show ?thesis
      using same_tables [OF providers_change(2)] findMany_others [OF providers_change(1) ne]
      by (intro tenantView_cong) auto
  next
    case (project_change k f)
    then have "findMany (\<lambda>r. pj_createdBy r = b) (updateRow k f (dbtProject s)) =
        findMany (\<lambda>r. pj_createdBy r = b) (dbtProject s)"
      using ne ids(1) by (auto intro!: findMany_updateRow)
    with project_change show ?thesis using ne by (intro tenantView_cong) (auto simp: table_simps)
  next
    case (ingest_change k f)
    then show ?thesis using ne ids
      by (intro tenantView_cong) (auto intro!: findMany_updateRow)
  qed (use ne ids in \<open>intro tenantView_cong; auto simp: table_simps findMany_insertRow intro!: findMany_updateRow findMany_deleteRow\<close>)+
qed

subsection \<open>The server keeps tenants apart\<close>

lemma reachable_ok: "reachable s \<Longrightarrow> tenant_ok s"
proof (induction rule: reachable.induct)
  case (start s)
  then show ?case by (simp add: no_rows_def tenant_ok_def ids_ok_def)
next
  case (request s w c req)
  then show ?case using serve_admitted [of c s w req] tenant_step_ok by (auto simp: admitted_def)
qed



text \<open>Sequences of requests, each with its own session and outside world.\<close>

primrec serveAll :: "(world \<times> ctx \<times> api_request) list \<Rightarrow> db \<Rightarrow> db" where
  "serveAll [] s = s"
| "serveAll (x # xs) s = (case x of (w, c, req) \<Rightarrow> serveAll xs (snd (serve w c req s)))"

lemma serve_isolated:
  assumes "tenant_ok s" "session c \<noteq> Some b"
  shows "tenantView b (snd (serve w c req s)) = tenantView b s"
  using serve_admitted [of c s w req] tenant_step_isolated [OF _ assms(1)] assms(2) by (auto simp: admitted_def)


subsection \<open>Sample runs\<close>

definition demo_world :: world where
  "demo_world =
     \<lparr> w_outside = demo_outside, w_crypto = demo_env, w_ivs = (\<lambda>i. ''iv''), w_ids = (\<lambda>i. replicate i CHR ''v''),
       w_parseUrl = demo_parse \<rparr>"

definition other_ctx :: ctx where
  "other_ctx = \<lparr> session = Some other_user, now = 9, newId = ''n2'' \<rparr>"

definition demo_create :: "string option \<Rightarrow> CreateProjectInput" where
  "demo_create conn =
     \<lparr> cp_name = ''P'', cp_description = None, cp_dremioSourceId = None, cp_connectionId = conn,
       cp_gitUrl = None, cp_gitBranch = None \<rparr>"

lemma reachable_empty: "reachable empty_db"
  by (rule reachable.start) (simp add: no_rows_def empty_db_def)



text \<open>
  A project can be created on somebody else's connection: the project routes store any existing
  connection id, without the ownership check that targets and ingest sources make. Here the second
  user's project points at a connection the first user created.
\<close>

lemma project_takes_foreign_connection:
  "let s = empty_db\<lparr>connection := [(''c1'', demo_connection demo_user)]\<rparr>;
       s' = snd (serve demo_world other_ctx (ProjectsPOST (demo_create (Some ''c1''))) s)
   in ownerOf MConnection s' ''c1'' = Some demo_user \<and>
      map (\<lambda>(k, r). (pj_createdBy r, pj_connectionId r)) (dbtProject s') = [(other_user, Some ''c1'')]"
  by code_simp

end
