(* ===== verification/Sse_Frames.thy ===== *)
theory Sse_Frames
  imports Js_Json
begin

text \<open>
  Reading a response body piece by piece, as the three streaming hooks do it
  (\<open>entities/run/hooks/useDbtRunStream.ts\<close>, \<open>features/ingest/hooks/useIngestStream.ts\<close>,
  \<open>features/assistant/hooks/useAgentStream.ts\<close>): a chunk is appended to a buffer, the buffer is split
  at a separator, the last piece stays in the buffer and the others are complete.

  The locale \<open>frame_splitter\<close> states what the loop needs of the splitter; the lemma proved in it says
  that the pieces do not depend on how the network cut the body into chunks. It is interpreted for the
  two separators in use, a line break and a blank line. A chunk is the text the decoder gives for it.
\<close>

section \<open>Definitions\<close>

definition nl :: char where
  "nl = CHR 0x0A"

text \<open>\<open>buffer.split('\n\n')\<close>.\<close>

fun split_blank :: "string \<Rightarrow> string list" where
  "split_blank [] = [[]]"
| "split_blank [x] = [[x]]"
| "split_blank (x # y # zs) =
     (if x = nl \<and> y = nl then [] # split_blank zs
      else (case split_blank (y # zs) of [] \<Rightarrow> [[x]] | w # ws \<Rightarrow> (x # w) # ws))"

text \<open>One pass of the loop, and the loop: the complete pieces so far and the buffer.\<close>

definition feed :: "(string \<Rightarrow> string list) \<Rightarrow> string \<Rightarrow> string \<Rightarrow> string list \<times> string" where
  "feed splitter buffer chunk = (let pieces = splitter (buffer @ chunk) in (butlast pieces, last pieces))"

fun readAll :: "(string \<Rightarrow> string list) \<Rightarrow> string \<Rightarrow> string list \<Rightarrow> string list \<times> string" where
  "readAll splitter buffer [] = ([], buffer)"
| "readAll splitter buffer (chunk # chunks) =
     (let (pieces, rest) = feed splitter buffer chunk;
          (more, final) = readAll splitter rest chunks
      in (pieces @ more, final))"

text \<open>The payload of a line \<open>data: ...\<close>.\<close>

definition dataLine :: "string \<Rightarrow> string option" where
  "dataLine line = (if startsWith line ''data: '' then Some (drop 6 line) else None)"

section \<open>The reading loop\<close>

locale frame_splitter =
  fixes splitter :: "string \<Rightarrow> string list"
  assumes not_Nil: "splitter x \<noteq> []"
    and resume: "splitter (x @ y) = butlast (splitter x) @ splitter (last (splitter x) @ y)"
    and start: "splitter [] = [[]]"
begin

lemma feed_resume:
  "feed splitter b (x @ y) =
     (fst (feed splitter b x) @ fst (feed splitter (snd (feed splitter b x)) y),
      snd (feed splitter (snd (feed splitter b x)) y))"
  using resume [of "b @ x" y] not_Nil by (simp add: feed_def Let_def butlast_append)

lemma readAll_concat:
  assumes "splitter b = [b]"
  shows "readAll splitter b chunks = feed splitter b (concat chunks)"
  using assms
proof (induction chunks arbitrary: b)
  case Nil
  then show ?case by (simp add: feed_def)
next
  case (Cons chunk chunks)
  let ?r = "snd (feed splitter b chunk)"
  have "splitter ?r = [?r]"
  proof -
    have "splitter (b @ chunk) = butlast (splitter (b @ chunk)) @ splitter ?r"
      using resume [of "b @ chunk" "[]"] by (simp add: feed_def Let_def)
    moreover have "splitter (b @ chunk) = butlast (splitter (b @ chunk)) @ [?r]"
      using not_Nil by (simp add: feed_def Let_def)
    ultimately show ?thesis by (metis same_append_eq)
  qed
  from Cons.IH [OF this] show ?case
    by (simp add: feed_resume case_prod_beta Let_def)
qed

text \<open>The pieces depend on the body only.\<close>

lemma readAll_chunking: "concat chunks = concat chunks' \<Longrightarrow> readAll splitter [] chunks = readAll splitter [] chunks'"
  by (simp add: readAll_concat start)

end

section \<open>Lemmas\<close>

lemma split_on_resume:
  "split_on c (x @ y) = butlast (split_on c x) @ split_on c (last (split_on c x) @ y)"
proof (induction x)
  case (Cons a x)
  then show ?case
    by (cases "split_on c x") (auto split: list.splits)
qed simp

lemma split_blank_not_Nil [simp]: "split_blank x \<noteq> []"
  by (cases x rule: split_blank.cases) (auto split: list.splits)

lemma split_blank_single: "split_blank w = [a] \<Longrightarrow> a = w"
  by (induction w arbitrary: a rule: split_blank.induct) (auto split: if_splits list.splits)

lemma split_blank_resume:
  "split_blank (x @ y) = butlast (split_blank x) @ split_blank (last (split_blank x) @ y)"
proof (induction x rule: split_blank.induct)
  case (3 x1 x2 zs)
  show ?case
  proof (cases "x1 = nl \<and> x2 = nl")
    case True
    then show ?thesis using 3(1) by simp
  next
    case False
    show ?thesis
    proof (cases "split_blank (x2 # zs)")
      case (Cons a as)
      show ?thesis
      proof (cases as)
        case Nil
        with Cons have "split_blank (x2 # zs) = [x2 # zs]" "as = []"
          by (auto dest: split_blank_single)
        then show ?thesis using False by (auto split: list.splits)
      next
        case (Cons b bs)
        with False \<open>split_blank (x2 # zs) = a # as\<close> 3(2) show ?thesis by auto
      qed
    qed simp
  qed
qed simp_all

interpretation lines: frame_splitter "split_on nl"
  by unfold_locales (simp, rule split_on_resume, simp)

interpretation frames: frame_splitter split_blank
  by unfold_locales (simp, rule split_blank_resume, simp)

end
