(* ===== verification/Agent_Stream.thy ===== *)
theory Agent_Stream
  imports Sse_Frames
begin

text \<open>
  The assistant's conversation, \<open>features/assistant/hooks/useAgentStream.ts\<close>: the reducer that turns
  an event into a change of the message list, the hook's state, and its operations cut at their
  \<open>await\<close>s into atomic steps (a request leaves, a response or a chunk arrives, a stream ends, fails or
  is aborted). \<open>historyEvents\<close> is the part of \<open>dsh-agent/app/sessions.py\<close> that selects which events of a
  conversation come back when it is reopened.

  \<open>parse\<close> stands for \<open>JSON.parse\<close> on an event and \<open>stringify\<close> for \<open>JSON.stringify\<close> on a tool's input;
  nothing is assumed of either. A boolean field that may be absent is false when it is absent, as every
  reader of it takes it. A callback runs with the state of the last render.
\<close>

section \<open>Definitions\<close>

subsection \<open>Data\<close>

datatype agent_event_type =
  Session | Status | Delta | Reasoning | Text | Tool_start | Tool_end
  | Todo | Usage | Turn_end | Error | Done | Prompt

record 'n AgentEvent =
  ae_type :: agent_event_type
  ae_session_id :: "string option"
  ae_text :: "string option"
  ae_tool :: "string option"
  ae_id :: "string option"
  ae_input :: "'n json option"
  ae_ok :: "bool option"
  ae_items :: "'n json option"
  ae_reason :: "string option"
  ae_error :: "string option"
  ae_input_tokens :: "'n option"
  ae_output_tokens :: "'n option"
  ae_cached_tokens :: "'n option"
  ae_reasoning_tokens :: "'n option"

datatype agent_role = RUser | RAssistant | RReasoning | RTool | RError

record AgentToolCall =
  tc_name :: string
  tc_callId :: "string option"
  tc_input :: "string option"
  tc_ok :: "bool option"

record AgentMessage =
  am_role :: agent_role
  am_text :: string
  am_tool :: "AgentToolCall option"
  am_streaming :: bool

record 'n AgentUsage =
  us_input_tokens :: "'n option"
  us_output_tokens :: "'n option"
  us_cached_tokens :: "'n option"
  us_reasoning_tokens :: "'n option"

definition message :: "agent_role \<Rightarrow> string \<Rightarrow> AgentMessage" where
  "message role text = \<lparr>am_role = role, am_text = text, am_tool = None, am_streaming = False\<rparr>"

definition newEvent :: "agent_event_type \<Rightarrow> 'n AgentEvent" where
  "newEvent t = \<lparr>ae_type = t, ae_session_id = None, ae_text = None, ae_tool = None, ae_id = None,
     ae_input = None, ae_ok = None, ae_items = None, ae_reason = None, ae_error = None,
     ae_input_tokens = None, ae_output_tokens = None, ae_cached_tokens = None,
     ae_reasoning_tokens = None\<rparr>"

subsection \<open>The reducer\<close>

text \<open>The message the stream is still writing: the last one, when it is open and has the role.\<close>

definition openAs :: "agent_role \<Rightarrow> AgentMessage list \<Rightarrow> bool" where
  "openAs role messages \<longleftrightarrow>
     messages \<noteq> [] \<and> am_streaming (last messages) \<and> am_role (last messages) = role"

definition inputText :: "('n json \<Rightarrow> string) \<Rightarrow> 'n json option \<Rightarrow> string option" where
  "inputText stringify input =
     (case input of None \<Rightarrow> None | Some (JStr s) \<Rightarrow> Some s | Some v \<Rightarrow> Some (stringify v))"

definition endTool :: "'n AgentEvent \<Rightarrow> AgentMessage \<Rightarrow> AgentMessage" where
  "endTool event m =
     (case am_tool m of
        None \<Rightarrow> m
      | Some tool \<Rightarrow>
          if truthy (tc_callId tool) \<and> tc_callId tool = ae_id event
          then m\<lparr>am_tool := Some (tool\<lparr>tc_ok := ae_ok event\<rparr>)\<rparr> else m)"

definition reduce :: "('n json \<Rightarrow> string) \<Rightarrow> AgentMessage list \<Rightarrow> 'n AgentEvent \<Rightarrow> AgentMessage list" where
  "reduce stringify messages event =
     (case ae_type event of
        Prompt \<Rightarrow> messages @ [message RUser (nullish (ae_text event) '''')]
      | Reasoning \<Rightarrow>
          if openAs RReasoning messages
          then butlast messages @
                 [(last messages)\<lparr>am_text := am_text (last messages) @ nullish (ae_text event) ''''\<rparr>]
          else messages @ [(message RReasoning (nullish (ae_text event) ''''))\<lparr>am_streaming := True\<rparr>]
      | Delta \<Rightarrow>
          if openAs RAssistant messages
          then butlast messages @
                 [(last messages)\<lparr>am_text := am_text (last messages) @ nullish (ae_text event) ''''\<rparr>]
          else messages @ [(message RAssistant (nullish (ae_text event) ''''))\<lparr>am_streaming := True\<rparr>]
      | Text \<Rightarrow>
          if openAs RAssistant messages
          then butlast messages @ [message RAssistant (nullish (ae_text event) '''')]
          else messages @ [message RAssistant (nullish (ae_text event) '''')]
      | Tool_start \<Rightarrow>
          messages @
            [(message RTool (nullish (ae_tool event) ''tool''))
               \<lparr>am_tool := Some \<lparr>tc_name = nullish (ae_tool event) ''tool'', tc_callId = ae_id event,
                                 tc_input = inputText stringify (ae_input event), tc_ok = None\<rparr>\<rparr>]
      | Tool_end \<Rightarrow> map (endTool event) messages
      | Turn_end \<Rightarrow>
          if truthy (ae_reason event) \<and> ae_reason event \<noteq> Some ''completed''
          then messages @
                 [message RError
                    (nullish (ae_error event) (''turn ended: '' @ nullish (ae_reason event) ''''))]
          else messages
      | Error \<Rightarrow> messages @ [message RError (nullish (ae_error event) ''agent failed'')]
      | _ \<Rightarrow> messages)"

text \<open>
  The events that \<open>read_history\<close> gives back for a conversation, of those the service normalises. Its
  prompts are the texts that were posted.
\<close>

definition historyEvents :: "'n AgentEvent list \<Rightarrow> 'n AgentEvent list" where
  "historyEvents events =
     filter (\<lambda>e. ae_type e \<in> {Prompt, Text, Tool_start, Tool_end, Todo}) events"

subsection \<open>The hook\<close>

text \<open>
  \<open>ag_flights\<close> are the calls of \<open>send\<close> that have not returned, each with its controller and its buffer;
  \<open>ag_opening\<close> the calls of \<open>openSession\<close> that wait for their response; \<open>ag_posted\<close> the prompts sent to the
  service and \<open>ag_stops\<close> the sessions it was asked to stop; \<open>ag_refreshing\<close> counts the calls of
  \<open>refreshSessions\<close> that wait, one of them made when the hook is mounted.
\<close>

record 'n agent_state =
  ag_messages :: "AgentMessage list"
  ag_isStreaming :: bool
  ag_sessionId :: "string option"
  ag_todos :: "'n json list"
  ag_usage :: "'n AgentUsage option"
  ag_loadingHistory :: bool
  ag_controller :: "nat option"
  ag_aborted :: "nat list"
  ag_flights :: "(nat \<times> string) list"
  ag_opening :: "string list"
  ag_next :: nat
  ag_posted :: "(string \<times> string option) list"
  ag_stops :: "string list"
  ag_sessions :: "'n json list"
  ag_refreshing :: nat

definition agentStart :: "'n agent_state" where
  "agentStart = \<lparr>ag_messages = [], ag_isStreaming = False, ag_sessionId = None, ag_todos = [],
     ag_usage = None, ag_loadingHistory = False, ag_controller = None, ag_aborted = [],
     ag_flights = [], ag_opening = [], ag_next = 0, ag_posted = [], ag_stops = [], ag_sessions = [],
     ag_refreshing = 1\<rparr>"

text \<open>\<open>Array.isArray(v) ? v : []\<close>.\<close>

definition arrayOr :: "'n json option \<Rightarrow> 'n json list" where
  "arrayOr items = (case items of Some (JArr vs) \<Rightarrow> vs | _ \<Rightarrow> [])"

definition applyEvent :: "('n json \<Rightarrow> string) \<Rightarrow> 'n AgentEvent \<Rightarrow> 'n agent_state \<Rightarrow> 'n agent_state" where
  "applyEvent stringify event s =
     (if ae_type event = Session \<and> truthy (ae_session_id event)
      then s\<lparr>ag_sessionId := ae_session_id event\<rparr>
      else if ae_type event = Todo then s\<lparr>ag_todos := arrayOr (ae_items event)\<rparr>
      else if ae_type event = Usage
      then s\<lparr>ag_usage := Some \<lparr>us_input_tokens = ae_input_tokens event,
               us_output_tokens = ae_output_tokens event, us_cached_tokens = ae_cached_tokens event,
               us_reasoning_tokens = ae_reasoning_tokens event\<rparr>\<rparr>
      else s\<lparr>ag_messages := reduce stringify (ag_messages s) event\<rparr>)"

text \<open>\<open>refreshSessions\<close>: the request leaves, and the \<open>sessions\<close> of its answer, if there is one.\<close>

definition refreshSessions :: "'n agent_state \<Rightarrow> 'n agent_state" where
  "refreshSessions s = s\<lparr>ag_refreshing := Suc (ag_refreshing s)\<rparr>"

definition refreshed :: "'n json option option \<Rightarrow> 'n agent_state \<Rightarrow> 'n agent_state" where
  "refreshed response s =
     (let s = (case response of None \<Rightarrow> s | Some body \<Rightarrow> s\<lparr>ag_sessions := arrayOr body\<rparr>)
      in s\<lparr>ag_refreshing := ag_refreshing s - 1\<rparr>)"

definition abortCurrent :: "'n agent_state \<Rightarrow> 'n agent_state" where
  "abortCurrent s =
     (case ag_controller s of None \<Rightarrow> s | Some c \<Rightarrow> s\<lparr>ag_aborted := c # ag_aborted s\<rparr>)"

text \<open>\<open>send\<close> up to its first \<open>await\<close>.\<close>

definition send :: "('n json \<Rightarrow> string) \<Rightarrow> string \<Rightarrow> string option \<Rightarrow> 'n agent_state \<Rightarrow> 'n agent_state" where
  "send stringify text context s =
     (if trim text = '''' \<or> ag_isStreaming s then s
      else
        let prompt = (if truthy context then nullish context '''' @ [nl, nl] @ text else text);
            s = applyEvent stringify ((newEvent Prompt)\<lparr>ae_text := Some text\<rparr>) s;
            c = ag_next s
        in s\<lparr>ag_isStreaming := True, ag_controller := Some c, ag_next := Suc c,
             ag_flights := ag_flights s @ [(c, '''')],
             ag_posted := ag_posted s @ [(prompt, ag_sessionId s)]\<rparr>)"

text \<open>The \<open>finally\<close> of \<open>send\<close>.\<close>

definition settle :: "AgentMessage \<Rightarrow> AgentMessage" where
  "settle m = (if am_streaming m then m\<lparr>am_streaming := False\<rparr> else m)"

definition finish :: "nat \<Rightarrow> 'n agent_state \<Rightarrow> 'n agent_state" where
  "finish c s =
     refreshSessions
       (s\<lparr>ag_isStreaming := False, ag_controller := None, ag_messages := map settle (ag_messages s),
          ag_flights := filter (\<lambda>(d, _). d \<noteq> c) (ag_flights s)\<rparr>)"

text \<open>The response is refused, the stream fails, the read is aborted, the stream ends.\<close>

definition refused :: "('n json \<Rightarrow> string) \<Rightarrow> nat \<Rightarrow> nat \<Rightarrow> 'n agent_state \<Rightarrow> 'n agent_state" where
  "refused stringify c status s =
     finish c
       (applyEvent stringify
          ((newEvent Error)\<lparr>ae_error := Some
              (if status = 429 then ''Every agent session is busy. Try again shortly.''
               else ''agent returned '' @ show_nat status)\<rparr>) s)"

definition failed :: "('n json \<Rightarrow> string) \<Rightarrow> nat \<Rightarrow> string \<Rightarrow> 'n agent_state \<Rightarrow> 'n agent_state" where
  "failed stringify c msg s =
     finish c (applyEvent stringify ((newEvent Error)\<lparr>ae_error := Some msg\<rparr>) s)"

text \<open>The events of the frames of a chunk.\<close>

definition frameEvent :: "(string \<Rightarrow> 'e option) \<Rightarrow> string \<Rightarrow> 'e option" where
  "frameEvent parse frame =
     (case find (\<lambda>part. startsWith part ''data: '') (split_on nl frame) of
        None \<Rightarrow> None
      | Some line \<Rightarrow> parse (drop 6 line))"

definition frameEvents :: "(string \<Rightarrow> 'e option) \<Rightarrow> string list \<Rightarrow> 'e list" where
  "frameEvents parse frames = List.map_filter (frameEvent parse) frames"

definition receive ::
  "(string \<Rightarrow> 'n AgentEvent option) \<Rightarrow> ('n json \<Rightarrow> string) \<Rightarrow> nat \<Rightarrow> string \<Rightarrow> 'n agent_state \<Rightarrow> 'n agent_state"
where
  "receive parse stringify c chunk s =
     (case map_of (ag_flights s) c of
        None \<Rightarrow> s
      | Some buffer \<Rightarrow>
          let (frames, rest) = feed split_blank buffer chunk;
              s = fold (applyEvent stringify) (frameEvents parse frames) s
          in s\<lparr>ag_flights := map (\<lambda>(d, b). (d, if d = c then rest else b)) (ag_flights s)\<rparr>)"

text \<open>\<open>openSession\<close> up to its request, its response, and \<open>startNewSession\<close>.\<close>

definition clearView :: "'n agent_state \<Rightarrow> 'n agent_state" where
  "clearView s = s\<lparr>ag_messages := [], ag_todos := [], ag_usage := None\<rparr>"

definition openSession :: "string \<Rightarrow> 'n agent_state \<Rightarrow> 'n agent_state" where
  "openSession sid s =
     (let s = clearView ((abortCurrent s)\<lparr>ag_sessionId := Some sid\<rparr>)
      in s\<lparr>ag_loadingHistory := True, ag_opening := ag_opening s @ [sid]\<rparr>)"

definition opened :: "('n json \<Rightarrow> string) \<Rightarrow> string \<Rightarrow> 'n AgentEvent list option \<Rightarrow> 'n agent_state \<Rightarrow> 'n agent_state" where
  "opened stringify sid response s =
     (let s = (case response of
                 None \<Rightarrow> s
               | Some events \<Rightarrow> s\<lparr>ag_messages := foldl (reduce stringify) [] events\<rparr>)
      in s\<lparr>ag_loadingHistory := False, ag_opening := remove1 sid (ag_opening s)\<rparr>)"

definition startNewSession :: "'n agent_state \<Rightarrow> 'n agent_state" where
  "startNewSession s = clearView ((abortCurrent s)\<lparr>ag_sessionId := None\<rparr>)"

definition stop :: "'n agent_state \<Rightarrow> 'n agent_state" where
  "stop s =
     (let s = abortCurrent s
      in if truthy (ag_sessionId s) then s\<lparr>ag_stops := ag_stops s @ [nullish (ag_sessionId s) '''']\<rparr> else s)"

subsection \<open>Runs\<close>

datatype 'n agent_action =
  Send string "string option"
  | Refused nat nat
  | Chunk nat string
  | Ended nat
  | Failed nat string
  | Aborted nat
  | OpenSession string
  | Opened string "'n AgentEvent list option"
  | StartNewSession
  | Stop
  | Refreshed "'n json option option"

text \<open>When a step can happen, and what it does.\<close>

fun agentEnabled :: "'n agent_action \<Rightarrow> 'n agent_state \<Rightarrow> bool" where
  "agentEnabled (Refused c status) s \<longleftrightarrow> c \<in> fst ` set (ag_flights s)"
| "agentEnabled (Chunk c chunk) s \<longleftrightarrow> c \<in> fst ` set (ag_flights s)"
| "agentEnabled (Ended c) s \<longleftrightarrow> c \<in> fst ` set (ag_flights s)"
| "agentEnabled (Failed c msg) s \<longleftrightarrow> c \<in> fst ` set (ag_flights s)"
| "agentEnabled (Aborted c) s \<longleftrightarrow> c \<in> fst ` set (ag_flights s) \<and> c \<in> set (ag_aborted s)"
| "agentEnabled (Opened sid response) s \<longleftrightarrow> sid \<in> set (ag_opening s)"
| "agentEnabled (Refreshed response) s \<longleftrightarrow> 0 < ag_refreshing s"
| "agentEnabled _ s \<longleftrightarrow> True"

fun agentStep ::
  "(string \<Rightarrow> 'n AgentEvent option) \<Rightarrow> ('n json \<Rightarrow> string) \<Rightarrow> 'n agent_action \<Rightarrow> 'n agent_state \<Rightarrow> 'n agent_state"
where
  "agentStep parse stringify (Send text context) s = send stringify text context s"
| "agentStep parse stringify (Refused c status) s = refused stringify c status s"
| "agentStep parse stringify (Chunk c chunk) s = receive parse stringify c chunk s"
| "agentStep parse stringify (Ended c) s = finish c s"
| "agentStep parse stringify (Failed c msg) s = failed stringify c msg s"
| "agentStep parse stringify (Aborted c) s = finish c s"
| "agentStep parse stringify (OpenSession sid) s = openSession sid s"
| "agentStep parse stringify (Opened sid response) s = opened stringify sid response s"
| "agentStep parse stringify StartNewSession s = startNewSession s"
| "agentStep parse stringify Stop s = stop s"
| "agentStep parse stringify (Refreshed response) s = refreshed response s"

inductive agentReachable ::
  "(string \<Rightarrow> 'n AgentEvent option) \<Rightarrow> ('n json \<Rightarrow> string) \<Rightarrow> 'n agent_state \<Rightarrow> bool"
  for parse stringify
where
  agent_start: "agentReachable parse stringify agentStart"
| agent_step: "agentReachable parse stringify s \<Longrightarrow> agentEnabled a s \<Longrightarrow>
     agentReachable parse stringify (agentStep parse stringify a s)"

section \<open>The reducer\<close>

lemma endTool_sel [simp]:
  "am_role (endTool e m) = am_role m" "am_text (endTool e m) = am_text m"
  "am_streaming (endTool e m) = am_streaming m"
  by (simp_all add: endTool_def split: option.split)

lemma message_sel [simp]:
  "am_role (message r t) = r" "am_text (message r t) = t" "am_tool (message r t) = None"
  "am_streaming (message r t) = False"
  by (simp_all add: message_def)

lemma openAs_snoc [simp]: "openAs r (ms @ [m]) \<longleftrightarrow> am_streaming m \<and> am_role m = r"
  by (simp add: openAs_def)

lemma openAs_Nil [simp]: "\<not> openAs r []"
  by (simp add: openAs_def)

subsection \<open>A reopened conversation\<close>

text \<open>
  A stream in which every run of provisional tokens is settled by the message it announces: once a
  token has come, nothing that adds a message may come before the committed text. \<open>writing\<close> tells
  whether a token is waiting.
\<close>

definition writes :: "bool \<Rightarrow> 'n AgentEvent \<Rightarrow> bool" where
  "writes writing e \<longleftrightarrow> ae_type e = Delta \<or> writing \<and> ae_type e \<noteq> Text"

definition addsMessage :: "'n AgentEvent \<Rightarrow> bool" where
  "addsMessage e \<longleftrightarrow> ae_type e \<in> {Prompt, Reasoning, Tool_start, Turn_end, Error}"

fun tokensSettled :: "bool \<Rightarrow> 'n AgentEvent list \<Rightarrow> bool" where
  "tokensSettled writing [] \<longleftrightarrow> \<not> writing"
| "tokensSettled writing (e # es) \<longleftrightarrow>
     \<not> (writing \<and> addsMessage e) \<and> tokensSettled (writes writing e) es"

text \<open>The messages a reopened conversation has: not the reasoning, not the errors.\<close>

definition kept :: "AgentMessage \<Rightarrow> bool" where
  "kept m \<longleftrightarrow> am_role m \<noteq> RReasoning \<and> am_role m \<noteq> RError"

definition committed :: "AgentMessage list \<Rightarrow> bool" where
  "committed ms \<longleftrightarrow> list_all (\<lambda>m. am_role m = RAssistant \<longrightarrow> \<not> am_streaming m) ms"

text \<open>The live view \<open>ms\<close> against the replayed one \<open>hs\<close>.\<close>

definition mirrors :: "bool \<Rightarrow> AgentMessage list \<Rightarrow> AgentMessage list \<Rightarrow> bool" where
  "mirrors writing ms hs \<longleftrightarrow>
     (if writing
      then ms \<noteq> [] \<and> openAs RAssistant ms \<and> filter kept (butlast ms) = hs \<and> committed (butlast ms)
      else filter kept ms = hs \<and> committed ms)"

lemma committed_snoc [simp]:
  "committed (ms @ [m]) \<longleftrightarrow> committed ms \<and> (am_role m = RAssistant \<longrightarrow> \<not> am_streaming m)"
  "committed []"
  by (auto simp: committed_def)

lemma committed_not_open: "committed ms \<Longrightarrow> \<not> openAs RAssistant ms"
  by (auto simp: committed_def openAs_def list_all_iff)

lemma filter_endTool: "filter kept (map (endTool e) ms) = map (endTool e) (filter kept ms)"
  by (induction ms) (simp_all add: kept_def)

lemma committed_endTool [simp]: "committed (map (endTool e) ms) \<longleftrightarrow> committed ms"
  by (simp add: committed_def list_all_iff)

lemma committed_filter: "committed ms \<Longrightarrow> committed (filter kept ms)"
  by (simp add: committed_def list_all_iff)

lemma mirrors_idle:
  assumes "filter kept ms = hs" "committed ms"
  shows "mirrors (ae_type e = Delta) (reduce f ms e) (foldl (reduce f) hs (historyEvents [e]))"
proof -
  have no: "\<not> openAs RAssistant ms" "\<not> openAs RAssistant hs"
    using assms committed_not_open committed_filter by blast+
  have reasoning: "filter kept (butlast ms) = hs \<and> committed (butlast ms)" if "openAs RReasoning ms"
    using that assms by (cases ms rule: rev_cases) (auto simp: kept_def)
  show ?thesis
  proof (cases "ae_type e")
    case Reasoning
    show ?thesis
    proof (cases "openAs RReasoning ms")
      case True
      then have "am_role (last ms) = RReasoning" by (simp add: openAs_def)
      with Reasoning True reasoning show ?thesis
        by (simp add: reduce_def mirrors_def historyEvents_def kept_def)
    qed (simp add: Reasoning reduce_def mirrors_def historyEvents_def kept_def assms)
  qed (use no assms in \<open>auto simp: reduce_def mirrors_def historyEvents_def filter_endTool\<close>,
       simp_all add: kept_def)
qed

lemma mirrors_writing:
  assumes "am_role x = RAssistant" "am_streaming x" "filter kept xs = hs" "committed xs" "\<not> addsMessage e"
  shows "mirrors (ae_type e \<noteq> Text) (reduce f (xs @ [x]) e) (foldl (reduce f) hs (historyEvents [e]))"
proof -
  have "\<not> openAs RAssistant hs"
    using assms committed_not_open committed_filter by blast
  with assms show ?thesis
    by (cases "ae_type e")
      (simp_all add: reduce_def mirrors_def historyEvents_def addsMessage_def filter_endTool,
       simp add: kept_def)
qed

lemma mirrors_step:
  assumes "mirrors writing ms hs" and "\<not> (writing \<and> addsMessage e)"
  shows "mirrors (writes writing e) (reduce f ms e) (foldl (reduce f) hs (historyEvents [e]))"
proof (cases writing)
  case False
  with assms have "filter kept ms = hs" "committed ms" by (simp_all add: mirrors_def)
  from mirrors_idle [OF this] False show ?thesis by (simp add: writes_def)
next
  case True
  then obtain xs x where ms: "ms = xs @ [x]" "am_role x = RAssistant" "am_streaming x"
    "filter kept xs = hs" "committed xs"
    using assms(1) by (cases ms rule: rev_cases) (auto simp: mirrors_def)
  then have "mirrors (ae_type e \<noteq> Text) (reduce f ms e) (foldl (reduce f) hs (historyEvents [e]))"
    using True assms(2) mirrors_writing by blast
  moreover have "writes writing e \<longleftrightarrow> ae_type e \<noteq> Text" using True by (auto simp: writes_def)
  ultimately show ?thesis by simp
qed

lemma historyEvents_Cons: "historyEvents (e # es) = historyEvents [e] @ historyEvents es"
  by (simp add: historyEvents_def)

lemma mirrors_run:
  assumes "mirrors writing ms hs" and "tokensSettled writing es"
  shows "mirrors False (foldl (reduce f) ms es) (foldl (reduce f) hs (historyEvents es))"
  using assms
proof (induction es arbitrary: writing ms hs)
  case Nil
  then show ?case by (simp add: historyEvents_def)
next
  case (Cons e es)
  then have "mirrors (writes writing e) (reduce f ms e) (foldl (reduce f) hs (historyEvents [e]))"
    by (intro mirrors_step) simp_all
  with Cons show ?case by (subst historyEvents_Cons) simp
qed

subsection \<open>Earlier turns\<close>

text \<open>What a message shows apart from the outcome of its tool call.\<close>

definition withoutOutcome :: "AgentMessage \<Rightarrow> AgentMessage" where
  "withoutOutcome m = m\<lparr>am_tool := map_option (\<lambda>tool. tool\<lparr>tc_ok := None\<rparr>) (am_tool m)\<rparr>"

lemma withoutOutcome_endTool [simp]: "withoutOutcome (endTool e m) = withoutOutcome m"
  by (simp add: withoutOutcome_def endTool_def split: option.split)

lemma withoutOutcome_streaming: "withoutOutcome m = withoutOutcome n \<Longrightarrow> am_streaming m = am_streaming n"
  by (metis AgentMessage.select_convs(4) AgentMessage.surjective AgentMessage.update_convs(3) withoutOutcome_def)

text \<open>Once its last message is closed, a prefix of the list is only ever changed by an outcome.\<close>

lemma reduce_keeps_closed:
  assumes "\<not> am_streaming (last ms)" "ms \<noteq> []"
  shows "\<exists>ns rest. reduce f (ms @ us) e = ns @ rest \<and> map withoutOutcome ns = map withoutOutcome ms"
proof (cases "ae_type e = Tool_end")
  case True
  then have "reduce f (ms @ us) e = map (endTool e) ms @ map (endTool e) us" by (simp add: reduce_def)
  then show ?thesis by (metis (no_types, lifting) map_map map_eq_conv comp_apply withoutOutcome_endTool)
next
  case False
  have "\<exists>rest. reduce f (ms @ us) e = ms @ rest"
  proof (cases "us = []")
    case True
    with assms False show ?thesis
      by (cases "ae_type e") (simp_all add: reduce_def openAs_def)
  next
    case nonempty: False
    with False show ?thesis
      by (cases "ae_type e") (simp_all add: reduce_def butlast_append)
  qed
  then show ?thesis by blast
qed

lemma reduce_run_keeps_closed:
  assumes "\<not> am_streaming (last ms)" "ms \<noteq> []"
  shows "\<exists>ns rest. foldl (reduce f) (ms @ us) es = ns @ rest \<and> map withoutOutcome ns = map withoutOutcome ms"
  using assms
proof (induction es arbitrary: ms us)
  case (Cons e es)
  obtain ns rest where e: "reduce f (ms @ us) e = ns @ rest" "map withoutOutcome ns = map withoutOutcome ms"
    using reduce_keeps_closed [OF Cons.prems] by blast
  then have ns: "ns \<noteq> []" using Cons.prems by auto
  then have "withoutOutcome (last ns) = withoutOutcome (last ms)"
    using e(2) Cons.prems by (metis last_map)
  then have "\<not> am_streaming (last ns)" using Cons.prems withoutOutcome_streaming by blast
  from Cons.IH [OF this ns] e show ?case by simp
qed auto

section \<open>The hook\<close>

subsection \<open>One prompt at a time\<close>

lemma applyEvent_rest [simp]:
  "ag_flights (applyEvent f e s) = ag_flights s" "ag_isStreaming (applyEvent f e s) = ag_isStreaming s"
  "ag_controller (applyEvent f e s) = ag_controller s" "ag_next (applyEvent f e s) = ag_next s"
  by (simp_all add: applyEvent_def)

lemma fold_applyEvent_rest [simp]:
  "ag_flights (fold (applyEvent f) es s) = ag_flights s"
  "ag_isStreaming (fold (applyEvent f) es s) = ag_isStreaming s"
  "ag_controller (fold (applyEvent f) es s) = ag_controller s"
  "ag_next (fold (applyEvent f) es s) = ag_next s"
  by (induction es arbitrary: s) simp_all

lemma abortCurrent_rest [simp]:
  "ag_flights (abortCurrent s) = ag_flights s" "ag_isStreaming (abortCurrent s) = ag_isStreaming s"
  "ag_controller (abortCurrent s) = ag_controller s" "ag_next (abortCurrent s) = ag_next s"
  by (simp_all add: abortCurrent_def split: option.split)

text \<open>The reference to the controller is the one of the call that has not returned.\<close>

definition singleFlight :: "'n agent_state \<Rightarrow> bool" where
  "singleFlight s \<longleftrightarrow>
     map fst (ag_flights s) = (case ag_controller s of None \<Rightarrow> [] | Some c \<Rightarrow> [c]) \<and>
     (ag_isStreaming s \<longleftrightarrow> ag_controller s \<noteq> None)"

lemma singleFlight_finish:
  "singleFlight s \<Longrightarrow> c \<in> fst ` set (ag_flights s) \<Longrightarrow> singleFlight (finish c s)"
  by (auto simp: singleFlight_def finish_def refreshSessions_def map_eq_Cons_conv split: option.splits)

lemma singleFlight_cong:
  "ag_flights s = ag_flights t \<Longrightarrow> ag_controller s = ag_controller t \<Longrightarrow>
   ag_isStreaming s = ag_isStreaming t \<Longrightarrow> singleFlight s = singleFlight t"
  by (simp add: singleFlight_def)

lemma singleFlight_applyEvent [simp]: "singleFlight (applyEvent f e s) = singleFlight s"
  by (rule singleFlight_cong) simp_all

lemma singleFlight_same [simp]:
  "singleFlight (openSession sid s) = singleFlight s"
  "singleFlight (opened f sid response s) = singleFlight s"
  "singleFlight (startNewSession s) = singleFlight s"
  "singleFlight (stop s) = singleFlight s"
  "singleFlight (refreshed body s) = singleFlight s"
  by (rule singleFlight_cong;
      simp add: openSession_def opened_def startNewSession_def stop_def clearView_def refreshed_def Let_def
        split: option.split)+

lemma singleFlight_receive: "singleFlight s \<Longrightarrow> singleFlight (receive parse f c chunk s)"
  by (auto simp: singleFlight_def receive_def case_prod_beta comp_def split: option.splits)

lemma singleFlight_step:
  assumes "singleFlight s" "agentEnabled a s"
  shows "singleFlight (agentStep parse f a s)"
  using assms
proof (cases a)
  case (Send t ctx)
  with assms show ?thesis by (auto simp: singleFlight_def send_def Let_def split: option.splits)
qed (auto simp: refused_def failed_def singleFlight_finish singleFlight_receive singleFlight_same)

lemma singleFlight_reachable: "agentReachable parse f s \<Longrightarrow> singleFlight s"
proof (induction rule: agentReachable.induct)
  case agent_start
  show ?case by (simp add: singleFlight_def agentStart_def)
next
  case (agent_step s a)
  then show ?case by (blast intro: singleFlight_step)
qed

subsection \<open>Receiving\<close>

lemma frameEvents_append: "frameEvents parse (xs @ ys) = frameEvents parse xs @ frameEvents parse ys"
  by (simp add: frameEvents_def map_filter_def)

lemma applyEvent_flights: "applyEvent f e (s\<lparr>ag_flights := fl\<rparr>) = (applyEvent f e s)\<lparr>ag_flights := fl\<rparr>"
  by (cases s) (simp add: applyEvent_def)

lemma fold_applyEvent_flights:
  "fold (applyEvent f) es (s\<lparr>ag_flights := fl\<rparr>) = (fold (applyEvent f) es s)\<lparr>ag_flights := fl\<rparr>"
  by (induction es arbitrary: s) (simp_all add: applyEvent_flights)

lemma receive_run:
  assumes "ag_flights s = [(c, b)]"
  shows "fold (receive parse f c) chunks s =
           (fold (applyEvent f) (frameEvents parse (fst (readAll split_blank b chunks))) s)
             \<lparr>ag_flights := [(c, snd (readAll split_blank b chunks))]\<rparr>"
  using assms
proof (induction chunks arbitrary: s b)
  case Nil
  then show ?case by (simp add: frameEvents_def map_filter_def)
next
  case (Cons chunk chunks)
  let ?p = "feed split_blank b chunk"
  let ?t = "(fold (applyEvent f) (frameEvents parse (fst ?p)) s)\<lparr>ag_flights := [(c, snd ?p)]\<rparr>"
  have "receive parse f c chunk s = ?t"
    using Cons.prems by (simp add: receive_def case_prod_beta)
  with Cons.IH [of ?t "snd ?p"] show ?case
    by (simp add: case_prod_beta fold_applyEvent_flights frameEvents_append)
qed

section \<open>Properties\<close>



text \<open>
  What the assistant shows of a response depends on the body of the response and not on how the
  network cut it into chunks: it is the effect of the events of the complete frames, in order, and the
  incomplete last frame stays in the buffer.
\<close>

lemma agent_stream_chunking:
  assumes "ag_flights s = [(c, '''')]"
  shows "fold (receive parse stringify c) chunks s =
           (fold (applyEvent stringify) (frameEvents parse (butlast (split_blank (concat chunks)))) s)
             \<lparr>ag_flights := [(c, last (split_blank (concat chunks)))]\<rparr>"
  using receive_run [OF assms, of parse stringify chunks]
  by (simp add: frames.readAll_concat feed_def Let_def)

text \<open>
  The answer to a prompt never rewrites the conversation before it: whatever the stream sends, the
  earlier messages and the prompt itself stay as they were, except for the outcome of a tool call.
\<close>

lemma earlier_turns_kept:
  assumes "trim prompt \<noteq> ''''" and "\<not> ag_isStreaming s"
  shows "map withoutOutcome
           (take (Suc (length (ag_messages s)))
              (ag_messages (fold (applyEvent stringify) events (send stringify prompt hidden s)))) =
         map withoutOutcome (ag_messages s @ [message RUser prompt])"
proof -
  let ?ms = "ag_messages s @ [message RUser prompt]"
  have messages: "\<exists>es'. ag_messages (fold (applyEvent stringify) es u) = foldl (reduce stringify) (ag_messages u) es'"
    for es :: "'a AgentEvent list" and u
  proof (induction es arbitrary: u)
    case Nil
    have "ag_messages (fold (applyEvent stringify) [] u) = foldl (reduce stringify) (ag_messages u) []" by simp
    then show ?case ..
  next
    case (Cons e es)
    obtain es' where es': "ag_messages (fold (applyEvent stringify) (e # es) u) =
        foldl (reduce stringify) (ag_messages (applyEvent stringify e u)) es'"
      using Cons [of "applyEvent stringify e u"] by auto
    have "ag_messages (applyEvent stringify e u) = foldl (reduce stringify) (ag_messages u) [e] \<or>
        ag_messages (applyEvent stringify e u) = foldl (reduce stringify) (ag_messages u) []"
      by (simp add: applyEvent_def)
    then show ?case using es' by (metis foldl_append)
  qed
  have "ag_messages (send stringify prompt hidden s) = ?ms"
    using assms by (simp add: send_def applyEvent_def newEvent_def reduce_def Let_def nullish_def)
  with messages obtain es' where
    "ag_messages (fold (applyEvent stringify) events (send stringify prompt hidden s)) =
       foldl (reduce stringify) ?ms es'" by metis
  moreover obtain ns rest where "foldl (reduce stringify) ?ms es' = ns @ rest"
    "map withoutOutcome ns = map withoutOutcome ?ms"
    using reduce_run_keeps_closed [of ?ms stringify "[]" es'] by auto
  moreover from this have "length ns = Suc (length (ag_messages s))"
    by (metis length_append_singleton length_map)
  ultimately show ?thesis by simp
qed

text \<open>
  C28. One prompt at a time: in every reachable state at most one call of \<open>send\<close> has not returned, the
  panel shows that it is streaming exactly while there is one, and the controller that \<open>stop\<close> and
  \<open>openSession\<close> abort is the one of that call.
\<close>

theorem one_prompt_in_flight:
  assumes "agentReachable parse stringify s"
  shows "length (ag_flights s) \<le> 1 \<and> (ag_isStreaming s \<longleftrightarrow> ag_flights s \<noteq> []) \<and>
         ag_controller s = (case ag_flights s of [] \<Rightarrow> None | (c, _) # _ \<Rightarrow> Some c)"
  using singleFlight_reachable [OF assms]
  by (cases "ag_flights s") (auto simp: singleFlight_def split: option.splits)

theorem one_prompt_in_flight_witness:
  "length (ag_flights (agentStep (\<lambda>_. None) (\<lambda>_ :: nat json. []) (Send ''hi'' None) agentStart)) \<le> 1 \<and>
   ag_flights (agentStep (\<lambda>_. None) (\<lambda>_ :: nat json. []) (Send ''hi'' None) agentStart) = [(0, '''')]"
proof -
  let ?s = "agentStep (\<lambda>_. None) (\<lambda>_ :: nat json. []) (Send ''hi'' None) agentStart"
  have "agentReachable (\<lambda>_. None) (\<lambda>_. []) ?s" by (intro agent_step agent_start) simp
  from one_prompt_in_flight [OF this] show ?thesis
    by (simp add: send_def applyEvent_def agentStart_def trim_def is_ws_def truthy_def Let_def)
qed

text \<open>
  Two conversations opened one after the other, the first one answered last: the panel holds the
  second conversation's id over the first one's messages, and the next prompt goes to the second.
\<close>

lemma stale_history_shown:
  "\<exists>s. agentReachable parse stringify s \<and> ag_sessionId s = Some ''b'' \<and>
       ag_messages s = foldl (reduce stringify) [] historyOfA \<and>
       ag_loadingHistory s = False \<and> ag_opening s = [] \<and>
       ag_posted (send stringify ''go on'' None s) = [(''go on'', Some ''b'')]"
proof -
  let ?step = "agentStep parse stringify"
  let ?s = "?step (Opened ''a'' (Some historyOfA)) (?step (Opened ''b'' (Some []))
      (?step (OpenSession ''b'') (?step (OpenSession ''a'') agentStart)))"
  have "agentReachable parse stringify ?s"
    by (intro agent_step agent_start)
      (simp_all add: openSession_def opened_def clearView_def abortCurrent_def agentStart_def Let_def)
  then show ?thesis
    by (intro exI [of _ ?s])
      (simp add: openSession_def opened_def clearView_def abortCurrent_def agentStart_def Let_def
        send_def applyEvent_def newEvent_def trim_def is_ws_def truthy_def)
qed

end
