(* ===== verification/Api_Client.thy ===== *)
theory Api_Client
  imports Js_Json
begin

text \<open>
  The HTTP client of the browser code, \<open>common/api/client.ts\<close>: where the services are, the dbt-runner
  session id kept in \<open>localStorage\<close>, the query string, the message of a failed request, and \<open>request\<close>,
  which both \<open>apiFetch\<close> and \<open>apiClient\<close> go through.

  What the client finds around it is an argument: whether there is a \<open>window\<close>, what \<open>getSession\<close> of
  next-auth answers or throws, what \<open>fetch\<close> answers to a request or throws, a fresh identifier, and
  \<open>JSON.parse\<close>. A request that is not sent is \<open>None\<close> in the outcome.
\<close>

section \<open>Definitions\<close>

subsection \<open>Addresses\<close>

definition getDbtRunnerUrl :: "bool \<Rightarrow> string option \<Rightarrow> string" where
  "getDbtRunnerUrl window DBT_RUNNER_URL =
     (if window then ''/api/dbt-runner'' else or_str (nullish DBT_RUNNER_URL '''') ''http://localhost:8080'')"

definition getAgentUrl :: "bool \<Rightarrow> string option \<Rightarrow> string" where
  "getAgentUrl window AGENT_URL =
     (if window then ''/api/agent'' else nullish AGENT_URL ''http://dsh-agent:8090'')"

subsection \<open>The session id\<close>

type_synonym storage = "string \<rightharpoonup> string"

definition SESSION_STORAGE_KEY :: string where
  "SESSION_STORAGE_KEY = ''dbt-session-id''"

definition getSessionStorageKey :: "string option \<Rightarrow> string" where
  "getSessionStorageKey userId =
     (if truthy userId then SESSION_STORAGE_KEY @ '':'' @ nullish userId '''' else SESSION_STORAGE_KEY)"

text \<open>
  The template of a version 4 UUID, filled from the numbers below 16 that \<open>Math.random\<close> gives, one for
  each \<open>x\<close> or \<open>y\<close>.
\<close>

definition hex_digit :: "nat \<Rightarrow> char" where
  "hex_digit n = (if n < 10 then char_of (48 + n) else char_of (87 + n))"

fun fillTemplate :: "string \<Rightarrow> nat list \<Rightarrow> string" where
  "fillTemplate [] rs = []"
| "fillTemplate (c # cs) rs =
     (if c = CHR ''x'' then hex_digit (case rs of [] \<Rightarrow> 0 | r # _ \<Rightarrow> r mod 16) # fillTemplate cs (drop 1 rs)
      else if c = CHR ''y''
      then hex_digit ((case rs of [] \<Rightarrow> 0 | r # _ \<Rightarrow> r mod 4) + 8) # fillTemplate cs (drop 1 rs)
      else c # fillTemplate cs rs)"

definition UUID_TEMPLATE :: string where
  "UUID_TEMPLATE = ''xxxxxxxx-xxxx-4xxx-yxxx-xxxxxxxxxxxx''"

text \<open>\<open>randomUUID\<close> is what \<open>crypto.randomUUID()\<close> gives, where there is one.\<close>

definition generateUUID :: "string option \<Rightarrow> nat list \<Rightarrow> string" where
  "generateUUID randomUUID rs =
     (case randomUUID of Some u \<Rightarrow> u | None \<Rightarrow> fillTemplate UUID_TEMPLATE rs)"

text \<open>In the browser; \<open>fresh\<close> is what \<open>generateUUID\<close> gives.\<close>

definition getSessionId :: "bool \<Rightarrow> string \<Rightarrow> string option \<Rightarrow> storage \<Rightarrow> string \<times> storage" where
  "getSessionId window fresh userId st =
     (if \<not> window then ('''', st)
      else
        let storageKey = getSessionStorageKey userId;
            st = st(SESSION_STORAGE_KEY := None)
        in if truthy (st storageKey) then (nullish (st storageKey) '''', st)
           else (fresh, st(storageKey \<mapsto> fresh)))"

definition resetSessionId :: "bool \<Rightarrow> string \<Rightarrow> string option \<Rightarrow> storage \<Rightarrow> string \<times> storage" where
  "resetSessionId window fresh userId st =
     (if \<not> window then ('''', st)
      else (fresh, (st(getSessionStorageKey userId \<mapsto> fresh))(SESSION_STORAGE_KEY := None)))"

subsection \<open>The query string\<close>

datatype param_value = PStr string | PNum int | PBool bool

fun paramString :: "param_value \<Rightarrow> string" where
  "paramString (PStr s) = s"
| "paramString (PNum n) = show_int n"
| "paramString (PBool b) = (if b then ''true'' else ''false'')"

text \<open>The serializer of \<open>URLSearchParams\<close>, on the UTF-8 bytes of a code unit below 256.\<close>

definition utf8 :: "string \<Rightarrow> nat list" where
  "utf8 s = concat (map (\<lambda>c. if code c < 128 then [code c] else [192 + code c div 64, 128 + code c mod 64]) s)"

definition upper_hex :: "nat \<Rightarrow> char" where
  "upper_hex n = (if n < 10 then char_of (48 + n) else char_of (55 + n))"

definition form_byte :: "nat \<Rightarrow> string" where
  "form_byte b =
     (if b = 32 then ''+''
      else if is_alnum (char_of b) \<or> char_of b \<in> set ''*-._'' then [char_of b]
      else [CHR ''%'', upper_hex (b div 16), upper_hex (b mod 16)])"

definition form_encode :: "string \<Rightarrow> string" where
  "form_encode s = concat (map form_byte (utf8 s))"

definition queryString :: "(string \<times> string) list \<Rightarrow> string" where
  "queryString kvs = join ''&'' (map (\<lambda>(k, v). form_encode k @ ''='' @ form_encode v) kvs)"

definition givenParams :: "(string \<times> param_value option) list \<Rightarrow> (string \<times> string) list" where
  "givenParams params =
     List.map_filter (\<lambda>(k, v). map_option (\<lambda>v. (k, paramString v)) v) params"

definition buildUrl :: "string \<Rightarrow> (string \<times> param_value option) list option \<Rightarrow> string" where
  "buildUrl url params =
     (case params of
        None \<Rightarrow> url
      | Some ps \<Rightarrow>
          let qs = queryString (givenParams ps)
          in if qs \<noteq> '''' then url @ (if CHR ''?'' \<in> set url then ''&'' else ''?'') @ qs else url)"

subsection \<open>The message of a failed request\<close>

text \<open>
  \<open>extractDetailMessage\<close>: the value it returns, as it stands; a caller uses it only when it is truthy. A
  property of a value that is neither an object nor null is \<open>undefined\<close>, and so is one of an array here;
  \<open>null.msg\<close> is avoided by \<open>?.\<close>.
\<close>

fun property :: "string \<Rightarrow> 'n json \<Rightarrow> 'n json option" where
  "property k (JObj kvs) = map_of kvs k"
| "property k _ = None"

definition js_or :: "('n \<Rightarrow> bool) \<Rightarrow> 'n json option \<Rightarrow> 'n json option \<Rightarrow> 'n json option" where
  "js_or zero a b = (if json_truthy zero a then a else b)"

text \<open>The elements of an array joined; \<open>text\<close> is \<open>String\<close> of a value that is not a string.\<close>

definition joinText :: "('n json \<Rightarrow> string) \<Rightarrow> 'n json \<Rightarrow> string" where
  "joinText text v = (case v of JStr s \<Rightarrow> s | _ \<Rightarrow> text v)"

definition extractDetailMessage :: "('n \<Rightarrow> bool) \<Rightarrow> ('n json \<Rightarrow> string) \<Rightarrow> 'n json \<Rightarrow> 'n json option" where
  "extractDetailMessage zero text data =
     (let generic =
            (let m = js_or zero (property ''message'' data) (property ''error'' data)
             in if json_truthy zero m then m else None)
      in case data of
           JObj _ \<Rightarrow>
             (case property ''detail'' data of
                Some (JStr s) \<Rightarrow> Some (JStr s)
              | Some (JArr items) \<Rightarrow>
                  Some (JStr (join ''; '' (map (joinText text)
                    (filter (\<lambda>v. json_truthy zero (Some v)) (List.map_filter (property ''msg'') items)))))
              | Some (JObj kvs) \<Rightarrow> property ''message'' (JObj kvs)
              | _ \<Rightarrow> generic)
         | _ \<Rightarrow> None)"

subsection \<open>The request\<close>

record api_session =
  ses_userId :: "string option"
  ses_accessToken :: "string option"
  ses_error :: "string option"

record api_response =
  rsp_status :: nat
  rsp_statusText :: string
  rsp_sessionId :: "string option"
  rsp_text :: "string option"

record http_request =
  hr_url :: string
  hr_method :: "string option"
  hr_headers :: "(string \<times> string) list"
  hr_body :: "string option"

record request_options =
  ro_params :: "(string \<times> param_value option) list option"
  ro_headers :: "(string \<times> string) list"
  ro_method :: "string option"
  ro_body :: "string option"
  ro_requireDbtRunnerAuth :: bool

datatype 'n request_error = ApiError "'n json option" nat "'n json option" | NetworkError string | SyntaxError

text \<open>The browser a request is made in.\<close>

record browser =
  br_window :: bool
  br_getSession :: "api_session option result"
  br_fresh :: string
  br_fetch :: "http_request \<Rightarrow> api_response result"

record 'n outcome =
  oc_sent :: "http_request option"
  oc_toLogin :: bool
  oc_storage :: storage
  oc_result :: "'n request_error + 'n json option"

text \<open>
  The headers before the request, or the error with which it is not made: its message, whether the browser
  goes to the login page, and the storage.
\<close>

definition baseHeaders :: "(string \<times> string) list \<Rightarrow> (string \<times> string) list" where
  "baseHeaders custom = foldl (\<lambda>h (k, v). obj_set k v h) [(''Content-Type'', ''application/json'')] custom"

datatype prepared =
  Denied string
| Ready "(string \<times> string) list" "string option" storage

definition prepare :: "browser \<Rightarrow> request_options \<Rightarrow> storage \<Rightarrow> prepared" where
  "prepare b opts st =
     (let headers = baseHeaders (ro_headers opts) in
      if \<not> br_window b then Ready headers None st
      else
        case br_getSession b of
          Inl _ \<Rightarrow> Ready headers None st
        | Inr session \<Rightarrow>
            let userId = Option.bind session ses_userId;
                token = Option.bind session ses_accessToken
            in if ro_requireDbtRunnerAuth opts then
                 if truthy (Option.bind session ses_error)
                 then Denied ''Session expired. Please sign in again.''
                 else if \<not> truthy token then Denied ''Missing access token. Please sign in again.''
                 else
                   let (sid, st) = getSessionId True (br_fresh b) userId st
                   in Ready (obj_set ''X-Session-ID'' sid
                        (obj_set ''Authorization'' (''Bearer '' @ nullish token '''') headers)) userId st
               else Ready (if truthy token then obj_set ''Authorization'' (''Bearer '' @ nullish token '''') headers
                           else headers) userId st)"

text \<open>What the response says: the new session id, and the result.\<close>

definition storeSessionId :: "browser \<Rightarrow> request_options \<Rightarrow> string option \<Rightarrow> api_response \<Rightarrow> storage \<Rightarrow> storage" where
  "storeSessionId b opts userId response st =
     (if ro_requireDbtRunnerAuth opts \<and> br_window b \<and> truthy (rsp_sessionId response)
      then (st(getSessionStorageKey userId \<mapsto> nullish (rsp_sessionId response) ''''))(SESSION_STORAGE_KEY := None)
      else st)"

definition rsp_ok :: "api_response \<Rightarrow> bool" where
  "rsp_ok response \<longleftrightarrow> 200 \<le> rsp_status response \<and> rsp_status response \<le> 299"

definition failureOf ::
  "('n \<Rightarrow> bool) \<Rightarrow> ('n json \<Rightarrow> string) \<Rightarrow> (string \<Rightarrow> 'n json option) \<Rightarrow> api_response \<Rightarrow> 'n request_error"
where
  "failureOf zero text parse response =
     (let message = JStr (''HTTP '' @ show_nat (rsp_status response) @ '': '' @ rsp_statusText response);
          body = nullish (rsp_text response) ''''
      in if body = '''' then ApiError (Some message) (rsp_status response) None
         else case parse body of
                None \<Rightarrow> ApiError (Some (JStr body)) (rsp_status response) None
              | Some data \<Rightarrow>
                  ApiError (js_or zero (extractDetailMessage zero text data) (Some message))
                    (rsp_status response) (Some data))"

definition resultOf ::
  "('n \<Rightarrow> bool) \<Rightarrow> ('n json \<Rightarrow> string) \<Rightarrow> (string \<Rightarrow> 'n json option) \<Rightarrow> api_response \<Rightarrow>
   'n request_error + 'n json option"
where
  "resultOf zero text parse response =
     (if \<not> rsp_ok response then Inl (failureOf zero text parse response)
      else if rsp_status response = 204 then Inr None
      else case parse (nullish (rsp_text response) '''') of
             None \<Rightarrow> Inl (SyntaxError)
           | Some data \<Rightarrow> Inr (Some data))"

definition request ::
  "('n \<Rightarrow> bool) \<Rightarrow> ('n json \<Rightarrow> string) \<Rightarrow> (string \<Rightarrow> 'n json option) \<Rightarrow> browser \<Rightarrow> string \<Rightarrow>
   request_options \<Rightarrow> storage \<Rightarrow> 'n outcome"
where
  "request zero text parse b url opts st =
     (let fullUrl = buildUrl url (ro_params opts) in
      case prepare b opts st of
        Denied msg \<Rightarrow>
          \<lparr>oc_sent = None, oc_toLogin = True, oc_storage = st,
           oc_result = Inl (ApiError (Some (JStr msg)) 401 (Some (JObj [(''error'', JStr ''auth'')])))\<rparr>
      | Ready headers userId st \<Rightarrow>
          let req = \<lparr>hr_url = fullUrl, hr_method = ro_method opts, hr_headers = headers, hr_body = ro_body opts\<rparr>
          in case br_fetch b req of
               Inl msg \<Rightarrow> \<lparr>oc_sent = Some req, oc_toLogin = False, oc_storage = st, oc_result = Inl (NetworkError msg)\<rparr>
             | Inr response \<Rightarrow>
                 \<lparr>oc_sent = Some req, oc_toLogin = False,
                  oc_storage = storeSessionId b opts userId response st,
                  oc_result = resultOf zero text parse response\<rparr>)"

subsection \<open>The two clients\<close>

definition apiFetch ::
  "('n \<Rightarrow> bool) \<Rightarrow> ('n json \<Rightarrow> string) \<Rightarrow> (string \<Rightarrow> 'n json option) \<Rightarrow> browser \<Rightarrow> string \<Rightarrow>
   request_options \<Rightarrow> storage \<Rightarrow> 'n outcome"
where
  "apiFetch zero text parse b url opts st =
     request zero text parse b url (opts\<lparr>ro_requireDbtRunnerAuth := False\<rparr>) st"

text \<open>\<open>get\<close>, \<open>post\<close>, \<open>put\<close> and \<open>delete\<close> of \<open>ApiClient\<close>: the method and the text of the body, if any.\<close>

definition apiClient ::
  "('n \<Rightarrow> bool) \<Rightarrow> ('n json \<Rightarrow> string) \<Rightarrow> (string \<Rightarrow> 'n json option) \<Rightarrow> browser \<Rightarrow> string option \<Rightarrow>
   string \<Rightarrow> string \<Rightarrow> string option \<Rightarrow> storage \<Rightarrow> 'n outcome"
where
  "apiClient zero text parse b DBT_RUNNER_URL verb path body st =
     request zero text parse b (getDbtRunnerUrl (br_window b) DBT_RUNNER_URL @ path)
       \<lparr>ro_params = None, ro_headers = [], ro_method = Some verb, ro_body = body, ro_requireDbtRunnerAuth = True\<rparr> st"

section \<open>Lemmas\<close>

subsection \<open>The query string\<close>

text \<open>The parser of \<open>application/x-www-form-urlencoded\<close>, giving bytes.\<close>

definition unhex :: "char \<Rightarrow> nat option" where
  "unhex c =
     (if is_digit c then Some (code c - 48)
      else if 65 \<le> code c \<and> code c \<le> 70 then Some (code c - 55)
      else if 97 \<le> code c \<and> code c \<le> 102 then Some (code c - 87)
      else None)"

fun form_decode :: "string \<Rightarrow> nat list" where
  "form_decode [] = []"
| "form_decode (c # cs) =
     (if c = CHR ''+'' then 32 # form_decode cs
      else if c = CHR ''%'' then
        (case cs of
           h # l # rest \<Rightarrow>
             (case (unhex h, unhex l) of
                (Some x, Some y) \<Rightarrow> (16 * x + y) # form_decode rest
              | _ \<Rightarrow> 37 # form_decode cs)
         | _ \<Rightarrow> 37 # form_decode cs)
      else code c # form_decode cs)"

definition parsePair :: "string \<Rightarrow> nat list \<times> nat list" where
  "parsePair s =
     (form_decode (takeWhile (\<lambda>c. c \<noteq> CHR ''='') s), form_decode (drop 1 (dropWhile (\<lambda>c. c \<noteq> CHR ''='') s)))"

definition parseQuery :: "string \<Rightarrow> (nat list \<times> nat list) list" where
  "parseQuery qs = map parsePair (filter (\<lambda>s. s \<noteq> '''') (split_on (CHR ''&'') qs))"

lemma hex_cases: "n < 16 \<Longrightarrow> n \<in> {0,1,2,3,4,5,6,7,8,9,10,11,12,13,14,15::nat}"
  unfolding insert_iff empty_iff by presburger

lemma unhex_upper_hex: "n < 16 \<Longrightarrow> unhex (upper_hex n) = Some n"
  by (drule hex_cases) (auto simp: upper_hex_def unhex_def js_defs)

lemma code_upper_hex: "n < 16 \<Longrightarrow> code (upper_hex n) = (if n < 10 then 48 + n else 55 + n)"
  by (simp add: upper_hex_def)

lemma upper_hex_plain: "n < 16 \<Longrightarrow> upper_hex n \<notin> set ''&=''"
  using code_upper_hex [of n] by (auto split: if_splits)

lemma form_byte_plain: "b < 256 \<Longrightarrow> c \<in> set (form_byte b) \<Longrightarrow> c \<noteq> CHR ''&'' \<and> c \<noteq> CHR ''=''"
proof -
  assume b: "b < 256" and c: "c \<in> set (form_byte b)"
  have hex: "upper_hex (b div 16) \<notin> set ''&=''" "upper_hex (b mod 16) \<notin> set ''&=''"
    by (rule upper_hex_plain, use b in simp)+
  define d :: char where "d = char_of b"
  have d: "code d = b" using b by (simp add: d_def)
  show ?thesis
  proof (cases "b = 32 \<or> is_alnum d \<or> d \<in> set ''*-._''")
    case True
    then have "c = CHR ''+'' \<or> c = d \<and> (is_alnum d \<or> d \<in> set ''*-._'')"
      using c by (auto simp: form_byte_def d_def [symmetric] split: if_splits)
    then show ?thesis by (auto simp: js_defs)
  next
    case False
    with c hex show ?thesis by (auto simp: form_byte_def d_def [symmetric] split: if_splits)
  qed
qed

lemma form_decode_byte:
  assumes "b < 256" shows "form_decode (form_byte b @ cs) = b # form_decode cs"
proof -
  have b: "code (char_of b :: char) = b" using assms by simp
  have hex: "unhex (upper_hex (b div 16)) = Some (b div 16)" "unhex (upper_hex (b mod 16)) = Some (b mod 16)"
    using assms by (simp_all add: unhex_upper_hex)
  define c :: char where "c = char_of b"
  have c: "b = code c" "char_of b = c" using b by (simp_all add: c_def)
  show ?thesis
  proof (cases "b = 32 \<or> is_alnum c \<or> c \<in> set ''*-._''")
    case True
    moreover have "c \<noteq> CHR ''+'' \<and> c \<noteq> CHR ''%''" if "b \<noteq> 32"
      using True that by (auto simp: js_defs c(1))
    ultimately show ?thesis by (auto simp: form_byte_def c(2)) (simp_all add: c(1))
  next
    case False
    then show ?thesis by (simp add: form_byte_def c(2) hex)
  qed
qed

lemma utf8_byte: "b \<in> set (utf8 s) \<Longrightarrow> b < 256"
proof -
  have "code c div 64 < 64" for c :: char
    using less_le_trans [OF nat_of_char_less_256 [of c], of 4096] by (simp add: div_less_iff_less_mult)
  then show "b \<in> set (utf8 s) \<Longrightarrow> b < 256" by (auto simp: utf8_def split: if_splits)
qed

lemma form_decode_encode: "form_decode (form_encode s) = utf8 s"
proof -
  have "form_decode (concat (map form_byte bs)) = bs" if "\<forall>b \<in> set bs. b < 256" for bs
    using that by (induction bs) (simp_all add: form_decode_byte)
  then show ?thesis using utf8_byte by (simp add: form_encode_def)
qed

lemma form_encode_plain: "c \<in> set (form_encode s) \<Longrightarrow> c \<noteq> CHR ''&'' \<and> c \<noteq> CHR ''=''"
proof -
  assume "c \<in> set (form_encode s)"
  then obtain b where "b \<in> set (utf8 s)" "c \<in> set (form_byte b)" by (auto simp: form_encode_def)
  then show ?thesis using form_byte_plain utf8_byte by blast
qed

lemma parsePair_encode: "parsePair (form_encode k @ ''='' @ form_encode v) = (utf8 k, utf8 v)"
proof -
  have k: "\<forall>c \<in> set (form_encode k). c \<noteq> CHR ''=''" using form_encode_plain by blast
  then have "takeWhile (\<lambda>c. c \<noteq> CHR ''='') (form_encode k @ ''='' @ form_encode v) = form_encode k"
    "dropWhile (\<lambda>c. c \<noteq> CHR ''='') (form_encode k @ ''='' @ form_encode v) = ''='' @ form_encode v"
    by (simp_all add: takeWhile_append2 dropWhile_append2)
  then show ?thesis by (simp add: parsePair_def form_decode_encode)
qed

lemma parseQuery_queryString: "parseQuery (queryString kvs) = map (map_prod utf8 utf8) kvs"
proof (cases "kvs = []")
  case False
  let ?part = "\<lambda>(k, v). form_encode k @ ''='' @ form_encode v"
  have "split_on (CHR ''&'') (queryString kvs) = map ?part kvs"
    unfolding queryString_def using False form_encode_plain by (intro split_on_join) auto
  moreover have "filter (\<lambda>s. s \<noteq> '''') (map ?part kvs) = map ?part kvs"
    by (auto simp: filter_id_conv)
  ultimately show ?thesis by (auto simp: parseQuery_def parsePair_encode [simplified])
qed (simp add: parseQuery_def queryString_def)

lemma queryString_Nil: "queryString kvs = '''' \<longleftrightarrow> kvs = []"
proof
  assume "queryString kvs = ''''"
  then have "map (map_prod utf8 utf8) kvs = []"
    using parseQuery_queryString [of kvs] by (simp add: parseQuery_def)
  then show "kvs = []" by simp
qed (simp add: queryString_def)

subsection \<open>The session id\<close>

lemma storageKey_user: "truthy userId \<Longrightarrow> getSessionStorageKey userId \<noteq> SESSION_STORAGE_KEY"
  by (simp add: getSessionStorageKey_def)

lemma tabKey_inject:
  "truthy u \<Longrightarrow> truthy v \<Longrightarrow> getSessionStorageKey u = getSessionStorageKey v \<longleftrightarrow> u = v"
  by (cases u; cases v) (auto simp: getSessionStorageKey_def truthy_def nullish_def)

subsection \<open>The headers\<close>

lemma map_of_Authorization:
  "map_of (obj_set ''X-Session-ID'' sid (obj_set ''Authorization'' t h)) ''Authorization'' = Some t"
  "map_of (obj_set ''X-Session-ID'' sid (obj_set ''Authorization'' t h)) ''X-Session-ID'' = Some sid"
  by (simp_all add: map_of_obj_set)

section \<open>Properties\<close>

text \<open>
  Every parameter that was given arrives: the query string that \<open>buildUrl\<close> appends, read as a server
  reads a form, is the list of the parameters that are neither undefined nor null, in order, byte for
  byte; without one the address is unchanged.
\<close>

lemma buildUrl_params:
  "(givenParams params = [] \<longrightarrow> buildUrl url (Some params) = url) \<and>
   (givenParams params \<noteq> [] \<longrightarrow>
      (\<exists>qs. buildUrl url (Some params) = url @ (if CHR ''?'' \<in> set url then ''&'' else ''?'') @ qs \<and>
            parseQuery qs = map (map_prod utf8 utf8) (givenParams params)))"
  by (auto simp: buildUrl_def Let_def queryString_Nil parseQuery_queryString)

text \<open>
  C24. A call to dbt-runner is never made without credentials once the session is known: if a request goes
  out, it carries the session's bearer token and a session id; otherwise the browser goes to the login
  page and the caller gets a 401.
\<close>

theorem apiClient_authenticated:
  assumes "br_window b" "br_getSession b = Inr session" "br_fresh b \<noteq> ''''"
  shows "case oc_sent (apiClient zero text parse b env verb path body st) of
           None \<Rightarrow> oc_toLogin (apiClient zero text parse b env verb path body st) \<and>
                   (\<exists>msg. oc_result (apiClient zero text parse b env verb path body st) =
                      Inl (ApiError msg 401 (Some (JObj [(''error'', JStr ''auth'')]))))
         | Some req \<Rightarrow>
             (\<exists>t sid. Option.bind session ses_accessToken = Some t \<and> t \<noteq> '''' \<and>
                map_of (hr_headers req) ''Authorization'' = Some (''Bearer '' @ t) \<and>
                sid \<noteq> '''' \<and> map_of (hr_headers req) ''X-Session-ID'' = Some sid)"
proof -
  have sid: "fst (getSessionId True (br_fresh b) u st) \<noteq> ''''" for u
    using assms(3) by (auto simp: getSessionId_def Let_def truthy_def nullish_def split: option.splits)
  show ?thesis
    using assms(1,2) sid
    by (auto simp: apiClient_def request_def prepare_def Let_def case_prod_beta map_of_Authorization truthy_def
        nullish_def split: option.splits sum.splits)
qed

theorem apiClient_authenticated_witness:
  "map_option hr_headers (oc_sent (apiClient (\<lambda>n :: int. n = 0) (\<lambda>_. '''') (\<lambda>_. None)
      \<lparr>br_window = True, br_getSession = Inr (Some \<lparr>ses_userId = Some ''u'', ses_accessToken = Some ''tok'', ses_error = None\<rparr>),
       br_fresh = ''f'', br_fetch = (\<lambda>_. Inl ''down'')\<rparr> None ''GET'' ''/x'' None Map.empty)) =
   Some [(''Content-Type'', ''application/json''), (''Authorization'', ''Bearer tok''), (''X-Session-ID'', ''f'')] \<and>
   ''tok'' \<noteq> ''''"
proof -
  let ?b = "\<lparr>br_window = True, br_getSession = Inr (Some \<lparr>ses_userId = Some ''u'', ses_accessToken = Some ''tok'', ses_error = None\<rparr>),
       br_fresh = ''f'', br_fetch = (\<lambda>_. Inl ''down'')\<rparr>"
  from apiClient_authenticated [of ?b _ "\<lambda>n :: int. n = 0" "\<lambda>_. ''''" "\<lambda>_. None" None "''GET''" "''/x''" None Map.empty]
  show ?thesis
    by (simp add: apiClient_def request_def prepare_def Let_def baseHeaders_def truthy_def nullish_def
        getSessionId_def getSessionStorageKey_def SESSION_STORAGE_KEY_def)
qed

text \<open>
  When the session cannot be read in the browser, a call to dbt-runner goes out all the same, without a
  token and without a session id, and the browser stays where it is.
\<close>

lemma apiClient_unauthenticated:
  "br_window b \<and> br_getSession b = Inl msg \<longrightarrow>
   (\<exists>req. oc_sent (apiClient zero text parse b env verb path body st) = Some req \<and>
          hr_headers req = [(''Content-Type'', ''application/json'')] \<and>
          \<not> oc_toLogin (apiClient zero text parse b env verb path body st))"
  by (auto simp: apiClient_def request_def prepare_def Let_def baseHeaders_def split: sum.split)

text \<open>
  The session id of a user stays: asked again, the browser gives the same id and changes nothing, and
  another user's id is untouched. Without a user the id is removed before it is looked up, so every call
  gives a new one.
\<close>

lemma session_id_kept:
  assumes "truthy userId" "first \<noteq> ''''"
  shows "(let (sid, st') = getSessionId True first userId st in
            getSessionId True again userId st' = (sid, st') \<and>
            (truthy other \<and> other \<noteq> userId \<longrightarrow>
               st' (getSessionStorageKey other) = st (getSessionStorageKey other))) \<and>
         fst (getSessionId True again None (snd (getSessionId True first None st))) = again"
  using assms storageKey_user [OF assms(1)] tabKey_inject [of other userId] storageKey_user [of other]
  by (auto simp: getSessionId_def Let_def case_prod_beta truthy_def nullish_def getSessionStorageKey_def [of None]
      fun_upd_twist split: option.splits)

end
