(* ===== verification/Run_Stream.thy ===== *)
theory Run_Stream
  imports Sse_Frames Api_Client
begin

text \<open>
  The dbt command stream, \<open>entities/run/hooks/useDbtRunStream.ts\<close>. Streams live in a map outside the
  components, so that leaving the page does not cancel a run; a component that is mounted listens to the
  stream of its project, and what arrives while nobody listens is kept for the next one.

  The code shares objects: the cleanup of an effect and the reading loop of a command hold on to their
  stream, and a stream that replaces another one takes over its set of listeners. The model has an explicit
  store: \<open>rs_streams\<close> and \<open>rs_sets\<close> are the objects, and a reference is an index. A listener is named by
  the mounting that created it. \<open>rs_log\<close> is the sequence of the callbacks that were called. The
  asynchronous part of \<open>sendCommand\<close> is cut at its \<open>await\<close>s. \<open>parse\<close> stands for \<open>JSON.parse\<close>.
\<close>

section \<open>Definitions\<close>

subsection \<open>Data\<close>

datatype run_event_type = Started | Output | Completed | RunError

record 'n DbtRunEvent =
  re_type :: run_event_type
  re_command :: "string option"
  re_line :: "string option"
  re_returncode :: "'n option"
  re_error :: "string option"

definition errorEvent :: "string \<Rightarrow> 'n DbtRunEvent" where
  "errorEvent msg = \<lparr>re_type = RunError, re_command = None, re_line = None, re_returncode = None,
     re_error = Some msg\<rparr>"

datatype run_phase = Fetching | Reading string | Returned

text \<open>\<open>as_project\<close> and \<open>as_phase\<close> belong to the call: its \<open>projectId\<close> and how far it has come.\<close>

record 'n ActiveStream =
  as_project :: string
  as_aborted :: bool
  as_listeners :: nat
  as_backgroundMessages :: "'n DbtRunEvent list"
  as_isConnected :: bool
  as_isConnecting :: bool
  as_phase :: run_phase

datatype 'n run_call =
  OnCommandStart string | OnLogLine string | OnCommandComplete 'n | OnError string
  | OnStatusChange bool bool

text \<open>A mounted component: its project, whether \<open>listenerRef\<close> is set, and the stream its cleanup holds.\<close>

record run_hook =
  rh_project :: string
  rh_listener :: bool
  rh_cleanup :: "nat option"

record 'n run_state =
  rs_active :: "string \<rightharpoonup> nat"
  rs_streams :: "'n ActiveStream list"
  rs_sets :: "nat list list"
  rs_hooks :: "run_hook list"
  rs_log :: "(nat \<times> 'n run_call) list"

definition runStart :: "'n run_state" where
  "runStart = \<lparr>rs_active = Map.empty, rs_streams = [], rs_sets = [], rs_hooks = [], rs_log = []\<rparr>"

subsection \<open>The store\<close>

abbreviation streamOf :: "'n run_state \<Rightarrow> nat \<Rightarrow> 'n ActiveStream" where
  "streamOf s i \<equiv> rs_streams s ! i"

abbreviation listenersOf :: "'n run_state \<Rightarrow> nat \<Rightarrow> nat list" where
  "listenersOf s i \<equiv> rs_sets s ! as_listeners (rs_streams s ! i)"

definition updStream :: "nat \<Rightarrow> ('n ActiveStream \<Rightarrow> 'n ActiveStream) \<Rightarrow> 'n run_state \<Rightarrow> 'n run_state" where
  "updStream i f s = s\<lparr>rs_streams := (rs_streams s)[i := f (rs_streams s ! i)]\<rparr>"

text \<open>\<open>Set.add\<close> keeps the place of an element that is there.\<close>

definition addListener :: "nat \<Rightarrow> nat \<Rightarrow> 'n run_state \<Rightarrow> 'n run_state" where
  "addListener h k s =
     s\<lparr>rs_sets := (rs_sets s)[k := (let ls = rs_sets s ! k in if h \<in> set ls then ls else ls @ [h])]\<rparr>"

definition deleteListener :: "nat \<Rightarrow> nat \<Rightarrow> 'n run_state \<Rightarrow> 'n run_state" where
  "deleteListener h k s = s\<lparr>rs_sets := (rs_sets s)[k := filter (\<lambda>l. l \<noteq> h) (rs_sets s ! k)]\<rparr>"

definition calls :: "(nat \<times> 'n run_call) list \<Rightarrow> 'n run_state \<Rightarrow> 'n run_state" where
  "calls cs s = s\<lparr>rs_log := rs_log s @ cs\<rparr>"

subsection \<open>Emitting\<close>

definition emitStatus :: "nat \<Rightarrow> 'n run_state \<Rightarrow> 'n run_state" where
  "emitStatus i s =
     calls (map (\<lambda>l. (l, OnStatusChange (as_isConnected (streamOf s i)) (as_isConnecting (streamOf s i))))
              (listenersOf s i)) s"

definition handleMessage :: "'n DbtRunEvent \<Rightarrow> 'n run_call list" where
  "handleMessage msg =
     (if re_type msg = Started \<and> truthy (re_command msg) then [OnCommandStart (nullish (re_command msg) '''')]
      else if re_type msg = Output \<and> re_line msg \<noteq> None then [OnLogLine (nullish (re_line msg) '''')]
      else if re_type msg = Completed then (case re_returncode msg of None \<Rightarrow> [] | Some n \<Rightarrow> [OnCommandComplete n])
      else if re_type msg = RunError \<and> truthy (re_error msg) then [OnError (nullish (re_error msg) '''')]
      else [])"

definition deliver :: "'n DbtRunEvent \<Rightarrow> nat \<Rightarrow> (nat \<times> 'n run_call) list" where
  "deliver msg l = map (Pair l) (handleMessage msg)"

definition pushBackground :: "'n DbtRunEvent \<Rightarrow> 'n DbtRunEvent list \<Rightarrow> 'n DbtRunEvent list" where
  "pushBackground msg ms = (let ms = ms @ [msg] in if length ms > 5000 then tl ms else ms)"

definition emitMessage :: "nat \<Rightarrow> 'n DbtRunEvent \<Rightarrow> 'n run_state \<Rightarrow> 'n run_state" where
  "emitMessage i msg s =
     (if listenersOf s i = []
      then updStream i (\<lambda>st. st\<lparr>as_backgroundMessages := pushBackground msg (as_backgroundMessages st)\<rparr>) s
      else calls (concat (map (deliver msg) (listenersOf s i))) s)"

subsection \<open>The component\<close>

text \<open>The effect of a component of project \<open>p\<close>, and its cleanup.\<close>

definition mount :: "string \<Rightarrow> 'n run_state \<Rightarrow> 'n run_state" where
  "mount p s =
     (let h = length (rs_hooks s) in
      case rs_active s p of
        None \<Rightarrow> s\<lparr>rs_hooks := rs_hooks s @ [\<lparr>rh_project = p, rh_listener = True, rh_cleanup = None\<rparr>]\<rparr>
      | Some i \<Rightarrow>
          let s = s\<lparr>rs_hooks := rs_hooks s @ [\<lparr>rh_project = p, rh_listener = True, rh_cleanup = Some i\<rparr>]\<rparr>;
              s = addListener h (as_listeners (streamOf s i)) s;
              s = calls [(h, OnStatusChange (as_isConnected (streamOf s i)) (as_isConnecting (streamOf s i)))] s;
              background = as_backgroundMessages (streamOf s i);
              s = updStream i (\<lambda>st. st\<lparr>as_backgroundMessages := []\<rparr>) s
          in calls (concat (map (\<lambda>msg. deliver msg h) background)) s)"

definition unmount :: "nat \<Rightarrow> 'n run_state \<Rightarrow> 'n run_state" where
  "unmount h s =
     (let hook = rs_hooks s ! h;
          s = (case rh_cleanup hook of
                 None \<Rightarrow> s
               | Some i \<Rightarrow> deleteListener h (as_listeners (streamOf s i)) s)
      in s\<lparr>rs_hooks := (rs_hooks s)[h := hook\<lparr>rh_listener := False\<rparr>]\<rparr>)"

definition disconnect :: "nat \<Rightarrow> 'n run_state \<Rightarrow> 'n run_state" where
  "disconnect h s =
     (case rs_active s (rh_project (rs_hooks s ! h)) of
        None \<Rightarrow> s
      | Some i \<Rightarrow>
          emitStatus i
            (updStream i (\<lambda>st. st\<lparr>as_aborted := True, as_isConnected := False, as_isConnecting := False\<rparr>) s))"

text \<open>\<open>sendCommand\<close> up to its first \<open>await\<close>.\<close>

definition sendCommand :: "nat \<Rightarrow> 'n run_state \<Rightarrow> 'n run_state" where
  "sendCommand h s =
     (let p = rh_project (rs_hooks s ! h);
          (k, s) = (case rs_active s p of
                      None \<Rightarrow> (length (rs_sets s), s\<lparr>rs_sets := rs_sets s @ [[]]\<rparr>)
                    | Some i \<Rightarrow> (as_listeners (streamOf s i), updStream i (\<lambda>st. st\<lparr>as_aborted := True\<rparr>) s));
          s = (if rh_listener (rs_hooks s ! h) then addListener h k s else s);
          i = length (rs_streams s);
          s = s\<lparr>rs_streams := rs_streams s @
                   [\<lparr>as_project = p, as_aborted = False, as_listeners = k, as_backgroundMessages = [],
                      as_isConnected = False, as_isConnecting = True, as_phase = Fetching\<rparr>],
                 rs_active := (rs_active s)(p \<mapsto> i)\<rparr>
      in emitStatus i s)"

text \<open>The request that the call sends: a member of \<open>options\<close> replaces one of the same name.\<close>

definition commandBody ::
  "string \<Rightarrow> string option \<Rightarrow> (string \<times> string) list option \<Rightarrow> string list option \<Rightarrow> 'n obj \<Rightarrow> 'n obj"
where
  "commandBody command selector environmentVariables flags options =
     foldl (\<lambda>body (k, v). obj_set k v body)
       ([(''command'', JStr command)] @
        (case selector of None \<Rightarrow> [] | Some t \<Rightarrow> [(''selector'', JStr t)]) @
        (case flags of None \<Rightarrow> [] | Some ts \<Rightarrow> [(''flags'', JArr (map JStr ts))]) @
        (case environmentVariables of
           None \<Rightarrow> [] | Some vs \<Rightarrow> [(''environment_variables'', JObj (map (map_prod id JStr) vs))]))
       options"

subsection \<open>The call of a command\<close>

text \<open>The \<open>finally\<close>.\<close>

definition finishCommand :: "nat \<Rightarrow> 'n run_state \<Rightarrow> 'n run_state" where
  "finishCommand i s =
     (let s = updStream i (\<lambda>st. st\<lparr>as_isConnected := False, as_isConnecting := False, as_phase := Returned\<rparr>) s
      in if rs_active s (as_project (streamOf s i)) = Some i then emitStatus i s else s)"

text \<open>
  The message for a response that is not ok: from its text, if it can be read, and from the value the text
  parses to, if it does.
\<close>

definition refusalMessage ::
  "('n \<Rightarrow> bool) \<Rightarrow> ('n json \<Rightarrow> string) \<Rightarrow> (string \<Rightarrow> 'n json option) \<Rightarrow> nat \<Rightarrow> string option \<Rightarrow> string"
where
  "refusalMessage zero string parse status body =
     (case body of
        None \<Rightarrow> ''dbt runner returned '' @ show_nat status
      | Some text \<Rightarrow>
          if text = '''' then ''dbt runner returned '' @ show_nat status
          else (case parse text of
                  None \<Rightarrow> text
                | Some data \<Rightarrow>
                    (case extractDetailMessage zero string data of
                       None \<Rightarrow> text
                     | Some v \<Rightarrow> if json_truthy zero (Some v) then joinText string v else text)))"

definition respondError :: "nat \<Rightarrow> string \<Rightarrow> 'n run_state \<Rightarrow> 'n run_state" where
  "respondError i msg s = finishCommand i (emitMessage i (errorEvent msg) s)"

definition respondOpen :: "nat \<Rightarrow> 'n run_state \<Rightarrow> 'n run_state" where
  "respondOpen i s =
     emitStatus i
       (updStream i (\<lambda>st. st\<lparr>as_isConnected := True, as_isConnecting := False, as_phase := Reading ''''\<rparr>) s)"

definition lineMessages :: "(string \<Rightarrow> 'e option) \<Rightarrow> string list \<Rightarrow> 'e list" where
  "lineMessages parse ls =
     List.map_filter (\<lambda>line. case dataLine line of None \<Rightarrow> None | Some payload \<Rightarrow> parse payload) ls"

definition readChunk :: "(string \<Rightarrow> 'n DbtRunEvent option) \<Rightarrow> nat \<Rightarrow> string \<Rightarrow> 'n run_state \<Rightarrow> 'n run_state" where
  "readChunk parse i chunk s =
     (case as_phase (streamOf s i) of
        Reading buffer \<Rightarrow>
          let (ls, rest) = feed (split_on nl) buffer chunk
          in fold (emitMessage i) (lineMessages parse ls) (updStream i (\<lambda>st. st\<lparr>as_phase := Reading rest\<rparr>) s)
      | _ \<Rightarrow> s)"

subsection \<open>Runs\<close>

datatype run_action =
  Mount string | Unmount nat | Send nat | Disconnect nat
  | Refused nat string | Opened nat | Chunk nat string | Ended nat | Failed nat string

text \<open>
  When a step can happen. A call whose controller was aborted ends without a message; a piece that had
  already arrived may still be processed before that.
\<close>

definition inPhase :: "(run_phase \<Rightarrow> bool) \<Rightarrow> nat \<Rightarrow> 'n run_state \<Rightarrow> bool" where
  "inPhase P i s \<longleftrightarrow> i < length (rs_streams s) \<and> P (as_phase (streamOf s i))"

fun runEnabled :: "run_action \<Rightarrow> 'n run_state \<Rightarrow> bool" where
  "runEnabled (Mount p) s \<longleftrightarrow> True"
| "runEnabled (Unmount h) s \<longleftrightarrow> h < length (rs_hooks s) \<and> rh_listener (rs_hooks s ! h)"
| "runEnabled (Send h) s \<longleftrightarrow> h < length (rs_hooks s)"
| "runEnabled (Disconnect h) s \<longleftrightarrow> h < length (rs_hooks s)"
| "runEnabled (Refused i msg) s \<longleftrightarrow> inPhase (\<lambda>ph. ph = Fetching) i s"
| "runEnabled (Opened i) s \<longleftrightarrow> inPhase (\<lambda>ph. ph = Fetching) i s"
| "runEnabled (Chunk i chunk) s \<longleftrightarrow> inPhase (\<lambda>ph. ph \<noteq> Fetching \<and> ph \<noteq> Returned) i s"
| "runEnabled (Ended i) s \<longleftrightarrow> inPhase (\<lambda>ph. ph \<noteq> Returned) i s"
| "runEnabled (Failed i msg) s \<longleftrightarrow> inPhase (\<lambda>ph. ph \<noteq> Returned) i s \<and> \<not> as_aborted (streamOf s i)"

fun runStep :: "(string \<Rightarrow> 'n DbtRunEvent option) \<Rightarrow> run_action \<Rightarrow> 'n run_state \<Rightarrow> 'n run_state" where
  "runStep parse (Mount p) s = mount p s"
| "runStep parse (Unmount h) s = unmount h s"
| "runStep parse (Send h) s = sendCommand h s"
| "runStep parse (Disconnect h) s = disconnect h s"
| "runStep parse (Refused i msg) s = respondError i msg s"
| "runStep parse (Opened i) s = respondOpen i s"
| "runStep parse (Chunk i chunk) s = readChunk parse i chunk s"
| "runStep parse (Ended i) s = finishCommand i s"
| "runStep parse (Failed i msg) s = respondError i msg s"

inductive runReachable :: "(string \<Rightarrow> 'n DbtRunEvent option) \<Rightarrow> 'n run_state \<Rightarrow> bool" for parse where
  run_start: "runReachable parse runStart"
| run_step: "runReachable parse s \<Longrightarrow> runEnabled a s \<Longrightarrow> runReachable parse (runStep parse a s)"

fun runAll :: "(string \<Rightarrow> 'n DbtRunEvent option) \<Rightarrow> run_action list \<Rightarrow> 'n run_state \<Rightarrow> 'n run_state option" where
  "runAll parse [] s = Some s"
| "runAll parse (a # as) s = (if runEnabled a s then runAll parse as (runStep parse a s) else None)"

section \<open>Lemmas\<close>

subsection \<open>The store\<close>

lemma updStream_sel [simp]:
  "rs_active (updStream i f s) = rs_active s" "rs_sets (updStream i f s) = rs_sets s"
  "rs_hooks (updStream i f s) = rs_hooks s" "rs_log (updStream i f s) = rs_log s"
  "length (rs_streams (updStream i f s)) = length (rs_streams s)"
  by (simp_all add: updStream_def)

lemma nth_updStream:
  "rs_streams (updStream i f s) ! j =
     (if i = j \<and> i < length (rs_streams s) then f (rs_streams s ! j) else rs_streams s ! j)"
  by (cases "i < length (rs_streams s)") (auto simp: updStream_def nth_list_update list_update_beyond)

lemma updStream_updStream [simp]: "updStream i f (updStream i g s) = updStream i (\<lambda>st. f (g st)) s"
  by (cases "i < length (rs_streams s)") (simp_all add: updStream_def list_update_beyond)

lemma updStream_cong: "f (streamOf s i) = g (streamOf s i) \<Longrightarrow> updStream i f s = updStream i g s"
  by (simp add: updStream_def)

lemma updStream_id: "f (streamOf s i) = streamOf s i \<Longrightarrow> updStream i f s = s"
  by (simp add: updStream_def)

lemma calls_sel [simp]:
  "rs_active (calls cs s) = rs_active s" "rs_sets (calls cs s) = rs_sets s"
  "rs_hooks (calls cs s) = rs_hooks s" "rs_streams (calls cs s) = rs_streams s"
  "rs_log (calls cs s) = rs_log s @ cs"
  by (simp_all add: calls_def)

lemma calls_calls [simp]: "calls ds (calls cs s) = calls (cs @ ds) s" "calls [] s = s"
  by (simp_all add: calls_def)

lemma emitStatus_sel [simp]:
  "rs_active (emitStatus i s) = rs_active s" "rs_sets (emitStatus i s) = rs_sets s"
  "rs_hooks (emitStatus i s) = rs_hooks s" "rs_streams (emitStatus i s) = rs_streams s"
  by (simp_all add: emitStatus_def)

lemma listener_sel [simp]:
  "rs_active (addListener h k s) = rs_active s" "rs_streams (addListener h k s) = rs_streams s"
  "rs_hooks (addListener h k s) = rs_hooks s" "rs_log (addListener h k s) = rs_log s"
  "length (rs_sets (addListener h k s)) = length (rs_sets s)"
  "rs_active (deleteListener h k s) = rs_active s" "rs_streams (deleteListener h k s) = rs_streams s"
  "rs_hooks (deleteListener h k s) = rs_hooks s" "rs_log (deleteListener h k s) = rs_log s"
  "length (rs_sets (deleteListener h k s)) = length (rs_sets s)"
  by (simp_all add: addListener_def deleteListener_def)

lemma emitMessage_sel [simp]:
  "rs_active (emitMessage i m s) = rs_active s" "rs_sets (emitMessage i m s) = rs_sets s"
  "rs_hooks (emitMessage i m s) = rs_hooks s"
  "length (rs_streams (emitMessage i m s)) = length (rs_streams s)"
  by (simp_all add: emitMessage_def)

subsection \<open>Messages nobody hears\<close>

definition keepLast :: "nat \<Rightarrow> 'a list \<Rightarrow> 'a list" where
  "keepLast n xs = drop (length xs - n) xs"

lemma length_keepLast: "length (keepLast n xs) \<le> n"
  by (simp add: keepLast_def)

lemma keepLast_short: "length xs \<le> n \<Longrightarrow> keepLast n xs = xs"
  by (simp add: keepLast_def)

lemma keepLast_snoc: "keepLast n (keepLast n xs @ [y]) = keepLast n (xs @ [y])"
  by (cases "length xs \<le> n") (auto simp: keepLast_def Suc_diff_le)

lemma pushBackground_keepLast: "length ms \<le> 5000 \<Longrightarrow> pushBackground m ms = keepLast 5000 (ms @ [m])"
  by (cases "length ms = 5000"; cases ms) (auto simp: pushBackground_def keepLast_def Let_def)

lemma fold_pushBackground:
  "length ms \<le> 5000 \<Longrightarrow> fold pushBackground news ms = keepLast 5000 (ms @ news)"
proof (induction news rule: rev_induct)
  case Nil
  then show ?case by (simp add: keepLast_short)
next
  case (snoc m news)
  then show ?case
    using keepLast_snoc [of 5000 "ms @ news" m] pushBackground_keepLast [of "keepLast 5000 (ms @ news)" m]
    by (simp add: length_keepLast)
qed

lemma fold_emitMessage_silent:
  assumes "listenersOf s i = []" "i < length (rs_streams s)"
  shows "fold (emitMessage i) news s =
           updStream i (\<lambda>st. st\<lparr>as_backgroundMessages := fold pushBackground news (as_backgroundMessages st)\<rparr>) s"
  using assms
proof (induction news arbitrary: s)
  case Nil
  then show ?case by (simp add: updStream_def)
next
  case (Cons m news)
  let ?t = "emitMessage i m s"
  have t: "?t = updStream i (\<lambda>st. st\<lparr>as_backgroundMessages := pushBackground m (as_backgroundMessages st)\<rparr>) s"
    using Cons.prems by (simp add: emitMessage_def)
  have "listenersOf ?t i = []" "i < length (rs_streams ?t)"
    using Cons.prems by (simp_all add: t nth_updStream)
  from Cons.IH [OF this] show ?case
    using Cons.prems by (simp add: t updStream_def)
qed

lemma fold_emitMessage_heard:
  assumes "listenersOf s i \<noteq> []"
  shows "fold (emitMessage i) news s =
           calls (concat (map (\<lambda>m. concat (map (deliver m) (listenersOf s i))) news)) s"
  using assms
proof (induction news arbitrary: s)
  case (Cons m news)
  then show ?case by (simp add: emitMessage_def)
qed simp

subsection \<open>Reading\<close>

lemma lineMessages_append: "lineMessages parse (xs @ ys) = lineMessages parse xs @ lineMessages parse ys"
  by (simp add: lineMessages_def map_filter_def)

lemma fold_emitMessage_phase:
  assumes "i < length (rs_streams s)"
  shows "as_phase (streamOf (fold (emitMessage i) ms s) i) = as_phase (streamOf s i) \<and>
         i < length (rs_streams (fold (emitMessage i) ms s))"
  using assms
  by (induction ms arbitrary: s) (simp_all add: emitMessage_def nth_updStream)

lemma emitMessage_phase:
  "emitMessage i m (updStream i (\<lambda>st. st\<lparr>as_phase := ph\<rparr>) s) =
   updStream i (\<lambda>st. st\<lparr>as_phase := ph\<rparr>) (emitMessage i m s)"
proof -
  have "listenersOf (updStream i (\<lambda>st. st\<lparr>as_phase := ph\<rparr>) s) i = listenersOf s i"
    by (simp add: nth_updStream)
  moreover have "calls cs (updStream i f s) = updStream i f (calls cs s)" for cs f
    by (simp add: calls_def updStream_def)
  ultimately show ?thesis
    by (cases "streamOf s i") (auto simp: emitMessage_def intro: updStream_cong)
qed

lemma fold_emitMessage_swap:
  "fold (emitMessage i) ms (updStream i (\<lambda>st. st\<lparr>as_phase := ph\<rparr>) s) =
   updStream i (\<lambda>st. st\<lparr>as_phase := ph\<rparr>) (fold (emitMessage i) ms s)"
  by (induction ms arbitrary: s) (simp_all add: emitMessage_phase)

lemma readChunk_run:
  assumes "as_phase (streamOf s i) = Reading b" "i < length (rs_streams s)"
  shows "fold (readChunk parse i) chunks s =
           updStream i (\<lambda>st. st\<lparr>as_phase := Reading (snd (readAll (split_on nl) b chunks))\<rparr>)
             (fold (emitMessage i) (lineMessages parse (fst (readAll (split_on nl) b chunks))) s)"
  using assms
proof (induction chunks arbitrary: s b)
  case Nil
  then show ?case by (cases "streamOf s i") (simp add: lineMessages_def map_filter_def updStream_id)
next
  case (Cons chunk chunks)
  let ?p = "feed (split_on nl) b chunk"
  let ?u = "fold (emitMessage i) (lineMessages parse (fst ?p)) s"
  let ?t = "updStream i (\<lambda>st. st\<lparr>as_phase := Reading (snd ?p)\<rparr>) ?u"
  have t: "readChunk parse i chunk s = ?t"
    using Cons.prems by (simp add: readChunk_def case_prod_beta fold_emitMessage_swap)
  have "i < length (rs_streams ?u)" using fold_emitMessage_phase Cons.prems by blast
  then have "as_phase (streamOf ?t i) = Reading (snd ?p)" "i < length (rs_streams ?t)"
    by (simp_all add: nth_updStream)
  from Cons.IH [OF this] show ?case
    by (simp add: t case_prod_beta lineMessages_append fold_emitMessage_swap)
qed

lemma readChunk_body:
  assumes "as_phase (streamOf s i) = Reading ''''" "i < length (rs_streams s)"
  shows "fold (readChunk parse i) chunks s =
           updStream i (\<lambda>st. st\<lparr>as_phase := Reading (last (split_on nl (concat chunks)))\<rparr>)
             (fold (emitMessage i) (lineMessages parse (butlast (split_on nl (concat chunks)))) s)"
  using readChunk_run [OF assms, of parse chunks] by (simp add: lines.readAll_concat feed_def Let_def)

subsection \<open>The invariant\<close>

text \<open>
  What every state satisfies. Of each stream: it keeps at most 5000 messages, and its status agrees with
  how far its call has come. Of the store: all streams of a project share one set of listeners, streams of
  different projects do not, and the listeners in it are components of that project.
\<close>

definition streamOk :: "'n ActiveStream \<Rightarrow> bool" where
  "streamOk st \<longleftrightarrow>
     length (as_backgroundMessages st) \<le> 5000 \<and>
     (as_isConnected st \<longrightarrow> as_phase st \<noteq> Fetching \<and> as_phase st \<noteq> Returned) \<and>
     (as_isConnecting st \<longrightarrow> as_phase st = Fetching)"

definition activeOk :: "'n run_state \<Rightarrow> bool" where
  "activeOk s \<longleftrightarrow>
     (\<forall>p i. rs_active s p = Some i \<longrightarrow> i < length (rs_streams s) \<and> as_project (streamOf s i) = p)"

definition setsOk :: "'n run_state \<Rightarrow> bool" where
  "setsOk s \<longleftrightarrow>
     (\<forall>i < length (rs_streams s).
        as_listeners (streamOf s i) < length (rs_sets s) \<and>
        (\<exists>j. rs_active s (as_project (streamOf s i)) = Some j \<and>
             as_listeners (streamOf s i) = as_listeners (streamOf s j)) \<and>
        (\<forall>j < length (rs_streams s). as_listeners (streamOf s i) = as_listeners (streamOf s j) \<longrightarrow>
             as_project (streamOf s i) = as_project (streamOf s j)))"

definition listenersOk :: "'n run_state \<Rightarrow> bool" where
  "listenersOk s \<longleftrightarrow>
     (\<forall>i < length (rs_streams s). \<forall>l \<in> set (listenersOf s i).
        l < length (rs_hooks s) \<and> rh_project (rs_hooks s ! l) = as_project (streamOf s i))"

definition cleanupOk :: "'n run_state \<Rightarrow> bool" where
  "cleanupOk s \<longleftrightarrow>
     (\<forall>h < length (rs_hooks s). \<forall>i. rh_cleanup (rs_hooks s ! h) = Some i \<longrightarrow> i < length (rs_streams s))"

definition runOk :: "'n run_state \<Rightarrow> bool" where
  "runOk s \<longleftrightarrow> list_all streamOk (rs_streams s) \<and> activeOk s \<and> setsOk s \<and> listenersOk s \<and> cleanupOk s"

lemmas run_ok_defs = activeOk_def setsOk_def listenersOk_def cleanupOk_def

lemma runOk_calls [simp]: "runOk (calls cs s) = runOk s"
  by (simp add: runOk_def run_ok_defs)

lemma runOk_emitStatus [simp]: "runOk (emitStatus i s) = runOk s"
  by (simp add: emitStatus_def)

lemma list_all_update: "list_all P xs \<Longrightarrow> (i < length xs \<Longrightarrow> P y) \<Longrightarrow> list_all P (xs[i := y])"
  by (cases "i < length xs") (auto simp: list_all_length nth_list_update list_update_beyond)

text \<open>Changing what a stream holds, but not whose it is.\<close>

lemma runOk_updStream:
  assumes "runOk s" and "\<And>st. as_project (f st) = as_project st" "\<And>st. as_listeners (f st) = as_listeners st"
    and "i < length (rs_streams s) \<Longrightarrow> streamOk (streamOf s i) \<Longrightarrow> streamOk (f (streamOf s i))"
  shows "runOk (updStream i f s)"
proof -
  have sel: "as_project (streamOf (updStream i f s) j) = as_project (streamOf s j)"
    "as_listeners (streamOf (updStream i f s) j) = as_listeners (streamOf s j)" for j
    by (simp_all add: nth_updStream assms)
  have "list_all streamOk (rs_streams s)" using assms(1) by (simp add: runOk_def)
  then have "list_all streamOk (rs_streams (updStream i f s))"
    using assms(4)
    by (cases "i < length (rs_streams s)")
      (auto simp: updStream_def list_all_length nth_list_update list_update_beyond)
  moreover have "activeOk (updStream i f s) = activeOk s" "setsOk (updStream i f s) = setsOk s"
    "listenersOk (updStream i f s) = listenersOk s" "cleanupOk (updStream i f s) = cleanupOk s"
    by (simp_all only: run_ok_defs sel updStream_sel)
  ultimately show ?thesis using assms(1) by (simp add: runOk_def)
qed

lemma length_pushBackground: "length ms \<le> 5000 \<Longrightarrow> length (pushBackground m ms) \<le> 5000"
  by (simp add: pushBackground_keepLast length_keepLast)

lemma runOk_emitMessage: "runOk s \<Longrightarrow> runOk (emitMessage i m s)"
  by (auto simp: emitMessage_def streamOk_def length_pushBackground intro!: runOk_updStream)

lemma runOk_fold_emitMessage: "runOk s \<Longrightarrow> runOk (fold (emitMessage i) ms s)"
  by (induction ms arbitrary: s) (simp_all add: runOk_emitMessage)

lemma runOk_finishCommand: "runOk s \<Longrightarrow> runOk (finishCommand i s)"
  by (auto simp: finishCommand_def Let_def streamOk_def intro!: runOk_updStream)

lemma runOk_readChunk: "runOk s \<Longrightarrow> runOk (readChunk parse i chunk s)"
  by (auto simp: readChunk_def streamOk_def case_prod_beta split: run_phase.split
      intro!: runOk_fold_emitMessage runOk_updStream)

lemma setsOkD:
  assumes "setsOk s" "i < length (rs_streams s)"
  shows "as_listeners (streamOf s i) < length (rs_sets s)"
    and "j < length (rs_streams s) \<Longrightarrow> as_listeners (streamOf s j) = as_listeners (streamOf s i) \<Longrightarrow>
         as_project (streamOf s j) = as_project (streamOf s i)"
    and "\<exists>j. rs_active s (as_project (streamOf s i)) = Some j \<and>
             as_listeners (streamOf s i) = as_listeners (streamOf s j)"
proof -
  have i: "as_listeners (streamOf s i) < length (rs_sets s) \<and>
      (\<exists>j. rs_active s (as_project (streamOf s i)) = Some j \<and>
           as_listeners (streamOf s i) = as_listeners (streamOf s j)) \<and>
      (\<forall>j < length (rs_streams s). as_listeners (streamOf s i) = as_listeners (streamOf s j) \<longrightarrow>
           as_project (streamOf s i) = as_project (streamOf s j))"
    using assms unfolding setsOk_def by blast
  show "as_listeners (streamOf s i) < length (rs_sets s)" using i by (rule conjunct1)
  show "\<exists>j. rs_active s (as_project (streamOf s i)) = Some j \<and>
      as_listeners (streamOf s i) = as_listeners (streamOf s j)"
    using i by blast
  show "as_project (streamOf s j) = as_project (streamOf s i)"
    if "j < length (rs_streams s)" "as_listeners (streamOf s j) = as_listeners (streamOf s i)"
    using i that by metis
qed

lemma listenersOkD:
  "listenersOk s \<Longrightarrow> i < length (rs_streams s) \<Longrightarrow> l \<in> set (listenersOf s i) \<Longrightarrow>
   l < length (rs_hooks s) \<and> rh_project (rs_hooks s ! l) = as_project (streamOf s i)"
  by (simp add: listenersOk_def)

lemma ok_cong:
  assumes "rs_streams t = rs_streams s" "rs_active t = rs_active s"
  shows "activeOk t = activeOk s"
    and "length (rs_sets t) = length (rs_sets s) \<Longrightarrow> setsOk t = setsOk s"
    and "rs_hooks t = rs_hooks s \<Longrightarrow> cleanupOk t = cleanupOk s"
  using assms by (simp_all add: run_ok_defs)

text \<open>Changing a set of listeners: \<open>h\<close> joins the set of a stream of its own project, or leaves a set.\<close>

lemma runOk_addListener:
  assumes "runOk s" and "i < length (rs_streams s)" "h < length (rs_hooks s)"
    "rh_project (rs_hooks s ! h) = as_project (streamOf s i)"
  shows "runOk (addListener h (as_listeners (streamOf s i)) s)"
proof -
  let ?t = "addListener h (as_listeners (streamOf s i)) s"
  have s: "setsOk s" "listenersOk s" using assms(1) by (simp_all add: runOk_def)
  have "listenersOk ?t"
    unfolding listenersOk_def
  proof (intro allI impI ballI)
    fix j l assume j: "j < length (rs_streams ?t)" and l: "l \<in> set (listenersOf ?t j)"
    show "l < length (rs_hooks ?t) \<and> rh_project (rs_hooks ?t ! l) = as_project (streamOf ?t j)"
    proof (cases "l \<in> set (listenersOf s j)")
      case True
      with listenersOkD [OF s(2) _ True] j show ?thesis by simp
    next
      case False
      with l have "l = h" "as_listeners (streamOf s j) = as_listeners (streamOf s i)"
        using setsOkD(1) [OF s(1) assms(2)] by (auto simp: addListener_def Let_def nth_list_update split: if_splits)
      moreover from this(2) have "as_project (streamOf s j) = as_project (streamOf s i)"
        using setsOkD(2) [OF s(1) assms(2), of j] j by simp
      ultimately show ?thesis using assms(3,4) by simp
    qed
  qed
  with assms(1) ok_cong [of ?t s] show ?thesis by (simp add: runOk_def)
qed

lemma runOk_deleteListener:
  assumes "runOk s" shows "runOk (deleteListener h k s)"
proof -
  have sub: "set (listenersOf (deleteListener h k s) i) \<subseteq> set (listenersOf s i)" for i
    by (cases "k < length (rs_sets s)") (auto simp: deleteListener_def nth_list_update list_update_beyond)
  have s: "listenersOk s" using assms by (simp add: runOk_def)
  have "listenersOk (deleteListener h k s)"
    unfolding listenersOk_def
  proof (intro allI impI ballI)
    fix i l assume "i < length (rs_streams (deleteListener h k s))" "l \<in> set (listenersOf (deleteListener h k s) i)"
    then show "l < length (rs_hooks (deleteListener h k s)) \<and>
        rh_project (rs_hooks (deleteListener h k s) ! l) = as_project (streamOf (deleteListener h k s) i)"
      using listenersOkD [OF s, of i l] subsetD [OF sub [of i], of l] by simp
  qed
  with assms ok_cong [of "deleteListener h k s" s] show ?thesis by (simp add: runOk_def)
qed

lemma runOk_addHook:
  assumes "runOk s" "\<And>i. rh_cleanup hook = Some i \<Longrightarrow> i < length (rs_streams s)"
  shows "runOk (s\<lparr>rs_hooks := rs_hooks s @ [hook]\<rparr>)"
proof -
  let ?t = "s\<lparr>rs_hooks := rs_hooks s @ [hook]\<rparr>"
  have "listenersOk s" "cleanupOk s" using assms(1) by (simp_all add: runOk_def)
  then have "listenersOk ?t" "cleanupOk ?t"
    using assms(2) by (auto simp: listenersOk_def cleanupOk_def nth_append less_SucI less_Suc_eq)
  with assms(1) ok_cong [of ?t s] show ?thesis by (simp add: runOk_def)
qed

lemma runOk_mount:
  assumes "runOk s" shows "runOk (mount p s)"
proof (cases "rs_active s p")
  case None
  moreover have "runOk (s\<lparr>rs_hooks := rs_hooks s @ [\<lparr>rh_project = p, rh_listener = True, rh_cleanup = None\<rparr>]\<rparr>)"
    by (rule runOk_addHook [OF assms]) simp
  ultimately show ?thesis by (simp add: mount_def)
next
  case (Some i)
  let ?hook = "\<lparr>rh_project = p, rh_listener = True, rh_cleanup = Some i\<rparr>"
  let ?h = "length (rs_hooks s)"
  let ?t = "s\<lparr>rs_hooks := rs_hooks s @ [?hook]\<rparr>"
  have i: "i < length (rs_streams s)" "as_project (streamOf s i) = p"
    using assms Some by (auto simp: runOk_def activeOk_def)
  then have "runOk ?t" using assms by (intro runOk_addHook) auto
  then have "runOk (addListener ?h (as_listeners (streamOf ?t i)) ?t)"
    using i by (intro runOk_addListener) simp_all
  then show ?thesis
    using Some by (auto simp: mount_def Let_def streamOk_def intro!: runOk_updStream)
qed

lemma runOk_unmount:
  assumes "runOk s" "h < length (rs_hooks s)" shows "runOk (unmount h s)"
proof -
  have hook: "runOk (t\<lparr>rs_hooks := (rs_hooks t)[h := (rs_hooks t ! h)\<lparr>rh_listener := False\<rparr>]\<rparr>)"
    if "runOk t" "h < length (rs_hooks t)" for t :: "'a run_state"
  proof -
    let ?u = "t\<lparr>rs_hooks := (rs_hooks t)[h := (rs_hooks t ! h)\<lparr>rh_listener := False\<rparr>]\<rparr>"
    have "listenersOk t" "cleanupOk t" using that by (simp_all add: runOk_def)
    then have "listenersOk ?u" "cleanupOk ?u"
      using that(2) by (auto simp: listenersOk_def cleanupOk_def nth_list_update split: if_splits)
    with that ok_cong [of ?u t] show ?thesis by (simp add: runOk_def)
  qed
  show ?thesis
    using assms hook [of s] hook [of "deleteListener h k s" for k]
    by (auto simp: unmount_def Let_def runOk_deleteListener split: option.split)
qed

text \<open>A new stream of project \<open>p\<close> on the set \<open>k\<close>.\<close>

definition newStream :: "string \<Rightarrow> nat \<Rightarrow> 'n ActiveStream" where
  "newStream p k = \<lparr>as_project = p, as_aborted = False, as_listeners = k, as_backgroundMessages = [],
     as_isConnected = False, as_isConnecting = True, as_phase = Fetching\<rparr>"

lemma runOk_pushStream:
  assumes "runOk s" and "k < length (rs_sets s)"
    and "\<And>l. l \<in> set (rs_sets s ! k) \<Longrightarrow> l < length (rs_hooks s) \<and> rh_project (rs_hooks s ! l) = p"
    and "\<And>i. i < length (rs_streams s) \<Longrightarrow> as_listeners (streamOf s i) = k \<longleftrightarrow> as_project (streamOf s i) = p"
  shows "runOk (s\<lparr>rs_streams := rs_streams s @ [newStream p k], rs_active := (rs_active s)(p \<mapsto> length (rs_streams s))\<rparr>)"
proof -
  let ?t = "s\<lparr>rs_streams := rs_streams s @ [newStream p k], rs_active := (rs_active s)(p \<mapsto> length (rs_streams s))\<rparr>"
  have new: "as_project (newStream p k) = p" "as_listeners (newStream p k) = k" "streamOk (newStream p k)"
    by (simp_all add: newStream_def streamOk_def)
  have "activeOk ?t" using assms(1) new by (auto simp: runOk_def activeOk_def nth_append less_SucI)
  moreover have "setsOk ?t"
    unfolding setsOk_def
  proof (intro allI impI)
    fix i assume i: "i < length (rs_streams ?t)"
    show "as_listeners (streamOf ?t i) < length (rs_sets ?t) \<and>
        (\<exists>j. rs_active ?t (as_project (streamOf ?t i)) = Some j \<and>
             as_listeners (streamOf ?t i) = as_listeners (streamOf ?t j)) \<and>
        (\<forall>j < length (rs_streams ?t). as_listeners (streamOf ?t i) = as_listeners (streamOf ?t j) \<longrightarrow>
             as_project (streamOf ?t i) = as_project (streamOf ?t j))"
    proof (cases "i < length (rs_streams s)")
      case True
      have s: "setsOk s" "activeOk s" using assms(1) by (simp_all add: runOk_def)
      obtain j where active: "rs_active s (as_project (streamOf s i)) = Some j"
        and same: "as_listeners (streamOf s i) = as_listeners (streamOf s j)"
        using setsOkD(3) [OF s(1) True] by blast
      have j: "j < length (rs_streams s)" using s(2) active unfolding activeOk_def by blast
      have k: "as_listeners (streamOf s i) < length (rs_sets s)" by (rule setsOkD(1) [OF s(1) True])
      have share: "as_project (streamOf s i) = as_project (streamOf s j')"
        if "j' < length (rs_streams s)" "as_listeners (streamOf s i) = as_listeners (streamOf s j')" for j'
        using setsOkD(2) [OF s(1) that(1) True] that(2) .
      have "\<exists>j. rs_active ?t (as_project (streamOf ?t i)) = Some j \<and>
             as_listeners (streamOf ?t i) = as_listeners (streamOf ?t j)"
      proof (cases "as_project (streamOf s i) = p")
        case True
        then show ?thesis
          using assms(4) [of i] \<open>i < length (rs_streams s)\<close>
          by (intro exI [of _ "length (rs_streams s)"]) (simp add: nth_append new)
      next
        case False
        with j True active same show ?thesis by (intro exI [of _ j]) (simp add: nth_append)
      qed
      moreover have "as_project (streamOf ?t i) = as_project (streamOf ?t j')"
        if "j' < length (rs_streams ?t)" "as_listeners (streamOf ?t i) = as_listeners (streamOf ?t j')" for j'
        using that share [of j'] True assms(4) [of i]
        by (cases "j' < length (rs_streams s)") (simp_all add: nth_append new less_Suc_eq)
      ultimately show ?thesis using k True by (simp add: nth_append)
    next
      case False
      with i have "i = length (rs_streams s)" by simp
      with assms(2,4) show ?thesis by (auto simp: nth_append new less_Suc_eq)
    qed
  qed
  moreover have "listenersOk ?t"
    using assms(1,3) by (auto simp: runOk_def listenersOk_def nth_append new less_Suc_eq)
  moreover have "cleanupOk ?t" using assms(1) by (auto simp: runOk_def cleanupOk_def less_SucI)
  ultimately show ?thesis using assms(1) new by (simp add: runOk_def)
qed

lemma sendCommand_Some:
  assumes "rs_active s p = Some i" "p = rh_project (rs_hooks s ! h)"
  shows "sendCommand h s =
    (let t = updStream i (\<lambda>st. st\<lparr>as_aborted := True\<rparr>) s;
         k = as_listeners (streamOf s i);
         t = (if rh_listener (rs_hooks s ! h) then addListener h k t else t)
     in emitStatus (length (rs_streams s))
          (t\<lparr>rs_streams := rs_streams t @ [newStream p k], rs_active := (rs_active t)(p \<mapsto> length (rs_streams t))\<rparr>))"
  using assms by (simp add: sendCommand_def newStream_def Let_def)

lemma sendCommand_None:
  assumes "rs_active s p = None" "p = rh_project (rs_hooks s ! h)"
  shows "sendCommand h s =
    (let k = length (rs_sets s);
         t = s\<lparr>rs_sets := rs_sets s @ [if rh_listener (rs_hooks s ! h) then [h] else []]\<rparr>
     in emitStatus (length (rs_streams s))
          (t\<lparr>rs_streams := rs_streams t @ [newStream p k], rs_active := (rs_active t)(p \<mapsto> length (rs_streams t))\<rparr>))"
  using assms by (simp add: sendCommand_def newStream_def Let_def addListener_def list_update_append)

lemma runOk_addSet:
  assumes "runOk s"
  shows "runOk (s\<lparr>rs_sets := rs_sets s @ [ls]\<rparr>)"
proof -
  let ?t = "s\<lparr>rs_sets := rs_sets s @ [ls]\<rparr>"
  have s: "setsOk s" "listenersOk s" "activeOk s" "cleanupOk s" using assms by (simp_all add: runOk_def)
  have k: "as_listeners (streamOf s i) < length (rs_sets s)" if "i < length (rs_streams s)" for i
    by (rule setsOkD(1) [OF s(1) that])
  have "setsOk ?t"
    unfolding setsOk_def
  proof (intro allI impI conjI)
    fix i assume i: "i < length (rs_streams ?t)"
    then have i': "i < length (rs_streams s)" by simp
    show "as_listeners (streamOf ?t i) < length (rs_sets ?t)" using k [OF i'] by simp
    show "\<exists>j. rs_active ?t (as_project (streamOf ?t i)) = Some j \<and>
        as_listeners (streamOf ?t i) = as_listeners (streamOf ?t j)"
      using setsOkD(3) [OF s(1) i'] by simp
    fix j assume "j < length (rs_streams ?t)" "as_listeners (streamOf ?t i) = as_listeners (streamOf ?t j)"
    then show "as_project (streamOf ?t i) = as_project (streamOf ?t j)"
      using setsOkD(2) [OF s(1), of j i] i' by simp
  qed
  moreover have "listenersOk ?t"
    using s(2) k by (simp add: listenersOk_def nth_append)
  moreover have "activeOk ?t" "cleanupOk ?t" using s by (simp_all add: activeOk_def cleanupOk_def)
  ultimately show ?thesis using assms by (simp add: runOk_def)
qed

lemma runOk_sendCommand:
  assumes "runOk s" "h < length (rs_hooks s)"
  shows "runOk (sendCommand h s)"
proof -
  define p where "p = rh_project (rs_hooks s ! h)"
  have ok: "setsOk s" "listenersOk s" "activeOk s" using assms(1) by (simp_all add: runOk_def)
  show ?thesis
  proof (cases "rs_active s p")
    case None
    let ?t = "s\<lparr>rs_sets := rs_sets s @ [if rh_listener (rs_hooks s ! h) then [h] else []]\<rparr>"
    have "as_project (streamOf s i) \<noteq> p \<and> as_listeners (streamOf s i) \<noteq> length (rs_sets s)"
      if "i < length (rs_streams s)" for i
      using setsOkD(1,3) [OF ok(1) that] None by auto
    then have "runOk (?t\<lparr>rs_streams := rs_streams ?t @ [newStream p (length (rs_sets s))],
        rs_active := (rs_active ?t)(p \<mapsto> length (rs_streams ?t))\<rparr>)"
      using assms by (intro runOk_pushStream runOk_addSet) (auto simp: p_def split: if_splits)
    then show ?thesis using sendCommand_None [OF None p_def] by (simp add: Let_def)
  next
    case (Some i)
    define k where "k = as_listeners (streamOf s i)"
    define u where "u = updStream i (\<lambda>st. st\<lparr>as_aborted := True\<rparr>) s"
    define t where "t = (if rh_listener (rs_hooks s ! h) then addListener h k u else u)"
    have i: "i < length (rs_streams s)" "as_project (streamOf s i) = p"
      using ok(3) Some by (auto simp: activeOk_def)
    have sel: "as_project (streamOf t j) = as_project (streamOf s j)"
      "as_listeners (streamOf t j) = as_listeners (streamOf s j)" for j
      by (simp_all add: t_def u_def nth_updStream)
    have rest: "rs_hooks t = rs_hooks s" "length (rs_streams t) = length (rs_streams s)"
      "length (rs_sets t) = length (rs_sets s)" "rs_active t = rs_active s"
      by (simp_all add: t_def u_def)
    have "runOk u" unfolding u_def using assms(1) by (rule runOk_updStream) (simp_all add: streamOk_def)
    moreover have "runOk (addListener h (as_listeners (streamOf u i)) u)"
      using \<open>runOk u\<close> i assms(2) by (intro runOk_addListener) (simp_all add: u_def nth_updStream p_def)
    moreover have "as_listeners (streamOf u i) = k" by (simp add: u_def k_def nth_updStream)
    ultimately have t: "runOk t" by (simp add: t_def)
    have tk: "as_listeners (streamOf t i) = k" by (simp add: sel k_def)
    have "as_listeners (streamOf t j) = k \<longleftrightarrow> as_project (streamOf t j) = p" if "j < length (rs_streams t)" for j
    proof
      assume "as_listeners (streamOf t j) = k"
      then show "as_project (streamOf t j) = p"
        using setsOkD(2) [OF ok(1) i(1), of j] i that rest by (simp add: sel k_def)
    next
      assume "as_project (streamOf t j) = p"
      then show "as_listeners (streamOf t j) = k"
        using setsOkD(3) [OF ok(1), of j] that rest Some by (auto simp: sel k_def)
    qed
    moreover have "l < length (rs_hooks t) \<and> rh_project (rs_hooks t ! l) = p" if "l \<in> set (rs_sets t ! k)" for l
      using listenersOkD [of t i l] t i rest that tk by (simp add: runOk_def sel)
    moreover have "k < length (rs_sets t)" using setsOkD(1) [OF ok(1) i(1)] rest by (simp add: k_def)
    ultimately have "runOk (t\<lparr>rs_streams := rs_streams t @ [newStream p k],
        rs_active := (rs_active t)(p \<mapsto> length (rs_streams t))\<rparr>)"
      by (intro runOk_pushStream t)
    moreover have "sendCommand h s = emitStatus (length (rs_streams s))
        (t\<lparr>rs_streams := rs_streams t @ [newStream p k], rs_active := (rs_active t)(p \<mapsto> length (rs_streams t))\<rparr>)"
      unfolding t_def u_def k_def by (simp only: sendCommand_Some [OF Some p_def] Let_def)
    ultimately show ?thesis by (simp only: runOk_emitStatus)
  qed
qed

lemma runOk_disconnect: "runOk s \<Longrightarrow> runOk (disconnect h s)"
  by (auto simp: disconnect_def streamOk_def split: option.split intro!: runOk_updStream)

lemma runOk_respondOpen: "runOk s \<Longrightarrow> runOk (respondOpen i s)"
  by (auto simp: respondOpen_def streamOk_def intro!: runOk_updStream)

lemma runOk_step: "runOk s \<Longrightarrow> runEnabled a s \<Longrightarrow> runOk (runStep parse a s)"
  by (cases a) (simp_all add: runOk_mount runOk_unmount runOk_sendCommand runOk_disconnect
      respondError_def runOk_finishCommand runOk_emitMessage runOk_respondOpen runOk_readChunk)

lemma runOk_reachable: "runReachable parse s \<Longrightarrow> runOk s"
proof (induction rule: runReachable.induct)
  case run_start
  show ?case by (simp add: runOk_def run_ok_defs runStart_def)
next
  case (run_step s a)
  then show ?case by (blast intro: runOk_step)
qed

lemma runAll_reachable: "runReachable parse s \<Longrightarrow> runAll parse as s = Some t \<Longrightarrow> runReachable parse t"
  by (induction "as" arbitrary: s) (auto split: if_splits intro: run_step)

lemma emitMessage_log:
  assumes "runOk s" "i < length (rs_streams s)"
  shows "\<exists>cs. rs_log (fold (emitMessage i) ms s) = rs_log s @ cs \<and> fst ` set cs \<subseteq> set (listenersOf s i)"
proof (cases "listenersOf s i = []")
  case True
  then show ?thesis using fold_emitMessage_silent [OF True assms(2), of ms] by (intro exI [of _ "[]"]) simp
next
  case False
  show ?thesis
    using fold_emitMessage_heard [OF False, of ms]
    by (intro exI [of _ "concat (map (\<lambda>m. concat (map (deliver m) (listenersOf s i))) ms)"])
      (auto simp: deliver_def)
qed

lemma readChunk_log:
  assumes "runOk s" "i < length (rs_streams s)"
  shows "\<exists>cs. rs_log (readChunk parse i chunk s) = rs_log s @ cs \<and> fst ` set cs \<subseteq> set (listenersOf s i)"
proof (cases "as_phase (streamOf s i)")
  case (Reading b)
  then show ?thesis
    using emitMessage_log [OF assms] by (simp add: readChunk_def case_prod_beta fold_emitMessage_swap)
qed (auto simp: readChunk_def)

text \<open>The component that starts the first run of its project, left while the run is being read.\<close>

definition firstRunLeft :: "'n run_state" where
  "firstRunLeft =
     \<lparr>rs_active = [''p'' \<mapsto> 0],
      rs_streams = [\<lparr>as_project = ''p'', as_aborted = False, as_listeners = 0, as_backgroundMessages = [],
                      as_isConnected = True, as_isConnecting = False, as_phase = Reading ''''\<rparr>],
      rs_sets = [[0]],
      rs_hooks = [\<lparr>rh_project = ''p'', rh_listener = False, rh_cleanup = None\<rparr>],
      rs_log = [(0, OnStatusChange False True), (0, OnStatusChange True False)]\<rparr>"

lemma firstRunLeft_reached:
  "runAll parse [Mount ''p'', Send 0, Opened 0, Unmount 0] runStart = Some firstRunLeft"
  by (simp add: firstRunLeft_def mount_def sendCommand_def respondOpen_def unmount_def runStart_def Let_def
      addListener_def emitStatus_def updStream_def calls_def inPhase_def)

lemma runAll_append: "runAll parse (as @ bs) s = Option.bind (runAll parse as s) (runAll parse bs)"
  by (induction "as" arbitrary: s) simp_all

lemma firstRunLeft_chunk:
  fixes parse :: "string \<Rightarrow> 'n DbtRunEvent option"
  shows "readChunk parse 0 chunk firstRunLeft =
     updStream 0 (\<lambda>st. st\<lparr>as_phase := Reading (last (split_on nl chunk))\<rparr>)
       (calls (concat (map (\<lambda>m. deliver m 0) (lineMessages parse (butlast (split_on nl chunk))))) firstRunLeft)"
proof -
  have sel: "as_phase (streamOf firstRunLeft 0) = Reading ''''" "listenersOf firstRunLeft 0 = [0]"
    "0 < length (rs_streams firstRunLeft)"
    by (simp_all add: firstRunLeft_def)
  have "fold (readChunk parse 0) [chunk] firstRunLeft =
      updStream 0 (\<lambda>st. st\<lparr>as_phase := Reading (last (split_on nl (concat [chunk])))\<rparr>)
        (fold (emitMessage 0) (lineMessages parse (butlast (split_on nl (concat [chunk])))) firstRunLeft)"
    by (rule readChunk_body [OF sel(1,3)])
  then show ?thesis
    using fold_emitMessage_heard [of "firstRunLeft :: 'n run_state" 0] by (simp add: sel)
qed

text \<open>A run started by a callback of a component that had been left by then: nobody listens to it.\<close>

definition unheardRun :: "'n run_state" where
  "unheardRun =
     firstRunLeft\<lparr>rs_sets := [[]], rs_log := []\<rparr>"

lemma unheardRun_reached:
  "runAll parse [Mount ''p'', Unmount 0, Send 0, Opened 0] runStart = Some unheardRun"
  by (simp add: unheardRun_def firstRunLeft_def mount_def sendCommand_def respondOpen_def unmount_def
      runStart_def Let_def emitStatus_def updStream_def calls_def inPhase_def)

lemma unheardRun_reachable: "runReachable parse unheardRun"
  by (rule runAll_reachable [OF run_start unheardRun_reached])

text \<open>A line of output, for evaluation.\<close>

definition outputLine :: "string \<Rightarrow> nat DbtRunEvent option" where
  "outputLine t = Some \<lparr>re_type = Output, re_command = None, re_line = Some t, re_returncode = None, re_error = None\<rparr>"

subsection \<open>Commands from mounted components\<close>

text \<open>The runs in which only a mounted component sends commands.\<close>

inductive mountedReachable :: "(string \<Rightarrow> 'n DbtRunEvent option) \<Rightarrow> 'n run_state \<Rightarrow> bool" for parse where
  mounted_start: "mountedReachable parse runStart"
| mounted_step: "mountedReachable parse s \<Longrightarrow> runEnabled a s \<Longrightarrow>
     (\<And>h. a = Send h \<Longrightarrow> rh_listener (rs_hooks s ! h)) \<Longrightarrow> mountedReachable parse (runStep parse a s)"

lemma mounted_reachable: "mountedReachable parse s \<Longrightarrow> runReachable parse s"
  by (induction rule: mountedReachable.induct) (auto intro: run_start run_step)

text \<open>
  A listener of a component that was mounted before its project had a stream is never removed: its cleanup
  does not know of a stream.
\<close>

definition permanentListener :: "'n run_state \<Rightarrow> nat \<Rightarrow> bool" where
  "permanentListener s i \<longleftrightarrow>
     (\<exists>l. l \<in> set (listenersOf s i) \<and> l < length (rs_hooks s) \<and> rh_cleanup (rs_hooks s ! l) = None)"

definition alwaysHeard :: "'n run_state \<Rightarrow> bool" where
  "alwaysHeard s \<longleftrightarrow>
     (\<forall>i < length (rs_streams s). permanentListener s i \<and> as_backgroundMessages (streamOf s i) = []) \<and>
     (\<forall>h < length (rs_hooks s). rh_cleanup (rs_hooks s ! h) = None \<or> rs_active s (rh_project (rs_hooks s ! h)) \<noteq> None)"

lemma permanentListener_not_Nil: "permanentListener s i \<Longrightarrow> listenersOf s i \<noteq> []"
  by (auto simp: permanentListener_def)

lemma alwaysHeard_calls [simp]: "alwaysHeard (calls cs s) = alwaysHeard s"
  by (simp add: alwaysHeard_def permanentListener_def)

lemma alwaysHeard_emitStatus [simp]: "alwaysHeard (emitStatus i s) = alwaysHeard s"
  by (simp add: emitStatus_def)

lemma alwaysHeard_updStream:
  assumes "alwaysHeard s" "\<And>st. as_listeners (f st) = as_listeners st"
    "\<And>st. as_backgroundMessages st = [] \<Longrightarrow> as_backgroundMessages (f st) = []"
  shows "alwaysHeard (updStream i f s)"
  using assms by (auto simp: alwaysHeard_def permanentListener_def nth_updStream)

lemma alwaysHeard_emitMessage:
  assumes "alwaysHeard s" "i < length (rs_streams s)" shows "alwaysHeard (emitMessage i m s)"
proof -
  have "listenersOf s i \<noteq> []"
    using assms by (intro permanentListener_not_Nil) (simp add: alwaysHeard_def)
  then show ?thesis using assms(1) by (simp add: emitMessage_def)
qed

lemma alwaysHeard_fold_emitMessage:
  "alwaysHeard s \<Longrightarrow> i < length (rs_streams s) \<Longrightarrow> alwaysHeard (fold (emitMessage i) ms s)"
  by (induction ms arbitrary: s) (simp_all add: alwaysHeard_emitMessage)

lemma permanentListener_add:
  assumes "permanentListener s i" shows "permanentListener (addListener h k s) i"
  using assms
  by (cases "k < length (rs_sets s)")
    (auto simp: permanentListener_def addListener_def Let_def nth_list_update list_update_beyond)

lemma alwaysHeard_addListener: "alwaysHeard s \<Longrightarrow> alwaysHeard (addListener h k s)"
  by (simp add: alwaysHeard_def permanentListener_add)

lemma alwaysHeard_mount: "alwaysHeard s \<Longrightarrow> alwaysHeard (mount p s)"
proof (cases "rs_active s p")
  case None
  then show "alwaysHeard s \<Longrightarrow> alwaysHeard (mount p s)"
    by (auto simp: mount_def alwaysHeard_def permanentListener_def nth_append less_Suc_eq)
next
  case (Some i)
  let ?t = "s\<lparr>rs_hooks := rs_hooks s @ [\<lparr>rh_project = p, rh_listener = True, rh_cleanup = Some i\<rparr>]\<rparr>"
  assume "alwaysHeard s"
  then have "alwaysHeard ?t"
    using Some by (auto simp: alwaysHeard_def permanentListener_def nth_append less_Suc_eq)
  then show ?thesis
    using Some by (auto simp: mount_def Let_def alwaysHeard_addListener intro!: alwaysHeard_updStream)
qed

lemma alwaysHeard_unmount:
  assumes "alwaysHeard s" "h < length (rs_hooks s)" shows "alwaysHeard (unmount h s)"
proof -
  have hook: "alwaysHeard (t\<lparr>rs_hooks := (rs_hooks t)[h := (rs_hooks t ! h)\<lparr>rh_listener := False\<rparr>]\<rparr>)"
    if "alwaysHeard t" "h < length (rs_hooks t)" for t :: "'a run_state"
    using that by (fastforce simp: alwaysHeard_def permanentListener_def nth_list_update)
  have "permanentListener (deleteListener h k s) i"
    if "permanentListener s i" "rh_cleanup (rs_hooks s ! h) = Some j" for i j k
    using that by (cases "k < length (rs_sets s)")
      (auto simp: permanentListener_def deleteListener_def nth_list_update list_update_beyond)
  then have "alwaysHeard (deleteListener h k s)" if "rh_cleanup (rs_hooks s ! h) = Some j" for j k
    using assms(1) that by (simp add: alwaysHeard_def)
  with assms hook [of s] hook [of "deleteListener h k s" for k] show ?thesis
    by (auto simp: unmount_def Let_def split: option.split)
qed

lemma alwaysHeard_pushStream:
  assumes "alwaysHeard s" "\<exists>l. l \<in> set (rs_sets s ! k) \<and> l < length (rs_hooks s) \<and> rh_cleanup (rs_hooks s ! l) = None"
  shows "alwaysHeard (s\<lparr>rs_streams := rs_streams s @ [newStream p k], rs_active := (rs_active s)(p \<mapsto> n)\<rparr>)"
  using assms by (auto simp: alwaysHeard_def permanentListener_def nth_append less_Suc_eq newStream_def)

lemma alwaysHeard_sendCommand:
  assumes "alwaysHeard s" "runOk s" "h < length (rs_hooks s)" "rh_listener (rs_hooks s ! h)"
  shows "alwaysHeard (sendCommand h s)"
proof (cases "rs_active s (rh_project (rs_hooks s ! h))")
  case None
  have "as_listeners (streamOf s i) < length (rs_sets s)" if "i < length (rs_streams s)" for i
    using assms(2) that setsOkD(1) by (auto simp: runOk_def)
  then have "alwaysHeard (s\<lparr>rs_sets := rs_sets s @ [[h]]\<rparr>)"
    using assms(1) by (auto simp: alwaysHeard_def permanentListener_def nth_append)
  moreover have "rh_cleanup (rs_hooks s ! h) = None" using assms(1,3) None by (auto simp: alwaysHeard_def)
  ultimately show ?thesis
    using assms(3,4) alwaysHeard_pushStream [of "s\<lparr>rs_sets := rs_sets s @ [[h]]\<rparr>" "length (rs_sets s)"]
    by (auto simp: sendCommand_None [OF None refl] Let_def)
next
  case (Some i)
  let ?u = "updStream i (\<lambda>st. st\<lparr>as_aborted := True\<rparr>) s"
  let ?t = "addListener h (as_listeners (streamOf s i)) ?u"
  have i: "i < length (rs_streams s)" using assms(2) Some by (auto simp: runOk_def activeOk_def)
  have t: "alwaysHeard ?t" using assms(1) by (intro alwaysHeard_addListener alwaysHeard_updStream) simp_all
  then have "permanentListener ?t i" using i by (simp add: alwaysHeard_def)
  then have "\<exists>l. l \<in> set (rs_sets ?t ! as_listeners (streamOf s i)) \<and> l < length (rs_hooks ?t) \<and>
      rh_cleanup (rs_hooks ?t ! l) = None"
    using i by (simp add: permanentListener_def nth_updStream)
  from alwaysHeard_pushStream [OF t this] show ?thesis
    using assms(4) by (simp add: sendCommand_Some [OF Some refl] Let_def)
qed

lemma alwaysHeard_readChunk:
  "alwaysHeard s \<Longrightarrow> i < length (rs_streams s) \<Longrightarrow> alwaysHeard (readChunk parse i chunk s)"
  by (auto simp: readChunk_def case_prod_beta split: run_phase.split
      intro!: alwaysHeard_fold_emitMessage alwaysHeard_updStream)

lemma alwaysHeard_reachable: "mountedReachable parse s \<Longrightarrow> alwaysHeard s"
proof (induction rule: mountedReachable.induct)
  case mounted_start
  show ?case by (simp add: alwaysHeard_def runStart_def)
next
  case (mounted_step s a)
  have ok: "runOk s" using mounted_step(1) mounted_reachable runOk_reachable by blast
  show ?case
    using mounted_step ok
    by (cases a) (auto simp: alwaysHeard_mount alwaysHeard_unmount alwaysHeard_sendCommand disconnect_def
        respondError_def finishCommand_def respondOpen_def alwaysHeard_readChunk alwaysHeard_emitMessage Let_def
        inPhase_def split: option.split intro!: alwaysHeard_updStream)
qed

section \<open>Properties\<close>

text \<open>
  What a stream shows depends on the body of its response and not on how the network cut it: every
  message of a complete line reaches every listener, in order, and the incomplete last line stays in the
  buffer.
\<close>

lemma run_output_delivered:
  assumes "i < length (rs_streams s)" "as_phase (streamOf s i) = Reading ''''" "listenersOf s i \<noteq> []"
  shows "rs_log (fold (readChunk parse i) chunks s) =
           rs_log s @
           concat (map (\<lambda>msg. concat (map (deliver msg) (listenersOf s i)))
             (lineMessages parse (butlast (split_on nl (concat chunks))))) \<and>
         as_phase (streamOf (fold (readChunk parse i) chunks s) i) = Reading (last (split_on nl (concat chunks)))"
  using readChunk_body [OF assms(2,1), of parse chunks] fold_emitMessage_heard [OF assms(3)] assms(1)
  by (simp add: nth_updStream)

text \<open>
  What arrives while nobody listens is replayed: the component that mounts next is told the status of
  the stream and then gets the last 5000 of the messages that were kept and of those that arrived, in
  order, and they are not kept any longer.
\<close>

lemma background_replayed:
  assumes "runReachable parse s" "rs_active s p = Some i" "as_phase (streamOf s i) = Reading ''''"
    and "listenersOf s i = []"
  shows "let t = mount p (fold (readChunk parse i) chunks s);
             h = length (rs_hooks s);
             arrived = lineMessages parse (butlast (split_on nl (concat chunks)))
         in rs_log t =
              rs_log s @ (h, OnStatusChange (as_isConnected (streamOf s i)) (as_isConnecting (streamOf s i))) #
              concat (map (\<lambda>msg. deliver msg h) (keepLast 5000 (as_backgroundMessages (streamOf s i) @ arrived))) \<and>
            as_backgroundMessages (streamOf t i) = [] \<and> listenersOf t i = [h]"
proof -
  define arrived where "arrived = lineMessages parse (butlast (split_on nl (concat chunks)))"
  define u where "u = fold (readChunk parse i) chunks s"
  have ok: "runOk s" using assms(1) by (rule runOk_reachable)
  then have i: "i < length (rs_streams s)" using assms(2) by (auto simp: runOk_def activeOk_def)
  have "list_all streamOk (rs_streams s)" "setsOk s" using ok by (simp_all add: runOk_def)
  then have bg: "length (as_backgroundMessages (streamOf s i)) \<le> 5000"
    and k: "as_listeners (streamOf s i) < length (rs_sets s)"
    using i setsOkD(1) by (auto simp: list_all_length streamOk_def)
  have u: "u = updStream i (\<lambda>st. st\<lparr>as_phase := Reading (last (split_on nl (concat chunks)))\<rparr>)
      (updStream i (\<lambda>st. st\<lparr>as_backgroundMessages := fold pushBackground arrived (as_backgroundMessages st)\<rparr>) s)"
    unfolding u_def arrived_def using readChunk_body [OF assms(3) i] fold_emitMessage_silent [OF assms(4) i] by simp
  have st: "streamOf u i = (streamOf s i)
      \<lparr>as_backgroundMessages := keepLast 5000 (as_backgroundMessages (streamOf s i) @ arrived),
       as_phase := Reading (last (split_on nl (concat chunks)))\<rparr>"
    using i bg by (simp add: u nth_updStream fold_pushBackground)
  have rest: "rs_active u = rs_active s" "rs_hooks u = rs_hooks s" "rs_log u = rs_log s" "rs_sets u = rs_sets s"
    "length (rs_streams u) = length (rs_streams s)"
    by (simp_all add: u)
  show ?thesis
    using assms(2,4) i k
    by (simp add: u_def [symmetric] arrived_def [symmetric] mount_def Let_def rest st nth_updStream
        addListener_def)
qed

text \<open>
  C31. In every reachable state a stream keeps at most 5000 messages, shows \<open>connected\<close> only while it is
  being read and \<open>connecting\<close> only before that, and its output is delivered only to components of its own
  project.
\<close>

theorem run_streams_invariant:
  assumes "runReachable parse s" "i < length (rs_streams s)"
  shows "length (as_backgroundMessages (streamOf s i)) \<le> 5000 \<and>
         \<not> (as_isConnected (streamOf s i) \<and> as_phase (streamOf s i) \<in> {Fetching, Returned}) \<and>
         \<not> (as_isConnecting (streamOf s i) \<and> as_phase (streamOf s i) \<noteq> Fetching) \<and>
         (\<exists>cs. rs_log (readChunk parse i chunk s) = rs_log s @ cs \<and>
               list_all (\<lambda>(l, _). rh_project (rs_hooks s ! l) = as_project (streamOf s i)) cs)"
proof -
  have ok: "runOk s" using assms(1) by (rule runOk_reachable)
  then have "streamOk (streamOf s i)" using assms(2) by (simp add: runOk_def list_all_length)
  moreover obtain cs where cs: "rs_log (readChunk parse i chunk s) = rs_log s @ cs"
    "fst ` set cs \<subseteq> set (listenersOf s i)"
    using readChunk_log [OF ok assms(2)] by blast
  have "list_all (\<lambda>(l, _). rh_project (rs_hooks s ! l) = as_project (streamOf s i)) cs"
    unfolding list_all_iff
  proof (clarify)
    fix l c assume "(l, c) \<in> set cs"
    then have "l \<in> set (listenersOf s i)" using cs(2) by force
    then show "rh_project (rs_hooks s ! l) = as_project (streamOf s i)"
      using listenersOkD [of s i l] ok assms(2) by (simp add: runOk_def)
  qed
  with cs(1) have "\<exists>cs. rs_log (readChunk parse i chunk s) = rs_log s @ cs \<and>
      list_all (\<lambda>(l, _). rh_project (rs_hooks s ! l) = as_project (streamOf s i)) cs" by blast
  ultimately show ?thesis by (auto simp: streamOk_def)
qed

theorem run_streams_invariant_witness:
  "length (as_backgroundMessages (streamOf (unheardRun :: nat run_state) 0)) \<le> 5000 \<and>
   as_isConnected (streamOf (unheardRun :: nat run_state) 0)"
  using run_streams_invariant [OF unheardRun_reachable [of "\<lambda>_. None"], of 0]
  by (simp add: unheardRun_def firstRunLeft_def)

text \<open>
  A run started in a component that was mounted before its project had a stream loses what it prints
  after that component is left: the listener stays in the set, so nothing is kept, and the component that
  mounts next gets the status and none of the messages, whatever the runner sent.
\<close>

lemma output_lost_after_first_unmount:
  "\<exists>s. runAll parse [Mount ''p'', Send 0, Opened 0, Unmount 0, Chunk 0 chunk, Mount ''p''] runStart = Some s \<and>
       filter (\<lambda>(l, _). l = 1) (rs_log s) = [(1, OnStatusChange True False)] \<and>
       as_backgroundMessages (streamOf s 0) = [] \<and> listenersOf s 0 = [0, 1] \<and>
       \<not> rh_listener (rs_hooks s ! 0)"
proof -
  let ?s = "mount ''p'' (readChunk parse 0 chunk firstRunLeft)"
  note chunk = firstRunLeft_chunk
  have "filter (\<lambda>(l, _). l = 1) (concat (map (\<lambda>m. deliver m 0) ms)) = []" for ms :: "'a DbtRunEvent list"
    by (auto simp: filter_empty_conv deliver_def)
  then have "filter (\<lambda>(l, _). l = 1) (rs_log ?s) = [(1, OnStatusChange True False)]"
    "as_backgroundMessages (streamOf ?s 0) = []" "listenersOf ?s 0 = [0, 1]" "\<not> rh_listener (rs_hooks ?s ! 0)"
    unfolding chunk by (simp_all add: mount_def Let_def addListener_def updStream_def firstRunLeft_def)
  moreover have "runAll parse [Mount ''p'', Send 0, Opened 0, Unmount 0, Chunk 0 chunk, Mount ''p''] runStart = Some ?s"
    using runAll_append [of parse "[Mount ''p'', Send 0, Opened 0, Unmount 0]" "[Chunk 0 chunk, Mount ''p'']" runStart]
      firstRunLeft_reached [of parse]
    by (simp add: inPhase_def firstRunLeft_def)
  ultimately show ?thesis by blast
qed

text \<open>
  Nothing is ever kept for replay when commands come from mounted components, however often the page is
  left and opened again: every stream has a listener that no cleanup removes, the one of the component
  that was there before the project's first command.
\<close>

lemma background_never_kept:
  assumes "mountedReachable parse s" "i < length (rs_streams s)"
  shows "as_backgroundMessages (streamOf s i) = [] \<and> listenersOf s i \<noteq> []"
  using alwaysHeard_reachable [OF assms(1)] assms(2) permanentListener_not_Nil
  by (auto simp: alwaysHeard_def)

end
