(* ===== verification/Ingest_Stream.thy ===== *)
theory Ingest_Stream
  imports Sse_Frames
begin

text \<open>
  The stream of an ingest job, \<open>features/ingest/hooks/useIngestStream.ts\<close>: the state of the hook, \<open>run\<close>
  cut at its \<open>await\<close>s, and \<open>stop\<close>. \<open>ij_abort\<close> is \<open>abortRef\<close>, \<open>ij_flights\<close> are the calls of \<open>run\<close> that
  have not returned, each with its controller and its buffer. \<open>parse\<close> stands for \<open>JSON.parse\<close>.
\<close>

section \<open>Definitions\<close>

datatype IngestEvent =
  Job_started string "string list" | Job_log string | Job_completed "string option" "(string \<times> nat) list"
  | Job_error string

record ingest_options =
  io_tables :: "string list option"
  io_writeDisposition :: "string option"
  io_fullRefresh :: "bool option"

record ingest_request =
  iq_source :: string
  iq_tables :: "string list option"
  iq_writeDisposition :: "string option"
  iq_fullRefresh :: bool

record ingest_state =
  ij_logs :: "string list"
  ij_running :: bool
  ij_result :: "IngestEvent option"
  ij_abort :: "nat option"
  ij_aborted :: "nat list"
  ij_flights :: "(nat \<times> string) list"
  ij_next :: nat
  ij_requests :: "ingest_request list"

definition ingestStart :: ingest_state where
  "ingestStart = \<lparr>ij_logs = [], ij_running = False, ij_result = None, ij_abort = None, ij_aborted = [],
     ij_flights = [], ij_next = 0, ij_requests = []\<rparr>"

definition stopIngest :: "ingest_state \<Rightarrow> ingest_state" where
  "stopIngest s =
     s\<lparr>ij_aborted := (case ij_abort s of None \<Rightarrow> ij_aborted s | Some c \<Rightarrow> c # ij_aborted s),
       ij_abort := None, ij_running := False\<rparr>"

text \<open>\<open>run\<close> up to its first \<open>await\<close>; the request it then sends is recorded at once.\<close>

definition runIngest :: "string \<Rightarrow> ingest_options \<Rightarrow> ingest_state \<Rightarrow> ingest_state" where
  "runIngest sourceId options s =
     (if ij_abort s \<noteq> None then s
      else
        let c = ij_next s
        in s\<lparr>ij_next := Suc c, ij_abort := Some c, ij_logs := [], ij_result := None, ij_running := True,
             ij_flights := ij_flights s @ [(c, '''')],
             ij_requests := ij_requests s @
               [\<lparr>iq_source = sourceId, iq_tables = io_tables options,
                  iq_writeDisposition = io_writeDisposition options,
                  iq_fullRefresh = nullish (io_fullRefresh options) False\<rparr>]\<rparr>)"

text \<open>The \<open>finally\<close>.\<close>

definition finishIngest :: "nat \<Rightarrow> ingest_state \<Rightarrow> ingest_state" where
  "finishIngest c s =
     s\<lparr>ij_abort := None, ij_running := False, ij_flights := filter (\<lambda>(d, _). d \<noteq> c) (ij_flights s)\<rparr>"

definition refusedIngest :: "nat \<Rightarrow> nat \<Rightarrow> string option \<Rightarrow> ingest_state \<Rightarrow> ingest_state" where
  "refusedIngest c status detail s =
     finishIngest c
       (s\<lparr>ij_result := Some (Job_error
            (if truthy detail then nullish detail '''' else ''Ingest failed: '' @ show_nat status))\<rparr>)"

definition failedIngest :: "nat \<Rightarrow> string \<Rightarrow> ingest_state \<Rightarrow> ingest_state" where
  "failedIngest c msg s = finishIngest c (s\<lparr>ij_result := Some (Job_error msg)\<rparr>)"

definition onEvent :: "IngestEvent \<Rightarrow> ingest_state \<Rightarrow> ingest_state" where
  "onEvent event s =
     (case event of
        Job_log message \<Rightarrow> s\<lparr>ij_logs := ij_logs s @ [message]\<rparr>
      | Job_started dataset tables \<Rightarrow>
          s\<lparr>ij_logs := ij_logs s @ [''Loading '' @ join '', '' tables @ '' into '' @ dataset]\<rparr>
      | _ \<Rightarrow> s\<lparr>ij_result := Some event\<rparr>)"

definition jobEvents :: "(string \<Rightarrow> 'e option) \<Rightarrow> string list \<Rightarrow> 'e list" where
  "jobEvents parse ls =
     List.map_filter (\<lambda>line. case dataLine line of None \<Rightarrow> None | Some payload \<Rightarrow> parse payload) ls"

definition receiveIngest :: "(string \<Rightarrow> IngestEvent option) \<Rightarrow> nat \<Rightarrow> string \<Rightarrow> ingest_state \<Rightarrow> ingest_state" where
  "receiveIngest parse c chunk s =
     (case map_of (ij_flights s) c of
        None \<Rightarrow> s
      | Some buffer \<Rightarrow>
          let (ls, rest) = feed (split_on nl) buffer chunk;
              s = fold onEvent (jobEvents parse ls) s
          in s\<lparr>ij_flights := map (\<lambda>(d, b). (d, if d = c then rest else b)) (ij_flights s)\<rparr>)"

subsection \<open>Runs\<close>

datatype ingest_action =
  RunJob string ingest_options | StopJob | RefusedJob nat nat "string option" | ChunkJob nat string
  | EndedJob nat | FailedJob nat string | AbortedJob nat

fun ingestEnabled :: "ingest_action \<Rightarrow> ingest_state \<Rightarrow> bool" where
  "ingestEnabled (RunJob sourceId options) s \<longleftrightarrow> True"
| "ingestEnabled StopJob s \<longleftrightarrow> True"
| "ingestEnabled (RefusedJob c status detail) s \<longleftrightarrow> c \<in> fst ` set (ij_flights s)"
| "ingestEnabled (ChunkJob c chunk) s \<longleftrightarrow> c \<in> fst ` set (ij_flights s)"
| "ingestEnabled (EndedJob c) s \<longleftrightarrow> c \<in> fst ` set (ij_flights s)"
| "ingestEnabled (FailedJob c msg) s \<longleftrightarrow> c \<in> fst ` set (ij_flights s) \<and> c \<notin> set (ij_aborted s)"
| "ingestEnabled (AbortedJob c) s \<longleftrightarrow> c \<in> fst ` set (ij_flights s) \<and> c \<in> set (ij_aborted s)"

fun ingestStep :: "(string \<Rightarrow> IngestEvent option) \<Rightarrow> ingest_action \<Rightarrow> ingest_state \<Rightarrow> ingest_state" where
  "ingestStep parse (RunJob sourceId options) s = runIngest sourceId options s"
| "ingestStep parse StopJob s = stopIngest s"
| "ingestStep parse (RefusedJob c status detail) s = refusedIngest c status detail s"
| "ingestStep parse (ChunkJob c chunk) s = receiveIngest parse c chunk s"
| "ingestStep parse (EndedJob c) s = finishIngest c s"
| "ingestStep parse (FailedJob c msg) s = failedIngest c msg s"
| "ingestStep parse (AbortedJob c) s = finishIngest c s"

text \<open>The reachable states; \<open>stops\<close> tells whether \<open>stop\<close> may be used.\<close>

inductive ingestReachable :: "(string \<Rightarrow> IngestEvent option) \<Rightarrow> bool \<Rightarrow> ingest_state \<Rightarrow> bool" for parse stops where
  ingest_start: "ingestReachable parse stops ingestStart"
| ingest_step: "ingestReachable parse stops s \<Longrightarrow> ingestEnabled a s \<Longrightarrow> (a = StopJob \<Longrightarrow> stops) \<Longrightarrow>
     ingestReachable parse stops (ingestStep parse a s)"

section \<open>Lemmas\<close>

lemma onEvent_rest [simp]:
  "ij_flights (onEvent e s) = ij_flights s" "ij_running (onEvent e s) = ij_running s"
  "ij_abort (onEvent e s) = ij_abort s"
  by (simp_all add: onEvent_def split: IngestEvent.split)

lemma fold_onEvent_rest [simp]:
  "ij_flights (fold onEvent es s) = ij_flights s" "ij_running (fold onEvent es s) = ij_running s"
  "ij_abort (fold onEvent es s) = ij_abort s"
  by (induction es arbitrary: s) simp_all

lemma onEvent_flights: "onEvent e (s\<lparr>ij_flights := fl\<rparr>) = (onEvent e s)\<lparr>ij_flights := fl\<rparr>"
  by (simp add: onEvent_def split: IngestEvent.split)

lemma fold_onEvent_flights: "fold onEvent es (s\<lparr>ij_flights := fl\<rparr>) = (fold onEvent es s)\<lparr>ij_flights := fl\<rparr>"
  by (induction es arbitrary: s) (simp_all add: onEvent_flights)

text \<open>The lines that an event adds to the log.\<close>

definition logLines :: "IngestEvent \<Rightarrow> string list" where
  "logLines event =
     (case event of
        Job_log message \<Rightarrow> [message]
      | Job_started dataset tables \<Rightarrow> [''Loading '' @ join '', '' tables @ '' into '' @ dataset]
      | _ \<Rightarrow> [])"

lemma fold_onEvent_logs: "ij_logs (fold onEvent es s) = ij_logs s @ concat (map logLines es)"
  by (induction es arbitrary: s) (simp_all add: onEvent_def logLines_def split: IngestEvent.split)

lemma jobEvents_append: "jobEvents parse (xs @ ys) = jobEvents parse xs @ jobEvents parse ys"
  by (simp add: jobEvents_def map_filter_def)

lemma receiveIngest_run:
  assumes "ij_flights s = [(c, b)]"
  shows "fold (receiveIngest parse c) chunks s =
           (fold onEvent (jobEvents parse (fst (readAll (split_on nl) b chunks))) s)
             \<lparr>ij_flights := [(c, snd (readAll (split_on nl) b chunks))]\<rparr>"
  using assms
proof (induction chunks arbitrary: s b)
  case Nil
  then show ?case by (simp add: jobEvents_def map_filter_def)
next
  case (Cons chunk chunks)
  let ?p = "feed (split_on nl) b chunk"
  let ?t = "(fold onEvent (jobEvents parse (fst ?p)) s)\<lparr>ij_flights := [(c, snd ?p)]\<rparr>"
  have "receiveIngest parse c chunk s = ?t"
    using Cons.prems by (simp add: receiveIngest_def case_prod_beta)
  with Cons.IH [of ?t "snd ?p"] show ?case
    by (simp add: case_prod_beta fold_onEvent_flights jobEvents_append)
qed

text \<open>One job at a time, as long as no job is stopped.\<close>

definition singleJob :: "ingest_state \<Rightarrow> bool" where
  "singleJob s \<longleftrightarrow>
     map fst (ij_flights s) = (case ij_abort s of None \<Rightarrow> [] | Some c \<Rightarrow> [c]) \<and>
     (ij_running s \<longleftrightarrow> ij_abort s \<noteq> None)"

lemma singleJob_finish: "singleJob s \<Longrightarrow> c \<in> fst ` set (ij_flights s) \<Longrightarrow> singleJob (finishIngest c s)"
  by (auto simp: singleJob_def finishIngest_def map_eq_Cons_conv split: option.splits)

lemma singleJob_result [simp]: "singleJob (s\<lparr>ij_result := r\<rparr>) = singleJob s"
  by (simp add: singleJob_def)

lemma singleJob_run: "singleJob s \<Longrightarrow> singleJob (runIngest sourceId options s)"
  by (auto simp: singleJob_def runIngest_def Let_def split: option.splits)

lemma singleJob_receive: "singleJob s \<Longrightarrow> singleJob (receiveIngest parse c chunk s)"
  by (auto simp: singleJob_def receiveIngest_def case_prod_beta comp_def split: option.splits)

lemma singleJob_step:
  "singleJob s \<Longrightarrow> ingestEnabled a s \<Longrightarrow> a \<noteq> StopJob \<Longrightarrow> singleJob (ingestStep parse a s)"
  by (cases a) (simp_all add: singleJob_run singleJob_receive singleJob_finish refusedIngest_def failedIngest_def)

lemma singleJob_reachable: "ingestReachable parse False s \<Longrightarrow> singleJob s"
proof (induction rule: ingestReachable.induct)
  case ingest_start
  show ?case by (simp add: singleJob_def ingestStart_def)
next
  case (ingest_step s a)
  then show ?case by (blast intro: singleJob_step)
qed

section \<open>Properties\<close>

text \<open>
  The log of a job is the one its events give: from a fresh run, the lines of the log are the messages
  of the complete lines of the response, in order, however the response was cut, and while no job is
  stopped there is one job at a time and the panel shows that it runs.
\<close>

lemma ingest_log_complete:
  assumes "ingestReachable parse False s" "ij_abort s = None"
  shows "ij_logs (fold (receiveIngest parse (ij_next s)) chunks (runIngest sourceId options s)) =
           concat (map logLines (jobEvents parse (butlast (split_on nl (concat chunks))))) \<and>
         length (ij_flights (fold (receiveIngest parse (ij_next s)) chunks (runIngest sourceId options s))) = 1 \<and>
         ij_running (fold (receiveIngest parse (ij_next s)) chunks (runIngest sourceId options s))"
proof -
  let ?t = "runIngest sourceId options s"
  have "ij_flights s = []" using singleJob_reachable [OF assms(1)] assms(2) by (simp add: singleJob_def)
  then have flights: "ij_flights ?t = [(ij_next s, '''')]" and running: "ij_running ?t" and logs: "ij_logs ?t = []"
    using assms(2) by (simp_all add: runIngest_def Let_def)
  have run: "fold (receiveIngest parse (ij_next s)) chunks ?t =
      (fold onEvent (jobEvents parse (butlast (split_on nl (concat chunks)))) ?t)
        \<lparr>ij_flights := [(ij_next s, last (split_on nl (concat chunks)))]\<rparr>"
    using receiveIngest_run [OF flights, of parse chunks] by (simp add: lines.readAll_concat feed_def Let_def)
  show ?thesis using run running logs by (simp add: fold_onEvent_logs)
qed

text \<open>
  A job started right after another one was stopped is orphaned when the stopped one winds up: it is
  still being read while the panel shows that nothing runs, \<open>stop\<close> does not reach it, and another job can
  be started beside it.
\<close>

lemma restarted_job_orphaned:
  "\<exists>s. ingestReachable parse True s \<and> ij_flights s = [(1, '''')] \<and> ij_running s = False \<and>
       stopIngest s = s \<and> map fst (ij_flights (runIngest sourceId options s)) = [1, 2]"
proof -
  let ?step = "ingestStep parse"
  let ?s = "?step (AbortedJob 0) (?step (RunJob sourceId options) (?step StopJob (?step (RunJob sourceId options) ingestStart)))"
  have "ingestReachable parse True ?s"
    by (intro ingest_step ingest_start) (simp_all add: runIngest_def stopIngest_def ingestStart_def Let_def)
  then show ?thesis
    by (intro exI [of _ ?s] conjI)
      (simp_all add: runIngest_def stopIngest_def finishIngest_def ingestStart_def Let_def)
qed

end
