(* ===== verification/File_Watcher.thy ===== *)
theory File_Watcher
  imports Js_Prelude
begin

text \<open>
  The file watcher, \<open>entities/file/hooks/useFileWatcher.ts\<close>: an \<open>EventSource\<close> that is opened when the
  component mounts, closed on an error and opened again by a timer, and the operations \<open>disconnect\<close> and
  \<open>reconnect\<close>. \<open>fw_es\<close> is \<open>esRef\<close>, \<open>fw_timeout\<close> is \<open>reconnectTimeoutRef\<close>; \<open>fw_open\<close> are the sources that
  are open and \<open>fw_timers\<close> the timers that will call \<open>connect\<close>, whether or not a reference holds them.
\<close>

section \<open>Definitions\<close>

datatype watcher_event_type = W_created | W_modified | W_deleted | W_moved | W_connected | W_error | W_ping

record FileWatcherEvent =
  we_type :: watcher_event_type
  we_path :: "string option"
  we_new_path :: "string option"

datatype watcher_call = OnEvent FileWatcherEvent | OnConnect | OnDisconnect

record watcher_state =
  fw_mounted :: bool
  fw_connected :: bool
  fw_es :: "nat option"
  fw_shouldConnect :: bool
  fw_timeout :: "nat option"
  fw_open :: "nat list"
  fw_timers :: "nat list"
  fw_next :: nat
  fw_calls :: "watcher_call list"

definition watcherStart :: watcher_state where
  "watcherStart = \<lparr>fw_mounted = False, fw_connected = False, fw_es = None, fw_shouldConnect = True,
     fw_timeout = None, fw_open = [], fw_timers = [], fw_next = 0, fw_calls = []\<rparr>"

definition clearTimer :: "watcher_state \<Rightarrow> watcher_state" where
  "clearTimer s =
     (case fw_timeout s of None \<Rightarrow> s | Some t \<Rightarrow> s\<lparr>fw_timers := filter (\<lambda>u. u \<noteq> t) (fw_timers s)\<rparr>)"

definition closeSource :: "watcher_state \<Rightarrow> watcher_state" where
  "closeSource s =
     (case fw_es s of
        None \<Rightarrow> s
      | Some e \<Rightarrow> s\<lparr>fw_open := filter (\<lambda>f. f \<noteq> e) (fw_open s), fw_es := None\<rparr>)"

definition connect :: "string \<Rightarrow> watcher_state \<Rightarrow> watcher_state" where
  "connect projectId s =
     (if projectId = '''' \<or> fw_es s \<noteq> None then s
      else
        let s = (clearTimer s)\<lparr>fw_timeout := None\<rparr>;
            es = fw_next s
        in s\<lparr>fw_next := Suc es, fw_open := es # fw_open s, fw_es := Some es\<rparr>)"

definition onOpen :: "watcher_state \<Rightarrow> watcher_state" where
  "onOpen s = s\<lparr>fw_connected := True, fw_calls := fw_calls s @ [OnConnect]\<rparr>"

text \<open>\<open>onmessage\<close>: a message that does not parse is \<open>None\<close>.\<close>

definition onMessage :: "FileWatcherEvent option \<Rightarrow> watcher_state \<Rightarrow> watcher_state" where
  "onMessage data s =
     (case data of
        None \<Rightarrow> s
      | Some event \<Rightarrow>
          if we_type event = W_connected \<or> we_type event = W_ping then s
          else s\<lparr>fw_calls := fw_calls s @ [OnEvent event]\<rparr>)"

definition onError :: "bool \<Rightarrow> watcher_state \<Rightarrow> watcher_state" where
  "onError autoReconnect s =
     (let s = closeSource (s\<lparr>fw_connected := False\<rparr>);
          s = s\<lparr>fw_calls := fw_calls s @ [OnDisconnect]\<rparr>
      in if autoReconnect \<and> fw_shouldConnect s then
           let t = fw_next s in s\<lparr>fw_next := Suc t, fw_timers := t # fw_timers s, fw_timeout := Some t\<rparr>
         else s)"

definition disconnect :: "watcher_state \<Rightarrow> watcher_state" where
  "disconnect s =
     (let s = (clearTimer (s\<lparr>fw_shouldConnect := False\<rparr>))\<lparr>fw_timeout := None\<rparr>
      in (closeSource s)\<lparr>fw_connected := False\<rparr>)"

definition reconnect :: "watcher_state \<Rightarrow> watcher_state" where
  "reconnect s =
     (let s = (disconnect s)\<lparr>fw_shouldConnect := True\<rparr>;
          t = fw_next s
      in s\<lparr>fw_next := Suc t, fw_timers := t # fw_timers s\<rparr>)"

text \<open>The effect and its cleanup, and a timer that fires.\<close>

definition mountWatcher :: "string \<Rightarrow> watcher_state \<Rightarrow> watcher_state" where
  "mountWatcher projectId s = connect projectId (s\<lparr>fw_mounted := True, fw_shouldConnect := True\<rparr>)"

definition unmountWatcher :: "watcher_state \<Rightarrow> watcher_state" where
  "unmountWatcher s = closeSource (clearTimer (s\<lparr>fw_mounted := False, fw_shouldConnect := False\<rparr>))"

definition fireTimer :: "string \<Rightarrow> nat \<Rightarrow> watcher_state \<Rightarrow> watcher_state" where
  "fireTimer projectId t s = connect projectId (s\<lparr>fw_timers := filter (\<lambda>u. u \<noteq> t) (fw_timers s)\<rparr>)"

subsection \<open>Runs\<close>

datatype watcher_action =
  MountWatcher | UnmountWatcher | SourceOpen nat | SourceMessage nat "FileWatcherEvent option" | SourceError nat
  | Fire nat | Disconnect | Reconnect

fun watcherEnabled :: "watcher_action \<Rightarrow> watcher_state \<Rightarrow> bool" where
  "watcherEnabled MountWatcher s \<longleftrightarrow> \<not> fw_mounted s"
| "watcherEnabled UnmountWatcher s \<longleftrightarrow> fw_mounted s"
| "watcherEnabled (SourceOpen e) s \<longleftrightarrow> e \<in> set (fw_open s)"
| "watcherEnabled (SourceMessage e data) s \<longleftrightarrow> e \<in> set (fw_open s)"
| "watcherEnabled (SourceError e) s \<longleftrightarrow> e \<in> set (fw_open s)"
| "watcherEnabled (Fire t) s \<longleftrightarrow> t \<in> set (fw_timers s)"
| "watcherEnabled Disconnect s \<longleftrightarrow> fw_mounted s"
| "watcherEnabled Reconnect s \<longleftrightarrow> fw_mounted s"

fun watcherStep :: "string \<Rightarrow> bool \<Rightarrow> watcher_action \<Rightarrow> watcher_state \<Rightarrow> watcher_state" where
  "watcherStep projectId autoReconnect MountWatcher s = mountWatcher projectId s"
| "watcherStep projectId autoReconnect UnmountWatcher s = unmountWatcher s"
| "watcherStep projectId autoReconnect (SourceOpen e) s = onOpen s"
| "watcherStep projectId autoReconnect (SourceMessage e data) s = onMessage data s"
| "watcherStep projectId autoReconnect (SourceError e) s = onError autoReconnect s"
| "watcherStep projectId autoReconnect (Fire t) s = fireTimer projectId t s"
| "watcherStep projectId autoReconnect Disconnect s = disconnect s"
| "watcherStep projectId autoReconnect Reconnect s = reconnect s"

text \<open>The reachable states; \<open>manual\<close> tells whether \<open>reconnect\<close> may be used.\<close>

inductive watcherReachable :: "string \<Rightarrow> bool \<Rightarrow> bool \<Rightarrow> watcher_state \<Rightarrow> bool"
  for projectId autoReconnect manual
where
  watcher_start: "watcherReachable projectId autoReconnect manual watcherStart"
| watcher_step: "watcherReachable projectId autoReconnect manual s \<Longrightarrow> watcherEnabled a s \<Longrightarrow>
     (a = Reconnect \<Longrightarrow> manual) \<Longrightarrow> watcherReachable projectId autoReconnect manual (watcherStep projectId autoReconnect a s)"

section \<open>Lemmas\<close>

text \<open>The open sources are the one that the reference holds.\<close>

definition sourceOk :: "watcher_state \<Rightarrow> bool" where
  "sourceOk s \<longleftrightarrow> fw_open s = (case fw_es s of None \<Rightarrow> [] | Some e \<Rightarrow> [e])"

lemma watcher_sel [simp]:
  "fw_es (clearTimer s) = fw_es s" "fw_open (clearTimer s) = fw_open s" "fw_next (clearTimer s) = fw_next s"
  "fw_shouldConnect (clearTimer s) = fw_shouldConnect s" "fw_timeout (clearTimer s) = fw_timeout s"
  "fw_es (closeSource s) = None" "fw_timers (closeSource s) = fw_timers s" "fw_next (closeSource s) = fw_next s"
  "fw_shouldConnect (closeSource s) = fw_shouldConnect s" "fw_timeout (closeSource s) = fw_timeout s"
  by (simp_all add: clearTimer_def closeSource_def split: option.split)

lemma closeSource_ok: "sourceOk s \<Longrightarrow> fw_open (closeSource s) = []"
  by (auto simp: sourceOk_def closeSource_def split: option.splits)

lemma sourceOk_step: "sourceOk s \<Longrightarrow> sourceOk (watcherStep p auto a s)"
proof (cases a)
  case (SourceMessage e data)
  then show "sourceOk s \<Longrightarrow> ?thesis" by (simp add: onMessage_def sourceOk_def split: option.split)
next
  case (SourceError e)
  then show "sourceOk s \<Longrightarrow> ?thesis"
    using closeSource_ok [of "s\<lparr>fw_connected := False\<rparr>"] by (simp add: onError_def Let_def sourceOk_def)
next
  case UnmountWatcher
  then show "sourceOk s \<Longrightarrow> ?thesis"
    using closeSource_ok [of "clearTimer (s\<lparr>fw_mounted := False, fw_shouldConnect := False\<rparr>)"]
    by (simp add: unmountWatcher_def sourceOk_def)
next
  case Disconnect
  then show "sourceOk s \<Longrightarrow> ?thesis"
    using closeSource_ok [of "(clearTimer (s\<lparr>fw_shouldConnect := False\<rparr>))\<lparr>fw_timeout := None\<rparr>"]
    by (simp add: disconnect_def Let_def sourceOk_def)
next
  case Reconnect
  then show "sourceOk s \<Longrightarrow> ?thesis"
    using closeSource_ok [of "(clearTimer (s\<lparr>fw_shouldConnect := False\<rparr>))\<lparr>fw_timeout := None\<rparr>"]
    by (simp add: reconnect_def disconnect_def Let_def sourceOk_def)
qed (simp_all add: sourceOk_def mountWatcher_def fireTimer_def connect_def onOpen_def Let_def split: option.splits)

lemma sourceOk_reachable: "watcherReachable p auto manual s \<Longrightarrow> sourceOk s"
proof (induction rule: watcherReachable.induct)
  case watcher_start
  show ?case by (simp add: sourceOk_def watcherStart_def)
next
  case (watcher_step s a)
  then show ?case by (blast intro: sourceOk_step)
qed

text \<open>Without \<open>reconnect\<close>, a pending timer is the one that the reference holds, and no source is open.\<close>

definition timersOk :: "watcher_state \<Rightarrow> bool" where
  "timersOk s \<longleftrightarrow> set (fw_timers s) \<subseteq> set_option (fw_timeout s) \<and> (fw_timers s \<noteq> [] \<longrightarrow> fw_es s = None)"

lemma clearTimer_ok: "timersOk s \<Longrightarrow> fw_timers (clearTimer s) = []"
  by (cases "fw_timeout s") (auto simp: timersOk_def clearTimer_def filter_empty_conv)

lemma timersOk_connect: "timersOk s \<Longrightarrow> timersOk (connect p s)"
  using clearTimer_ok [of s] by (auto simp: connect_def Let_def timersOk_def)

lemma timersOk_cong: "fw_timers s = fw_timers t \<Longrightarrow> fw_timeout s = fw_timeout t \<Longrightarrow> fw_es s = fw_es t \<Longrightarrow> timersOk s = timersOk t"
  by (simp add: timersOk_def)

lemma timersOk_step:
  assumes "timersOk s" "sourceOk s" "watcherEnabled a s" "a \<noteq> Reconnect"
  shows "timersOk (watcherStep p auto a s)"
proof (cases a)
  case MountWatcher
  have "timersOk (s\<lparr>fw_mounted := True, fw_shouldConnect := True\<rparr>)"
    using assms(1) by (simp add: timersOk_def)
  then show ?thesis by (simp add: MountWatcher mountWatcher_def timersOk_connect)
next
  case UnmountWatcher
  then show ?thesis
    using assms(1) clearTimer_ok [of "s\<lparr>fw_mounted := False, fw_shouldConnect := False\<rparr>"]
    by (simp add: unmountWatcher_def timersOk_def)
next
  case (SourceError e)
  then have "fw_es s \<noteq> None" using assms(2,3) by (auto simp: sourceOk_def split: option.splits)
  then have "fw_timers s = []" using assms(1) by (auto simp: timersOk_def)
  then show ?thesis by (simp add: SourceError onError_def Let_def timersOk_def)
next
  case (Fire t)
  have "timersOk (s\<lparr>fw_timers := filter (\<lambda>u. u \<noteq> t) (fw_timers s)\<rparr>)"
    using assms(1) by (auto simp: timersOk_def)
  then show ?thesis by (simp add: Fire fireTimer_def timersOk_connect)
next
  case Disconnect
  then show ?thesis
    using assms(1) clearTimer_ok [of "s\<lparr>fw_shouldConnect := False\<rparr>"]
    by (simp add: disconnect_def Let_def timersOk_def)
qed (use assms in \<open>auto simp: onOpen_def onMessage_def timersOk_def split: option.split\<close>)

lemma timersOk_reachable: "watcherReachable p auto False s \<Longrightarrow> timersOk s"
proof (induction rule: watcherReachable.induct)
  case watcher_start
  show ?case by (simp add: timersOk_def watcherStart_def)
next
  case (watcher_step s a)
  then show ?case by (blast intro: timersOk_step sourceOk_reachable)
qed

section \<open>Properties\<close>

text \<open>
  C33. There is never more than one connection: every open source is the one the hook refers to. As long as
  \<open>reconnect\<close> is not called, leaving the component closes it and leaves no timer that would open another.
\<close>

theorem watcher_quiet_after_unmount:
  assumes "watcherReachable projectId autoReconnect manual s"
  shows "length (fw_open s) \<le> 1 \<and> (\<forall>e. e \<in> set (fw_open s) \<longleftrightarrow> fw_es s = Some e) \<and>
         fw_open (unmountWatcher s) = [] \<and> fw_open (disconnect s) = [] \<and>
         (manual \<or> fw_timers (unmountWatcher s) = [] \<and> fw_timers (disconnect s) = [])"
proof -
  have ok: "sourceOk s" using assms by (rule sourceOk_reachable)
  then have "length (fw_open s) \<le> 1" "\<forall>e. e \<in> set (fw_open s) \<longleftrightarrow> fw_es s = Some e"
    by (auto simp: sourceOk_def split: option.splits)
  moreover have "fw_open (unmountWatcher s) = []" "fw_open (disconnect s) = []"
    using ok closeSource_ok [of "clearTimer (s\<lparr>fw_mounted := False, fw_shouldConnect := False\<rparr>)"]
      closeSource_ok [of "(clearTimer (s\<lparr>fw_shouldConnect := False\<rparr>))\<lparr>fw_timeout := None\<rparr>"]
    by (simp_all add: unmountWatcher_def disconnect_def Let_def sourceOk_def)
  moreover have "fw_timers (unmountWatcher s) = [] \<and> fw_timers (disconnect s) = []" if "\<not> manual"
  proof -
    have "timersOk s" using assms that timersOk_reachable by (cases manual) auto
    then show ?thesis
      using clearTimer_ok [of "s\<lparr>fw_mounted := False, fw_shouldConnect := False\<rparr>"]
        clearTimer_ok [of "s\<lparr>fw_shouldConnect := False\<rparr>"]
      by (simp add: unmountWatcher_def disconnect_def Let_def timersOk_def)
  qed
  ultimately show ?thesis by blast
qed

theorem watcher_quiet_after_unmount_witness:
  "fw_open (mountWatcher ''p'' watcherStart) = [0] \<and> fw_open (unmountWatcher (mountWatcher ''p'' watcherStart)) = [] \<and>
   fw_timers (unmountWatcher (mountWatcher ''p'' watcherStart)) = []"
proof -
  have "watcherReachable ''p'' True False (watcherStep ''p'' True MountWatcher watcherStart)"
    by (intro watcher_step watcher_start) (simp_all add: watcherStart_def)
  from watcher_quiet_after_unmount [OF this] show ?thesis
    by (simp add: mountWatcher_def connect_def clearTimer_def watcherStart_def)
qed

text \<open>
  C34. A lost connection comes back: after an error in a mounted component that wants a connection, a timer
  is pending, and when it fires a new source is open.
\<close>

theorem watcher_reconnects:
  assumes "watcherReachable projectId True manual s" "projectId \<noteq> ''''" "fw_shouldConnect s" "e \<in> set (fw_open s)"
  shows "let s' = onError True s; t = fw_next s
         in fw_timeout s' = Some t \<and> watcherEnabled (Fire t) s' \<and> fw_open s' = [] \<and>
            fw_open (fireTimer projectId t s') = [Suc t]"
proof -
  have "sourceOk s" using assms(1) by (rule sourceOk_reachable)
  then have "fw_open (closeSource (s\<lparr>fw_connected := False\<rparr>)) = []"
    by (intro closeSource_ok) (simp add: sourceOk_def)
  then show ?thesis
    using assms(2,3) by (simp add: onError_def fireTimer_def connect_def Let_def)
qed

theorem watcher_reconnects_witness:
  "fw_open (fireTimer ''p'' 1 (onError True (mountWatcher ''p'' watcherStart))) = [2]"
proof -
  have r: "watcherReachable ''p'' True False (watcherStep ''p'' True MountWatcher watcherStart)"
    by (intro watcher_step watcher_start) (simp_all add: watcherStart_def)
  from watcher_reconnects [OF r, of 0] show ?thesis
    by (simp add: mountWatcher_def connect_def clearTimer_def watcherStart_def Let_def)
qed

text \<open>
  The timer of \<open>reconnect\<close> outlives the component: it is held by no reference, so leaving the component
  does not cancel it, and it opens a source that nothing closes afterwards.
\<close>

lemma reconnect_after_unmount:
  "\<exists>s. watcherReachable ''p'' autoReconnect True s \<and> \<not> fw_mounted s \<and> fw_open s = [2] \<and> \<not> fw_shouldConnect s"
proof -
  let ?step = "watcherStep ''p'' autoReconnect"
  let ?s = "?step (Fire 1) (?step UnmountWatcher (?step Reconnect (?step MountWatcher watcherStart)))"
  have "watcherReachable ''p'' autoReconnect True ?s"
    by (intro watcher_step watcher_start)
      (simp_all add: watcherStart_def mountWatcher_def connect_def clearTimer_def reconnect_def disconnect_def
        closeSource_def unmountWatcher_def Let_def)
  then show ?thesis
    by (intro exI [of _ ?s])
      (simp add: watcherStart_def mountWatcher_def connect_def clearTimer_def reconnect_def disconnect_def
        closeSource_def unmountWatcher_def fireTimer_def Let_def)
qed

end
