(* ===== verification/Auth.thy ===== *)
theory Auth
  imports Js_Prelude
begin

text \<open>
  Signing in: OIDC discovery with its cache (\<open>server/auth/oidc.ts\<close>), the refresh of an access token
  (\<open>server/auth/auth-refresh.ts\<close>), the user row behind an identity and the two callbacks of Auth.js
  (\<open>server/auth/auth.ts\<close>), and the public origin of a request (\<open>server/origin.ts\<close>).

  The identity provider is an argument: \<open>fetchDocument\<close> answers a request for the discovery document and
  \<open>fetchToken\<close> one to the token endpoint, or they throw; Auth.js itself is not modelled. Times are
  milliseconds; a number that is missing or not a number is \<open>None\<close>, as every reader of it takes both alike.
\<close>

section \<open>Definitions\<close>

subsection \<open>auth-constants.ts\<close>

definition LOCAL_SUB :: string where
  "LOCAL_SUB = ''local-user''"

definition LOCAL_EMAIL :: string where
  "LOCAL_EMAIL = ''local@dbt-craft.local''"

definition LOCAL_NAME :: string where
  "LOCAL_NAME = ''Local User''"

subsection \<open>oidc.ts\<close>

record OidcDiscovery =
  od_token_endpoint :: string
  od_end_session_endpoint :: "string option"

type_synonym oidc_cache = "(string \<times> OidcDiscovery) option"

text \<open>The status of the answer, and the two members of the document when it parses.\<close>

type_synonym document_fetch = "string \<Rightarrow> (nat \<times> (string option \<times> string option) option) result"

definition dropSlash :: "string \<Rightarrow> string" where
  "dropSlash s = (if s \<noteq> '''' \<and> last s = CHR ''/'' then butlast s else s)"

definition oidcIssuer :: "string option \<Rightarrow> string result" where
  "oidcIssuer OIDC_ISSUER =
     (if truthy OIDC_ISSUER then Inr (dropSlash (nullish OIDC_ISSUER ''''))
      else throw ''OIDC_ISSUER is not configured'')"

definition okStatus :: "nat \<Rightarrow> bool" where
  "okStatus status \<longleftrightarrow> 200 \<le> status \<and> status \<le> 299"

definition readDocument :: "string \<Rightarrow> nat \<times> (string option \<times> string option) option \<Rightarrow> OidcDiscovery result" where
  "readDocument url answer =
     (case answer of (status, body) \<Rightarrow>
        if \<not> okStatus status
        then throw (''OIDC discovery failed: '' @ url @ '' returned '' @ show_nat status)
        else case body of
               None \<Rightarrow> throw ''Unexpected token in JSON''
             | Some (endpoint, logout) \<Rightarrow>
                 if truthy endpoint
                 then Inr \<lparr>od_token_endpoint = nullish endpoint '''', od_end_session_endpoint = logout\<rparr>
                 else throw (''OIDC discovery document at '' @ url @ '' has no token_endpoint''))"

definition discoverOidc ::
  "string option \<Rightarrow> document_fetch \<Rightarrow> oidc_cache \<Rightarrow> OidcDiscovery result \<times> oidc_cache"
where
  "discoverOidc env fetchDocument cache =
     (case oidcIssuer env of
        Inl e \<Rightarrow> (Inl e, cache)
      | Inr issuer \<Rightarrow>
          if map_option fst cache = Some issuer then (Inr (snd (the cache)), cache)
          else
            let url = issuer @ ''/.well-known/openid-configuration''
            in case bindR (fetchDocument url) (readDocument url) of
                 Inl e \<Rightarrow> (Inl e, cache)
               | Inr document \<Rightarrow> (Inr document, Some (issuer, document)))"

subsection \<open>auth-refresh.ts\<close>

text \<open>What the token endpoint answers: whether it is ok, and the members of its document.\<close>

record token_reply =
  tr_ok :: bool
  tr_access_token :: "string option"
  tr_expires_in :: "int option"
  tr_refresh_token :: "string option"
  tr_id_token :: "string option"
  tr_error :: "string option"
  tr_error_description :: "string option"

text \<open>The endpoint and the fields of the form, without the client's own credentials.\<close>

type_synonym token_fetch = "string \<Rightarrow> (string \<times> string) list \<Rightarrow> token_reply result"

record idp =
  idp_issuer :: "string option"
  idp_document :: document_fetch
  idp_token :: token_fetch

definition refreshAccessToken :: "idp \<Rightarrow> string option \<Rightarrow> oidc_cache \<Rightarrow> token_reply result \<times> oidc_cache" where
  "refreshAccessToken p refreshToken cache =
     (if \<not> truthy refreshToken then (throw ''Missing refresh token'', cache)
      else case discoverOidc (idp_issuer p) (idp_document p) cache of
        (Inl e, cache) \<Rightarrow> (Inl e, cache)
      | (Inr document, cache) \<Rightarrow>
          (bindR (idp_token p (od_token_endpoint document)
                    [(''grant_type'', ''refresh_token''), (''refresh_token'', nullish refreshToken '''')])
             (\<lambda>refreshed.
                if tr_ok refreshed then Inr refreshed
                else throw (nullish (tr_error_description refreshed)
                              (nullish (tr_error refreshed) ''Failed to refresh access token''))),
           cache))"

subsection \<open>The user row\<close>

record user_row =
  ur_oidcSub :: string
  ur_email :: string
  ur_name :: "string option"

type_synonym users_table = "(string \<times> user_row) list"

definition findBy :: "('r \<Rightarrow> bool) \<Rightarrow> (string \<times> 'r) list \<Rightarrow> (string \<times> 'r) option" where
  "findBy P t = find (\<lambda>(_, r). P r) t"

definition changeUser :: "string \<Rightarrow> (user_row \<Rightarrow> user_row) \<Rightarrow> users_table \<Rightarrow> users_table" where
  "changeUser uid f t = map (\<lambda>(i, r). (i, if i = uid then f r else r)) t"

text \<open>
  \<open>db.user.upsert\<close> by the subject: \<open>P2002\<close> when the new row would take an e-mail address that is in use.
  \<open>newId\<close> is the identifier the database would give.
\<close>

definition upsertUser ::
  "string \<Rightarrow> string \<Rightarrow> string option \<Rightarrow> string \<Rightarrow> users_table \<Rightarrow> string result \<times> users_table"
where
  "upsertUser sub email name newId t =
     (case findBy (\<lambda>r. ur_oidcSub r = sub) t of
        Some (uid, _) \<Rightarrow> (Inr uid, changeUser uid (\<lambda>r. r\<lparr>ur_name := name\<rparr>) t)
      | None \<Rightarrow>
          if findBy (\<lambda>r. ur_email r = email) t \<noteq> None then (throw ''P2002'', t)
          else (Inr newId, t @ [(newId, \<lparr>ur_oidcSub = sub, ur_email = email, ur_name = name\<rparr>)]))"

definition ensureLocalUser :: "string \<Rightarrow> users_table \<Rightarrow> string result \<times> users_table" where
  "ensureLocalUser newId t = upsertUser LOCAL_SUB LOCAL_EMAIL (Some LOCAL_NAME) newId t"

definition ensureOidcUser ::
  "string \<Rightarrow> string \<Rightarrow> string option \<Rightarrow> string \<Rightarrow> users_table \<Rightarrow> string result \<times> users_table"
where
  "ensureOidcUser sub email name newId t =
     (case upsertUser sub email name newId t of
        (Inr uid, t) \<Rightarrow> (Inr uid, t)
      | (Inl e, t) \<Rightarrow>
          if e \<noteq> ''P2002'' then (Inl e, t)
          else case findBy (\<lambda>r. ur_email r = email) t of
                 None \<Rightarrow> (Inl e, t)
               | Some (uid, _) \<Rightarrow> (Inr uid, changeUser uid (\<lambda>r. r\<lparr>ur_oidcSub := sub, ur_name := name\<rparr>) t))"

subsection \<open>The callbacks\<close>

definition ACCESS_TOKEN_REFRESH_BUFFER_SECONDS :: int where
  "ACCESS_TOKEN_REFRESH_BUFFER_SECONDS = 60"

record jwt_token =
  tk_sub :: "string option"
  tk_email :: "string option"
  tk_name :: "string option"
  tk_userId :: "string option"
  tk_accessToken :: "string option"
  tk_idToken :: "string option"
  tk_refreshToken :: "string option"
  tk_accessTokenExpiresAt :: "int option"
  tk_error :: "string option"

record oauth_account =
  ac_access_token :: "string option"
  ac_id_token :: "string option"
  ac_refresh_token :: "string option"
  ac_expires_at :: "int option"
  ac_expires_in :: "int option"

definition seconds :: "int \<Rightarrow> int" where
  "seconds now = now div 1000"

definition withAccount :: "int \<Rightarrow> oauth_account \<Rightarrow> jwt_token \<Rightarrow> jwt_token" where
  "withAccount now account token =
     token\<lparr>tk_accessToken := ac_access_token account, tk_idToken := ac_id_token account,
       tk_refreshToken := ac_refresh_token account,
       tk_accessTokenExpiresAt :=
         (case ac_expires_at account of
            Some e \<Rightarrow> Some e
          | None \<Rightarrow> Some (seconds now + nullish (ac_expires_in account) 0)),
       tk_error := None\<rparr>"

definition unexpired :: "int \<Rightarrow> jwt_token \<Rightarrow> bool" where
  "unexpired now token \<longleftrightarrow>
     truthy (tk_accessToken token) \<and>
     (case tk_accessTokenExpiresAt token of
        None \<Rightarrow> False
      | Some e \<Rightarrow> e \<noteq> 0 \<and> now < (e - ACCESS_TOKEN_REFRESH_BUFFER_SECONDS) * 1000)"

definition withRefreshed :: "int \<Rightarrow> token_reply \<Rightarrow> jwt_token \<Rightarrow> jwt_token" where
  "withRefreshed now refreshed token =
     token\<lparr>tk_accessToken := tr_access_token refreshed,
       tk_accessTokenExpiresAt := map_option (\<lambda>n. seconds now + n) (tr_expires_in refreshed),
       tk_refreshToken := (case tr_refresh_token refreshed of None \<Rightarrow> tk_refreshToken token | Some r \<Rightarrow> Some r),
       tk_idToken := (case tr_id_token refreshed of None \<Rightarrow> tk_idToken token | Some i \<Rightarrow> Some i),
       tk_error := None\<rparr>"

definition renew :: "idp \<Rightarrow> int \<Rightarrow> jwt_token \<Rightarrow> oidc_cache \<Rightarrow> jwt_token \<times> oidc_cache" where
  "renew p now token cache =
     (if unexpired now token then (token, cache)
      else if truthy (tk_refreshToken token) then
        (case refreshAccessToken p (tk_refreshToken token) cache of
           (Inr refreshed, cache) \<Rightarrow> (withRefreshed now refreshed token, cache)
         | (Inl _, cache) \<Rightarrow> (token\<lparr>tk_error := Some ''AccessTokenRefreshError''\<rparr>, cache))
      else if truthy (tk_accessToken token) then (token\<lparr>tk_error := Some ''AccessTokenExpired''\<rparr>, cache)
      else (token, cache))"

text \<open>The state the callbacks work on: the users, the identifier of a new row, and the cache.\<close>

record auth_state =
  au_users :: users_table
  au_newId :: string
  au_cache :: oidc_cache

definition jwt ::
  "bool \<Rightarrow> idp \<Rightarrow> int \<Rightarrow> oauth_account option \<Rightarrow> jwt_token \<Rightarrow> auth_state \<Rightarrow> jwt_token result \<times> auth_state"
where
  "jwt AUTH_DISABLED p now account token s =
     (if AUTH_DISABLED then
        case ensureLocalUser (au_newId s) (au_users s) of
          (Inl e, t) \<Rightarrow> (Inl e, s\<lparr>au_users := t\<rparr>)
        | (Inr uid, t) \<Rightarrow>
            (Inr (token\<lparr>tk_userId := Some uid, tk_accessToken := Some ''local-no-auth'', tk_error := None\<rparr>),
             s\<lparr>au_users := t\<rparr>)
      else
        let token = (case account of None \<Rightarrow> token | Some a \<Rightarrow> withAccount now a token);
            (user, s) =
              (if truthy (tk_sub token) \<and> truthy (tk_email token) then
                 case ensureOidcUser (nullish (tk_sub token) '''') (nullish (tk_email token) '''') (tk_name token)
                        (au_newId s) (au_users s) of
                   (Inl e, t) \<Rightarrow> (Inl e, s\<lparr>au_users := t\<rparr>)
                 | (Inr uid, t) \<Rightarrow> (Inr (Some uid), s\<lparr>au_users := t\<rparr>)
               else (Inr (tk_userId token), s))
        in case user of
             Inl e \<Rightarrow> (Inl e, s)
           | Inr uid \<Rightarrow>
               let (token, cache) = renew p now (token\<lparr>tk_userId := uid\<rparr>) (au_cache s)
               in (Inr token, s\<lparr>au_cache := cache\<rparr>))"

record auth_session =
  se_userId :: "string option"
  se_accessToken :: "string option"
  se_idToken :: "string option"
  se_error :: "string option"

definition session_callback :: "jwt_token \<Rightarrow> auth_session" where
  "session_callback token =
     \<lparr>se_userId = tk_userId token,
      se_accessToken = (if truthy (tk_error token) then None else tk_accessToken token),
      se_idToken = (if truthy (tk_error token) then None else tk_idToken token),
      se_error = tk_error token\<rparr>"

subsection \<open>origin.ts\<close>

text \<open>\<open>header\<close> looks a request header up; \<open>ownOrigin\<close> is the origin of the address the server got.\<close>

definition publicOrigin :: "string option \<Rightarrow> (string \<Rightarrow> string option) \<Rightarrow> string \<Rightarrow> string" where
  "publicOrigin NEXTAUTH_URL header ownOrigin =
     (if truthy NEXTAUTH_URL then dropSlash (nullish NEXTAUTH_URL '''')
      else
        let host = (case header ''x-forwarded-host'' of None \<Rightarrow> header ''host'' | Some h \<Rightarrow> Some h)
        in if truthy host then
             nullish (header ''x-forwarded-proto'')
               (if startsWith (nullish host '''') ''localhost'' \<or> startsWith (nullish host '''') ''127.0.0.1''
                then ''http'' else ''https'') @ ''://'' @ nullish host ''''
           else ownOrigin)"

section \<open>Lemmas\<close>

subsection \<open>The users\<close>

text \<open>The constraints of the table: identifiers, subjects and e-mail addresses are unique.\<close>

definition users_ok :: "users_table \<Rightarrow> bool" where
  "users_ok t \<longleftrightarrow>
     distinct (map fst t) \<and> distinct (map (ur_oidcSub \<circ> snd) t) \<and> distinct (map (ur_email \<circ> snd) t)"

lemma findBy_Some: "findBy P t = Some (uid, r) \<Longrightarrow> (uid, r) \<in> set t \<and> P r"
  by (auto simp: findBy_def find_Some_iff in_set_conv_nth)

lemma findBy_None: "findBy P t = None \<longleftrightarrow> (\<forall>(uid, r) \<in> set t. \<not> P r)"
  by (auto simp: findBy_def find_None_iff)

lemma map_changeUser:
  assumes "\<And>r. g (f r) = g r"
  shows "map (g \<circ> snd) (changeUser uid f t) = map (g \<circ> snd) t"
  using assms by (simp add: changeUser_def case_prod_beta)

lemma fst_changeUser [simp]: "map fst (changeUser uid f t) = map fst t"
  by (simp add: changeUser_def case_prod_beta)

lemma changeUser_nth:
  assumes "distinct (map fst t)" "k < length t" "t ! k = (uid, r)"
  shows "changeUser uid f t = t[k := (uid, f r)]"
proof (rule nth_equalityI)
  fix j assume "j < length (changeUser uid f t)"
  then have j: "j < length t" by (simp add: changeUser_def)
  then have "fst (t ! j) = uid \<longleftrightarrow> j = k"
    using nth_eq_iff_index_eq [OF assms(1), of j k] assms(2,3) by simp
  then show "changeUser uid f t ! j = t[k := (uid, f r)] ! j"
    using j assms(3) by (cases "t ! j") (auto simp: changeUser_def nth_list_update)
qed (simp add: changeUser_def)

lemma sub_changeUser:
  assumes "distinct (map fst t)" "distinct (map (ur_oidcSub \<circ> snd) t)" "sub \<notin> (ur_oidcSub \<circ> snd) ` set t"
    "(uid, r) \<in> set t" "\<And>r. ur_oidcSub (f r) = sub"
  shows "distinct (map (ur_oidcSub \<circ> snd) (changeUser uid f t))"
proof -
  obtain k where k: "k < length t" "t ! k = (uid, r)" using assms(4) by (auto simp: in_set_conv_nth)
  have "distinct ((map (ur_oidcSub \<circ> snd) t)[k := sub])"
    using assms(2,3) by (intro distinct_list_update) auto
  then show ?thesis
    using k assms(5) by (simp add: changeUser_nth [OF assms(1)] map_update)
qed

lemma upsertUser_ok:
  assumes "users_ok t" "newId \<notin> fst ` set t" "upsertUser sub email name newId t = (r, t')"
  shows "users_ok t' \<and>
    (case r of
       Inl e \<Rightarrow> e = ''P2002'' \<and> t' = t \<and> (\<forall>(i, r) \<in> set t. ur_oidcSub r \<noteq> sub) \<and> findBy (\<lambda>r. ur_email r = email) t \<noteq> None
     | Inr uid \<Rightarrow> \<exists>row. (uid, row) \<in> set t' \<and> ur_oidcSub row = sub \<and> ur_name row = name)"
proof (cases "findBy (\<lambda>r. ur_oidcSub r = sub) t")
  case None
  then have new: "\<forall>(i, r) \<in> set t. ur_oidcSub r \<noteq> sub" by (simp add: findBy_None)
  show ?thesis
  proof (cases "findBy (\<lambda>r. ur_email r = email) t")
    case free: None
    then have "email \<notin> (ur_email \<circ> snd) ` set t" "sub \<notin> (ur_oidcSub \<circ> snd) ` set t"
      using new by (auto simp: findBy_None)
    moreover have "r = Inr newId" "t' = t @ [(newId, \<lparr>ur_oidcSub = sub, ur_email = email, ur_name = name\<rparr>)]"
      using assms(3) None free by (simp_all add: upsertUser_def)
    ultimately show ?thesis using assms(1,2) by (auto simp: users_ok_def)
  next
    case (Some p)
    then have res: "r = Inl ''P2002''" "t' = t" using assms(3) None by (simp_all add: upsertUser_def throw_def)
    show ?thesis unfolding res sum.case by (intro conjI assms(1) new refl) (simp add: Some)
  qed
next
  case (Some p)
  obtain uid row where p1: "p = (uid, row)" by (cases p)
  have p: "p = (uid, row)" "(uid, row) \<in> set t" "ur_oidcSub row = sub"
    using findBy_Some [OF Some [unfolded p1]] p1 by simp_all
  then have "(uid, row\<lparr>ur_name := name\<rparr>) \<in> set (changeUser uid (\<lambda>r. r\<lparr>ur_name := name\<rparr>) t)"
    by (force simp: changeUser_def)
  moreover have "r = Inr uid" "t' = changeUser uid (\<lambda>r. r\<lparr>ur_name := name\<rparr>) t"
    using assms(3) Some p(1) by (simp_all add: upsertUser_def)
  moreover have "users_ok (changeUser uid (\<lambda>r. r\<lparr>ur_name := name\<rparr>) t)"
    using assms(1) by (simp add: users_ok_def map_changeUser)
  ultimately show ?thesis
    using p(3) by (auto intro!: exI [of _ "row\<lparr>ur_name := name\<rparr>"])
qed

lemma ensureOidcUser_ok:
  assumes "users_ok t" "newId \<notin> fst ` set t" "ensureOidcUser sub email name newId t = (r, t')"
  shows "users_ok t' \<and> (\<exists>uid row. r = Inr uid \<and> (uid, row) \<in> set t' \<and> ur_oidcSub row = sub \<and> ur_name row = name)"
proof -
  obtain q u where up: "upsertUser sub email name newId t = (q, u)" by fastforce
  note ok = upsertUser_ok [OF assms(1,2) up]
  show ?thesis
  proof (cases q)
    case (Inr uid)
    with ok up assms(3) show ?thesis by (auto simp: ensureOidcUser_def)
  next
    case (Inl e)
    with ok have u: "u = t" "\<forall>(i, r) \<in> set t. ur_oidcSub r \<noteq> sub" "e = ''P2002''" by auto
    from ok Inl obtain uid row where f: "findBy (\<lambda>r. ur_email r = email) t = Some (uid, row)" by auto
    let ?f = "\<lambda>r. r\<lparr>ur_oidcSub := sub, ur_name := name\<rparr>"
    have "(uid, ?f row) \<in> set (changeUser uid ?f t)"
      using findBy_Some [OF f] by (force simp: changeUser_def)
    moreover have "users_ok (changeUser uid ?f t)"
    proof -
      have "distinct (map (ur_oidcSub \<circ> snd) (changeUser uid ?f t))"
        using assms(1) u(2) findBy_Some [OF f] by (intro sub_changeUser [of _ sub _ row]) (auto simp: users_ok_def)
      then show ?thesis using assms(1) by (simp add: users_ok_def map_changeUser)
    qed
    moreover have "ensureOidcUser sub email name newId t = (Inr uid, changeUser uid ?f t)"
      using up Inl u f by (simp add: ensureOidcUser_def)
    ultimately show ?thesis
      using assms(3) by (intro conjI exI [of _ uid] exI [of _ "?f row"]) simp_all
  qed
qed

subsection \<open>The tokens\<close>

lemma renew_rest:
  "tk_userId (fst (renew p now token cache)) = tk_userId token"
  by (auto simp: renew_def withRefreshed_def split: sum.splits prod.splits)

text \<open>An access token that the session may show: not about to expire, or just obtained.\<close>

definition fresh_token :: "idp \<Rightarrow> int \<Rightarrow> jwt_token \<Rightarrow> bool" where
  "fresh_token p now token \<longleftrightarrow>
     unexpired now token \<or>
     (\<exists>endpoint form reply.
        idp_token p endpoint form = Inr reply \<and> tr_ok reply \<and>
        tk_accessToken token = tr_access_token reply \<and>
        tk_accessTokenExpiresAt token = map_option (\<lambda>n. seconds now + n) (tr_expires_in reply))"

lemma refreshAccessToken_Inr:
  assumes "refreshAccessToken p r cache = (Inr reply, cache')"
  shows "\<exists>endpoint form. idp_token p endpoint form = Inr reply \<and> tr_ok reply"
  using assms
  by (fastforce simp: refreshAccessToken_def throw_def bindR_def split: if_splits sum.splits prod.splits)

lemma renew_fresh:
  assumes "tk_accessToken (fst (renew p now token cache)) = Some a" "a \<noteq> ''''"
    "\<not> truthy (tk_error (fst (renew p now token cache)))"
  shows "fresh_token p now (fst (renew p now token cache))"
proof (cases "\<not> unexpired now token \<and> truthy (tk_refreshToken token)")
  case False
  then show ?thesis
    using assms by (auto simp: renew_def fresh_token_def truthy_def split: if_splits)
next
  case True
  obtain r cache' where r: "refreshAccessToken p (tk_refreshToken token) cache = (r, cache')" by fastforce
  show ?thesis
  proof (cases r)
    case (Inl e)
    with True r assms(3) show ?thesis by (simp add: renew_def truthy_def)
  next
    case (Inr reply)
    obtain endpoint form where "idp_token p endpoint form = Inr reply" "tr_ok reply"
      using refreshAccessToken_Inr r Inr by blast
    moreover have "fst (renew p now token cache) = withRefreshed now reply token"
      using True r Inr by (simp add: renew_def)
    ultimately show ?thesis
      by (auto simp: fresh_token_def withRefreshed_def)
  qed
qed

lemma jwt_enabled:
  assumes "jwt False p now account token s = (Inr token', s')"
  shows "\<exists>t. token' = fst (renew p now t (au_cache s)) \<and>
           tk_userId t = tk_userId token' \<and> au_cache s' = snd (renew p now t (au_cache s))"
  using assms renew_rest
  by (auto simp: jwt_def Let_def case_prod_beta split: if_splits sum.splits prod.splits option.splits)

text \<open>For evaluation: an identity provider that is down, and a token of a user who signed in.\<close>

definition no_idp :: idp where
  "no_idp = \<lparr>idp_issuer = None, idp_document = (\<lambda>_. throw ''down''), idp_token = (\<lambda>_ _. throw ''down'')\<rparr>"

definition signed_in :: "int option \<Rightarrow> jwt_token" where
  "signed_in expires =
     \<lparr>tk_sub = None, tk_email = None, tk_name = None, tk_userId = None, tk_accessToken = Some ''tok'',
      tk_idToken = None, tk_refreshToken = None, tk_accessTokenExpiresAt = expires, tk_error = None\<rparr>"

section \<open>Properties\<close>



text \<open>
  Whoever signs in is a row of the users table: after the callback the session's user is the row with
  the identity's subject, also when another subject had the e-mail address before, and the table keeps
  identifiers, subjects and addresses unique.
\<close>

lemma jwt_user_exists:
  assumes "users_ok (au_users s)" "au_newId s \<notin> fst ` set (au_users s)"
    and "truthy (tk_sub token)" "truthy (tk_email token)"
  shows "\<exists>token' s' uid row.
           jwt False p now account token s = (Inr token', s') \<and> users_ok (au_users s') \<and>
           se_userId (session_callback token') = Some uid \<and>
           (uid, row) \<in> set (au_users s') \<and> Some (ur_oidcSub row) = tk_sub token"
proof -
  let ?t = "case account of None \<Rightarrow> token | Some a \<Rightarrow> withAccount now a token"
  have same: "tk_sub ?t = tk_sub token" "tk_email ?t = tk_email token" "tk_name ?t = tk_name token"
    by (simp_all add: withAccount_def split: option.split)
  let ?sub = "nullish (tk_sub token) ''''" and ?email = "nullish (tk_email token) ''''"
  obtain r t' where e: "ensureOidcUser ?sub ?email (tk_name token) (au_newId s) (au_users s) = (r, t')" by fastforce
  obtain uid row where ok: "users_ok t'" "r = Inr uid" "(uid, row) \<in> set t'" "ur_oidcSub row = ?sub"
    using ensureOidcUser_ok [OF assms(1,2) e] by blast
  have sub: "Some ?sub = tk_sub token" using assms(3) by (auto simp: truthy_def nullish_def split: option.splits)
  obtain token' cache' where renew: "renew p now (?t\<lparr>tk_userId := Some uid\<rparr>) (au_cache s) = (token', cache')"
    by fastforce
  then have user: "tk_userId token' = Some uid" using renew_rest [of p now "?t\<lparr>tk_userId := Some uid\<rparr>" "au_cache s"] by simp
  have "jwt False p now account token s = (Inr token', s\<lparr>au_users := t', au_cache := cache'\<rparr>)"
    using assms(3,4) e ok(2) renew by (simp add: jwt_def Let_def same)
  with ok user sub show ?thesis
    by (intro exI [of _ token'] exI [of _ "s\<lparr>au_users := t', au_cache := cache'\<rparr>"] exI [of _ uid] exI [of _ row])
      (simp add: session_callback_def)
qed

end
