(* ===== verification/Proxy.thy ===== *)
theory Proxy
  imports Ai_Providers
begin

text \<open>
  The forwarding of browser requests to the internal services: \<open>server/proxy.ts\<close>, the check of the bearer
  header (\<open>server/auth/auth-headers.ts\<close>), and the two routes that use it
  (\<open>app/api/agent/[...path]/route.ts\<close>, \<open>app/api/dbt-runner/[...path]/route.ts\<close>).

  Headers are an association list by lower-case name, as the \<open>Headers\<close> class normalises them. Of the
  resolution of a reference by \<open>new URL(reference, base)\<close> the model has what decides the server that is
  asked: the scheme, and whether a host follows; the dot segments of the path are not resolved. \<open>fetch\<close>
  answers a forwarded request or fails (\<open>None\<close>).
\<close>

section \<open>Definitions\<close>

subsection \<open>auth-headers.ts\<close>

definition BEARER_HEADER :: rx where
  "BEARER_HEADER = RSeq (rx_str ''Bearer '') (rx_plus (RCls (\<lambda>c. \<not> is_ws c)))"

definition isMalformedBearerHeader :: "string option \<Rightarrow> bool" where
  "isMalformedBearerHeader value = (case value of None \<Rightarrow> False | Some v \<Rightarrow> \<not> rx_match BEARER_HEADER v)"

subsection \<open>Resolving a reference\<close>

datatype url_target = OnBase string | Elsewhere string string

text \<open>What the URL parser drops: control characters and spaces at both ends, and tabs and line breaks.\<close>

definition url_clean :: "string \<Rightarrow> string" where
  "url_clean s =
     filter (\<lambda>c. c \<notin> {CHR 0x09, CHR 0x0A, CHR 0x0D})
       (rev (dropWhile (\<lambda>c. code c \<le> 32) (rev (dropWhile (\<lambda>c. code c \<le> 32) s))))"

text \<open>A scheme: a letter, then letters, digits and \<open>+-.\<close>, then a colon.\<close>

definition scheme_char :: "char \<Rightarrow> bool" where
  "scheme_char c \<longleftrightarrow> is_alnum c \<or> c \<in> set ''+-.''"

definition splitScheme :: "string \<Rightarrow> (string \<times> string) option" where
  "splitScheme s =
     (let name = takeWhile scheme_char s; rest = dropWhile scheme_char s
      in if name \<noteq> '''' \<and> is_alpha (hd name) \<and> rest \<noteq> '''' \<and> hd rest = CHR '':''
         then Some (toLowerCase name, tl rest) else None)"

definition is_slash :: "char \<Rightarrow> bool" where
  "is_slash c \<longleftrightarrow> c = CHR ''/'' \<or> c = CHR 0x5C"

text \<open>
  A reference against a base with the scheme \<open>scheme\<close>, http or https: one with its own scheme goes
  elsewhere, except for the base's scheme without two slashes, and so does one that starts with two slashes.
\<close>

definition relativeTarget :: "string \<Rightarrow> string \<Rightarrow> url_target" where
  "relativeTarget scheme ref =
     (if length ref \<ge> 2 \<and> is_slash (ref ! 0) \<and> is_slash (ref ! 1) then Elsewhere scheme (drop 2 ref)
      else OnBase ref)"

definition resolveTarget :: "string \<Rightarrow> string \<Rightarrow> url_target" where
  "resolveTarget scheme reference =
     (let ref = url_clean reference in
      case splitScheme ref of
        None \<Rightarrow> relativeTarget scheme ref
      | Some (own, rest) \<Rightarrow>
          if own = scheme \<and> \<not> startsWith rest ''//'' then relativeTarget scheme rest
          else Elsewhere own rest)"

definition schemeOf :: "string \<Rightarrow> string" where
  "schemeOf base = (case splitScheme (url_clean base) of None \<Rightarrow> '''' | Some (scheme, _) \<Rightarrow> scheme)"

subsection \<open>proxy.ts\<close>

type_synonym headers = "(string \<times> string) list"

definition HOP_BY_HOP_HEADERS :: "string list" where
  "HOP_BY_HOP_HEADERS =
     [''connection'', ''content-length'', ''host'', ''keep-alive'', ''proxy-authenticate'',
      ''proxy-authorization'', ''te'', ''trailer'', ''transfer-encoding'', ''upgrade'']"

definition deleteHopByHop :: "headers \<Rightarrow> headers" where
  "deleteHopByHop h = foldl (\<lambda>h name. obj_del name h) h HOP_BY_HOP_HEADERS"

definition setHeaders :: "(string \<times> string) list \<Rightarrow> headers \<Rightarrow> headers" where
  "setHeaders extra h = foldl (\<lambda>h (name, v). obj_set (toLowerCase name) v h) h extra"

record browser_request =
  bq_method :: string
  bq_search :: string
  bq_headers :: headers
  bq_body :: string

record upstream_request =
  up_target :: url_target
  up_search :: string
  up_method :: string
  up_headers :: headers
  up_body :: "string option"

record upstream_response =
  ur_status :: nat
  ur_headers :: headers
  ur_body :: string

record proxy_reply =
  py_status :: nat
  py_headers :: headers
  py_body :: string

definition errorReply :: "nat \<Rightarrow> string \<Rightarrow> headers \<Rightarrow> proxy_reply" where
  "errorReply n message h = \<lparr>py_status = n, py_headers = h, py_body = message\<rparr>"

text \<open>\<open>targetBaseUrl.replace(/\/$/, '')\<close>; the base of the reference is this and a slash.\<close>

definition proxyRequest ::
  "(upstream_request \<Rightarrow> upstream_response option) \<Rightarrow> browser_request \<Rightarrow> string list \<Rightarrow> string option \<Rightarrow> string \<Rightarrow>
   (string \<times> string) list \<Rightarrow> upstream_request option \<times> proxy_reply"
where
  "proxyRequest fetch request path targetBaseUrl serviceName extraHeaders =
     (if \<not> truthy targetBaseUrl
      then (None, errorReply 503 (serviceName @ '' is not configured'') [])
      else if isMalformedBearerHeader (map_of (bq_headers request) ''authorization'')
      then (None, errorReply 401 ''Malformed Authorization header'' [(''www-authenticate'', ''Bearer'')])
      else
        let init =
              \<lparr>up_target = resolveTarget (schemeOf (nullish targetBaseUrl '''')) (join ''/'' path),
               up_search = bq_search request,
               up_method = bq_method request,
               up_headers = setHeaders extraHeaders (deleteHopByHop (bq_headers request)),
               up_body = (if bq_method request = ''GET'' \<or> bq_method request = ''HEAD'' then None
                          else Some (bq_body request))\<rparr>
        in (Some init,
            case fetch init of
              None \<Rightarrow> errorReply 503 (serviceName @ '' is not reachable'') []
            | Some response \<Rightarrow>
                \<lparr>py_status = ur_status response, py_headers = deleteHopByHop (ur_headers response),
                 py_body = ur_body response\<rparr>))"

subsection \<open>The routes\<close>

definition proxyDbtRunner ::
  "(upstream_request \<Rightarrow> upstream_response option) \<Rightarrow> string option \<Rightarrow> browser_request \<Rightarrow> string list \<Rightarrow>
   upstream_request option \<times> proxy_reply"
where
  "proxyDbtRunner fetch DBT_RUNNER_URL request path =
     proxyRequest fetch request path
       (Some (or_str (nullish DBT_RUNNER_URL '''') ''http://localhost:8080'')) ''dbt-runner'' []"

text \<open>
  The headers that carry the user's providers and keys; \<open>showCredentials\<close> and \<open>showProviders\<close> are
  \<open>JSON.stringify\<close> on the two objects.
\<close>

definition modelHeaders ::
  "((string \<times> string) list \<Rightarrow> string) \<Rightarrow> ((string \<times> provider_config) list \<Rightarrow> string) \<Rightarrow> ResolvedRoutes option \<Rightarrow>
   (string \<times> string) list"
where
  "modelHeaders showCredentials showProviders routes =
     (case routes of
        None \<Rightarrow> []
      | Some r \<Rightarrow>
          (if rr_credentials r \<noteq> []
           then [(''X-Model-Credentials'', b64_encode (showCredentials (rr_credentials r)))] else []) @
          (if rr_providers r \<noteq> [] then [(''X-Model-Providers'', b64_encode (showProviders (rr_providers r)))] else []) @
          (if truthy (rr_route r) then [(''X-Model-Route'', nullish (rr_route r) '''')] else []) @
          (if truthy (rr_model r) then [(''X-Model-Name'', nullish (rr_model r) '''')] else []))"

definition proxyAgent ::
  "((string \<times> string) list \<Rightarrow> string) \<Rightarrow> ((string \<times> provider_config) list \<Rightarrow> string) \<Rightarrow> cipher \<Rightarrow>
   (upstream_request \<Rightarrow> upstream_response option) \<Rightarrow> string option \<Rightarrow> ctx \<Rightarrow> browser_request \<Rightarrow> string list \<Rightarrow>
   db \<Rightarrow> upstream_request option \<times> proxy_reply"
where
  "proxyAgent showCredentials showProviders ci fetch AGENT_URL c request path s =
     (let routes = map_option (\<lambda>userId. resolveRoutes ci userId s) (getSessionOrNull c)
      in proxyRequest fetch request path
           (Some (nullish AGENT_URL ''http://dsh-agent:8090'')) ''agent''
           (modelHeaders showCredentials showProviders routes))"

section \<open>Lemmas\<close>

subsection \<open>Headers\<close>

lemma map_of_deleteHopByHop:
  "map_of (deleteHopByHop h) name = (if name \<in> set HOP_BY_HOP_HEADERS then None else map_of h name)"
proof -
  have "map_of (foldl (\<lambda>h name. obj_del name h) h names) name = (if name \<in> set names then None else map_of h name)"
    for names
    by (induction names arbitrary: h) (auto simp: map_of_obj_del)
  then show ?thesis by (simp add: deleteHopByHop_def)
qed

lemma map_of_setHeaders_other:
  "name \<notin> (toLowerCase \<circ> fst) ` set extra \<Longrightarrow> map_of (setHeaders extra h) name = map_of h name"
  by (induction extra arbitrary: h) (auto simp: setHeaders_def map_of_obj_set)

lemma setHeaders_Cons: "setHeaders ((k, v) # extra) h = setHeaders extra (obj_set (toLowerCase k) v h)"
  by (simp add: setHeaders_def)

lemma map_of_setHeaders:
  "distinct (map (toLowerCase \<circ> fst) extra) \<Longrightarrow> (k, v) \<in> set extra \<Longrightarrow>
   map_of (setHeaders extra h) (toLowerCase k) = Some v"
proof (induction extra arbitrary: h)
  case (Cons e extra)
  obtain k' v' where e: "e = (k', v')" by (cases e)
  show ?case
  proof (cases "(k, v) = e")
    case True
    with Cons.prems(1) e have "toLowerCase k \<notin> (toLowerCase \<circ> fst) ` set extra" by auto
    with True e show ?thesis by (simp add: setHeaders_Cons map_of_setHeaders_other map_of_obj_set)
  next
    case False
    then show ?thesis
      using Cons.IH [of "obj_set (toLowerCase k') v' h"] Cons.prems e by (auto simp: setHeaders_Cons comp_def)
  qed
qed simp

lemma modelHeaders_names:
  "distinct (map (toLowerCase \<circ> fst) (modelHeaders sc sp routes))"
  by (auto simp: modelHeaders_def toLowerCase_def lower_char_def is_upper_def split: option.split)

subsection \<open>References\<close>

text \<open>A path segment of a route of the services: letters, digits and \<open>-._~\<close>.\<close>

definition plainSegment :: "string \<Rightarrow> bool" where
  "plainSegment s \<longleftrightarrow> s \<noteq> '''' \<and> list_all (\<lambda>c. is_alnum c \<or> c \<in> set ''-._~'') s"

lemma plain_char_code: "is_alnum c \<or> c \<in> set ''-._~'' \<Longrightarrow> 32 < code c \<and> c \<noteq> CHR '':'' \<and> \<not> is_slash c"
  by (auto simp: js_defs is_slash_def)

lemma dropWhile_append_hd: "xs \<noteq> [] \<Longrightarrow> \<not> P (hd xs) \<Longrightarrow> dropWhile P (xs @ ys) = xs @ ys"
  by (cases xs) auto

lemma url_clean_plain:
  assumes "plainSegment seg"
  shows "\<exists>rest. url_clean (seg @ CHR ''/'' # t) = seg @ CHR ''/'' # rest"
proof -
  let ?ctl = "\<lambda>c. code c \<le> 32"
  let ?keep = "\<lambda>c. c \<notin> {CHR 0x09, CHR 0x0A, CHR 0x0D}"
  have seg: "seg \<noteq> []" "\<forall>c \<in> set seg. 32 < code c" "\<forall>c \<in> set seg. c \<noteq> CHR '':'' \<and> \<not> is_slash c"
    using assms plain_char_code by (auto simp: plainSegment_def list_all_iff)
  then have "\<not> ?ctl (hd seg)" by (auto simp: not_le)
  then have start: "dropWhile ?ctl (seg @ CHR ''/'' # t) = seg @ CHR ''/'' # t"
    using seg(1) by (rule dropWhile_append_hd [rotated])
  have end_trim: "\<exists>u. dropWhile ?ctl (rev (seg @ CHR ''/'' # t)) = rev (seg @ CHR ''/'' # u)"
  proof (cases "\<forall>c \<in> set (rev t). ?ctl c")
    case True
    then have "dropWhile ?ctl (rev (seg @ CHR ''/'' # t)) = rev (seg @ [CHR ''/''])"
      by (simp add: dropWhile_append2 [of "rev t" ?ctl "CHR ''/'' # rev seg", simplified])
    then show ?thesis by (intro exI [of _ "[]"]) simp
  next
    case False
    then obtain c where "c \<in> set (rev t)" "\<not> ?ctl c" by blast
    then have "dropWhile ?ctl (rev (seg @ CHR ''/'' # t)) =
        dropWhile ?ctl (rev t) @ rev (seg @ [CHR ''/''])"
      by (simp add: dropWhile_append1)
    then show ?thesis by (intro exI [of _ "rev (dropWhile ?ctl (rev t))"]) simp
  qed
  then obtain u where u: "dropWhile ?ctl (rev (seg @ CHR ''/'' # t)) = rev (seg @ CHR ''/'' # u)" ..
  have "filter ?keep seg = seg" using seg(2) by (fastforce simp: filter_id_conv)
  then have "url_clean (seg @ CHR ''/'' # t) = seg @ CHR ''/'' # filter ?keep u"
    unfolding url_clean_def start u rev_rev_ident by simp
  then show ?thesis by blast
qed

lemma url_clean_single: "plainSegment seg \<Longrightarrow> url_clean seg = seg"
proof -
  assume plain: "plainSegment seg"
  then have seg: "\<forall>c \<in> set seg. 32 < code c" using plain_char_code by (auto simp: plainSegment_def list_all_iff)
  have "dropWhile (\<lambda>c. code c \<le> 32) xs = xs" if "\<forall>c \<in> set xs. 32 < code c" for xs :: string
    using that by (cases xs) auto
  then have "dropWhile (\<lambda>c. code c \<le> 32) seg = seg" "dropWhile (\<lambda>c. code c \<le> 32) (rev seg) = rev seg"
    using seg by simp_all
  moreover have "filter (\<lambda>c. c \<notin> {CHR 0x09, CHR 0x0A, CHR 0x0D}) seg = seg"
    using seg by (fastforce simp: filter_id_conv)
  ultimately show ?thesis by (simp add: url_clean_def)
qed

lemma splitScheme_plain:
  assumes "plainSegment seg" "rest = [] \<or> hd rest = CHR ''/''"
  shows "splitScheme (seg @ rest) = None"
proof (cases "list_all scheme_char seg")
  case True
  moreover have "\<not> scheme_char (CHR ''/'')" by (simp add: scheme_char_def js_defs)
  ultimately have "dropWhile scheme_char (seg @ rest) = rest"
    using assms(2) by (cases rest) (auto simp: dropWhile_append2 list_all_iff)
  with assms(2) show ?thesis by (auto simp: splitScheme_def Let_def)
next
  case False
  then obtain c where "c \<in> set seg" "\<not> scheme_char c" by (auto simp: list_all_iff)
  then have d: "dropWhile scheme_char (seg @ rest) = dropWhile scheme_char seg @ rest"
    by (rule dropWhile_append1)
  have ne: "dropWhile scheme_char seg \<noteq> []" using False by (auto simp: list_all_iff)
  then have "hd (dropWhile scheme_char seg) \<in> set seg" by (meson hd_in_set set_dropWhileD)
  then have "hd (dropWhile scheme_char seg) \<noteq> CHR '':''"
    using assms(1) plain_char_code by (auto simp: plainSegment_def list_all_iff)
  with d ne show ?thesis by (simp add: splitScheme_def Let_def)
qed

lemma resolve_url_plain:
  assumes "plainSegment seg"
  shows "\<exists>ref. resolveTarget scheme (join ''/'' (seg # path)) = OnBase ref"
proof -
  have "\<exists>rest. url_clean (join ''/'' (seg # path)) = seg @ rest \<and> (rest = [] \<or> hd rest = CHR ''/'')"
  proof (cases path)
    case Nil
    with assms show ?thesis by (simp add: url_clean_single)
  next
    case (Cons p ps)
    with url_clean_plain [OF assms, of "join ''/'' path"] show ?thesis by auto
  qed
  then obtain rest where rest: "url_clean (join ''/'' (seg # path)) = seg @ rest"
    "rest = [] \<or> hd rest = CHR ''/''" by blast
  moreover have "\<not> is_slash ((seg @ rest) ! 0)"
    using assms plain_char_code by (cases seg) (auto simp: plainSegment_def)
  ultimately show ?thesis
    using splitScheme_plain [OF assms rest(2)] by (simp add: resolveTarget_def Let_def relativeTarget_def)
qed

section \<open>Properties\<close>

text \<open>
  C12. What reaches a service: a request whose first path segment is a plain word goes to the configured
  service and nowhere else, without a hop-by-hop header of the browser, with every header the route adds,
  and with the browser's own value of every other header.
\<close>

theorem proxy_forwards:
  assumes "plainSegment seg" "distinct (map (toLowerCase \<circ> fst) extra)"
    and "fst (proxyRequest fetch request (seg # path) base name extra) = Some sent"
  shows "(\<exists>ref. up_target sent = OnBase ref) \<and>
         list_all (\<lambda>(k, v). map_of (up_headers sent) (toLowerCase k) = Some v) extra \<and>
         (h \<in> (toLowerCase \<circ> fst) ` set extra \<or>
          map_of (up_headers sent) h =
            (if h \<in> set HOP_BY_HOP_HEADERS then None else map_of (bq_headers request) h))"
proof -
  have sent: "up_target sent = resolveTarget (schemeOf (nullish base '''')) (join ''/'' (seg # path))"
    "up_headers sent = setHeaders extra (deleteHopByHop (bq_headers request))"
    using assms(3) by (auto simp: proxyRequest_def Let_def split: if_splits simp del: join.simps)
  have "list_all (\<lambda>(k, v). map_of (up_headers sent) (toLowerCase k) = Some v) extra"
    using map_of_setHeaders [OF assms(2)] by (auto simp: list_all_iff sent(2))
  moreover have "h \<in> (toLowerCase \<circ> fst) ` set extra \<or> map_of (up_headers sent) h =
      (if h \<in> set HOP_BY_HOP_HEADERS then None else map_of (bq_headers request) h)"
    by (metis map_of_setHeaders_other map_of_deleteHopByHop sent(2))
  ultimately show ?thesis using resolve_url_plain [OF assms(1)] sent(1) by auto
qed

theorem proxy_forwards_witness:
  "\<exists>sent. fst (proxyRequest (\<lambda>_. None) \<lparr>bq_method = ''GET'', bq_search = '''',
        bq_headers = [(''host'', ''app''), (''x-a'', ''1''), (''x-model-route'', ''mine'')], bq_body = ''''\<rparr>
        [''health'', ''x''] (Some ''http://svc:1'') ''svc'' [(''X-Model-Route'', ''theirs'')]) = Some sent \<and>
     (\<exists>ref. up_target sent = OnBase ref) \<and> map_of (up_headers sent) ''x-model-route'' = Some ''theirs'' \<and>
     map_of (up_headers sent) ''host'' = None"
proof -
  let ?q = "\<lparr>bq_method = ''GET'', bq_search = '''',
      bq_headers = [(''host'', ''app''), (''x-a'', ''1''), (''x-model-route'', ''mine'')], bq_body = ''''\<rparr>"
  have "\<exists>sent. fst (proxyRequest (\<lambda>_. None) ?q [''health'', ''x''] (Some ''http://svc:1'') ''svc''
      [(''X-Model-Route'', ''theirs'')]) = Some sent"
    by (simp add: proxyRequest_def truthy_def isMalformedBearerHeader_def Let_def)
  then obtain sent where sent: "fst (proxyRequest (\<lambda>_. None) ?q [''health'', ''x''] (Some ''http://svc:1'') ''svc''
      [(''X-Model-Route'', ''theirs'')]) = Some sent" ..
  have name: "toLowerCase ''X-Model-Route'' = ''x-model-route''" by code_simp
  have "plainSegment ''health''" by code_simp
  from proxy_forwards [OF this _ sent, of "''host''"] show ?thesis
    using sent by (intro exI [of _ sent]) (simp add: name HOP_BY_HOP_HEADERS_def del: toLowerCase_simps)
qed

text \<open>
  A first path segment that holds a scheme makes the agent route leave its service: the request goes to
  the host that the segment names, and it carries the keys of the user who made it.
\<close>

lemma agent_keys_leave_service:
  assumes "\<not> isMalformedBearerHeader (map_of (bq_headers request) ''authorization'')"
    and "getSessionOrNull c = Some userId" "rr_credentials (resolveRoutes ci userId s) \<noteq> []"
    and "list_all (\<lambda>c. 32 < code c) host"
  shows "\<exists>sent. fst (proxyAgent showCredentials showProviders ci fetch None c request [''http://'' @ host] s) = Some sent \<and>
           up_target sent = Elsewhere ''http'' (''//'' @ host) \<and>
           map_of (up_headers sent) ''x-model-credentials'' =
             Some (b64_encode (showCredentials (rr_credentials (resolveRoutes ci userId s))))"
proof -
  let ?ref = "''http://'' @ host"
  let ?extra = "modelHeaders showCredentials showProviders (Some (resolveRoutes ci userId s))"
  let ?key = "b64_encode (showCredentials (rr_credentials (resolveRoutes ci userId s)))"
  have ref: "list_all (\<lambda>c. 32 < code c) ?ref" using assms(4) by simp
  have id: "dropWhile (\<lambda>c. code c \<le> 32) xs = xs" if "list_all (\<lambda>c. 32 < code c) xs" for xs :: string
    using that by (cases xs) auto
  have "filter (\<lambda>c. c \<notin> {CHR 0x09, CHR 0x0A, CHR 0x0D}) ?ref = ?ref"
    using ref by (fastforce simp: filter_id_conv list_all_iff)
  then have clean: "url_clean ?ref = ?ref"
    using id [of ?ref] id [of "rev ?ref"] ref by (simp only: url_clean_def list_all_rev rev_rev_ident)
  have split: "splitScheme ?ref = Some (''http'', ''//'' @ host)"
    by (simp add: splitScheme_def Let_def scheme_char_def js_defs lower_char_def)
  have target: "resolveTarget scheme ?ref = Elsewhere ''http'' (''//'' @ host)" for scheme
    unfolding resolveTarget_def clean Let_def split by simp
  have "(''X-Model-Credentials'', ?key) \<in> set ?extra" using assms(3) by (simp add: modelHeaders_def)
  from map_of_setHeaders [OF modelHeaders_names this]
  have key: "map_of (setHeaders ?extra h) (toLowerCase ''X-Model-Credentials'') = Some ?key" for h .
  have name: "toLowerCase ''X-Model-Credentials'' = ''x-model-credentials''" by code_simp
  show ?thesis
    using assms(1,2) target key [unfolded name]
    by (simp add: proxyAgent_def proxyRequest_def Let_def truthy_def nullish_def del: append.simps)
qed

text \<open>
  A user without stored keys: what the browser sends under the name of the header that carries keys is
  passed on, because the route only overwrites the headers it has a value for.
\<close>

lemma browser_model_headers_pass:
  assumes "getSessionOrNull c = None"
    and "fst (proxyAgent showCredentials showProviders ci fetch env c request path s) = Some sent"
  shows "map_of (up_headers sent) ''x-model-credentials'' = map_of (bq_headers request) ''x-model-credentials''"
proof -
  have "up_headers sent = deleteHopByHop (bq_headers request)"
    using assms by (auto simp: proxyAgent_def proxyRequest_def modelHeaders_def Let_def setHeaders_def split: if_splits)
  then show ?thesis by (simp add: map_of_deleteHopByHop HOP_BY_HOP_HEADERS_def)
qed

end
