(* ===== verification/Develop_Tree.thy ===== *)
theory Develop_Tree
  imports Js_Json Explorer_Paths
begin

text \<open>
  The file explorer's view of the project in the IDE
  (\<open>features/develop/components/DevelopLayout.tsx\<close>): the nodes, renaming and removing inside a
  tree, and the table of loaded folders. A folder's listing is one level deep; what is below it is
  under its path in \<open>loadedChildren\<close>.

  The theorems say that the path of a node is always its folder's path followed by its name, and
  that removal takes exactly the removed entry and what is below it.
\<close>

named_theorems tree_defs "the explorer's operations, unfolded together"

section \<open>Definitions\<close>

subsection \<open>Nodes\<close>

datatype file_type = TFile | TDirectory

datatype FileNode =
  FileNode (nodeName: string) (nodePath: string) (nodeType: file_type) (nodeChildren: "FileNode list option")

abbreviation slash :: string where
  "slash \<equiv> ''/''"

text \<open>\<open>path.split('/').pop()\<close>.\<close>

definition baseName :: "string \<Rightarrow> string" where
  "baseName path = last (split_on CHR ''/'' path)"

text \<open>\<open>parentPath ? parentPath/name : name\<close>.\<close>

definition childPath :: "string \<Rightarrow> string \<Rightarrow> string" where
  "childPath parentPath name = (if parentPath \<noteq> '''' then parentPath @ slash @ name else name)"

definition renamePath :: "string \<Rightarrow> string \<Rightarrow> string \<Rightarrow> string" where
  "renamePath path oldPath newPath =
     (if path = oldPath then newPath
      else if startsWith path (oldPath @ slash) then newPath @ drop (length oldPath) path
      else path)"

primrec renameNode :: "string \<Rightarrow> string \<Rightarrow> FileNode \<Rightarrow> FileNode" where
  "renameNode oldPath newPath (FileNode name p t children) =
     (let path = renamePath p oldPath newPath
      in FileNode (or_str (baseName path) path) path t
           (map_option (map (renameNode oldPath newPath)) children))"

definition renameNodes :: "FileNode list \<Rightarrow> string \<Rightarrow> string \<Rightarrow> FileNode list" where
  "renameNodes nodes oldPath newPath = map (renameNode oldPath newPath) nodes"

fun removeNode :: "string \<Rightarrow> FileNode \<Rightarrow> FileNode" where
  "removeNode path (FileNode name p t children) =
     FileNode name p t
       (case children of
          None \<Rightarrow> None
        | Some nodes \<Rightarrow>
            Some (map (removeNode path)
              (filter (\<lambda>node. nodePath node \<noteq> path \<and> \<not> startsWith (nodePath node) (path @ slash)) nodes)))"

definition removeNodes :: "FileNode list \<Rightarrow> string \<Rightarrow> FileNode list" where
  "removeNodes nodes path =
     map (removeNode path)
       (filter (\<lambda>node. nodePath node \<noteq> path \<and> \<not> startsWith (nodePath node) (path @ slash)) nodes)"

text \<open>An item of a directory listing.\<close>

record list_item =
  li_name :: string
  li_path :: string
  li_type :: string

definition buildFileTree :: "list_item list \<Rightarrow> FileNode list" where
  "buildFileTree items =
     map (\<lambda>item. FileNode (li_name item) (li_path item)
            (if li_type item = ''folder'' then TDirectory else TFile)
            (if li_type item = ''folder'' then Some [] else None)) items"

subsection \<open>String replacement\<close>

text \<open>
  \<open>s.replace(pattern, replacement)\<close> with a pattern that is a string: the first occurrence, with
  the dollar patterns of the replacement expanded.
\<close>

fun expandReplacement :: "string \<Rightarrow> string \<Rightarrow> string \<Rightarrow> string \<Rightarrow> string" where
  "expandReplacement matched before after [] = []"
| "expandReplacement matched before after [c] = [c]"
| "expandReplacement matched before after (c # d # rest) =
     (if c = CHR ''$'' \<and> d = CHR ''$'' then CHR ''$'' # expandReplacement matched before after rest
      else if c = CHR ''$'' \<and> d = CHR ''&'' then matched @ expandReplacement matched before after rest
      else if c = CHR ''$'' \<and> d = CHR 0x60 then before @ expandReplacement matched before after rest
      else if c = CHR ''$'' \<and> d = CHR 0x27 then after @ expandReplacement matched before after rest
      else c # expandReplacement matched before after (d # rest))"

fun replaceFrom :: "string \<Rightarrow> string \<Rightarrow> string \<Rightarrow> string \<Rightarrow> string" where
  "replaceFrom pat rep before s =
     (if startsWith s pat
      then before @ expandReplacement pat before (drop (length pat) s) rep @ drop (length pat) s
      else case s of [] \<Rightarrow> before | c # s' \<Rightarrow> replaceFrom pat rep (before @ [c]) s')"

definition replaceFirst :: "string \<Rightarrow> string \<Rightarrow> string \<Rightarrow> string" where
  "replaceFirst s pat rep = replaceFrom pat rep [] s"

text \<open>The expression the code writes for tabs, the selection and the expanded folders.\<close>

definition replacePrefix :: "string \<Rightarrow> string \<Rightarrow> string \<Rightarrow> string" where
  "replacePrefix p oldPath newPath =
     (if p = oldPath then newPath
      else if startsWith p (oldPath @ slash) then replaceFirst p oldPath newPath
      else p)"

subsection \<open>The explorer's state\<close>

record explorer =
  ex_fileTree :: "FileNode list"
  ex_loadedChildren :: "(string \<times> FileNode list) list"
  ex_expandedPaths :: "string list"

text \<open>\<open>Object.fromEntries\<close>: a later entry with the same key wins. \<open>new Set\<close> keeps the first of each.\<close>

definition fromEntries :: "(string \<times> 'v) list \<Rightarrow> (string \<times> 'v) list" where
  "fromEntries kvs = foldl (\<lambda>m (k, v). obj_set k v m) [] kvs"

definition setFileTree :: "FileNode list \<Rightarrow> explorer \<Rightarrow> explorer" where
  "setFileTree nodes e = e\<lparr>ex_fileTree := nodes\<rparr>"

text \<open>The listing of a folder, or of the root, arrived.\<close>

definition refreshFolder :: "string \<Rightarrow> list_item list \<Rightarrow> explorer \<Rightarrow> explorer" where
  "refreshFolder path items e =
     (let nodes = buildFileTree items
      in if path \<noteq> '''' then e\<lparr>ex_loadedChildren := obj_set path nodes (ex_loadedChildren e)\<rparr>
         else e\<lparr>ex_fileTree := nodes\<rparr>)"

definition handleLoadChildren :: "string \<Rightarrow> list_item list option \<Rightarrow> explorer \<Rightarrow> explorer" where
  "handleLoadChildren path reply e =
     (case reply of
        None \<Rightarrow> e
      | Some items \<Rightarrow> e\<lparr>ex_loadedChildren := obj_set path (buildFileTree items) (ex_loadedChildren e)\<rparr>)"

definition handleToggleExpand :: "string \<Rightarrow> explorer \<Rightarrow> explorer" where
  "handleToggleExpand path e =
     e\<lparr>ex_expandedPaths :=
         (if path \<in> set (ex_expandedPaths e) then filter (\<lambda>p. p \<noteq> path) (ex_expandedPaths e)
          else ex_expandedPaths e @ [path])\<rparr>"

text \<open>A new entry: in a folder the folder is listed again, at the root the node is added.\<close>

definition createEntry :: "string \<Rightarrow> string \<Rightarrow> file_type \<Rightarrow> list_item list \<Rightarrow> explorer \<Rightarrow> explorer" where
  "createEntry parentPath name t items e =
     (let path = childPath parentPath name;
          newNode = FileNode name path t (if t = TDirectory then Some [] else None)
      in if parentPath \<noteq> '''' then refreshFolder parentPath items e
         else e\<lparr>ex_fileTree := filter (\<lambda>node. nodePath node \<noteq> path) (ex_fileTree e) @ [newNode]\<rparr>)"

definition deleteEntry :: "string \<Rightarrow> explorer \<Rightarrow> explorer" where
  "deleteEntry path e =
     e\<lparr>ex_fileTree := removeNodes (ex_fileTree e) path,
       ex_loadedChildren :=
         fromEntries (map (\<lambda>(folderPath, nodes). (folderPath, removeNodes nodes path))
           (filter (\<lambda>(folderPath, nodes). folderPath \<noteq> path \<and> \<not> startsWith folderPath (path @ slash))
             (ex_loadedChildren e))),
       ex_expandedPaths :=
         filter (\<lambda>folderPath. folderPath \<noteq> path \<and> \<not> startsWith folderPath (path @ slash))
           (ex_expandedPaths e)\<rparr>"

text \<open>What a rename and the first half of a move do to the explorer.\<close>

definition renameLoaded :: "string \<Rightarrow> string \<Rightarrow> (string \<times> FileNode list) list \<Rightarrow> (string \<times> FileNode list) list" where
  "renameLoaded oldPath newPath loaded =
     fromEntries (map (\<lambda>(path, nodes). (renamePath path oldPath newPath, renameNodes nodes oldPath newPath)) loaded)"

definition renameEntry :: "string \<Rightarrow> string \<Rightarrow> explorer \<Rightarrow> explorer" where
  "renameEntry oldPath newPath e =
     e\<lparr>ex_fileTree := renameNodes (ex_fileTree e) oldPath newPath,
       ex_loadedChildren := renameLoaded oldPath newPath (ex_loadedChildren e),
       ex_expandedPaths := js_distinct (map (\<lambda>path. renamePath path oldPath newPath) (ex_expandedPaths e))\<rparr>"

text \<open>
  A move leaves the tree to the listing of the two folders, which replaces what it changed; the
  folders moved along keep their listing under their new path.
\<close>

definition moveEntry ::
  "string \<Rightarrow> string \<Rightarrow> (string \<Rightarrow> list_item list) \<Rightarrow> explorer \<Rightarrow> explorer" where
  "moveEntry sourcePath destPath listing e =
     (let e = e\<lparr>ex_expandedPaths := js_distinct (map (\<lambda>p. replacePrefix p sourcePath destPath) (ex_expandedPaths e)),
                ex_loadedChildren := renameLoaded sourcePath destPath (ex_loadedChildren e)\<rparr>
      in foldl (\<lambda>e folder. refreshFolder folder (listing folder) e) e
           (js_distinct [parentOf sourcePath, parentOf destPath]))"

text \<open>Several deletions or moves, an upload and a sync drop every loaded folder and list the root again.\<close>

definition resetEntries :: "list_item list \<Rightarrow> explorer \<Rightarrow> explorer" where
  "resetEntries items e = e\<lparr>ex_loadedChildren := [], ex_fileTree := buildFileTree items\<rparr>"

text \<open>The new path of a rename: the same folder, the new name.\<close>

definition renamedPath :: "string \<Rightarrow> string \<Rightarrow> string" where
  "renamedPath oldPath newName = childPath (parentOf oldPath) newName"

text \<open>What the explorer is told once the service has answered.\<close>

datatype explorer_event =
    Listed string "list_item list"
  | ChildrenLoaded string "list_item list option"
  | Toggled string
  | Created string string file_type "list_item list"
  | Deleted string
  | Renamed string string
  | Moved string string "string \<Rightarrow> list_item list"
  | Reset "list_item list"

fun applyExplorer :: "explorer_event \<Rightarrow> explorer \<Rightarrow> explorer" where
  "applyExplorer (Listed path items) e = refreshFolder path items e"
| "applyExplorer (ChildrenLoaded path reply) e = handleLoadChildren path reply e"
| "applyExplorer (Toggled path) e = handleToggleExpand path e"
| "applyExplorer (Created parentPath name t items) e = createEntry parentPath name t items e"
| "applyExplorer (Deleted path) e = deleteEntry path e"
| "applyExplorer (Renamed oldPath newName) e = renameEntry oldPath (renamedPath oldPath newName) e"
| "applyExplorer (Moved sourcePath destPath listing) e = moveEntry sourcePath destPath listing e"
| "applyExplorer (Reset items) e = resetEntries items e"

text \<open>The folders on the way to a changed path that are listed again: those already loaded.\<close>

fun prefixes_from :: "string \<Rightarrow> string list \<Rightarrow> string list" where
  "prefixes_from p [] = []"
| "prefixes_from p (part # parts) =
     (let p' = (if p \<noteq> '''' then p @ slash @ part else part) in p' # prefixes_from p' parts)"

definition refreshAncestors :: "string \<Rightarrow> explorer \<Rightarrow> string list" where
  "refreshAncestors path e =
     (let parts = butlast (split_on CHR ''/'' (dropWhile (\<lambda>c. c = CHR ''/'') path))
      in filter (\<lambda>p. map_of (ex_loadedChildren e) p \<noteq> None) (prefixes_from '''' parts))"

section \<open>Paths and names\<close>

text \<open>A name is a segment: not empty and without a slash. A path is a list of them.\<close>

definition is_name :: "string \<Rightarrow> bool" where
  "is_name name \<longleftrightarrow> name \<noteq> '''' \<and> CHR ''/'' \<notin> set name"

definition is_path :: "string \<Rightarrow> bool" where
  "is_path p \<longleftrightarrow> list_all is_name (split_on CHR ''/'' p)"

lemma split_childPath:
  assumes "is_name name"
  shows "split_on CHR ''/'' (childPath parentPath name) =
           (if parentPath = '''' then [name] else split_on CHR ''/'' parentPath @ [name])"
  using assms split_on_append2 [of "CHR ''/''" parentPath name]
  by (simp add: childPath_def is_name_def split_on_no_occ)

lemma baseName_childPath [simp]: "is_name name \<Longrightarrow> baseName (childPath parentPath name) = name"
  by (simp add: baseName_def split_childPath)

lemma or_baseName: "is_name name \<Longrightarrow> or_str (baseName (childPath parentPath name)) p = name"
  by (auto simp: or_str_def) (simp add: is_name_def)

lemma parentOf_childPath [simp]: "is_name name \<Longrightarrow> parentOf (childPath parentPath name) = parentPath"
  by (simp add: parentOf_def split_childPath)

lemma childPath_not_Nil [simp]: "is_name name \<Longrightarrow> childPath parentPath name \<noteq> ''''"
  by (simp add: childPath_def is_name_def)

lemma childPath_inject:
  "is_name a \<Longrightarrow> is_name b \<Longrightarrow> childPath p a = childPath q b \<longleftrightarrow> p = q \<and> a = b"
  by (metis baseName_childPath parentOf_childPath)

lemma is_path_childPath:
  "is_name name \<Longrightarrow> parentPath = '''' \<or> is_path parentPath \<Longrightarrow> is_path (childPath parentPath name)"
  by (auto simp: is_path_def split_childPath)

lemma join_append:
  "xs \<noteq> [] \<Longrightarrow> ys \<noteq> [] \<Longrightarrow> join sep (xs @ ys) = join sep xs @ sep @ join sep ys"
  by (induction xs) (auto simp: join_Cons)

lemma split_on_eq: "split_on c a = split_on c b \<longleftrightarrow> a = b"
  using join_split_on by metis

lemma isInsideOrSelf_segments:
  "isInsideOrSelf old p \<longleftrightarrow> prefix (split_on CHR ''/'' old) (split_on CHR ''/'' p)"
proof
  assume "isInsideOrSelf old p"
  then show "prefix (split_on CHR ''/'' old) (split_on CHR ''/'' p)"
    by (auto simp: isInsideOrSelf_def prefix_def split_on_append2)
next
  assume "prefix (split_on CHR ''/'' old) (split_on CHR ''/'' p)"
  then obtain ws where ws: "split_on CHR ''/'' p = split_on CHR ''/'' old @ ws" by (auto elim: prefixE)
  have "p = join slash (split_on CHR ''/'' old @ ws)" unfolding ws [symmetric] by simp
  then show "isInsideOrSelf old p"
    by (cases "ws = []") (simp_all add: isInsideOrSelf_def join_append)
qed

lemma is_path_cases:
  assumes "is_path p"
  obtains parentPath name where "p = childPath parentPath name" "is_name name"
      "parentPath = '''' \<or> is_path parentPath"
proof -
  let ?ws = "split_on CHR ''/'' p"
  let ?up = "join slash (butlast ?ws)"
  have names: "list_all is_name ?ws" using assms by (simp add: is_path_def)
  have ws: "?ws = butlast ?ws @ [last ?ws]" by simp
  have last: "is_name (last ?ws)" and inits: "list_all is_name (butlast ?ws)"
    using names unfolding list_all_iff by (meson last_in_set split_on_not_Nil in_set_butlastD)+
  show ?thesis
  proof (cases "butlast ?ws = []")
    case True
    then have "?ws = [last ?ws]" using ws by simp
    then have "p = last ?ws" using join_split_on [of "CHR ''/''" p] by (metis join.simps(2))
    then show ?thesis using that [of "''''" "last ?ws"] last by (simp add: childPath_def)
  next
    case False
    have sp: "split_on CHR ''/'' ?up = butlast ?ws"
      using inits False by (intro split_on_join) (auto simp: is_name_def list_all_iff)
    have up: "is_path ?up" using inits sp by (simp add: is_path_def)
    then have ne: "?up \<noteq> ''''" by (auto simp: is_path_def is_name_def)
    have "split_on CHR ''/'' (childPath ?up (last ?ws)) = ?ws"
      using last ne sp by (simp add: split_childPath)
    then show ?thesis using that [of ?up "last ?ws"] last up by (metis split_on_eq)
  qed
qed

section \<open>Well-formed trees\<close>

text \<open>
  The type the explorer relies on: a node's path is its folder's path and its name, and exactly the
  folders have a list of children.
\<close>

fun wf_node :: "string \<Rightarrow> FileNode \<Rightarrow> bool" where
  "wf_node parentPath (FileNode name p t children) \<longleftrightarrow>
     is_name name \<and> p = childPath parentPath name \<and>
     (case children of
        None \<Rightarrow> t = TFile
      | Some nodes \<Rightarrow> t = TDirectory \<and> list_all (wf_node p) nodes)"

definition wf_nodes :: "string \<Rightarrow> FileNode list \<Rightarrow> bool" where
  "wf_nodes parentPath nodes \<longleftrightarrow> list_all (wf_node parentPath) nodes"

fun nodePaths :: "FileNode \<Rightarrow> string list" where
  "nodePaths (FileNode name p t children) =
     p # (case children of None \<Rightarrow> [] | Some nodes \<Rightarrow> concat (map nodePaths nodes))"

definition treePaths :: "FileNode list \<Rightarrow> string list" where
  "treePaths nodes = concat (map nodePaths nodes)"

lemma inside_childPath:
  assumes "is_name name" "old \<noteq> ''''"
  shows "isInsideOrSelf old (childPath parentPath name) \<longleftrightarrow>
           childPath parentPath name = old \<or> parentPath \<noteq> '''' \<and> isInsideOrSelf old parentPath"
proof (cases "parentPath = ''''")
  case True
  have sp: "split_on CHR ''/'' name = [name]" using assms(1) by (simp add: is_name_def split_on_no_occ)
  have "prefix (split_on CHR ''/'' old) [name] \<longleftrightarrow> name = old"
    using split_on_eq [of "CHR ''/''" old name] sp by (cases "split_on CHR ''/'' old") auto
  then show ?thesis using True assms sp by (simp add: isInsideOrSelf_segments split_childPath childPath_def)
next
  case False
  have "childPath parentPath name = old \<longleftrightarrow> split_on CHR ''/'' old = split_on CHR ''/'' parentPath @ [name]"
    using split_on_eq [of "CHR ''/''" old "childPath parentPath name"] False assms(1)
    by (auto simp: split_childPath)
  then show ?thesis using False assms(1)
    by (simp add: isInsideOrSelf_segments split_childPath disj_commute)
qed

subsection \<open>Renaming\<close>

lemma renamePath_self [simp]: "renamePath old old new = new"
  by (simp add: renamePath_def)

lemma renamePath_outside: "\<not> isInsideOrSelf old p \<Longrightarrow> renamePath p old new = p"
  by (simp add: renamePath_def isInsideOrSelf_def)

lemma renamePath_childPath:
  assumes "is_name name" "old \<noteq> ''''" "new \<noteq> ''''" "childPath parentPath name \<noteq> old"
  shows "renamePath (childPath parentPath name) old new = childPath (renamePath parentPath old new) name"
proof (cases "parentPath \<noteq> '''' \<and> isInsideOrSelf old parentPath")
  case True
  then consider "parentPath = old" | w where "parentPath = old @ slash @ w"
    by (auto simp: isInsideOrSelf_def prefix_def)
  then show ?thesis
    using assms by cases (auto simp: renamePath_def childPath_def)
next
  case False
  then have "\<not> isInsideOrSelf old (childPath parentPath name)"
    using inside_childPath [OF assms(1,2)] assms(4) by blast
  moreover have "\<not> isInsideOrSelf old parentPath"
    using False assms(2) by (auto simp: isInsideOrSelf_def)
  ultimately show ?thesis by (simp add: renamePath_outside)
qed

lemma inside_shorter: "isInsideOrSelf old p \<Longrightarrow> length old \<le> length p"
  by (auto simp: isInsideOrSelf_def prefix_def)

lemma not_inside_parent: "is_name name \<Longrightarrow> \<not> isInsideOrSelf (childPath parentPath name) parentPath"
  using inside_shorter [of "childPath parentPath name" parentPath] by (auto simp: childPath_def is_name_def)

text \<open>Where the renamed entry itself is in the tree, its new path must be in the same folder.\<close>

lemma wf_renameNode:
  assumes "wf_node parentPath n" "old \<noteq> ''''" "new \<noteq> ''''"
    and "old \<in> set (nodePaths n) \<Longrightarrow> new = childPath (parentOf old) newName \<and> is_name newName"
  shows "wf_node (renamePath parentPath old new) (renameNode old new n)"
  using assms
proof (induction n arbitrary: parentPath)
  case (FileNode name p t children)
  have p: "p = childPath parentPath name" and name: "is_name name" using FileNode.prems(1) by simp_all
  let ?name = "if p = old then newName else name"
  have path: "renamePath p old new = childPath (renamePath parentPath old new) ?name" and ok: "is_name ?name"
    using FileNode.prems renamePath_childPath [OF name, of old new parentPath] p
      not_inside_parent [OF name, of parentPath] name
    by (auto simp: renamePath_outside)
  have kids: "wf_node (renamePath p old new) (renameNode old new m)"
    if "children = Some nodes" "m \<in> set nodes" for nodes m
    using that FileNode.prems FileNode.IH [of nodes m p] by (auto simp: list_all_iff)
  have or: "or_str (baseName (childPath q ?name)) (childPath q ?name) = ?name" for q
    using or_baseName [OF ok] .
  have "wf_node (renamePath parentPath old new)
      (FileNode ?name (renamePath p old new) t (map_option (map (renameNode old new)) children))"
    using FileNode.prems(1) kids ok path by (auto simp: list_all_iff split: option.splits)
  then show ?case by (simp add: Let_def path or del: wf_node.simps)
qed

lemma nodePaths_renameNode:
  "nodePaths (renameNode old new n) = map (\<lambda>p. renamePath p old new) (nodePaths n)"
proof (induction n)
  case (FileNode name p t children)
  then show ?case by (auto simp: Let_def map_concat cong: map_cong split: option.splits)
qed

lemma wf_renameNodes:
  assumes "wf_nodes parentPath nodes" "old \<noteq> ''''" "new \<noteq> ''''"
    and "old \<in> set (treePaths nodes) \<Longrightarrow> new = childPath (parentOf old) newName \<and> is_name newName"
  shows "wf_nodes (renamePath parentPath old new) (renameNodes nodes old new)"
  using assms wf_renameNode [of parentPath _ old new newName]
  by (auto simp: wf_nodes_def renameNodes_def list_all_iff treePaths_def)

lemma treePaths_renameNodes:
  "treePaths (renameNodes nodes old new) = map (\<lambda>p. renamePath p old new) (treePaths nodes)"
  by (simp add: treePaths_def renameNodes_def map_concat comp_def nodePaths_renameNode)

subsection \<open>Removing\<close>

abbreviation outside :: "string \<Rightarrow> string \<Rightarrow> bool" where
  "outside path p \<equiv> \<not> isInsideOrSelf path p"

lemma outside_iff: "p \<noteq> path \<and> \<not> startsWith p (path @ slash) \<longleftrightarrow> outside path p"
  by (simp add: isInsideOrSelf_def)

lemma nodePath_removeNode [simp]: "nodePath (removeNode path n) = nodePath n"
  by (cases n) simp

lemma wf_removeNode: "wf_node parentPath n \<Longrightarrow> wf_node parentPath (removeNode path n)"
proof (induction n arbitrary: parentPath)
  case (FileNode name p t children)
  then show ?case by (auto simp: list_all_iff split: option.splits)
qed

lemma wf_removeNodes: "wf_nodes parentPath nodes \<Longrightarrow> wf_nodes parentPath (removeNodes nodes path)"
  by (auto simp: wf_nodes_def removeNodes_def list_all_iff wf_removeNode)

lemma nodePaths_below: "wf_node parentPath n \<Longrightarrow> q \<in> set (nodePaths n) \<Longrightarrow> isInsideOrSelf (nodePath n) q"
proof (induction n arbitrary: parentPath)
  case (FileNode name p t children)
  show ?case
  proof (cases "q = p")
    case True
    then show ?thesis by (simp add: isInsideOrSelf_def)
  next
    case False
    then obtain nodes m where m: "children = Some nodes" "m \<in> set nodes" "q \<in> set (nodePaths m)"
      using FileNode.prems(2) by (auto split: option.splits)
    then have "wf_node p m" using FileNode.prems(1) by (auto simp: list_all_iff)
    moreover from this have "isInsideOrSelf p (nodePath m)"
      using FileNode.prems(1) by (cases m) (auto simp: isInsideOrSelf_def childPath_def is_name_def)
    ultimately show ?thesis
      using m FileNode.IH [of nodes m p] isInsideOrSelf_trans [of p "nodePath m" q] by auto
  qed
qed

lemma filter_cong_all: "(\<And>x. x \<in> set xs \<Longrightarrow> P x) \<Longrightarrow> filter P xs = xs"
  "(\<And>x. x \<in> set xs \<Longrightarrow> \<not> P x) \<Longrightarrow> filter P xs = []"
  by (auto simp: filter_empty_conv filter_id_conv)

lemma concat_kept:
  assumes "\<And>m. m \<in> set ms \<Longrightarrow> K m \<Longrightarrow> f (g m) = filter P (f m)"
    and "\<And>m. m \<in> set ms \<Longrightarrow> \<not> K m \<Longrightarrow> filter P (f m) = []"
  shows "concat (map f (map g (filter K ms))) = filter P (concat (map f ms))"
  using assms by (induction ms) auto

lemma nodePaths_removeNode:
  "wf_node parentPath n \<Longrightarrow> outside path (nodePath n) \<Longrightarrow>
     nodePaths (removeNode path n) = filter (outside path) (nodePaths n)"
proof (induction n arbitrary: parentPath)
  case (FileNode name p t children)
  have "concat (map nodePaths (map (removeNode path) (filter (\<lambda>m. outside path (nodePath m)) nodes))) =
      filter (outside path) (concat (map nodePaths nodes))" if "children = Some nodes" for nodes
  proof (rule concat_kept)
    fix m assume m: "m \<in> set nodes"
    have wf: "wf_node p m" using FileNode.prems(1) that m by (auto simp: list_all_iff)
    show "outside path (nodePath m) \<Longrightarrow> nodePaths (removeNode path m) = filter (outside path) (nodePaths m)"
      using FileNode.IH [of nodes m p] that m wf by simp
    show "\<not> outside path (nodePath m) \<Longrightarrow> filter (outside path) (nodePaths m) = []"
      using nodePaths_below [OF wf] isInsideOrSelf_trans by (intro filter_cong_all(2)) blast
  qed
  then show ?case
    using FileNode.prems(2) by (auto simp: outside_iff split: option.splits)
qed

lemma treePaths_removeNodes:
  assumes "wf_nodes parentPath nodes"
  shows "treePaths (removeNodes nodes path) = filter (outside path) (treePaths nodes)"
  unfolding treePaths_def removeNodes_def outside_iff
proof (rule concat_kept)
  fix m assume "m \<in> set nodes"
  then have wf: "wf_node parentPath m" using assms by (simp add: wf_nodes_def list_all_iff)
  show "outside path (nodePath m) \<Longrightarrow> nodePaths (removeNode path m) = filter (outside path) (nodePaths m)"
    using nodePaths_removeNode [OF wf] by simp
  show "\<not> outside path (nodePath m) \<Longrightarrow> filter (outside path) (nodePaths m) = []"
    using nodePaths_below [OF wf] isInsideOrSelf_trans by (intro filter_cong_all(2)) blast
qed

subsection \<open>The table of loaded folders\<close>

lemma fromEntries_keys: "map_of (fromEntries kvs) k = map_of (rev kvs) k"
proof (induction kvs rule: rev_induct)
  case (snoc kv kvs)
  then show ?case by (cases kv) (simp add: fromEntries_def map_of_obj_set)
qed (simp add: fromEntries_def)

lemma distinct_fromEntries: "distinct (map fst (fromEntries kvs))"
proof (induction kvs rule: rev_induct)
  case (snoc kv kvs)
  then show ?case by (cases kv) (simp add: fromEntries_def distinct_obj_set)
qed (simp add: fromEntries_def)

lemma fromEntries_sub: "(k, v) \<in> set (fromEntries kvs) \<Longrightarrow> (k, v) \<in> set kvs"
  using map_of_is_SomeI [OF distinct_fromEntries] fromEntries_keys [of kvs k]
  by (metis map_of_SomeD set_rev)

lemma obj_set_sub: "(k', v') \<in> set (obj_set k v kvs) \<Longrightarrow> distinct (map fst kvs) \<Longrightarrow>
    k' = k \<and> v' = v \<or> k' \<noteq> k \<and> (k', v') \<in> set kvs"
  using map_of_is_SomeI [OF distinct_obj_set, of kvs k' v' k v]
  by (auto simp: map_of_obj_set split: if_splits dest: map_of_SomeD)

section \<open>The explorer's invariant\<close>

text \<open>
  What the service lists for a folder: entries of that folder, under their path.
\<close>

definition listing_ok :: "string \<Rightarrow> list_item list \<Rightarrow> bool" where
  "listing_ok folder items \<longleftrightarrow>
     (folder = '''' \<or> is_path folder) \<and>
     list_all (\<lambda>item. is_name (li_name item) \<and> li_path item = childPath folder (li_name item)) items"

definition flat :: "FileNode list \<Rightarrow> bool" where
  "flat nodes \<longleftrightarrow> list_all (\<lambda>n. nodeChildren n \<in> {None, Some []}) nodes"

definition folder_ok :: "string \<Rightarrow> FileNode list \<Rightarrow> bool" where
  "folder_ok folder nodes \<longleftrightarrow> (folder = '''' \<or> is_path folder) \<and> wf_nodes folder nodes \<and> flat nodes"

definition explorer_ok :: "explorer \<Rightarrow> bool" where
  "explorer_ok e \<longleftrightarrow>
     folder_ok '''' (ex_fileTree e) \<and> distinct (map fst (ex_loadedChildren e)) \<and>
     (\<forall>(folder, nodes) \<in> set (ex_loadedChildren e). folder \<noteq> '''' \<and> folder_ok folder nodes)"

fun event_ok :: "explorer_event \<Rightarrow> bool" where
  "event_ok (Listed path items) \<longleftrightarrow> listing_ok path items"
| "event_ok (ChildrenLoaded path reply) \<longleftrightarrow>
     path \<noteq> '''' \<and> (case reply of None \<Rightarrow> True | Some items \<Rightarrow> listing_ok path items)"
| "event_ok (Toggled path) \<longleftrightarrow> True"
| "event_ok (Created parentPath name t items) \<longleftrightarrow> is_name name \<and> listing_ok parentPath items"
| "event_ok (Deleted path) \<longleftrightarrow> True"
| "event_ok (Renamed oldPath newName) \<longleftrightarrow> is_path oldPath \<and> is_name newName"
| "event_ok (Moved sourcePath destPath listing) \<longleftrightarrow>
     is_path sourcePath \<and> is_path destPath \<and>
     listing_ok (parentOf sourcePath) (listing (parentOf sourcePath)) \<and>
     listing_ok (parentOf destPath) (listing (parentOf destPath))"
| "event_ok (Reset items) \<longleftrightarrow> listing_ok '''' items"

text \<open>Every path the explorer knows.\<close>

definition knownPaths :: "explorer \<Rightarrow> string set" where
  "knownPaths e = set (treePaths (ex_fileTree e)) \<union>
     (\<Union>(folder, nodes) \<in> set (ex_loadedChildren e). set (treePaths nodes))"

lemma not_is_path_Nil [simp]: "\<not> is_path ''''"
  by (simp add: is_path_def is_name_def)

lemma is_path_not_Nil [simp]: "is_path p \<Longrightarrow> p \<noteq> ''''"
  by auto

lemma folder_ok_built: "listing_ok folder items \<Longrightarrow> folder_ok folder (buildFileTree items)"
  by (auto simp: listing_ok_def folder_ok_def buildFileTree_def wf_nodes_def flat_def list_all_iff)

lemma folder_ok_removed: "folder_ok folder nodes \<Longrightarrow> folder_ok folder (removeNodes nodes path)"
proof -
  have "nodeChildren n \<in> {None, Some []} \<Longrightarrow> nodeChildren (removeNode path n) \<in> {None, Some []}" for n
    by (cases n) (auto split: option.splits)
  then show "folder_ok folder nodes \<Longrightarrow> folder_ok folder (removeNodes nodes path)"
    by (simp add: folder_ok_def wf_removeNodes) (auto simp: flat_def removeNodes_def list_all_iff)
qed

lemma flat_paths:
  assumes "folder_ok folder nodes" "p \<in> set (treePaths nodes)"
  shows "parentOf p = folder"
proof -
  obtain n where n: "n \<in> set nodes" "p \<in> set (nodePaths n)" using assms(2) by (auto simp: treePaths_def)
  then have "wf_node folder n" "nodeChildren n \<in> {None, Some []}"
    using assms(1) by (auto simp: folder_ok_def wf_nodes_def flat_def list_all_iff)
  then show ?thesis using n(2) by (cases n) auto
qed

lemma is_path_renamePath:
  assumes "folder = '''' \<or> is_path folder" "is_path new" "old \<noteq> ''''"
  shows "renamePath folder old new = '''' \<and> folder = '''' \<or> is_path (renamePath folder old new)"
proof (cases "isInsideOrSelf old folder")
  case True
  then consider "folder = old" | w where "folder = old @ slash @ w" by (auto simp: isInsideOrSelf_def prefix_def)
  then show ?thesis
    using assms by cases (auto simp: renamePath_def is_path_def split_on_append2)
next
  case False
  then show ?thesis using assms by (simp add: renamePath_outside)
qed

lemma folder_ok_renamed:
  assumes "folder_ok folder nodes" "is_path old" "is_path new"
    and "folder = parentOf old \<Longrightarrow> new = childPath (parentOf old) newName \<and> is_name newName"
  shows "folder_ok (renamePath folder old new) (renameNodes nodes old new)"
proof -
  have "wf_nodes (renamePath folder old new) (renameNodes nodes old new)"
    using assms flat_paths [OF assms(1)]
    by (intro wf_renameNodes [of _ _ _ _ newName]) (auto simp: folder_ok_def)
  moreover have "nodeChildren n \<in> {None, Some []} \<Longrightarrow> nodeChildren (renameNode old new n) \<in> {None, Some []}" for n
    by (cases n) (auto simp: Let_def)
  then have "flat (renameNodes nodes old new)"
    using assms(1) by (auto simp: folder_ok_def flat_def renameNodes_def list_all_iff)
  moreover have "renamePath folder old new = '''' \<or> is_path (renamePath folder old new)"
    using is_path_renamePath [of folder new old] assms(1-3) by (auto simp: folder_ok_def)
  ultimately show ?thesis by (simp add: folder_ok_def)
qed

lemma explorer_okI:
  assumes "folder_ok '''' (ex_fileTree e)" "distinct (map fst (ex_loadedChildren e))"
    and "\<And>folder nodes. (folder, nodes) \<in> set (ex_loadedChildren e) \<Longrightarrow> folder \<noteq> '''' \<and> folder_ok folder nodes"
  shows "explorer_ok e"
  using assms by (auto simp: explorer_ok_def)

lemma explorer_okD:
  assumes "explorer_ok e"
  shows "folder_ok '''' (ex_fileTree e)" "distinct (map fst (ex_loadedChildren e))"
    and "(folder, nodes) \<in> set (ex_loadedChildren e) \<Longrightarrow> folder \<noteq> '''' \<and> folder_ok folder nodes"
  using assms by (auto simp: explorer_ok_def)

lemma explorer_ok_set:
  assumes "explorer_ok e" "folder \<noteq> ''''" "folder_ok folder nodes"
  shows "explorer_ok (e\<lparr>ex_loadedChildren := obj_set folder nodes (ex_loadedChildren e)\<rparr>)"
  using assms(2,3) explorer_okD [OF assms(1)]
  by (intro explorer_okI) (auto simp: distinct_obj_set dest!: obj_set_sub)

lemma explorer_ok_refresh:
  "explorer_ok e \<Longrightarrow> listing_ok folder items \<Longrightarrow> explorer_ok (refreshFolder folder items e)"
  using explorer_ok_set [of e folder "buildFileTree items"] folder_ok_built [of folder items]
  by (auto simp: refreshFolder_def Let_def explorer_ok_def)

lemma explorer_ok_delete: "explorer_ok e \<Longrightarrow> explorer_ok (deleteEntry path e)"
  using explorer_okD [of e]
  by (intro explorer_okI) (fastforce simp: deleteEntry_def distinct_fromEntries folder_ok_removed dest!: fromEntries_sub)+

lemma renameLoaded_member:
  assumes "(folder, nodes) \<in> set (renameLoaded old new loaded)"
  obtains folder' nodes' where "(folder', nodes') \<in> set loaded" "folder = renamePath folder' old new"
    "nodes = renameNodes nodes' old new"
  using assms by (auto simp: renameLoaded_def dest!: fromEntries_sub)

lemma explorer_ok_rename:
  assumes "explorer_ok e" "is_path old" "is_name newName"
  shows "explorer_ok (renameEntry old (renamedPath old newName) e)"
proof -
  obtain up name where old: "old = childPath up name" "is_name name" "up = '''' \<or> is_path up"
    using is_path_cases [OF assms(2)] .
  have new: "is_path (renamedPath old newName)"
    using old assms(3) by (simp add: renamedPath_def is_path_childPath)
  have renamed: "folder_ok (renamePath folder old (renamedPath old newName))
      (renameNodes nodes old (renamedPath old newName))" if "folder_ok folder nodes" for folder nodes
    by (rule folder_ok_renamed [OF that assms(2) new, of newName]) (simp add: renamedPath_def assms(3))
  have root: "renamePath '''' old (renamedPath old newName) = ''''"
    using assms(2) by (simp add: renamePath_def prefix_def) auto
  have folders: "renamePath folder old (renamedPath old newName) \<noteq> ''''" if "folder \<noteq> ''''" for folder
    using that new by (auto simp: renamePath_def prefix_def)
  note ok = explorer_okD [OF assms(1)]
  show ?thesis
  proof (rule explorer_okI)
    show "folder_ok '''' (ex_fileTree (renameEntry old (renamedPath old newName) e))"
      using renamed [OF ok(1)] root by (simp add: renameEntry_def)
    show "distinct (map fst (ex_loadedChildren (renameEntry old (renamedPath old newName) e)))"
      by (simp add: renameEntry_def renameLoaded_def distinct_fromEntries)
    fix folder nodes
    assume "(folder, nodes) \<in> set (ex_loadedChildren (renameEntry old (renamedPath old newName) e))"
    then have "(folder, nodes) \<in> set (renameLoaded old (renamedPath old newName) (ex_loadedChildren e))"
      by (simp add: renameEntry_def)
    then show "folder \<noteq> '''' \<and> folder_ok folder nodes"
      using ok(3) renamed folders by (auto elim!: renameLoaded_member)
  qed
qed

text \<open>A move leaves only the old folder's listing wrong, and that listing is replaced.\<close>

definition explorer_ok_but :: "string set \<Rightarrow> explorer \<Rightarrow> bool" where
  "explorer_ok_but stale e \<longleftrightarrow>
     ('''' \<notin> stale \<longrightarrow> folder_ok '''' (ex_fileTree e)) \<and> distinct (map fst (ex_loadedChildren e)) \<and>
     (\<forall>(folder, nodes) \<in> set (ex_loadedChildren e).
        folder \<noteq> '''' \<and> (folder \<notin> stale \<longrightarrow> folder_ok folder nodes))"

lemma refresh_repairs:
  "explorer_ok_but stale e \<Longrightarrow> listing_ok folder items \<Longrightarrow>
     explorer_ok_but (stale - {folder}) (refreshFolder folder items e)"
  using folder_ok_built [of folder items]
  by (auto simp: explorer_ok_but_def refreshFolder_def Let_def distinct_obj_set dest!: obj_set_sub)

lemma explorer_ok_move:
  assumes "explorer_ok e" "is_path src" "is_path dst"
    and "listing_ok (parentOf src) (listing (parentOf src))" "listing_ok (parentOf dst) (listing (parentOf dst))"
  shows "explorer_ok (moveEntry src dst listing e)"
proof -
  let ?e = "e\<lparr>ex_expandedPaths := js_distinct (map (\<lambda>p. replacePrefix p src dst) (ex_expandedPaths e)),
              ex_loadedChildren := renameLoaded src dst (ex_loadedChildren e)\<rparr>"
  have up: "renamePath (parentOf src) src dst = parentOf src"
    using is_path_cases [OF assms(2)] by (metis not_inside_parent parentOf_childPath renamePath_outside)
  have "explorer_ok_but {parentOf src} ?e"
    unfolding explorer_ok_but_def
  proof (intro conjI impI ballI)
    show "folder_ok '''' (ex_fileTree ?e)" using explorer_okD(1) [OF assms(1)] by simp
    show "distinct (map fst (ex_loadedChildren ?e))" by (simp add: renameLoaded_def distinct_fromEntries)
    fix entry assume "entry \<in> set (ex_loadedChildren ?e)"
    then have "(fst entry, snd entry) \<in> set (renameLoaded src dst (ex_loadedChildren e))" by simp
    from renameLoaded_member [OF this]
    obtain folder nodes where entry: "entry = (renamePath folder src dst, renameNodes nodes src dst)"
      and mem: "(folder, nodes) \<in> set (ex_loadedChildren e)"
      by (metis prod.collapse)
    note ok = explorer_okD(3) [OF assms(1) mem]
    have "renamePath folder src dst \<noteq> ''''"
      using is_path_renamePath [of folder dst src] ok assms(2,3) by (auto simp: folder_ok_def)
    moreover have "folder_ok (renamePath folder src dst) (renameNodes nodes src dst)"
      if "renamePath folder src dst \<noteq> parentOf src"
      using ok that up assms(2,3) by (intro folder_ok_renamed [of _ _ _ _ "[]"]) auto
    ultimately show "case entry of (folder, nodes) \<Rightarrow>
        folder \<noteq> '''' \<and> (folder \<notin> {parentOf src} \<longrightarrow> folder_ok folder nodes)"
      by (simp add: entry)
  qed
  from refresh_repairs [OF this assms(4)]
  have one: "explorer_ok_but {} (refreshFolder (parentOf src) (listing (parentOf src)) ?e)" by simp
  show ?thesis
    using one refresh_repairs [OF one assms(5)]
    by (auto simp: moveEntry_def Let_def js_distinct_def explorer_ok_but_def explorer_ok_def)
qed

lemma explorer_ok_apply: "explorer_ok e \<Longrightarrow> event_ok ev \<Longrightarrow> explorer_ok (applyExplorer ev e)"
proof (cases ev)
  case (Created parentPath name t items)
  assume ok: "explorer_ok e" "event_ok ev"
  show ?thesis
  proof (cases "parentPath = ''''")
    case True
    have "folder_ok '''' (ex_fileTree e)" using ok(1) by (simp add: explorer_ok_def)
    then show ?thesis
      using ok Created True
      by (auto simp: createEntry_def Let_def explorer_ok_def folder_ok_def wf_nodes_def flat_def
          list_all_iff childPath_def) (metis file_type.exhaust)+
  next
    case False
    then show ?thesis
      using ok Created explorer_ok_refresh [of e parentPath items] by (simp add: createEntry_def Let_def)
  qed
qed (auto simp: explorer_ok_refresh handleLoadChildren_def explorer_ok_set folder_ok_built
       explorer_ok_delete explorer_ok_rename explorer_ok_move split: option.splits,
     auto simp: handleToggleExpand_def resetEntries_def explorer_ok_def folder_ok_built)


lemma set_fromEntries: "distinct (map fst kvs) \<Longrightarrow> set (fromEntries kvs) = set kvs"
proof -
  assume d: "distinct (map fst kvs)"
  have "map_of (fromEntries kvs) = map_of kvs"
    using d map_of_inject_set [of "rev kvs" kvs]
    by (intro ext) (simp add: fromEntries_keys rev_map [symmetric])
  then show ?thesis
    using map_of_inject_set [OF distinct_fromEntries d] by simp
qed

lemma renamePath_inj:
  assumes "\<not> isInsideOrSelf new p" "\<not> isInsideOrSelf new q" "renamePath p old new = renamePath q old new"
  shows "p = q"
  using assms by (auto simp: renamePath_def isInsideOrSelf_def prefix_def split: if_splits)

section \<open>An example\<close>

definition demo_item :: "string \<Rightarrow> string \<Rightarrow> string \<Rightarrow> list_item" where
  "demo_item folder name t = \<lparr>li_name = name, li_path = childPath folder name, li_type = t\<rparr>"

text \<open>A project with a folder \<open>models\<close> that holds \<open>a.sql\<close> and the folder \<open>marts\<close>.\<close>

definition demo_explorer :: explorer where
  "demo_explorer =
     \<lparr>ex_fileTree = buildFileTree [demo_item '''' ''models'' ''folder'', demo_item '''' ''dbt_project.yml'' ''file''],
      ex_loadedChildren =
        [(''models'', buildFileTree [demo_item ''models'' ''a.sql'' ''file'', demo_item ''models'' ''marts'' ''folder'']),
         (''models/marts'', buildFileTree [demo_item ''models/marts'' ''b.sql'' ''file''])],
      ex_expandedPaths = [''models'']\<rparr>"

definition demo_events :: "explorer_event list" where
  "demo_events =
     [Renamed ''models/marts'' ''gold'', Toggled ''models/gold'', Created '''' ''seeds'' TDirectory [],
      Moved ''models/a.sql'' ''seeds/a.sql''
        (\<lambda>folder. if folder = ''seeds'' then [demo_item ''seeds'' ''a.sql'' ''file'']
                  else [demo_item ''models'' ''gold'' ''folder'']),
      Deleted ''models/gold'']"

lemma demo_explorer_ok: "explorer_ok demo_explorer"
  by code_simp

section \<open>Properties\<close>



text \<open>
  After a delete the explorer knows exactly the paths that are not the deleted entry nor below it.
\<close>

lemma delete_removes_exactly:
  assumes "explorer_ok e"
  shows "knownPaths (deleteEntry path e) = {p \<in> knownPaths e. \<not> isInsideOrSelf path p}"
proof -
  have tree: "set (treePaths (removeNodes nodes path)) = {p \<in> set (treePaths nodes). outside path p}"
    if "folder_ok folder nodes" for folder nodes
    using that treePaths_removeNodes [of folder nodes path] by (auto simp: folder_ok_def)
  let ?kept = "filter (\<lambda>(folder, nodes). outside path folder) (ex_loadedChildren e)"
  note ok = explorer_okD [OF assms]
  have "distinct (map fst (map (\<lambda>(folder, nodes). (folder, removeNodes nodes path)) ?kept))"
    using ok(2) by (simp add: comp_def case_prod_beta distinct_map_filter)
  then have loaded: "set (ex_loadedChildren (deleteEntry path e)) =
      (\<lambda>(folder, nodes). (folder, removeNodes nodes path)) ` set ?kept"
    by (simp add: deleteEntry_def outside_iff set_fromEntries)
  have "p \<notin> set (treePaths nodes)" if "outside path p" "isInsideOrSelf path folder"
      "(folder, nodes) \<in> set (ex_loadedChildren e)" for p folder nodes
  proof
    assume "p \<in> set (treePaths nodes)"
    then obtain n where n: "n \<in> set nodes" "p \<in> set (nodePaths n)" by (auto simp: treePaths_def)
    have wf: "wf_node folder n" and ne: "folder \<noteq> ''''"
      using ok(3) [OF that(3)] n(1) by (auto simp: folder_ok_def wf_nodes_def list_all_iff)
    then have "isInsideOrSelf folder (nodePath n)" by (cases n) (simp add: isInsideOrSelf_def childPath_def)
    then show False
      using nodePaths_below [OF wf n(2)] that(1,2) isInsideOrSelf_trans by blast
  qed
  then show ?thesis
    using ok(3) tree [OF ok(1)] tree unfolding knownPaths_def loaded
    by (fastforce simp: deleteEntry_def)
qed

text \<open>
  After a rename the explorer knows exactly the paths it knew, with the entry and what is below
  it under the new name, provided that no loaded folder had that name.
\<close>

lemma rename_moves_exactly:
  assumes "explorer_ok e" "is_path old" "is_name newName"
    and free: "\<forall>folder \<in> fst ` set (ex_loadedChildren e). \<not> isInsideOrSelf (renamedPath old newName) folder"
  shows "knownPaths (renameEntry old (renamedPath old newName) e)
           = (\<lambda>p. renamePath p old (renamedPath old newName)) ` knownPaths e"
proof -
  let ?new = "renamedPath old newName"
  let ?f = "\<lambda>(path, nodes). (renamePath path old ?new, renameNodes nodes old ?new)"
  have "distinct (map fst (map ?f (ex_loadedChildren e)))"
    using explorer_okD(2) [OF assms(1)] free renamePath_inj [of ?new _ _ old]
    by (auto simp: distinct_map comp_def case_prod_beta inj_on_def)
  then have "set (ex_loadedChildren (renameEntry old ?new e)) = ?f ` set (ex_loadedChildren e)"
    by (simp add: renameEntry_def renameLoaded_def set_fromEntries)
  then have "(\<Union>(folder, nodes) \<in> set (ex_loadedChildren (renameEntry old ?new e)). set (treePaths nodes)) =
      (\<Union>(folder, nodes) \<in> set (ex_loadedChildren e). (\<lambda>p. renamePath p old ?new) ` set (treePaths nodes))"
    by (simp add: case_prod_beta treePaths_renameNodes)
  then show ?thesis
    unfolding knownPaths_def image_Un image_UN
    by (simp add: renameEntry_def treePaths_renameNodes case_prod_beta)
qed

end
