(* ===== verification/Develop_Editor.thy ===== *)
theory Develop_Editor
  imports Develop_Tree
begin

text \<open>
  The editor of the IDE (\<open>features/develop/components/DevelopLayout.tsx\<close>): open tabs, the file that
  is shown, drafts, saving, formatting, and what renames, moves, deletes and the file watcher do to
  the tabs.

  A handler runs up to its first \<open>await\<close> at once; what comes after is a pending request with the
  values the handler closed over, taken up when the service answers, in any order. The file service,
  the prompt and the confirmation are the answers in the actions; what is written is kept in a list.
\<close>

named_theorems editor_defs "the editor's handlers, unfolded together"

section \<open>Definitions\<close>

subsection \<open>State\<close>

record OpenTab =
  ot_path :: string
  ot_name :: string
  ot_content :: string
  ot_originalContent :: string
  ot_isDirty :: bool
  ot_isDraft :: bool

text \<open>Requests under way, with what their handlers closed over.\<close>

datatype pending =
    Reading string
  | Saving string string
  | SavingDraft string string string
  | Formatting string "string option" string
  | Creating string file_type "OpenTab list"
  | Renaming string string "string option" "string option"
  | Moving string "string option"
  | Deleting string "string option"

datatype answer = Content string | Done | MovedTo string | Declined | Failed

record editor =
  ed_openTabs :: "OpenTab list"
  ed_activeTabPath :: "string option"
  ed_selectedFile :: "string option"
  ed_fileContent :: string
  ed_draftCounter :: nat
  ed_recentlySaved :: "string list"
  ed_pending :: "pending list"
  ed_written :: "(string \<times> string) list"

definition newEditor :: editor where
  "newEditor = \<lparr>ed_openTabs = [], ed_activeTabPath = None, ed_selectedFile = None, ed_fileContent = '''',
     ed_draftCounter = 0, ed_recentlySaved = [], ed_pending = [], ed_written = []\<rparr>"

definition tabAt :: "OpenTab list \<Rightarrow> string \<Rightarrow> OpenTab option" where
  "tabAt tabs path = find (\<lambda>t. ot_path t = path) tabs"

definition getActiveTab :: "editor \<Rightarrow> OpenTab option" where
  "getActiveTab e = Option.bind (ed_activeTabPath e) (tabAt (ed_openTabs e))"

definition await :: "pending \<Rightarrow> editor \<Rightarrow> editor" where
  "await r e = e\<lparr>ed_pending := ed_pending e @ [r]\<rparr>"

subsection \<open>Opening and closing\<close>

text \<open>\<open>handleFileSelect\<close> looks for the tab among the tabs it closed over.\<close>

definition selectAmong :: "OpenTab list \<Rightarrow> string \<Rightarrow> editor \<Rightarrow> editor" where
  "selectAmong tabs path e =
     (let e = e\<lparr>ed_selectedFile := Some path, ed_activeTabPath := Some path\<rparr>
      in case tabAt tabs path of
           Some existingTab \<Rightarrow> e\<lparr>ed_fileContent := ot_content existingTab\<rparr>
         | None \<Rightarrow> await (Reading path) e)"

definition handleFileSelect :: "string \<Rightarrow> editor \<Rightarrow> editor" where
  "handleFileSelect path e = selectAmong (ed_openTabs e) path e"

definition fileRead :: "string \<Rightarrow> answer \<Rightarrow> editor \<Rightarrow> editor" where
  "fileRead path a e =
     (case a of
        Content content \<Rightarrow>
          e\<lparr>ed_fileContent := content,
            ed_openTabs := ed_openTabs e @
              [\<lparr>ot_path = path, ot_name = or_str (baseName path) path, ot_content = content,
                ot_originalContent = content, ot_isDirty = False, ot_isDraft = False\<rparr>]\<rparr>
      | _ \<Rightarrow> e\<lparr>ed_fileContent := ''-- Cannot load file: '' @ path\<rparr>)"

definition handleTabChange :: "string \<Rightarrow> editor \<Rightarrow> editor" where
  "handleTabChange path e =
     (let e = e\<lparr>ed_activeTabPath := Some path, ed_selectedFile := Some path\<rparr>
      in case tabAt (ed_openTabs e) path of
           Some tab \<Rightarrow> e\<lparr>ed_fileContent := ot_content tab\<rparr>
         | None \<Rightarrow> e)"

definition closeTab :: "string \<Rightarrow> bool \<Rightarrow> editor \<Rightarrow> editor" where
  "closeTab path confirmed e =
     (if (case tabAt (ed_openTabs e) path of Some tab \<Rightarrow> ot_isDirty tab | None \<Rightarrow> False) \<and> \<not> confirmed then e
      else
        let newTabs = filter (\<lambda>t. ot_path t \<noteq> path) (ed_openTabs e);
            e = e\<lparr>ed_openTabs := newTabs\<rparr>
        in if ed_activeTabPath e = Some path then
             if newTabs \<noteq> [] then
               let lastTab = last newTabs
               in e\<lparr>ed_activeTabPath := Some (ot_path lastTab), ed_selectedFile := Some (ot_path lastTab),
                    ed_fileContent := ot_content lastTab\<rparr>
             else e\<lparr>ed_activeTabPath := None, ed_selectedFile := None, ed_fileContent := ''''\<rparr>
           else e)"

subsection \<open>Editing\<close>

definition typed :: "string \<Rightarrow> OpenTab \<Rightarrow> OpenTab" where
  "typed content t = t\<lparr>ot_content := content, ot_isDirty := content \<noteq> ot_originalContent t\<rparr>"

definition editTabs :: "string option \<Rightarrow> string \<Rightarrow> OpenTab list \<Rightarrow> OpenTab list" where
  "editTabs activePath content tabs =
     map (\<lambda>t. if Some (ot_path t) = activePath then typed content t else t) tabs"

definition handleEditorChange :: "string option \<Rightarrow> editor \<Rightarrow> editor" where
  "handleEditorChange v e =
     (let content = nullish v ''''
      in e\<lparr>ed_fileContent := content,
           ed_openTabs := editTabs (ed_activeTabPath e) content (ed_openTabs e)\<rparr>)"

definition handleFormatContent :: "string option \<Rightarrow> string \<Rightarrow> editor \<Rightarrow> editor" where
  "handleFormatContent activePath formatted e =
     e\<lparr>ed_fileContent := formatted, ed_openTabs := editTabs activePath formatted (ed_openTabs e)\<rparr>"

definition handleFormatSql :: "editor \<Rightarrow> editor" where
  "handleFormatSql e =
     (let path = (if truthy (ed_activeTabPath e) then ed_activeTabPath e else ed_selectedFile e)
      in case path of
           None \<Rightarrow> e
         | Some p \<Rightarrow>
             if \<not> endsWith p ''.sql'' then e
             else await (Formatting p (ed_activeTabPath e) (ed_fileContent e)) e)"

text \<open>The service formats, or the local formatter does.\<close>

definition formatDone ::
  "(string \<Rightarrow> string \<Rightarrow> string) \<Rightarrow> string \<Rightarrow> string option \<Rightarrow> string \<Rightarrow> answer \<Rightarrow> editor \<Rightarrow> editor" where
  "formatDone formatFile path activePath content a e =
     handleFormatContent activePath (case a of Content sql \<Rightarrow> sql | _ \<Rightarrow> formatFile path content) e"

subsection \<open>Drafts and saving\<close>

definition draftPath :: "string \<Rightarrow> nat \<Rightarrow> string" where
  "draftPath now n = ''__draft__/'' @ now @ ''-'' @ show_nat n @ ''.sql''"

definition createDraftSqlFile :: "string \<Rightarrow> editor \<Rightarrow> editor" where
  "createDraftSqlFile now e =
     (let n = Suc (ed_draftCounter e);
          name = ''Untitled-'' @ show_nat n @ ''.sql'';
          path = draftPath now n
      in e\<lparr>ed_draftCounter := n,
           ed_openTabs := ed_openTabs e @
             [\<lparr>ot_path = path, ot_name = name, ot_content = '''', ot_originalContent = '''',
               ot_isDirty = False, ot_isDraft = True\<rparr>],
           ed_activeTabPath := Some path, ed_selectedFile := Some path, ed_fileContent := ''''\<rparr>)"

definition withSql :: "string \<Rightarrow> string" where
  "withSql path = (if endsWith path ''.sql'' then path else path @ ''.sql'')"

definition normalizeSavePath :: "string \<Rightarrow> string" where
  "normalizeSavePath rawPath =
     (let path = dropWhile (\<lambda>c. c = CHR ''/'') (trim rawPath)
      in if path = '''' then ''''
         else if CHR ''/'' \<in> set path then withSql path
         else ''models/'' @ withSql path)"

definition saveDraftAs :: "OpenTab \<Rightarrow> string option \<Rightarrow> editor \<Rightarrow> editor" where
  "saveDraftAs tab rawPath e =
     (case rawPath of
        None \<Rightarrow> e
      | Some raw \<Rightarrow>
          let path = normalizeSavePath raw
          in if path = '''' then e
             else await (SavingDraft (ot_path tab) path (ed_fileContent e))
                    (e\<lparr>ed_written := ed_written e @ [(path, ed_fileContent e)]\<rparr>))"

definition draftSaved :: "string \<Rightarrow> string \<Rightarrow> string \<Rightarrow> answer \<Rightarrow> editor \<Rightarrow> editor" where
  "draftSaved tabPath path content a e =
     (if a = Failed then e
      else e\<lparr>ed_openTabs :=
               map (\<lambda>item. if ot_path item = tabPath
                     then item\<lparr>ot_path := path, ot_name := or_str (baseName path) path, ot_content := content,
                       ot_originalContent := content, ot_isDirty := False, ot_isDraft := False\<rparr>
                     else item)
                 (filter (\<lambda>item. ot_path item = tabPath \<or> ot_path item \<noteq> path) (ed_openTabs e)),
             ed_selectedFile := Some path, ed_activeTabPath := Some path\<rparr>)"

definition setAdd :: "string \<Rightarrow> string list \<Rightarrow> string list" where
  "setAdd x xs = (if x \<in> set xs then xs else xs @ [x])"

definition unslashed :: "string \<Rightarrow> string" where
  "unslashed p = (if startsWith p slash then tl p else p)"

definition slashed :: "string \<Rightarrow> string" where
  "slashed p = (if startsWith p slash then p else slash @ p)"

definition handleSaveFile :: "string option \<Rightarrow> editor \<Rightarrow> editor" where
  "handleSaveFile rawPath e =
     (case (getActiveTab e, ed_selectedFile e) of
        (Some tab, Some file) \<Rightarrow>
          if file = '''' then e
          else if ot_isDraft tab then saveDraftAs tab rawPath e
          else await (Saving file (ed_fileContent e))
                 (e\<lparr>ed_recentlySaved :=
                      setAdd (slashed file) (setAdd (unslashed file) (setAdd file (ed_recentlySaved e))),
                    ed_written := ed_written e @ [(file, ed_fileContent e)]\<rparr>)
      | _ \<Rightarrow> e)"

definition fileSaved :: "string \<Rightarrow> string \<Rightarrow> answer \<Rightarrow> editor \<Rightarrow> editor" where
  "fileSaved file content a e =
     (if a = Failed then e\<lparr>ed_recentlySaved := filter (\<lambda>p. p \<noteq> file) (ed_recentlySaved e)\<rparr>
      else e\<lparr>ed_openTabs :=
               map (\<lambda>t. if ot_path t = file
                     then t\<lparr>ot_content := content, ot_originalContent := content, ot_isDirty := False\<rparr> else t)
                 (ed_openTabs e)\<rparr>)"

text \<open>Three seconds later the file is no longer taken as just saved.\<close>

definition saveTimer :: "string \<Rightarrow> editor \<Rightarrow> editor" where
  "saveTimer file e =
     e\<lparr>ed_recentlySaved :=
         filter (\<lambda>p. p \<noteq> file \<and> p \<noteq> unslashed file \<and> p \<noteq> slashed file) (ed_recentlySaved e)\<rparr>"

subsection \<open>The file system changes\<close>

definition fileCreated :: "string \<Rightarrow> file_type \<Rightarrow> OpenTab list \<Rightarrow> answer \<Rightarrow> editor \<Rightarrow> editor" where
  "fileCreated path t tabs a e =
     (if a \<noteq> Failed \<and> t = TFile then selectAmong tabs path e else e)"

definition retargetTab :: "string \<Rightarrow> string \<Rightarrow> string \<Rightarrow> OpenTab \<Rightarrow> OpenTab" where
  "retargetTab oldPath newPath newName t =
     (if ot_path t = oldPath then t\<lparr>ot_path := newPath, ot_name := newName\<rparr>
      else if startsWith (ot_path t) (oldPath @ slash)
      then t\<lparr>ot_path := replaceFirst (ot_path t) oldPath newPath\<rparr>
      else t)"

text \<open>The selection after a rename, from the value the handler closed over.\<close>

definition retargeted :: "string \<Rightarrow> string \<Rightarrow> string option \<Rightarrow> string option \<Rightarrow> string option" where
  "retargeted oldPath newPath captured current =
     (case captured of
        None \<Rightarrow> current
      | Some p \<Rightarrow> if isInsideOrSelf oldPath p then Some (replacePrefix p oldPath newPath) else current)"

definition fileRenamed ::
  "string \<Rightarrow> string \<Rightarrow> string option \<Rightarrow> string option \<Rightarrow> answer \<Rightarrow> editor \<Rightarrow> editor" where
  "fileRenamed oldPath newName selected active a e =
     (if a = Failed then e
      else
        let newPath = renamedPath oldPath newName
        in e\<lparr>ed_openTabs := map (retargetTab oldPath newPath newName) (ed_openTabs e),
             ed_selectedFile := retargeted oldPath newPath selected (ed_selectedFile e),
             ed_activeTabPath := retargeted oldPath newPath active (ed_activeTabPath e)\<rparr>)"

text \<open>A move answers where the entry went; only the selected file follows, not the active tab.\<close>

definition fileMoved :: "string \<Rightarrow> string option \<Rightarrow> answer \<Rightarrow> editor \<Rightarrow> editor" where
  "fileMoved sourcePath selected a e =
     (case a of
        MovedTo dest \<Rightarrow>
          e\<lparr>ed_openTabs := map (retargetTab sourcePath dest (baseName dest)) (ed_openTabs e),
            ed_selectedFile := retargeted sourcePath dest selected (ed_selectedFile e)\<rparr>
      | _ \<Rightarrow> e)"

definition fileDeleted :: "string \<Rightarrow> string option \<Rightarrow> answer \<Rightarrow> editor \<Rightarrow> editor" where
  "fileDeleted path selected a e =
     (if a \<noteq> Failed \<and> selected = Some path then e\<lparr>ed_selectedFile := None, ed_fileContent := ''''\<rparr> else e)"

text \<open>The watcher saw a file change on disk.\<close>

definition handleModified :: "string \<Rightarrow> editor \<Rightarrow> editor" where
  "handleModified path e =
     (let eventPath = unslashed path
      in if path = '''' then e
         else if eventPath \<in> set (ed_recentlySaved e)
         then e\<lparr>ed_recentlySaved := filter (\<lambda>p. p \<noteq> eventPath) (ed_recentlySaved e)\<rparr>
         else case tabAt (ed_openTabs e) eventPath of
                Some openTab \<Rightarrow> if \<not> ot_isDirty openTab then handleFileSelect eventPath e else e
              | None \<Rightarrow> e)"

subsection \<open>Actions\<close>

datatype action =
    Select string | TabChange string | Close string bool | Edit "string option" | Format
  | NewDraft string | Save "string option" | SaveTimer string
  | Create string string file_type | Rename string string | Move string | Delete string bool
  | Modified string | Reply nat answer

fun resume :: "(string \<Rightarrow> string \<Rightarrow> string) \<Rightarrow> pending \<Rightarrow> answer \<Rightarrow> editor \<Rightarrow> editor" where
  "resume fmt (Reading path) a e = fileRead path a e"
| "resume fmt (Saving file content) a e = fileSaved file content a e"
| "resume fmt (SavingDraft tabPath path content) a e = draftSaved tabPath path content a e"
| "resume fmt (Formatting path activePath content) a e = formatDone fmt path activePath content a e"
| "resume fmt (Creating path t tabs) a e = fileCreated path t tabs a e"
| "resume fmt (Renaming oldPath newName selected active) a e = fileRenamed oldPath newName selected active a e"
| "resume fmt (Moving sourcePath selected) a e = fileMoved sourcePath selected a e"
| "resume fmt (Deleting path selected) a e = fileDeleted path selected a e"

definition without :: "nat \<Rightarrow> 'a list \<Rightarrow> 'a list" where
  "without i xs = take i xs @ drop (Suc i) xs"

fun act :: "(string \<Rightarrow> string \<Rightarrow> string) \<Rightarrow> action \<Rightarrow> editor \<Rightarrow> editor" where
  "act fmt (Select path) e = handleFileSelect path e"
| "act fmt (TabChange path) e = handleTabChange path e"
| "act fmt (Close path confirmed) e = closeTab path confirmed e"
| "act fmt (Edit v) e = handleEditorChange v e"
| "act fmt Format e = handleFormatSql e"
| "act fmt (NewDraft now) e = createDraftSqlFile now e"
| "act fmt (Save rawPath) e = handleSaveFile rawPath e"
| "act fmt (SaveTimer file) e = saveTimer file e"
| "act fmt (Create parentPath name t) e =
     (if trim name = '''' then e else await (Creating (childPath parentPath name) t (ed_openTabs e)) e)"
| "act fmt (Rename oldPath newName) e =
     (if trim newName = '''' then e
      else await (Renaming oldPath newName (ed_selectedFile e) (ed_activeTabPath e)) e)"
| "act fmt (Move sourcePath) e = await (Moving sourcePath (ed_selectedFile e)) e"
| "act fmt (Delete path confirmed) e =
     (if trim path = '''' \<or> \<not> confirmed then e else await (Deleting path (ed_selectedFile e)) e)"
| "act fmt (Modified path) e = handleModified path e"
| "act fmt (Reply i a) e =
     (if i < length (ed_pending e)
      then resume fmt (ed_pending e ! i) a (e\<lparr>ed_pending := without i (ed_pending e)\<rparr>)
      else e)"

lemmas editor_handlers = selectAmong_def handleFileSelect_def fileRead_def handleTabChange_def closeTab_def
  handleEditorChange_def handleFormatContent_def handleFormatSql_def formatDone_def createDraftSqlFile_def
  saveDraftAs_def draftSaved_def handleSaveFile_def fileSaved_def saveTimer_def fileCreated_def
  fileRenamed_def fileMoved_def fileDeleted_def handleModified_def

section \<open>The dirty flag\<close>

definition tab_ok :: "OpenTab \<Rightarrow> bool" where
  "tab_ok t \<longleftrightarrow> (ot_isDirty t \<longleftrightarrow> ot_content t \<noteq> ot_originalContent t)"

definition tabs_ok :: "editor \<Rightarrow> bool" where
  "tabs_ok e \<longleftrightarrow> list_all tab_ok (ed_openTabs e)"

lemma tabs_ok_edit: "list_all tab_ok tabs \<Longrightarrow> list_all tab_ok (editTabs activePath content tabs)"
  by (auto simp: editTabs_def list_all_iff tab_ok_def typed_def)

lemma tabs_ok_select: "tabs_ok e \<Longrightarrow> tabs_ok (selectAmong tabs path e)"
  by (auto simp: tabs_ok_def selectAmong_def await_def Let_def split: option.splits)

lemma tabs_ok_resume: "tabs_ok e \<Longrightarrow> tabs_ok (resume fmt r a e)"
proof (cases r)
  case (Formatting path activePath content)
  assume "tabs_ok e"
  then show ?thesis using Formatting
    by (simp add: tabs_ok_def formatDone_def handleFormatContent_def tabs_ok_edit)
next
  case (Creating path t tabs)
  assume "tabs_ok e"
  then show ?thesis using Creating by (simp add: fileCreated_def tabs_ok_select)
qed (auto simp: tabs_ok_def fileRead_def fileSaved_def draftSaved_def fileRenamed_def fileMoved_def fileDeleted_def
       retargetTab_def Let_def list_all_iff tab_ok_def split: answer.splits)

lemma tabs_ok_act: "tabs_ok e \<Longrightarrow> tabs_ok (act fmt a e)"
proof (cases a)
  case (Reply i b)
  assume "tabs_ok e"
  then show ?thesis using Reply tabs_ok_resume by (simp add: tabs_ok_def [of "e\<lparr>ed_pending := _\<rparr>"] tabs_ok_def)
next
  case (Edit v)
  assume "tabs_ok e"
  then show ?thesis using Edit by (simp add: tabs_ok_def handleEditorChange_def tabs_ok_edit Let_def)
next
  case (Modified path)
  assume "tabs_ok e"
  then show ?thesis using Modified tabs_ok_select [of e "ed_openTabs e" "unslashed path"]
    by (auto simp: handleModified_def handleFileSelect_def Let_def split: option.splits) (simp add: tabs_ok_def)+
next
  case (Close path confirmed)
  assume "tabs_ok e"
  then show ?thesis using Close
    by (auto simp: tabs_ok_def closeTab_def Let_def list_all_iff split: option.splits)
qed (auto simp: handleFileSelect_def tabs_ok_select,
     auto simp: tabs_ok_def handleTabChange_def handleFormatSql_def createDraftSqlFile_def handleSaveFile_def
       saveDraftAs_def saveTimer_def await_def Let_def tab_ok_def split: option.splits)

section \<open>Calm use\<close>

text \<open>
  Every request is answered before anything else happens, a new name is not one of an open tab or of
  the shown file, and it has no dollar sign.
\<close>

definition fresh :: "string \<Rightarrow> editor \<Rightarrow> bool" where
  "fresh path e \<longleftrightarrow> CHR ''$'' \<notin> set path \<and>
     list_all (\<lambda>t. \<not> isInsideOrSelf path (ot_path t)) (ed_openTabs e) \<and>
     (case ed_activeTabPath e of None \<Rightarrow> True | Some p \<Rightarrow> \<not> isInsideOrSelf path p)"

fun calm_action :: "action \<Rightarrow> editor \<Rightarrow> bool" where
  "calm_action (Reply i a) e \<longleftrightarrow>
     (case (ed_pending e, a) of
        (Renaming oldPath newName _ _ # _, Done) \<Rightarrow> fresh (renamedPath oldPath newName) e
      | (Renaming _ _ _ _ # _, b) \<Rightarrow> b = Failed
      | (Moving _ _ # _, MovedTo dest) \<Rightarrow> fresh dest e
      | _ \<Rightarrow> True)"
| "calm_action (NewDraft now) e \<longleftrightarrow>
     ed_pending e = [] \<and>
     tabAt (ed_openTabs e) (draftPath now (Suc (ed_draftCounter e))) = None"
| "calm_action a e \<longleftrightarrow> ed_pending e = []"

inductive calm :: "(string \<Rightarrow> string \<Rightarrow> string) \<Rightarrow> editor \<Rightarrow> bool" for fmt where
  "calm fmt newEditor"
| "calm fmt e \<Longrightarrow> calm_action a e \<Longrightarrow> calm fmt (act fmt a e)"

text \<open>What is shown is the active tab, unless the file was deleted.\<close>

definition shown :: "editor \<Rightarrow> bool" where
  "shown e \<longleftrightarrow>
     (\<forall>t. getActiveTab e = Some t \<and> ed_selectedFile e \<noteq> None \<longrightarrow>
        ed_selectedFile e = Some (ot_path t) \<and> ed_fileContent e = ot_content t)"

definition paths :: "editor \<Rightarrow> string list" where
  "paths e = map ot_path (ed_openTabs e)"

text \<open>A request that is under way still sees what its handler closed over.\<close>

fun awaits :: "pending \<Rightarrow> editor \<Rightarrow> bool" where
  "awaits (Reading path) e \<longleftrightarrow>
     path \<notin> set (paths e) \<and> ed_activeTabPath e = Some path \<and> ed_selectedFile e = Some path"
| "awaits (Saving file content) e \<longleftrightarrow> content = ed_fileContent e \<and> ed_selectedFile e = Some file"
| "awaits (SavingDraft tabPath path content) e \<longleftrightarrow> content = ed_fileContent e \<and> tabPath \<in> set (paths e)"
| "awaits (Formatting path activePath content) e \<longleftrightarrow> activePath = ed_activeTabPath e"
| "awaits (Creating path t tabs) e \<longleftrightarrow> tabs = ed_openTabs e"
| "awaits (Renaming oldPath newName selected active) e \<longleftrightarrow>
     selected = ed_selectedFile e \<and> active = ed_activeTabPath e"
| "awaits (Moving sourcePath selected) e \<longleftrightarrow> selected = ed_selectedFile e"
| "awaits (Deleting path selected) e \<longleftrightarrow> selected = ed_selectedFile e"

definition calm_ok :: "editor \<Rightarrow> bool" where
  "calm_ok e \<longleftrightarrow> distinct (paths e) \<and> shown e \<and>
     (ed_pending e = [] \<or> (\<exists>r. ed_pending e = [r] \<and> awaits r e))"

lemma tabAt_Some:
  assumes "tabAt tabs p = Some t"
  shows "t \<in> set tabs" "ot_path t = p"
  using assms by (auto simp: tabAt_def find_Some_iff)

lemma tabAt_None: "tabAt tabs p = None \<longleftrightarrow> p \<notin> set (map ot_path tabs)"
  by (auto simp: tabAt_def find_None_iff)

lemma tabAt_member: "distinct (map ot_path tabs) \<Longrightarrow> t \<in> set tabs \<Longrightarrow> tabAt tabs (ot_path t) = Some t"
  by (induction tabs) (auto simp: tabAt_def)

lemma tabAt_append: "tabAt (xs @ ys) p = (case tabAt xs p of None \<Rightarrow> tabAt ys p | Some t \<Rightarrow> Some t)"
  by (induction xs) (auto simp: tabAt_def)

lemma tabAt_map:
  "(\<And>t. ot_path (f t) = ot_path t) \<Longrightarrow> tabAt (map f tabs) p = map_option f (tabAt tabs p)"
  by (induction tabs) (auto simp: tabAt_def)

lemma tabAt_Nil [simp]: "tabAt [] p = None"
  by (simp add: tabAt_def)

lemma tabAt_filter: "tabAt (filter (\<lambda>t. ot_path t \<noteq> q) tabs) p = (if p = q then None else tabAt tabs p)"
  by (induction tabs) (auto simp: tabAt_def)

definition quiet :: "editor \<Rightarrow> bool" where
  "quiet e \<longleftrightarrow> distinct (paths e) \<and> shown e"

lemma shownI:
  assumes "\<And>p t s. ed_activeTabPath e = Some p \<Longrightarrow> tabAt (ed_openTabs e) p = Some t \<Longrightarrow>
      ed_selectedFile e = Some s \<Longrightarrow> s = p \<and> ed_fileContent e = ot_content t"
  shows "shown e"
  using assms by (auto simp: shown_def getActiveTab_def bind_eq_Some_conv dest: tabAt_Some)

lemma quietI:
  assumes "distinct (map ot_path (ed_openTabs e))"
    and "\<And>p t s. ed_activeTabPath e = Some p \<Longrightarrow> tabAt (ed_openTabs e) p = Some t \<Longrightarrow>
      ed_selectedFile e = Some s \<Longrightarrow> s = p \<and> ed_fileContent e = ot_content t"
  shows "quiet e"
  using assms unfolding quiet_def paths_def by (intro conjI shownI) blast+

lemma shownD:
  assumes "shown e" "ed_activeTabPath e = Some p" "tabAt (ed_openTabs e) p = Some t" "ed_selectedFile e = Some s"
  shows "s = p" "ed_fileContent e = ot_content t"
  using assms by (auto simp: shown_def getActiveTab_def dest: tabAt_Some)

lemma calm_quiet: "calm_ok e \<Longrightarrow> quiet e"
  by (simp add: calm_ok_def quiet_def)

lemma calm_okI: "quiet e \<Longrightarrow> ed_pending e = [] \<Longrightarrow> calm_ok e"
  by (simp add: calm_ok_def quiet_def)

lemma calm_await:
  assumes "quiet e" "ed_pending e = []" "awaits r e"
  shows "calm_ok (await r e)"
proof -
  have "awaits r (await r e)" using assms(3) by (cases r) (auto simp: await_def paths_def)
  then show ?thesis using assms(1,2)
    by (auto simp: calm_ok_def quiet_def await_def paths_def shown_def getActiveTab_def)
qed

lemma quiet_select:
  "quiet e \<Longrightarrow> ed_pending e = [] \<Longrightarrow> calm_ok (selectAmong (ed_openTabs e) path e)"
proof (cases "tabAt (ed_openTabs e) path")
  case None
  assume quiet: "quiet e" and idle: "ed_pending e = []"
  let ?e = "e\<lparr>ed_selectedFile := Some path, ed_activeTabPath := Some path\<rparr>"
  have "quiet ?e" using quiet None by (auto simp: quiet_def paths_def intro!: shownI)
  then have "calm_ok (await (Reading path) ?e)"
    using None idle by (intro calm_await) (auto simp: tabAt_None paths_def)
  then show ?thesis using None by (simp add: selectAmong_def Let_def)
next
  case (Some t)
  assume "quiet e" "ed_pending e = []"
  then show ?thesis using Some
    by (auto simp: selectAmong_def Let_def quiet_def paths_def intro!: calm_okI shownI)
qed

lemma quiet_tabChange: "quiet e \<Longrightarrow> quiet (handleTabChange path e)"
  by (auto simp: handleTabChange_def Let_def quiet_def paths_def intro!: shownI split: option.splits)

lemma quiet_close: "quiet e \<Longrightarrow> quiet (closeTab path confirmed e)"
proof -
  assume quiet: "quiet e"
  let ?tabs = "filter (\<lambda>t. ot_path t \<noteq> path) (ed_openTabs e)"
  have d: "distinct (map ot_path ?tabs)" using quiet by (simp add: quiet_def paths_def distinct_map_filter)
  have "tabAt ?tabs (ot_path (last ?tabs)) = Some (last ?tabs)" if "?tabs \<noteq> []"
    using tabAt_member [OF d last_in_set [OF that]] .
  then show ?thesis
    using quiet d unfolding closeTab_def Let_def quiet_def
    by (auto simp: paths_def intro!: shownI dest: shownD) (auto simp: tabAt_filter dest: shownD split: if_splits)
qed

lemma tabAt_edit: "tabAt (editTabs q content tabs) p =
    map_option (\<lambda>t. if Some (ot_path t) = q then typed content t else t) (tabAt tabs p)"
  unfolding editTabs_def by (rule tabAt_map) (simp add: typed_def)

lemma paths_edit: "map ot_path (editTabs q content tabs) = map ot_path tabs"
  by (auto simp: editTabs_def typed_def)

lemma quiet_edited:
  "quiet e \<Longrightarrow> quiet (e\<lparr>ed_fileContent := content, ed_openTabs := editTabs (ed_activeTabPath e) content (ed_openTabs e)\<rparr>)"
  by (auto simp: quiet_def paths_def paths_edit tabAt_edit typed_def intro!: shownI dest: shownD)
    (metis tabAt_Some(2))

lemma quiet_newTab:
  assumes "quiet e" "tabAt (ed_openTabs e) path = None" "ot_path t = path"
  shows "quiet (e\<lparr>ed_openTabs := ed_openTabs e @ [t], ed_activeTabPath := Some path,
      ed_selectedFile := Some path, ed_fileContent := ot_content t\<rparr>)"
proof -
  have "path \<notin> set (map ot_path (ed_openTabs e))" using assms(2) unfolding tabAt_None .
  moreover have "tabAt (ed_openTabs e @ [t]) path = Some t"
    using assms(2,3) by (simp add: tabAt_append) (simp add: tabAt_def)
  ultimately show ?thesis
    using assms(1,3) by (auto simp: quiet_def paths_def intro!: shownI)
qed

lemma quiet_draft:
  assumes "quiet e" "tabAt (ed_openTabs e) (draftPath now (Suc (ed_draftCounter e))) = None"
  shows "quiet (createDraftSqlFile now e)"
proof -
  have "quiet (e\<lparr>ed_draftCounter := n\<rparr>) = quiet e" for n
    by (simp add: quiet_def paths_def shown_def getActiveTab_def)
  then show ?thesis
    using quiet_newTab [of "e\<lparr>ed_draftCounter := Suc (ed_draftCounter e)\<rparr>"
        "draftPath now (Suc (ed_draftCounter e))"
        "\<lparr>ot_path = draftPath now (Suc (ed_draftCounter e)),
          ot_name = ''Untitled-'' @ show_nat (Suc (ed_draftCounter e)) @ ''.sql'', ot_content = '''', ot_originalContent = '''', ot_isDirty = False, ot_isDraft = True\<rparr>"] assms
    by (simp add: createDraftSqlFile_def Let_def)
qed

lemma quiet_fields:
  "quiet (e\<lparr>ed_recentlySaved := r\<rparr>) \<longleftrightarrow> quiet e" "quiet (e\<lparr>ed_written := w\<rparr>) \<longleftrightarrow> quiet e"
  "quiet (e\<lparr>ed_pending := ps\<rparr>) \<longleftrightarrow> quiet e"
  by (simp_all add: quiet_def paths_def shown_def getActiveTab_def)

lemma quiet_save:
  assumes "quiet e" "ed_pending e = []"
  shows "calm_ok (handleSaveFile rawPath e)"
proof (cases "getActiveTab e")
  case None
  then show ?thesis using assms by (simp add: handleSaveFile_def calm_okI)
next
  case (Some tab)
  have mem: "ot_path tab \<in> set (paths e)"
    using Some tabAt_Some by (fastforce simp: getActiveTab_def bind_eq_Some_conv paths_def)
  show ?thesis
    using assms mem Some
    by (auto simp: handleSaveFile_def saveDraftAs_def Let_def paths_def quiet_fields
        intro!: calm_await intro: calm_okI split: option.splits)
qed

subsection \<open>Answers\<close>

lemma expandReplacement_plain: "CHR ''$'' \<notin> set rep \<Longrightarrow> expandReplacement m b a rep = rep"
  by (induction m b a rep rule: expandReplacement.induct) auto

lemma replaceFirst_prefix:
  "startsWith p old \<Longrightarrow> CHR ''$'' \<notin> set new \<Longrightarrow> replaceFirst p old new = new @ drop (length old) p"
  by (simp add: replaceFirst_def expandReplacement_plain)

lemma replacePrefix_rename: "CHR ''$'' \<notin> set new \<Longrightarrow> replacePrefix p old new = renamePath p old new"
  using replaceFirst_prefix [of old p new] append_prefixD
  by (auto simp: replacePrefix_def renamePath_def)

lemma retargetTab_sel:
  assumes "CHR ''$'' \<notin> set new"
  shows "ot_path (retargetTab old new name t) = renamePath (ot_path t) old new"
    "ot_content (retargetTab old new name t) = ot_content t"
  using replacePrefix_rename [OF assms, of "ot_path t" old]
  by (auto simp: retargetTab_def replacePrefix_def renamePath_def)

lemma retargeted_same:
  "CHR ''$'' \<notin> set new \<Longrightarrow> retargeted old new sel sel = map_option (\<lambda>p. renamePath p old new) sel"
  by (auto simp: retargeted_def replacePrefix_rename renamePath_outside split: option.splits)

lemma tabAt_retarget:
  assumes "CHR ''$'' \<notin> set new" "list_all (\<lambda>t. \<not> isInsideOrSelf new (ot_path t)) tabs" "\<not> isInsideOrSelf new p"
  shows "tabAt (map (retargetTab old new name) tabs) (renamePath p old new)
           = map_option (retargetTab old new name) (tabAt tabs p)"
    and "tabAt (map (retargetTab old new name) tabs) p
           = (if isInsideOrSelf old p then None else map_option (retargetTab old new name) (tabAt tabs p))"
proof -
  have same: "renamePath q old new = renamePath p old new \<longleftrightarrow> q = p" if "\<not> isInsideOrSelf new q" for q
    using renamePath_inj [OF that assms(3)] by blast
  then show one: "tabAt (map (retargetTab old new name) tabs) (renamePath p old new)
      = map_option (retargetTab old new name) (tabAt tabs p)"
    using assms(2) by (induction tabs) (auto simp: tabAt_def retargetTab_sel [OF assms(1)])
  have "isInsideOrSelf old q \<Longrightarrow> isInsideOrSelf new (renamePath q old new)" for q
    by (auto simp: renamePath_def isInsideOrSelf_def prefix_def)
  then have "renamePath q old new \<noteq> p" if "isInsideOrSelf old p" for q
    using that assms(3) renamePath_outside by metis
  then have "isInsideOrSelf old p \<Longrightarrow> tabAt (map (retargetTab old new name) tabs) p = None"
    using assms(2) by (auto simp: tabAt_None list_all_iff retargetTab_sel [OF assms(1)])
  then show "tabAt (map (retargetTab old new name) tabs) p
      = (if isInsideOrSelf old p then None else map_option (retargetTab old new name) (tabAt tabs p))"
    using one by (auto simp: renamePath_outside)
qed

lemma distinct_retarget:
  assumes "CHR ''$'' \<notin> set new" "list_all (\<lambda>t. \<not> isInsideOrSelf new (ot_path t)) tabs" "distinct (map ot_path tabs)"
  shows "distinct (map ot_path (map (retargetTab old new name) tabs))"
  using assms(2,3) renamePath_inj [of new _ _ old]
  by (induction tabs) (auto simp: retargetTab_sel [OF assms(1)] list_all_iff)

lemma quiet_renamed:
  assumes "quiet e" "fresh new e"
  shows "quiet (e\<lparr>ed_openTabs := map (retargetTab old new name) (ed_openTabs e),
      ed_selectedFile := retargeted old new (ed_selectedFile e) (ed_selectedFile e),
      ed_activeTabPath := retargeted old new (ed_activeTabPath e) (ed_activeTabPath e)\<rparr>)"
proof -
  have plain: "CHR ''$'' \<notin> set new"
    and tabs: "list_all (\<lambda>t. \<not> isInsideOrSelf new (ot_path t)) (ed_openTabs e)"
    using assms(2) by (simp_all add: fresh_def)
  have sh: "shown e" and dist: "distinct (map ot_path (ed_openTabs e))"
    using assms(1) by (simp_all add: quiet_def paths_def)
  have act: "\<not> isInsideOrSelf new p" if "ed_activeTabPath e = Some p" for p
    using that assms(2) by (simp add: fresh_def)
  show ?thesis
  proof (rule quietI, goal_cases)
    case 1
    show ?case using distinct_retarget [OF plain tabs dist] by simp
  next
    case (2 p t s)
    then obtain p' s' where p: "ed_activeTabPath e = Some p'" "p = renamePath p' old new"
      and s: "ed_selectedFile e = Some s'" "s = renamePath s' old new"
      by (auto simp: retargeted_same [OF plain])
    obtain t' where t: "tabAt (ed_openTabs e) p' = Some t'" "t = retargetTab old new name t'"
      using 2(2) p tabAt_retarget(1) [OF plain tabs act [OF p(1)]] by auto
    show ?case using shownD [OF sh p(1) t(1) s(1)] p s t retargetTab_sel(2) [OF plain] by simp
  qed
qed

lemma quiet_moved:
  assumes "quiet e" "fresh new e"
  shows "quiet (e\<lparr>ed_openTabs := map (retargetTab old new name) (ed_openTabs e),
      ed_selectedFile := retargeted old new (ed_selectedFile e) (ed_selectedFile e)\<rparr>)"
proof -
  have plain: "CHR ''$'' \<notin> set new"
    and tabs: "list_all (\<lambda>t. \<not> isInsideOrSelf new (ot_path t)) (ed_openTabs e)"
    using assms(2) by (simp_all add: fresh_def)
  have sh: "shown e" and dist: "distinct (map ot_path (ed_openTabs e))"
    using assms(1) by (simp_all add: quiet_def paths_def)
  have act: "\<not> isInsideOrSelf new p" if "ed_activeTabPath e = Some p" for p
    using that assms(2) by (simp add: fresh_def)
  show ?thesis
  proof (rule quietI, goal_cases)
    case 1
    show ?case using distinct_retarget [OF plain tabs dist] by simp
  next
    case (2 p t s)
    then have p: "ed_activeTabPath e = Some p" by simp
    obtain s' where s: "ed_selectedFile e = Some s'" "s = renamePath s' old new"
      using 2 by (auto simp: retargeted_same [OF plain])
    obtain t' where t: "\<not> isInsideOrSelf old p" "tabAt (ed_openTabs e) p = Some t'" "t = retargetTab old new name t'"
      using 2(2) p tabAt_retarget(2) [OF plain tabs act [OF p(1)]] by (auto split: if_splits)
    show ?case
      using shownD [OF sh p(1) t(2) s(1)] s t retargetTab_sel(2) [OF plain] by (simp add: renamePath_outside)
  qed
qed

lemma quiet_fileSaved:
  assumes "quiet e" "ed_selectedFile e = Some file"
  shows "quiet (e\<lparr>ed_openTabs := map (\<lambda>t. if ot_path t = file
            then t\<lparr>ot_content := ed_fileContent e, ot_originalContent := ed_fileContent e, ot_isDirty := False\<rparr>
            else t) (ed_openTabs e)\<rparr>)"
proof -
  let ?f = "\<lambda>t. if ot_path t = file
      then t\<lparr>ot_content := ed_fileContent e, ot_originalContent := ed_fileContent e, ot_isDirty := False\<rparr> else t"
  have "map ot_path (map ?f (ed_openTabs e)) = map ot_path (ed_openTabs e)" by simp
  moreover have "tabAt (map ?f (ed_openTabs e)) p = map_option ?f (tabAt (ed_openTabs e) p)" for p
    by (rule tabAt_map) simp
  moreover have "shown e" "distinct (map ot_path (ed_openTabs e))" using assms(1) by (simp_all add: quiet_def paths_def)
  ultimately show ?thesis
    using assms(2) shownD [of e] by (intro quietI) (auto simp del: map_map split: if_splits)
qed

lemma draftSaved_tabs:
  assumes "distinct (map ot_path tabs)"
    and f: "\<And>t. ot_path (f t) = (if ot_path t = tabPath then path else ot_path t)"
      "\<And>t. ot_path t = tabPath \<Longrightarrow> ot_content (f t) = content"
  defines "kept \<equiv> map f (filter (\<lambda>t. ot_path t = tabPath \<or> ot_path t \<noteq> path) tabs)"
  shows "distinct (map ot_path kept)" "tabAt kept path = Some t \<Longrightarrow> ot_content t = content"
proof -
  let ?g = "\<lambda>p. if p = tabPath then path else p"
  have "map ot_path kept = map ?g (filter (\<lambda>p. p = tabPath \<or> p \<noteq> path) (map ot_path tabs))"
    unfolding kept_def by (induction tabs) (auto simp: f(1))
  moreover have "inj_on ?g {p. p = tabPath \<or> p \<noteq> path}" by (auto simp: inj_on_def)
  ultimately show "distinct (map ot_path kept)"
    using assms(1) by (auto simp: distinct_map intro: inj_on_subset)
  assume "tabAt kept path = Some t"
  from tabAt_Some [OF this] show "ot_content t = content"
    by (auto simp: kept_def f split: if_splits)
qed

lemma quiet_draftSaved:
  assumes "quiet e"
  shows "quiet (draftSaved tabPath path (ed_fileContent e) a e)"
proof -
  let ?f = "\<lambda>item. if ot_path item = tabPath
      then item\<lparr>ot_path := path, ot_name := or_str (baseName path) path, ot_content := ed_fileContent e,
        ot_originalContent := ed_fileContent e, ot_isDirty := False, ot_isDraft := False\<rparr>
      else item"
  let ?tabs = "map ?f (filter (\<lambda>t. ot_path t = tabPath \<or> ot_path t \<noteq> path) (ed_openTabs e))"
  have d: "distinct (map ot_path (ed_openTabs e))" using assms by (simp add: quiet_def paths_def)
  have "distinct (map ot_path ?tabs)" by (rule draftSaved_tabs(1) [OF d]) auto
  moreover have "ot_content t = ed_fileContent e" if "tabAt ?tabs path = Some t" for t
    using that by (rule draftSaved_tabs(2) [OF d, rotated 2]) auto
  ultimately have "quiet (e\<lparr>ed_openTabs := ?tabs, ed_selectedFile := Some path, ed_activeTabPath := Some path\<rparr>)"
    by (intro quietI) (simp_all del: map_map)
  then show ?thesis using assms by (simp add: draftSaved_def)
qed

subsection \<open>The invariant\<close>

lemma awaits_fields: "awaits r (e\<lparr>ed_pending := ps\<rparr>) = awaits r e"
  by (cases r) (auto simp: paths_def)

lemma calm_resume:
  assumes "quiet e" "ed_pending e = []" "awaits r e" "calm_action (Reply 0 a) (e\<lparr>ed_pending := [r]\<rparr>)"
  shows "calm_ok (resume fmt r a e)"
proof (cases r)
  case (Reading path)
  have none: "tabAt (ed_openTabs e) path = None" using assms(3) Reading by (simp add: tabAt_None paths_def)
  have same: "e\<lparr>ed_activeTabPath := Some path, ed_selectedFile := Some path\<rparr> = e"
    using assms(3) Reading by (cases e) simp
  have "quiet (fileRead path a e)"
  proof (cases a)
    case (Content content)
    then show ?thesis
      using quiet_newTab [OF assms(1) none, of "\<lparr>ot_path = path, ot_name = or_str (baseName path) path,
          ot_content = content, ot_originalContent = content, ot_isDirty = False, ot_isDraft = False\<rparr>"]
        assms(3) Reading
      by (cases e) (simp add: fileRead_def)
  qed (use assms(1,3) none Reading in \<open>auto simp: fileRead_def quiet_def paths_def intro!: shownI\<close>)
  then show ?thesis using Reading assms(2) by (auto intro!: calm_okI simp: fileRead_def split: answer.splits)
next
  case (Saving f content)
  then show ?thesis
    using assms quiet_fileSaved [OF assms(1), of f]
    by (auto simp: fileSaved_def quiet_fields intro!: calm_okI)
next
  case (SavingDraft tabPath path content)
  then show ?thesis
    using assms quiet_draftSaved [OF assms(1), of tabPath path a]
    by (auto intro!: calm_okI) (simp add: draftSaved_def)
next
  case (Formatting path activePath content)
  then show ?thesis
    using assms quiet_edited [OF assms(1)]
    by (auto simp: formatDone_def handleFormatContent_def intro!: calm_okI)
next
  case (Creating path t tabs)
  then show ?thesis
    using assms quiet_select [OF assms(1,2)] by (auto simp: fileCreated_def calm_okI)
next
  case (Renaming oldPath newName selected active)
  then show ?thesis
    using assms quiet_renamed [OF assms(1), of "renamedPath oldPath newName" oldPath newName]
    by (auto simp: fileRenamed_def fresh_def Let_def intro!: calm_okI split: answer.splits)
next
  case (Moving sourcePath selected)
  then show ?thesis
    using assms quiet_moved [OF assms(1), of _ sourcePath]
    by (auto simp: fileMoved_def fresh_def intro!: calm_okI split: answer.splits)
next
  case (Deleting path selected)
  then show ?thesis
    using assms by (auto simp: fileDeleted_def quiet_def paths_def intro!: calm_okI shownI dest: shownD)
qed

lemma quiet_start: "calm_ok newEditor"
  by (simp add: newEditor_def calm_ok_def paths_def shown_def getActiveTab_def)

lemma calm_act:
  assumes "calm_ok e" "calm_action a e"
  shows "calm_ok (act fmt a e)"
proof -
  have q: "quiet e" using assms(1) by (rule calm_quiet)
  have moved: "awaits r e \<Longrightarrow> ed_pending e = [] \<Longrightarrow> calm_ok (await r e)" for r
    using q by (rule calm_await)
  show ?thesis
  proof (cases a)
    case (Reply i b)
    then show ?thesis
    proof (cases "i < length (ed_pending e)")
      case True
      then obtain r where r: "ed_pending e = [r]" "awaits r e" "i = 0"
        using assms(1) by (auto simp: calm_ok_def)
      have "calm_ok (resume fmt r b (e\<lparr>ed_pending := []\<rparr>))"
      proof (rule calm_resume)
        show "calm_action (Reply 0 b) (e\<lparr>ed_pending := [], ed_pending := [r]\<rparr>)"
          using assms(2) Reply r by (cases r; cases b) (simp_all add: fresh_def)
      qed (use q r in \<open>simp_all add: quiet_fields awaits_fields\<close>)
      then show ?thesis using Reply r by (simp add: without_def)
    qed (simp add: assms(1))
  next
    case (Close path confirmed)
    then have "ed_pending (closeTab path confirmed e) = []"
      using assms(2) by (simp add: closeTab_def Let_def)
    then show ?thesis using Close quiet_close [OF q] by (simp add: calm_okI)
  next
    case (Modified path)
    then show ?thesis
      using assms(2) q quiet_select [OF q]
      by (auto simp: handleModified_def handleFileSelect_def Let_def quiet_fields intro: calm_okI split: option.splits)
  qed (use assms(2) q in \<open>auto simp: handleFileSelect_def quiet_select quiet_save quiet_tabChange quiet_draft
      handleEditorChange_def quiet_edited handleFormatSql_def saveTimer_def quiet_fields Let_def
      intro!: calm_okI moved split: option.splits\<close>,
      auto simp: handleTabChange_def createDraftSqlFile_def Let_def quiet_fields split: option.splits)
qed

lemma calm_reachable: "calm fmt e \<Longrightarrow> calm_ok e"
  by (induction rule: calm.induct) (auto intro: quiet_start calm_act)

section \<open>Properties\<close>




definition demo_editor :: editor where
  "demo_editor = fold (act (\<lambda>p c. c)) [Select ''a.sql'', Reply 0 (Content ''x''), Edit (Some ''y'')] newEditor"


text \<open>
  Without that, a file can be overwritten with another file's content: when two files are opened
  one after the other and the first one's answer comes last, saving writes the first one's content
  under the second one's path, and no tab was edited.
\<close>

lemma late_read_overwrites:
  assumes "a \<noteq> b" "b \<noteq> ''''" "ed_pending e = []" "tabAt (ed_openTabs e) a = None" "tabAt (ed_openTabs e) b = None"
  shows "ed_written (fold (act fmt)
           [Select a, Select b, Reply 1 (Content contentB), Reply 0 (Content contentA), Save rawPath] e)
         = ed_written e @ [(b, contentA)]"
proof -
  have none: "tabAt (ed_openTabs e @ ts) b = tabAt ts b" for ts using assms(5) by (simp add: tabAt_append)
  show ?thesis
    using assms(1-4)
    by (simp add: handleFileSelect_def selectAmong_def await_def Let_def assms(5) fileRead_def without_def
        handleSaveFile_def getActiveTab_def none, simp add: tabAt_def await_def)
qed

subsection \<open>What else goes wrong\<close>

text \<open>
  What is typed while a save is under way is shown, but neither kept in the tab nor marked.
\<close>

lemma typing_while_saving_unmarked:
  fixes fmt :: "string \<Rightarrow> string \<Rightarrow> string" and e :: editor
  assumes "ed_pending e = []" "getActiveTab e = Some t" "\<not> ot_isDraft t"
    "ed_selectedFile e = Some (ot_path t)" "ot_path t \<noteq> ''''" "newer \<noteq> ed_fileContent e"
  defines "e' \<equiv> fold (act fmt) [Save None, Edit (Some newer), Reply 0 Done] e"
  shows "\<exists>t'. getActiveTab e' = Some t' \<and> \<not> ot_isDirty t' \<and> ot_content t' \<noteq> ed_fileContent e'"
proof -
  obtain p where p: "ed_activeTabPath e = Some p" "tabAt (ed_openTabs e) p = Some t" "p = ot_path t"
    using assms(2) by (auto simp: getActiveTab_def bind_eq_Some_conv dest: tabAt_Some)
  have "tabAt (map f tabs) q = map_option f (tabAt tabs q)" if "\<And>t. ot_path (f t) = ot_path t" for f tabs q
    using that by (rule tabAt_map)
  then show ?thesis
    using assms p unfolding e'_def
    by (simp add: handleSaveFile_def await_def without_def fileSaved_def handleEditorChange_def Let_def
        getActiveTab_def tabAt_edit typed_def)
qed

text \<open>
  After the shown file is moved there is no active tab: what is typed reaches no tab, and saving writes
  nothing.
\<close>

lemma moved_file_detached:
  fixes fmt :: "string \<Rightarrow> string \<Rightarrow> string" and e :: editor
  assumes "ed_pending e = []" "getActiveTab e = Some t" "\<not> isInsideOrSelf dest (ot_path t)"
    "CHR ''$'' \<notin> set dest" "list_all (\<lambda>t. \<not> isInsideOrSelf dest (ot_path t)) (ed_openTabs e)"
  defines "e' \<equiv> fold (act fmt) [Move (ot_path t), Reply 0 (MovedTo dest)] e"
  shows "getActiveTab e' = None \<and> ed_openTabs (act fmt (Edit v) e') = ed_openTabs e'
    \<and> act fmt (Save rawPath) (act fmt (Edit v) e') = act fmt (Edit v) e'"
proof -
  obtain p where p: "ed_activeTabPath e = Some p" "tabAt (ed_openTabs e) p = Some t" "p = ot_path t"
    using assms(2) by (auto simp: getActiveTab_def bind_eq_Some_conv dest: tabAt_Some)
  have none: "tabAt (map (retargetTab p dest name) (ed_openTabs e)) p = None" for name
    using tabAt_retarget(2) [OF assms(4,5), of p p] assms(3) p(3) by (simp add: isInsideOrSelf_def)
  have act: "ed_activeTabPath e' = Some p" and tab: "tabAt (ed_openTabs e') p = None"
    using assms(1) p none unfolding e'_def
    by (simp_all add: await_def without_def fileMoved_def)
  have "editTabs (Some p) c (ed_openTabs e') = ed_openTabs e'" for c
    using tab by (auto simp: editTabs_def tabAt_None intro!: map_idI)
  then show ?thesis
    using act tab by (simp add: getActiveTab_def handleEditorChange_def Let_def handleSaveFile_def)
qed

text \<open>A change on disk of an open, unchanged file is not read again: the tab keeps the old content.\<close>

lemma external_change_not_loaded:
  assumes "tabAt (ed_openTabs e) (unslashed path) = Some t"
  shows "ed_openTabs (act fmt (Modified path) e) = ed_openTabs e
    \<and> ed_pending (act fmt (Modified path) e) = ed_pending e"
  using assms by (simp add: handleModified_def handleFileSelect_def selectAmong_def Let_def)

end
