(* ===== verification/Develop_Commands.thy ===== *)
theory Develop_Commands
  imports Develop_Editor Dbt_Command Run_Options
begin

text \<open>
  Running dbt from the IDE (\<open>features/develop/components/DevelopLayout.tsx\<close>): the slot that is meant
  to keep one command in flight per project, the command line and the options a run is sent with,
  preview, compile, explain, clone and parse, and what the command stream reports.

  The file a command works on comes from \<open>ensureSavedSqlFile\<close>, which answers at once for a saved
  tab and only after the save otherwise. Requests stay in the list of jobs until they are answered.
  Of the terminal only the echoed command lines are kept.
\<close>

named_theorems command_defs "the command handlers, unfolded together"

section \<open>Definitions\<close>

definition DEFAULT_DBT_TARGET :: string where
  "DEFAULT_DBT_TARGET = ''dev''"

record 'n settings =
  st_host :: "'n host"
  st_runOptions :: "'n RunOptionsState"
  st_fullRefresh :: bool
  st_commandArgs :: string
  st_target :: string

datatype file_command = Preview | Compile | Explain | RunCurrent

datatype 'n job =
    StreamJob string "'n DbtRunOptionsPayload"
  | HttpJob string "'n DbtRunOptionsPayload"
  | FileJob file_command string string string
  | CloneJob string "string option" bool bool
  | ParseJob

record 'n commands =
  co_inFlight :: bool
  co_refused :: nat
  co_active :: "string option"
  co_saving :: "file_command list"
  co_jobs :: "'n job list"
  co_echoed :: "string list"

definition noCommands :: "'n commands" where
  "noCommands = \<lparr>co_inFlight = False, co_refused = 0, co_active = None, co_saving = [], co_jobs = [], co_echoed = []\<rparr>"

definition setIsCommandRunning :: "bool \<Rightarrow> 'n commands \<Rightarrow> 'n commands" where
  "setIsCommandRunning running s = s\<lparr>co_inFlight := running\<rparr>"

text \<open>Whether the command may start; a refusal is told in the terminal.\<close>

definition claimCommandSlot :: "'n commands \<Rightarrow> bool \<times> 'n commands" where
  "claimCommandSlot s =
     (if co_inFlight s then (False, s\<lparr>co_refused := Suc (co_refused s)\<rparr>) else (True, s))"

definition post :: "'n job \<Rightarrow> 'n commands \<Rightarrow> 'n commands" where
  "post j s = s\<lparr>co_jobs := co_jobs s @ [j]\<rparr>"

definition echo :: "string \<Rightarrow> 'n commands \<Rightarrow> 'n commands" where
  "echo line s = s\<lparr>co_echoed := co_echoed s @ [line]\<rparr>"

subsection \<open>Runs\<close>

text \<open>What the stream's \<open>connect\<close> answers: always true, at once.\<close>

definition streamConnect :: bool where
  "streamConnect = True"

definition effectiveOptions ::
  "'n settings \<Rightarrow> ('n RunOptionsState \<Rightarrow> 'n RunOptionsState) \<Rightarrow> 'n RunOptionsState" where
  "effectiveOptions st customOptions =
     customOptions ((st_runOptions st)
       \<lparr>o_full_refresh := st_fullRefresh st \<or> o_full_refresh (st_runOptions st)\<rparr>)"

definition runPayload ::
  "'n settings \<Rightarrow> ('n RunOptionsState \<Rightarrow> 'n RunOptionsState) \<Rightarrow> string \<Rightarrow> 'n DbtRunOptionsPayload" where
  "runPayload st customOptions command =
     buildRunOptionsPayload (st_host st) (effectiveOptions st customOptions) (Some command)"

definition commandWithTarget ::
  "'n settings \<Rightarrow> 'n DbtRunOptionsPayload \<Rightarrow> string \<Rightarrow> string" where
  "commandWithTarget st payload command =
     buildDbtCommandWithArgs
       (if truthy (p_selector_name payload) then stripModelSelection command else command)
       '''' False (Some (st_target st))"

definition handleRunDbt ::
  "'n settings \<Rightarrow> string \<Rightarrow> ('n RunOptionsState \<Rightarrow> 'n RunOptionsState) \<Rightarrow> 'n commands \<Rightarrow> 'n commands" where
  "handleRunDbt st command customOptions s =
     (case claimCommandSlot s of
        (False, s) \<Rightarrow> s
      | (True, s) \<Rightarrow>
          let payload = runPayload st customOptions command;
              cmd = commandWithTarget st payload command
          in if \<not> streamConnect
             then post (HttpJob cmd payload) (setIsCommandRunning True (echo (''$ dbt '' @ cmd) s))
             else post (StreamJob cmd payload) (setIsCommandRunning True (s\<lparr>co_active := Some cmd\<rparr>)))"

text \<open>\<open>runOptions.state_target || dbtTarget || dev\<close>.\<close>

definition effectiveStateTarget :: "'n settings \<Rightarrow> string" where
  "effectiveStateTarget st =
     or_str (nullish (o_state_target (st_runOptions st)) '''') (or_str (st_target st) DEFAULT_DBT_TARGET)"

definition handleRunBuildModified :: "'n settings \<Rightarrow> string option \<Rightarrow> 'n commands \<Rightarrow> 'n commands" where
  "handleRunBuildModified st stateTarget s =
     (let target = (if truthy stateTarget then the stateTarget else effectiveStateTarget st)
      in handleRunDbt st ''build --select state:modified+''
           (\<lambda>opts. opts\<lparr>o_state_target := Some target, o_defer := True\<rparr>) s)"

definition handleCloneState ::
  "'n settings \<Rightarrow> string option \<Rightarrow> bool option \<Rightarrow> bool option \<Rightarrow> 'n commands \<Rightarrow> 'n commands" where
  "handleCloneState st stateTarget deferState favorState s =
     (case claimCommandSlot s of
        (False, s) \<Rightarrow> s
      | (True, s) \<Rightarrow>
          let target = (if truthy stateTarget then the stateTarget else effectiveStateTarget st)
          in post (CloneJob target (if st_target st \<noteq> target then Some (st_target st) else None)
                 (nullish deferState (o_defer (st_runOptions st))) (nullish favorState (o_favor_state (st_runOptions st))))
               (setIsCommandRunning True
                 (echo (''$ dbt clone --state '' @ target @
                    (if st_target st \<noteq> '''' \<and> st_target st \<noteq> target then '' --target '' @ st_target st else '''')) s)))"

text \<open>Parsing does not ask for the slot.\<close>

definition handleRunParse :: "'n commands \<Rightarrow> 'n commands" where
  "handleRunParse s = post ParseJob (setIsCommandRunning True (echo ''$ dbt parse'' s))"

subsection \<open>Commands on the open file\<close>

text \<open>\<open>targetFile.split('/').pop()?.replace('.sql', '')\<close>.\<close>

definition modelNameOf :: "string \<Rightarrow> string" where
  "modelNameOf path = replaceFirst (baseName path) ''.sql'' ''''"

definition sqlTarget :: "string option \<Rightarrow> string option" where
  "sqlTarget targetFile = (if truthy targetFile \<and> endsWith (the targetFile) ''.sql'' then targetFile else None)"

definition fileCommandName :: "file_command \<Rightarrow> string" where
  "fileCommandName c = (if c = Preview then ''show'' else ''compile'')"

text \<open>The rest of the handler, once the file is saved.\<close>

definition fileReady ::
  "'n settings \<Rightarrow> file_command \<Rightarrow> string option \<Rightarrow> 'n commands \<Rightarrow> 'n commands" where
  "fileReady st c targetFile s =
     (case sqlTarget targetFile of
        None \<Rightarrow> s
      | Some f \<Rightarrow>
          let extraArgs = buildDbtAdditionalArgs (fileCommandName c) (st_commandArgs st) (st_fullRefresh st);
              line = ''$ dbt '' @ buildDbtCommandWithArgs
                (fileCommandName c @ '' --select '' @ modelNameOf f)
                (st_commandArgs st) (st_fullRefresh st) (Some (st_target st))
          in case c of
               Preview \<Rightarrow> post (FileJob Preview f extraArgs (st_target st)) (echo line (setIsCommandRunning True s))
             | Compile \<Rightarrow> post (FileJob Compile f extraArgs (st_target st)) (echo line s)
             | Explain \<Rightarrow> post (FileJob Explain f extraArgs (st_target st)) (setIsCommandRunning True s)
             | RunCurrent \<Rightarrow>
                 handleRunDbt st
                   (if trim (nullish (o_selector_name (st_runOptions st)) '''') \<noteq> '''' then ''run''
                    else ''run --select '' @ modelNameOf f) (\<lambda>opts. opts) s)"

text \<open>\<open>ensureSavedSqlFile\<close>: \<open>None\<close> while a save is under way.\<close>

definition ensureSavedSqlFile :: "editor \<Rightarrow> string option option" where
  "ensureSavedSqlFile e =
     (case getActiveTab e of
        None \<Rightarrow> Some None
      | Some tab \<Rightarrow> if ot_isDraft tab \<or> ot_isDirty tab then None else Some (Some (ot_path tab)))"

definition awaitSaved ::
  "'n settings \<Rightarrow> file_command \<Rightarrow> editor \<Rightarrow> 'n commands \<Rightarrow> 'n commands" where
  "awaitSaved st c e s =
     (case ensureSavedSqlFile e of
        None \<Rightarrow> s\<lparr>co_saving := co_saving s @ [c]\<rparr>
      | Some targetFile \<Rightarrow> fileReady st c targetFile s)"

definition handleFileCommand ::
  "'n settings \<Rightarrow> file_command \<Rightarrow> editor \<Rightarrow> 'n commands \<Rightarrow> 'n commands" where
  "handleFileCommand st c e s =
     (if c = RunCurrent then awaitSaved st c e s
      else case claimCommandSlot s of
             (False, s) \<Rightarrow> s
           | (True, s) \<Rightarrow> awaitSaved st c e s)"

subsection \<open>Answers\<close>

text \<open>Only the requests of a compile leave the slot alone when they are answered.\<close>

definition jobAnswered :: "nat \<Rightarrow> 'n commands \<Rightarrow> 'n commands" where
  "jobAnswered i s =
     (let j = co_jobs s ! i;
          s = s\<lparr>co_jobs := without i (co_jobs s)\<rparr>
      in case j of
           FileJob Compile _ _ _ \<Rightarrow> s
         | StreamJob _ _ \<Rightarrow> (setIsCommandRunning False s)\<lparr>co_active := None\<rparr>
         | _ \<Rightarrow> setIsCommandRunning False s)"

text \<open>The answer to a cancel request, \<open>None\<close> when it failed. The jobs go on.\<close>

definition cancelCommand :: "bool option \<Rightarrow> 'n commands \<Rightarrow> 'n commands" where
  "cancelCommand reply s = (case reply of None \<Rightarrow> s | Some success \<Rightarrow> setIsCommandRunning False s)"

datatype 'n command_action =
    RunDbt string "'n RunOptionsState \<Rightarrow> 'n RunOptionsState"
  | BuildModified "string option"
  | Clone "string option" "bool option" "bool option"
  | Parse
  | OnFile file_command editor
  | Saved nat "string option"
  | StreamStarted
  | Answered nat
  | Cancelled "bool option"

fun commandStep :: "'n settings \<Rightarrow> 'n command_action \<Rightarrow> 'n commands \<Rightarrow> 'n commands" where
  "commandStep st (RunDbt c opts) s = handleRunDbt st c opts s"
| "commandStep st (BuildModified t) s = handleRunBuildModified st t s"
| "commandStep st (Clone t d f) s = handleCloneState st t d f s"
| "commandStep st Parse s = handleRunParse s"
| "commandStep st (OnFile c e) s = handleFileCommand st c e s"
| "commandStep st (Saved i targetFile) s =
     (if i < length (co_saving s)
      then fileReady st (co_saving s ! i) targetFile (s\<lparr>co_saving := without i (co_saving s)\<rparr>)
      else s)"
| "commandStep st StreamStarted s = setIsCommandRunning True s"
| "commandStep st (Answered i) s = (if i < length (co_jobs s) then jobAnswered i s else s)"
| "commandStep st (Cancelled reply) s = cancelCommand reply s"

section \<open>One command at a time\<close>

text \<open>
  The user does not compile, parse or cancel, and starts nothing while a save is under way.
\<close>

fun orderly_action :: "'n command_action \<Rightarrow> 'n commands \<Rightarrow> bool" where
  "orderly_action Parse s \<longleftrightarrow> False"
| "orderly_action (OnFile c e) s \<longleftrightarrow> c \<noteq> Compile \<and> co_saving s = []"
| "orderly_action (Saved i targetFile) s \<longleftrightarrow> True"
| "orderly_action StreamStarted s \<longleftrightarrow> co_jobs s \<noteq> []"
| "orderly_action (Answered i) s \<longleftrightarrow> True"
| "orderly_action (Cancelled reply) s \<longleftrightarrow> False"
| "orderly_action a s \<longleftrightarrow> co_saving s = []"

inductive orderly :: "'n settings \<Rightarrow> 'n commands \<Rightarrow> bool" for st where
  "orderly st noCommands"
| "orderly st s \<Longrightarrow> orderly_action a s \<Longrightarrow> orderly st (commandStep st a s)"

text \<open>At most one job, and the flag says whether there is one.\<close>

fun holdsSlot :: "'n job \<Rightarrow> bool" where
  "holdsSlot (FileJob c _ _ _) \<longleftrightarrow> c \<noteq> Compile"
| "holdsSlot _ \<longleftrightarrow> True"

definition slot_ok :: "'n commands \<Rightarrow> bool" where
  "slot_ok s \<longleftrightarrow>
     length (co_jobs s) \<le> 1 \<and> list_all holdsSlot (co_jobs s) \<and> (co_inFlight s \<longleftrightarrow> co_jobs s \<noteq> []) \<and>
     (co_saving s = [] \<or> co_saving s = [RunCurrent] \<or>
      (\<exists>c. co_saving s = [c] \<and> c \<noteq> Compile \<and> co_jobs s = []))"

lemma slot_ok_run: "slot_ok s \<Longrightarrow> co_saving s = [] \<Longrightarrow> slot_ok (handleRunDbt st c opts s)"
  by (auto simp: slot_ok_def handleRunDbt_def claimCommandSlot_def post_def setIsCommandRunning_def streamConnect_def Let_def)

lemma slot_ok_clone: "slot_ok s \<Longrightarrow> co_saving s = [] \<Longrightarrow> slot_ok (handleCloneState st t d f s)"
  by (auto simp: slot_ok_def handleCloneState_def claimCommandSlot_def post_def echo_def setIsCommandRunning_def Let_def)

lemma slot_ok_fileReady:
  assumes "slot_ok s" "co_saving s = []" "c \<noteq> Compile" "c = RunCurrent \<or> co_jobs s = []"
  shows "slot_ok (fileReady st c targetFile s)"
proof (cases "sqlTarget targetFile")
  case None
  then show ?thesis using assms(1) by (simp add: fileReady_def)
next
  case (Some f)
  then show ?thesis
    using assms slot_ok_run [OF assms(1,2)]
    by (cases c) (auto simp: fileReady_def Let_def slot_ok_def post_def echo_def setIsCommandRunning_def)
qed

lemma slot_ok_file:
  assumes "slot_ok s" "co_saving s = []" "c \<noteq> Compile"
  shows "slot_ok (handleFileCommand st c e s)"
proof (cases "c \<noteq> RunCurrent \<and> co_inFlight s")
  case True
  then show ?thesis using assms(1) by (auto simp: handleFileCommand_def claimCommandSlot_def slot_ok_def)
next
  case False
  then have "handleFileCommand st c e s = awaitSaved st c e s"
    by (auto simp: handleFileCommand_def claimCommandSlot_def)
  moreover have jobs: "c = RunCurrent \<or> co_jobs s = []" using False assms(1) by (auto simp: slot_ok_def)
  ultimately show ?thesis
    using assms slot_ok_fileReady [OF assms jobs]
    by (cases c) (auto simp: awaitSaved_def slot_ok_def split: option.splits)
qed

lemma slot_ok_command:
  assumes "slot_ok s" "orderly_action a s"
  shows "slot_ok (commandStep st a s)"
proof (cases a)
  case (Saved i targetFile)
  show ?thesis
  proof (cases "i < length (co_saving s)")
    case True
    then obtain c where c: "co_saving s = [c]" "i = 0" "c \<noteq> Compile" "c = RunCurrent \<or> co_jobs s = []"
      using assms(1) by (auto simp: slot_ok_def)
    have "slot_ok (fileReady st c targetFile (s\<lparr>co_saving := []\<rparr>))"
      using assms(1) c by (intro slot_ok_fileReady) (auto simp: slot_ok_def)
    then show ?thesis using Saved c by (simp add: without_def)
  qed (simp add: Saved assms(1))
next
  case (Answered i)
  show ?thesis
  proof (cases "i < length (co_jobs s)")
    case True
    then obtain j where j: "co_jobs s = [j]" "i = 0" using assms(1) by (cases "co_jobs s") (auto simp: slot_ok_def)
    then show ?thesis
      using assms(1) Answered
      by (cases j) (auto simp: jobAnswered_def without_def setIsCommandRunning_def slot_ok_def Let_def
          split: file_command.splits)
  qed (simp add: Answered assms(1))
qed (use assms in \<open>auto simp: slot_ok_run slot_ok_clone slot_ok_file handleRunBuildModified_def Let_def
      setIsCommandRunning_def\<close>, auto simp: slot_ok_def)

lemma slot_ok_reachable: "orderly st s \<Longrightarrow> slot_ok s"
  by (induction rule: orderly.induct) (auto simp: slot_ok_command, simp add: slot_ok_def noCommands_def)

section \<open>Properties\<close>

text \<open>
  C37. As long as the user does not compile, parse or cancel and starts nothing while a save is under
  way, at most one command is in flight, the flag says whether one is, and while one is every other
  command is refused.
\<close>

theorem one_command_at_a_time:
  assumes "orderly st s"
  shows "length (co_jobs s) \<le> 1 \<and> (co_inFlight s \<longleftrightarrow> co_jobs s \<noteq> [])
    \<and> (co_jobs s \<noteq> [] \<longrightarrow> co_jobs (handleRunDbt st c opts s) = co_jobs s
         \<and> co_jobs (handleCloneState st t d f s) = co_jobs s
         \<and> co_jobs (handleFileCommand st Preview e s) = co_jobs s
         \<and> co_jobs (handleFileCommand st Explain e s) = co_jobs s)"
  using slot_ok_reachable [OF assms]
  by (simp add: slot_ok_def handleRunDbt_def handleCloneState_def handleFileCommand_def claimCommandSlot_def)

definition demo_settings :: "nat settings" where
  "demo_settings = \<lparr>st_host = demo_host, st_runOptions = noRunOptions, st_fullRefresh = False,
     st_commandArgs = '''', st_target = ''dev''\<rparr>"

theorem one_command_at_a_time_witness:
  "length (co_jobs (commandStep demo_settings (Clone None None None) noCommands)) \<le> 1
   \<and> co_jobs (handleRunDbt demo_settings ''run'' id (commandStep demo_settings (Clone None None None) noCommands))
     = co_jobs (commandStep demo_settings (Clone None None None) noCommands)"
proof -
  have "orderly demo_settings (commandStep demo_settings (Clone None None None) noCommands)"
    by (intro orderly.intros) (simp add: noCommands_def)
  moreover have "co_jobs (commandStep demo_settings (Clone None None None) noCommands) \<noteq> []"
    by (simp add: handleCloneState_def claimCommandSlot_def noCommands_def post_def Let_def)
  ultimately show ?thesis using one_command_at_a_time by blast
qed

text \<open>
  The slot does not keep commands apart otherwise: a compile does not take it, two previews of a
  changed file both pass while the file is being saved, and a cancelled command still runs when the
  next one starts. In each case two commands are in flight and nothing was refused.
\<close>

lemma commands_overlap:
  assumes "getActiveTab saved = Some t" "\<not> ot_isDraft t" "\<not> ot_isDirty t" "sqlTarget (Some (ot_path t)) \<noteq> None"
    and "getActiveTab changed = Some t'" "ot_isDirty t'" "sqlTarget (Some (ot_path t')) \<noteq> None"
    and "s \<in> {fold (commandStep st) [OnFile Compile saved, RunDbt c opts] noCommands,
              fold (commandStep st) [OnFile Preview changed, OnFile Preview changed,
                Saved 0 (Some (ot_path t')), Saved 0 (Some (ot_path t'))] noCommands,
              fold (commandStep st) [RunDbt c opts, Cancelled (Some success), RunDbt c' opts'] noCommands}"
  shows "length (co_jobs s) = 2 \<and> co_refused s = 0"
proof -
  have "sqlTarget (Some (ot_path t)) = Some (ot_path t)" "sqlTarget (Some (ot_path t')) = Some (ot_path t')"
    using assms(4,7) by (auto simp: sqlTarget_def split: if_splits)
  then show ?thesis
    using assms(1-3,5,6,8)
    by (auto simp: handleFileCommand_def awaitSaved_def ensureSavedSqlFile_def fileReady_def handleRunDbt_def
        claimCommandSlot_def post_def echo_def setIsCommandRunning_def streamConnect_def noCommands_def Let_def
        without_def cancelCommand_def)
qed

text \<open>
  A run carries the selected target, when its name is well formed, and when the options name a selector
  the command is sent without the model selection it was given.
\<close>

lemma run_command_targeted:
  assumes "rx_match TARGET_NAME_PATTERN (trim (st_target st))"
  shows "target_test (commandWithTarget st payload command)"
proof -
  have "trim (st_target st) \<noteq> ''''" using assms by (auto simp: TARGET_NAME_PATTERN_def)
  then show ?thesis
    using assms target_test_appended by (simp add: commandWithTarget_def buildDbtCommandWithArgs_def Let_def)
qed

text \<open>The HTTP fallback is never taken: the stream's \<open>connect\<close> always succeeds.\<close>

lemma no_http_fallback:
  "list_all (\<lambda>j. case j of HttpJob _ _ \<Rightarrow> False | _ \<Rightarrow> True) (co_jobs s) \<Longrightarrow>
     list_all (\<lambda>j. case j of HttpJob _ _ \<Rightarrow> False | _ \<Rightarrow> True) (co_jobs (handleRunDbt st c opts s))"
  by (simp add: handleRunDbt_def claimCommandSlot_def post_def setIsCommandRunning_def streamConnect_def Let_def)

end
