(* ===== verification/Run_Options_Dialog.thy ===== *)
theory Run_Options_Dialog
  imports Run_Options
begin

text \<open>
  The run options dialog (\<open>features/develop/components/RunOptionsDialog.tsx\<close>): the list of variables
  it edits, the checks when the options are applied, and the options it hands over.
\<close>

section \<open>Definitions\<close>

datatype dialog_tab = FlagsTab | VarsTab | StateTab

text \<open>
  The rows the dialog opens with; \<open>textOf\<close> is \<open>JSON.stringify\<close> on objects and \<open>String\<close> on the
  other values.
\<close>

definition openVarEntries :: "('n json \<Rightarrow> string) \<Rightarrow> 'n RunOptionsState \<Rightarrow> VarEntry list" where
  "openVarEntries textOf opts =
     (case o_varEntries opts of
        Some (e # es) \<Rightarrow> e # es
      | _ \<Rightarrow> (case o_vars opts of
                Some vs \<Rightarrow> map (\<lambda>(k, v). \<lparr>var_key = k, var_value = textOf v\<rparr>) vs
              | None \<Rightarrow> []))"

definition handleAddVar :: "VarEntry list \<Rightarrow> VarEntry list" where
  "handleAddVar entries = entries @ [\<lparr>var_key = '''', var_value = ''''\<rparr>]"

definition handleUpdateKey :: "nat \<Rightarrow> string \<Rightarrow> VarEntry list \<Rightarrow> VarEntry list" where
  "handleUpdateKey i v entries = entries[i := (entries ! i)\<lparr>var_key := v\<rparr>]"

definition handleUpdateValue :: "nat \<Rightarrow> string \<Rightarrow> VarEntry list \<Rightarrow> VarEntry list" where
  "handleUpdateValue i v entries = entries[i := (entries ! i)\<lparr>var_value := v\<rparr>]"

definition handleRemoveVar :: "nat \<Rightarrow> VarEntry list \<Rightarrow> VarEntry list" where
  "handleRemoveVar i entries = take i entries @ drop (Suc i) entries"

definition handleClearAll :: "StateTargetResolution \<Rightarrow> 'n RunOptionsState" where
  "handleClearAll res =
     \<lparr>o_vars = None, o_varEntries = Some [], o_empty = False, o_sample = Some '''',
      o_event_time_start = None, o_event_time_end = None, o_full_refresh = False,
      o_selector_name = Some '''', o_state_target = Some (case candidateTargets res of [] \<Rightarrow> '''' | t # _ \<Rightarrow> t),
      o_defer = False, o_favor_state = False\<rparr>"

text \<open>The first failing check names its error and the tab to show.\<close>

definition handleApply ::
  "'n host \<Rightarrow> 'n RunOptionsState \<Rightarrow> VarEntry list \<Rightarrow> StateTargetResolution \<Rightarrow> (string \<times> dialog_tab) + 'n RunOptionsState"
where
  "handleApply h localOptions varEntries res =
     (case validateVars h (Some (Inl varEntries)) of
        Inl err \<Rightarrow> Inl (err, VarsTab)
      | Inr vars \<Rightarrow>
        (case validateSample (o_sample localOptions) of
           Inl err \<Rightarrow> Inl (err, FlagsTab)
         | Inr sample \<Rightarrow>
           (case validateEventTime h (o_event_time_start localOptions) (o_event_time_end localOptions) of
              Inl err \<Rightarrow> Inl (err, FlagsTab)
            | Inr window \<Rightarrow>
              (case validateSelectorName (o_selector_name localOptions) of
                 Inl err \<Rightarrow> Inl (err, FlagsTab)
               | Inr _ \<Rightarrow>
                   let cleaned = filter (\<lambda>e. trim (var_key e) \<noteq> '''') varEntries
                   in Inr (localOptions
                        \<lparr>o_vars := vars,
                         o_varEntries := (if cleaned \<noteq> [] then Some cleaned else None),
                         o_sample := sample,
                         o_event_time_start := map_option fst window,
                         o_event_time_end := map_option snd window,
                         o_selector_name := trim_or_null (o_selector_name localOptions),
                         o_state_target := Some (selectedTarget res),
                         o_defer := hasState res \<and> o_defer localOptions,
                         o_favor_state := hasState res \<and> o_defer localOptions \<and> o_favor_state localOptions\<rparr>)))))"

section \<open>Lemmas\<close>

lemma varsOfEntries_cleaned:
  "varsOfEntries h entries obj = Inr vs \<Longrightarrow>
     varsOfEntries h (filter (\<lambda>e. trim (var_key e) \<noteq> '''') entries) obj = Inr vs"
  by (induction entries arbitrary: obj) (auto simp: Let_def split: if_splits)

lemma varsOfEntries_none:
  "varsOfEntries h entries obj = Inr vs \<Longrightarrow> filter (\<lambda>e. trim (var_key e) \<noteq> '''') entries = [] \<Longrightarrow> vs = obj"
  using varsOfEntries_cleaned [of h entries obj vs] by simp

lemma validateVars_cleaned:
  assumes "validateVars h (Some (Inl entries)) = Inr vars"
  shows "validateVars h (Some (Inl (filter (\<lambda>e. trim (var_key e) \<noteq> '''') entries))) = Inr vars"
proof -
  obtain obj where "varsOfEntries h entries [] = Inr obj"
    using assms by (auto simp: validateVars_def)
  then show ?thesis using assms varsOfEntries_cleaned [of h entries "[]" obj] by (simp add: validateVars_def)
qed

lemma validateVars_none:
  assumes "validateVars h (Some (Inl entries)) = Inr vars" "filter (\<lambda>e. trim (var_key e) \<noteq> '''') entries = []"
  shows "vars = None"
  using assms(1) varsOfEntries_none [of h entries "[]"] assms(2)
  by (auto simp: validateVars_def split: if_splits sum.splits)

text \<open>What is used of dates: a time is read back from its ISO form, which is a trimmed word.\<close>

definition iso_times :: "'n host \<Rightarrow> bool" where
  "iso_times h \<longleftrightarrow> (\<forall>s t. getTime h s = Some t \<longrightarrow>
     getTime h (toISOString h t) = Some t \<and> toISOString h t \<noteq> '''' \<and> trim (toISOString h t) = toISOString h t)"

lemma validateEventTime_again:
  assumes "iso_times h" "validateEventTime h start finish = Inr (Some (s, e))"
  shows "validateEventTime h (Some s) (Some e) = Inr (Some (s, e)) \<and> s \<noteq> '''' \<and> e \<noteq> ''''"
proof -
  obtain t t' where t: "t < t'" "getTime h (trim (the start)) = Some t" "getTime h (trim (the finish)) = Some t'"
    "s = toISOString h t" "e = toISOString h t'"
    using validateEventTime_Some [OF assms(2)] by blast
  then have "getTime h s = Some t" "trim s = s" "s \<noteq> ''''" "getTime h e = Some t'" "trim e = e" "e \<noteq> ''''"
    using assms(1) by (auto simp: iso_times_def)
  then show ?thesis using t by (simp add: validateEventTime_def Let_def)
qed

lemma truthy_Some: "truthy (Some s) \<longleftrightarrow> s \<noteq> ''''"
  by (simp add: truthy_def)

text \<open>The checks accept what they returned, and return it again.\<close>

lemma sample_again:
  assumes "validateSample x = Inr sample"
  shows "(if truthy sample then (case validateSample sample of Inr n \<Rightarrow> n | Inl _ \<Rightarrow> None) else None) = sample"
proof (cases sample)
  case (Some n)
  then have "validateSample (Some n) = Inr (Some n)" "n \<noteq> ''''"
    using assms validateSample_normal by (cases x; fastforce simp: validateSample_def)+
  then show ?thesis by (simp add: Some truthy_Some)
qed (simp add: truthy_def)

lemma window_again:
  assumes "iso_times h" "validateEventTime h start finish = Inr window"
  shows "(if truthy (map_option fst window) \<and> truthy (map_option snd window)
      then (case validateEventTime h (map_option fst window) (map_option snd window) of
              Inr (Some (s, e)) \<Rightarrow> if s \<noteq> '''' \<and> e \<noteq> '''' then Some (s, e) else None
            | _ \<Rightarrow> None)
      else None) = window"
proof (cases window)
  case (Some se)
  then show ?thesis
    using validateEventTime_again [OF assms(1), of start finish "fst se" "snd se"] assms(2)
    by (cases se) (simp add: truthy_Some)
qed (simp add: truthy_def)


section \<open>Properties\<close>


definition demo_dialog :: "nat RunOptionsState" where
  "demo_dialog = noRunOptions\<lparr>o_sample := Some '' 3 Days'', o_event_time_start := Some '' 05'',
     o_event_time_end := Some ''12'', o_selector_name := Some '' nightly '', o_defer := True\<rparr>"

definition demo_entries :: "VarEntry list" where
  "demo_entries = [\<lparr>var_key = '' '', var_value = ''''\<rparr>, \<lparr>var_key = '' day '', var_value = ''true''\<rparr>]"

definition demo_resolution :: StateTargetResolution where
  "demo_resolution = resolveStateTargets [''dev'', ''prod''] [\<lparr>st_target = ''prod'', st_manifest = True\<rparr>] None"

lemma iso_times_demo: "iso_times demo_host"
proof -
  have "trim (show_nat n) = show_nat n" for n
    using show_nat_digits [of n] by (intro trim_no_ws) (auto simp: list_all_iff)
  then show ?thesis by (auto simp: iso_times_def demo_host_def show_nat_digits split: if_splits)
qed


end
