(* ===== verification/Develop_Models.thy ===== *)
theory Develop_Models
  imports Run_Options Develop_Tree
begin

text \<open>
  The pure models of the IDE: macro arguments (\<open>features/develop/model/macros.ts\<close>), column lineage
  (\<open>lineage.ts\<close>), the resource list (\<open>resources.ts\<close>), and what is kept in the browser's storage
  (\<open>develop-session.ts\<close> and the head of \<open>DevelopLayout.tsx\<close>), with the loops that remove the keys of
  earlier versions.

  A storage area is the list of its entries in the order of \<open>key(index)\<close>, with distinct keys.
\<close>

section \<open>Definitions\<close>

subsection \<open>macros.ts\<close>

record DbtMacro =
  mc_name :: string
  mc_package_name :: "string option"
  mc_description :: "string option"

definition rx_ident :: rx where
  "rx_ident = RSeq (RCls (\<lambda>c. is_alpha c \<or> c = CHR ''_'')) (RStar (RCls (\<lambda>c. is_alnum c \<or> c = CHR ''_'')))"

definition MACRO_NAME_REGEX :: rx where
  "MACRO_NAME_REGEX = RSeq rx_ident (RAlt ROne (RSeq (RCls (\<lambda>c. c = CHR ''.'')) rx_ident))"

definition isValidMacroName :: "string \<Rightarrow> bool" where
  "isValidMacroName name = rx_match MACRO_NAME_REGEX (trim name)"

definition matches :: "string option \<Rightarrow> string \<Rightarrow> bool" where
  "matches field q = (truthy field \<and> includesStr (toLowerCase (the field)) q)"

definition filterMacros :: "DbtMacro list \<Rightarrow> string \<Rightarrow> string option \<Rightarrow> DbtMacro list" where
  "filterMacros macros query selectedPackage =
     (let q = toLowerCase (trim query);
          pkgFilter = (if truthy selectedPackage \<and> selectedPackage \<noteq> Some ''all''
                       then Some (toLowerCase (the selectedPackage)) else None)
      in filter (\<lambda>m.
           (case pkgFilter of None \<Rightarrow> True | Some p \<Rightarrow> toLowerCase (nullish (mc_package_name m) '''') = p) \<and>
           (q = '''' \<or> includesStr (toLowerCase (mc_name m)) q \<or> matches (mc_package_name m) q
             \<or> matches (mc_description m) q)) macros)"

text \<open>\<open>/^-?\d+(\.\d+)?$/\<close>.\<close>

definition rx_number :: rx where
  "rx_number = RSeq (RAlt ROne (RCls (\<lambda>c. c = CHR ''-''))) (RSeq (rx_plus (RCls is_digit))
     (RAlt ROne (RSeq (RCls (\<lambda>c. c = CHR ''.'')) (rx_plus (RCls is_digit)))))"

text \<open>\<open>None\<close> is \<open>undefined\<close>.\<close>

definition parseMacroArgValue :: "'n host \<Rightarrow> string \<Rightarrow> 'n json option" where
  "parseMacroArgValue h raw =
     (let trimmed = trim raw;
          bracketed = (if startsWith trimmed ''{'' \<and> endsWith trimmed ''}'' \<or>
              startsWith trimmed ''['' \<and> endsWith trimmed '']''
            then nullish (parseJson h trimmed) (JStr raw) else JStr raw)
      in if trimmed = '''' then None
         else if trimmed = ''true'' then Some (JBool True)
         else if trimmed = ''false'' then Some (JBool False)
         else if trimmed = ''null'' then Some JNull
         else if rx_match rx_number trimmed
         then Some (case toNumber h trimmed of Some n \<Rightarrow> JNum n | None \<Rightarrow> bracketed)
         else Some bracketed)"

definition addArg :: "'n host \<Rightarrow> string \<Rightarrow> string \<Rightarrow> 'n obj \<Rightarrow> 'n obj" where
  "addArg h key rawValue result =
     (if rawValue = '''' then result
      else case parseMacroArgValue h rawValue of None \<Rightarrow> result | Some v \<Rightarrow> obj_set key v result)"

definition buildMacroArgsPayload :: "'n host \<Rightarrow> (string \<times> string) list \<Rightarrow> string list \<Rightarrow> 'n obj" where
  "buildMacroArgsPayload h formValues signature =
     (let result = foldl (\<lambda>result (key, rawValue). addArg h key rawValue result) [] formValues
      in foldl (\<lambda>result arg. case map_of formValues arg of
                  None \<Rightarrow> result | Some rawValue \<Rightarrow> addArg h arg rawValue result) result signature)"

subsection \<open>lineage.ts\<close>

record 'n NormalizedColumnLineage =
  nl_columnLineage :: "(string \<times> 'n json list) list"
  nl_columnLineageError :: "string option"

definition lineageSource :: "'n json \<Rightarrow> bool" where
  "lineageSource item =
     (case item of
        JObj kvs \<Rightarrow> (case (map_of kvs ''column'', map_of kvs ''table'') of
            (Some (JStr _), Some (JStr _)) \<Rightarrow> True | _ \<Rightarrow> False)
      | _ \<Rightarrow> False)"

definition trimmedString :: "'n json option \<Rightarrow> string option" where
  "trimmedString v = (case v of Some (JStr s) \<Rightarrow> or_null (trim s) | _ \<Rightarrow> None)"

text \<open>A key of the object: the legacy \<open>error\<close>, a column's sources, or something else, which is dropped.\<close>

definition normalizeEntry :: "string \<times> 'n json \<Rightarrow> 'n NormalizedColumnLineage \<Rightarrow> 'n NormalizedColumnLineage" where
  "normalizeEntry kv r =
     (case kv of (key, value) \<Rightarrow>
        if key = ''error'' \<and> trimmedString (Some value) \<noteq> None
        then r\<lparr>nl_columnLineageError :=
                 (if nl_columnLineageError r = None then trimmedString (Some value) else nl_columnLineageError r)\<rparr>
        else case value of
               JArr items \<Rightarrow> r\<lparr>nl_columnLineage := obj_set key (filter lineageSource items) (nl_columnLineage r)\<rparr>
             | _ \<Rightarrow> r)"

definition normalizeColumnLineage :: "'n json option \<Rightarrow> 'n json option \<Rightarrow> 'n NormalizedColumnLineage" where
  "normalizeColumnLineage raw rawError =
     (let start = \<lparr>nl_columnLineage = [], nl_columnLineageError = trimmedString rawError\<rparr>
      in case raw of
           Some (JObj kvs) \<Rightarrow> fold normalizeEntry kvs start
         | _ \<Rightarrow> start\<lparr>nl_columnLineageError :=
                 (if nl_columnLineageError start = None then trimmedString raw else nl_columnLineageError start)\<rparr>)"

subsection \<open>resources.ts\<close>

record DbtLsResourceRow =
  rs_unique_id :: string
  rs_name :: string
  rs_resource_type :: string
  rs_package_name :: "string option"
  rs_original_file_path :: "string option"
  rs_tags :: "string list"
  rs_schema :: "string option"

definition filterResources :: "DbtLsResourceRow list \<Rightarrow> string \<Rightarrow> string \<Rightarrow> DbtLsResourceRow list" where
  "filterResources rows filterQuery resourceType =
     (let query = toLowerCase (trim filterQuery);
          matchType = (if resourceType \<noteq> '''' \<and> resourceType \<noteq> ''all'' then Some (toLowerCase resourceType) else None)
      in filter (\<lambda>row.
           (case matchType of None \<Rightarrow> True | Some t \<Rightarrow> toLowerCase (rs_resource_type row) = t) \<and>
           (query = '''' \<or> includesStr (toLowerCase (rs_name row)) query
             \<or> includesStr (toLowerCase (rs_unique_id row)) query \<or> matches (rs_original_file_path row) query
             \<or> matches (rs_package_name row) query
             \<or> list_ex (\<lambda>t. includesStr (toLowerCase t) query) (rs_tags row)
             \<or> matches (rs_schema row) query)) rows)"

definition countByResourceType :: "DbtLsResourceRow list \<Rightarrow> (string \<times> nat) list" where
  "countByResourceType rows =
     foldl (\<lambda>counts row.
        let type = or_str (rs_resource_type row) ''other''
        in obj_set type (nullish (map_of counts type) 0 + 1) counts) [] rows"

subsection \<open>Storage\<close>

type_synonym store = "(string \<times> string) list"

definition getItem :: "store \<Rightarrow> string \<Rightarrow> string option" where
  "getItem st k = map_of st k"

definition setItem :: "string \<Rightarrow> string \<Rightarrow> store \<Rightarrow> store" where
  "setItem k v st = obj_set k v st"

definition removeItem :: "string \<Rightarrow> store \<Rightarrow> store" where
  "removeItem k st = obj_del k st"

definition STORAGE_PREFIX :: string where
  "STORAGE_PREFIX = ''dbt-craft:develop-session:''"

definition getDevelopSessionStorageKey :: "string \<Rightarrow> string option \<Rightarrow> string" where
  "getDevelopSessionStorageKey projectId userId =
     STORAGE_PREFIX @ (if truthy userId then the userId else ''anonymous'') @ '':'' @ projectId"

text \<open>\<open>for (index = length - 1; index >= 0; index -= 1)\<close>, removing the keys that match.\<close>

fun removeDownward :: "(string \<Rightarrow> bool) \<Rightarrow> nat \<Rightarrow> store \<Rightarrow> store" where
  "removeDownward P 0 st = st"
| "removeDownward P (Suc i) st =
     removeDownward P i
       (if i < length st \<and> P (fst (st ! i)) then removeItem (fst (st ! i)) st else st)"

definition legacySessionKey :: "string \<Rightarrow> bool" where
  "legacySessionKey key \<longleftrightarrow>
     startsWith key STORAGE_PREFIX \<and> CHR '':'' \<notin> set (drop (length STORAGE_PREFIX) key)"

definition clearLegacyDevelopSession :: "string option \<Rightarrow> store \<Rightarrow> store" where
  "clearLegacyDevelopSession projectId st =
     (let st = (if truthy projectId then removeItem (STORAGE_PREFIX @ the projectId) st else st)
      in removeDownward legacySessionKey (length st) st)"

definition loadDevelopSession :: "(string \<Rightarrow> 's option) \<Rightarrow> 's \<Rightarrow> string \<Rightarrow> string option \<Rightarrow> store \<Rightarrow> 's" where
  "loadDevelopSession parse noSession projectId userId st =
     (let v = getItem st (getDevelopSessionStorageKey projectId userId)
      in if truthy v then nullish (parse (the v)) noSession else noSession)"

text \<open>A full storage leaves the entries as they are: \<open>room\<close> tells whether the value fits.\<close>

definition saveDevelopSession ::
  "('s \<Rightarrow> string) \<Rightarrow> (string \<Rightarrow> bool) \<Rightarrow> string \<Rightarrow> string option \<Rightarrow> 's \<Rightarrow> store \<Rightarrow> store" where
  "saveDevelopSession stringify room projectId userId state st =
     (if room (stringify state)
      then setItem (getDevelopSessionStorageKey projectId userId) (stringify state) st else st)"

definition getDbtArgsStorageKey :: "string \<Rightarrow> string \<Rightarrow> string" where
  "getDbtArgsStorageKey projectId userId = ''dbt-command-args:'' @ userId @ '':'' @ projectId"

definition getDbtFullRefreshStorageKey :: "string \<Rightarrow> string \<Rightarrow> string" where
  "getDbtFullRefreshStorageKey projectId userId = ''dbt-full-refresh:'' @ userId @ '':'' @ projectId"

definition getDbtTargetStorageKey :: "string \<Rightarrow> string \<Rightarrow> string" where
  "getDbtTargetStorageKey projectId userId = ''dbt-target:'' @ userId @ '':'' @ projectId"

definition loadDbtCommandArgs :: "string \<Rightarrow> string \<Rightarrow> store \<Rightarrow> string" where
  "loadDbtCommandArgs projectId userId st = nullish (getItem st (getDbtArgsStorageKey projectId userId)) ''''"

definition loadDbtFullRefresh :: "string \<Rightarrow> string \<Rightarrow> store \<Rightarrow> bool" where
  "loadDbtFullRefresh projectId userId st =
     (getItem st (getDbtFullRefreshStorageKey projectId userId) = Some ''true'')"

definition loadDbtTarget :: "string \<Rightarrow> string \<Rightarrow> store \<Rightarrow> string" where
  "loadDbtTarget projectId userId st =
     or_str (nullish (getItem st (getDbtTargetStorageKey projectId userId)) '''') ''dev''"

text \<open>What an effect stores when a setting changes.\<close>

definition storeSettings :: "string \<Rightarrow> string \<Rightarrow> string \<Rightarrow> bool \<Rightarrow> string \<Rightarrow> store \<Rightarrow> store" where
  "storeSettings projectId userId args fullRefresh target st =
     setItem (getDbtTargetStorageKey projectId userId) target
       (setItem (getDbtFullRefreshStorageKey projectId userId) (if fullRefresh then ''true'' else ''false'')
         (setItem (getDbtArgsStorageKey projectId userId) args st))"

text \<open>Both storage areas, before and after the keys of earlier versions are removed.\<close>

definition clearLegacyBrowserStorage :: "string \<Rightarrow> store \<times> store \<Rightarrow> store \<times> store" where
  "clearLegacyBrowserStorage projectId areas =
     (case areas of (local, session) \<Rightarrow>
        let local = removeItem ''git_credentials'' (removeItem ''dbt-session-id''
              (removeItem (''dbt-full-refresh:'' @ projectId) (removeItem (''dbt-command-args:'' @ projectId) local)));
            session = removeItem ''git_credentials_session'' session
        in (removeDownward (\<lambda>key. startsWith key ''dbt-env-vars:'') (length local) local,
            clearLegacyDevelopSession (Some projectId) session))"

section \<open>Lemmas\<close>

subsection \<open>Macro arguments and resources\<close>

lemma filterMacros_matches: "set (filterMacros macros query package) \<subseteq> set macros"
  by (auto simp: filterMacros_def Let_def)

lemma map_of_addArg:
  "map_of (addArg h key raw result) k =
     (if k = key \<and> raw \<noteq> '''' \<and> parseMacroArgValue h raw \<noteq> None then parseMacroArgValue h raw else map_of result k)"
  by (auto simp: addArg_def map_of_obj_set split: option.splits)

lemma map_of_addArgs:
  "distinct (map fst formValues) \<Longrightarrow>
     map_of (foldl (\<lambda>result (key, raw). addArg h key raw result) result formValues) k =
       (case map_of formValues k of
          None \<Rightarrow> map_of result k
        | Some raw \<Rightarrow> if raw \<noteq> '''' \<and> parseMacroArgValue h raw \<noteq> None then parseMacroArgValue h raw else map_of result k)"
  by (induction formValues arbitrary: result) (auto simp: map_of_addArg image_iff split: option.splits)

text \<open>
  The pass over the signature changes nothing: the arguments are those of the form that are not empty,
  each as the value it parses to.
\<close>

lemma buildMacroArgsPayload_form:
  assumes "distinct (map fst formValues)"
  shows "map_of (buildMacroArgsPayload h formValues signature) k =
     (case map_of formValues k of
        None \<Rightarrow> None | Some raw \<Rightarrow> if raw = '''' then None else parseMacroArgValue h raw)"
proof -
  let ?base = "foldl (\<lambda>result (key, raw). addArg h key raw result) [] formValues"
  let ?step = "\<lambda>result arg. case map_of formValues arg of None \<Rightarrow> result | Some raw \<Rightarrow> addArg h arg raw result"
  have base: "map_of ?base k =
      (case map_of formValues k of None \<Rightarrow> None | Some raw \<Rightarrow> if raw = '''' then None else parseMacroArgValue h raw)" for k
    using map_of_addArgs [OF assms, of h "[]" k] by (auto split: option.splits)
  have "map_of r = map_of ?base \<Longrightarrow> map_of (foldl ?step r signature) = map_of ?base" for r
  proof (induction signature arbitrary: r)
    case (Cons arg signature)
    have "map_of (?step r arg) = map_of ?base"
      using Cons.prems base [of arg] by (auto simp: map_of_addArg fun_eq_iff split: option.splits)
    then show ?case using Cons.IH by simp
  qed simp
  then show ?thesis using base by (simp add: buildMacroArgsPayload_def Let_def)
qed

lemma sum_obj_set:
  "distinct (map fst kvs) \<Longrightarrow>
     sum_list (map snd (obj_set k (Suc (nullish (map_of kvs k) 0)) kvs)) = Suc (sum_list (map snd kvs))"
proof (induction kvs)
  case (Cons kv kvs)
  then show ?case
    by (cases kv) (auto simp: map_of_eq_None_iff [THEN iffD2])
qed simp

lemma countByResourceType_total: "sum_list (map snd (countByResourceType rows)) = length rows"
proof -
  have "distinct (map fst counts) \<Longrightarrow> sum_list (map snd (foldl (\<lambda>counts row.
        let type = or_str (rs_resource_type row) ''other''
        in obj_set type (nullish (map_of counts type) 0 + 1) counts) counts rows)) =
      sum_list (map snd counts) + length rows" for counts :: "(string \<times> nat) list"
    by (induction rows arbitrary: counts) (simp_all add: Let_def distinct_obj_set sum_obj_set)
  then show ?thesis by (simp add: countByResourceType_def)
qed

subsection \<open>Column lineage\<close>

text \<open>The sources the lineage view gets have a column and a table, and an error is never blank.\<close>

definition lineage_typed :: "'n NormalizedColumnLineage \<Rightarrow> bool" where
  "lineage_typed r \<longleftrightarrow>
     list_all (\<lambda>(key, sources). list_all lineageSource sources) (nl_columnLineage r) \<and>
     nl_columnLineageError r \<noteq> Some ''''"

lemma obj_set_all: "list_all P kvs \<Longrightarrow> P (k, v) \<Longrightarrow> list_all P (obj_set k v kvs)"
  by (induction kvs) auto

lemma normalizeColumnLineage_typed: "lineage_typed (normalizeColumnLineage raw rawError)"
proof -
  have str: "trimmedString v \<noteq> Some ''''" for v :: "'a json option"
    by (auto simp: trimmedString_def split: option.splits json.splits)
  have "lineage_typed r \<Longrightarrow> lineage_typed (normalizeEntry kv r)" for kv :: "string \<times> 'a json" and r
    using str by (cases kv)
      (auto simp: normalizeEntry_def lineage_typed_def split: json.splits
        intro!: obj_set_all, simp_all add: list_all_iff)
  then have "lineage_typed r \<Longrightarrow> lineage_typed (fold normalizeEntry kvs r)" for kvs :: "(string \<times> 'a json) list" and r
    by (induction kvs arbitrary: r) auto
  moreover have "lineage_typed \<lparr>nl_columnLineage = [], nl_columnLineageError = trimmedString rawError\<rparr>"
    using str by (simp add: lineage_typed_def)
  ultimately show ?thesis
    using str by (auto simp: normalizeColumnLineage_def Let_def lineage_typed_def split: option.splits json.splits)
qed

subsection \<open>Storage\<close>

lemma removeItem_filter: "removeItem k st = filter (\<lambda>kv. fst kv \<noteq> k) st"
  by (induction st) (auto simp: removeItem_def obj_del_def)

lemma removeItem_at:
  assumes "distinct (map fst st)" "i < length st"
  shows "removeItem (fst (st ! i)) st = take i st @ drop (Suc i) st"
proof -
  have st: "st = take i st @ st ! i # drop (Suc i) st" using assms(2) by (simp add: id_take_nth_drop)
  have "fst (st ! i) \<notin> fst ` set (take i st @ drop (Suc i) st)"
    using assms(1) by (subst (asm) st) auto
  then have "filter (\<lambda>kv. fst kv \<noteq> fst (st ! i)) (take i st @ drop (Suc i) st) = take i st @ drop (Suc i) st"
    by (metis (mono_tags, lifting) filter_True image_eqI)
  then show ?thesis
    unfolding removeItem_filter by (subst (2) st) simp
qed

lemma removeDownward_filter:
  "distinct (map fst st) \<Longrightarrow> n \<le> length st \<Longrightarrow>
     removeDownward P n st = filter (\<lambda>kv. \<not> P (fst kv)) (take n st) @ drop n st"
proof (induction n arbitrary: st)
  case (Suc i)
  show ?case
  proof (cases "P (fst (st ! i))")
    case True
    let ?st = "take i st @ drop (Suc i) st"
    have "distinct (map fst ?st)"
      using Suc.prems by (metis removeItem_at removeItem_def distinct_map_filter obj_del_def Suc_le_lessD)
    then have "removeDownward P i ?st = filter (\<lambda>kv. \<not> P (fst kv)) (take i st) @ drop (Suc i) st"
      using Suc.IH [of ?st] Suc.prems(2) by simp
    then show ?thesis
      using True Suc.prems by (simp add: removeItem_at take_Suc_conv_app_nth case_prod_beta)
  next
    case False
    then show ?thesis
      using Suc.IH [of st] Suc.prems
      by (simp add: take_Suc_conv_app_nth case_prod_beta Cons_nth_drop_Suc)
  qed
qed simp

lemma removeDownward_all:
  "distinct (map fst st) \<Longrightarrow> removeDownward P (length st) st = filter (\<lambda>kv. \<not> P (fst kv)) st"
  by (simp add: removeDownward_filter)

lemma sessionKey_legacy: "\<not> legacySessionKey (getDevelopSessionStorageKey projectId userId)"
  by (simp add: legacySessionKey_def getDevelopSessionStorageKey_def STORAGE_PREFIX_def)

lemma sessionKey_own:
  assumes "CHR '':'' \<notin> set u" "CHR '':'' \<notin> set u'" "u \<noteq> ''''" "u' \<noteq> ''''"
  shows "getDevelopSessionStorageKey p (Some u) = getDevelopSessionStorageKey p' (Some u') \<longleftrightarrow> u = u' \<and> p = p'"
proof
  assume "getDevelopSessionStorageKey p (Some u) = getDevelopSessionStorageKey p' (Some u')"
  then have "u @ CHR '':'' # p = u' @ CHR '':'' # p'"
    using assms(3,4) by (simp add: getDevelopSessionStorageKey_def truthy_def)
  then have "split_on CHR '':'' (u @ CHR '':'' # p) = split_on CHR '':'' (u' @ CHR '':'' # p')" by simp
  then have "u # split_on CHR '':'' p = u' # split_on CHR '':'' p'"
    using assms(1,2) by (simp add: split_on_append_sep)
  then show "u = u' \<and> p = p'" using split_on_eq by blast
qed simp

section \<open>Properties\<close>

text \<open>
  Opening a project removes from the browser's two storage areas exactly the entries of earlier
  versions: the unscoped command settings of the project, the credentials and the old session
  identifier, every stored environment variable, and every session that is not kept under a user.
  Everything else keeps its place. Removing entries while walking an area misses none of them.
\<close>

lemma legacy_storage_cleared:
  assumes "distinct (map fst local)" "distinct (map fst session)"
  shows "clearLegacyBrowserStorage projectId (local, session) =
    (filter (\<lambda>kv. fst kv \<notin> {''git_credentials'', ''dbt-session-id'', ''dbt-full-refresh:'' @ projectId,
                            ''dbt-command-args:'' @ projectId} \<and> \<not> startsWith (fst kv) ''dbt-env-vars:'') local,
     filter (\<lambda>kv. fst kv \<noteq> ''git_credentials_session'' \<and> \<not> legacySessionKey (fst kv)
                \<and> (projectId = '''' \<or> fst kv \<noteq> STORAGE_PREFIX @ projectId)) session)"
proof -
  note del = removeItem_filter
  have dist: "distinct (map fst (filter Q st))" if "distinct (map fst st)" for Q and st :: store
    using that by (simp add: distinct_map_filter)
  show ?thesis
    using assms
    by (simp add: clearLegacyBrowserStorage_def clearLegacyDevelopSession_def Let_def del dist removeDownward_all
        truthy_def) (auto intro!: filter_cong)
qed

text \<open>
  A stored session is read back, clearing the entries of earlier versions keeps it, and neither another
  user's nor another project's is touched.
\<close>

lemma session_restored:
  fixes st :: store and p :: string
  assumes "parse (stringify state) = Some state" "stringify state \<noteq> ''''" "room (stringify state)"
    and "CHR '':'' \<notin> set u" "CHR '':'' \<notin> set u'" "u \<noteq> ''''" "u' \<noteq> ''''"
  defines "st' \<equiv> saveDevelopSession stringify room p (Some u) state st"
  shows "loadDevelopSession parse none p (Some u) st' = state
    \<and> (u' \<noteq> u \<or> p' \<noteq> p \<longrightarrow> loadDevelopSession parse none p' (Some u') st' = loadDevelopSession parse none p' (Some u') st)"
  using assms(1-3) sessionKey_own [OF assms(4-7), of p p']
  by (auto simp: st'_def saveDevelopSession_def loadDevelopSession_def getItem_def setItem_def map_of_obj_set truthy_def)

text \<open>The stored settings of a user and project are read back.\<close>

lemma settings_restored:
  "loadDbtCommandArgs p u (storeSettings p u args fullRefresh target st) = args
   \<and> loadDbtFullRefresh p u (storeSettings p u args fullRefresh target st) = fullRefresh
   \<and> loadDbtTarget p u (storeSettings p u args fullRefresh target st) = or_str target ''dev''"
  by (simp add: loadDbtCommandArgs_def loadDbtFullRefresh_def loadDbtTarget_def storeSettings_def getItem_def
      setItem_def map_of_obj_set getDbtArgsStorageKey_def getDbtFullRefreshStorageKey_def getDbtTargetStorageKey_def)

end
