(* ===== verification/Develop_Project.thy ===== *)
theory Develop_Project
  imports Env_Vars Orchestrate "HOL-Library.Multiset"
begin

text \<open>
  Project settings in the IDE (\<open>features/develop/components/DevelopLayout.tsx\<close>) together with the
  routes they call: choosing the project's connection, and the form of environment variables, which
  never sees a stored value and yet must not lose one.
\<close>

section \<open>Definitions\<close>

subsection \<open>The connection of a project\<close>

text \<open>What the page knows of the project: its two connection columns and the target commands run against.\<close>

record project_page =
  pp_connectionId :: "string option"
  pp_dremioSourceId :: "string option"
  pp_target :: string
  pp_regenerated :: nat

text \<open>A connection of the list: its identifier and whether it is a legacy Dremio source.\<close>

record listed_connection =
  lc_id :: string
  lc_dremio :: bool

definition connectionPatch :: "listed_connection list \<Rightarrow> string \<Rightarrow> string option \<times> string option" where
  "connectionPatch connections connectionId =
     (if connectionId = '''' then (None, None)
      else case find (\<lambda>c. lc_id c = connectionId) connections of
             Some conn \<Rightarrow> if lc_dremio conn then (None, Some connectionId) else (Some connectionId, None)
           | None \<Rightarrow> (Some connectionId, None))"

definition patchInput :: "string option \<times> string option \<Rightarrow> UpdateProjectInput" where
  "patchInput patch =
     \<lparr>up_name = None, up_description = None, up_gitUrl = None, up_gitBranch = None,
      up_gitProjectSubdirectory = None, up_stagingDir = None, up_martsDir = None, up_syncStatus = None,
      up_dremioSourceId = Some (snd patch), up_connectionId = Some (fst patch)\<rparr>"

text \<open>A refused request only shows an alert; a failing regeneration is ignored.\<close>

definition updateProjectConnection ::
  "ctx \<Rightarrow> string \<Rightarrow> listed_connection list \<Rightarrow> string \<Rightarrow> project_page \<times> db \<Rightarrow> project_page \<times> db" where
  "updateProjectConnection c projectId connections connectionId ps =
     (case ps of (page, s) \<Rightarrow>
        let patch = connectionPatch connections connectionId
        in case projects_PUT c (Some projectId) (patchInput patch) s of
             (resp, s') \<Rightarrow>
               if status resp \<noteq> 200 then (page, s')
               else (page\<lparr>pp_connectionId := fst patch, pp_dremioSourceId := snd patch,
                          pp_regenerated := (if connectionId \<noteq> '''' then Suc (pp_regenerated page)
                                             else pp_regenerated page),
                          pp_target := ''dev''\<rparr>, s'))"

subsection \<open>The form of environment variables\<close>

record form_var =
  fv_name :: string
  fv_type :: string
  fv_value :: string
  fv_hasValue :: bool

text \<open>The answer of the route as rows of the form: values are never sent to the browser.\<close>

definition formOf :: "env_view list \<Rightarrow> form_var list" where
  "formOf views =
     map (\<lambda>v. \<lparr>fv_name = vw_name v, fv_type = vw_type v, fv_value = '''', fv_hasValue = vw_hasValue v\<rparr>) views"

text \<open>One entry of the request; \<open>undefined\<close> is not sent.\<close>

definition itemJson :: "form_var \<Rightarrow> int json" where
  "itemJson v =
     JObj ([(''name'', JStr (trim (fv_name v))), (''type'', JStr (fv_type v))]
       @ (if fv_value v \<noteq> '''' then [(''value'', JStr (fv_value v))] else [])
       @ [(''keepExisting'', JBool (fv_value v = '''' \<and> fv_hasValue v))])"

definition itemsToSave :: "form_var list \<Rightarrow> form_var list" where
  "itemsToSave vars = filter (\<lambda>v. trim (fv_name v) \<noteq> '''') vars"

fun firstInvalidName :: "form_var list \<Rightarrow> string option" where
  "firstInvalidName [] = None"
| "firstInvalidName (v # vs) =
     (case validateEnvVarName (trim (fv_name v)) of Inl e \<Rightarrow> Some e | Inr _ \<Rightarrow> firstInvalidName vs)"

text \<open>The form after the save, its error, and the database.\<close>

definition handleSaveEnvironmentVariables ::
  "cipher \<Rightarrow> (nat \<Rightarrow> string) \<Rightarrow> (nat \<Rightarrow> string) \<Rightarrow> ctx \<Rightarrow> string \<Rightarrow> form_var list \<Rightarrow> db \<Rightarrow>
     (form_var list \<times> string option) \<times> db" where
  "handleSaveEnvironmentVariables ci ivs ids c projectId vars s =
     (case firstInvalidName (itemsToSave vars) of
        Some e \<Rightarrow> ((vars, Some e), s)
      | None \<Rightarrow>
          (case envVars_PUT ci ivs ids c projectId (Some (JArr (map itemJson (itemsToSave vars)))) s of
             (Response st (Inr views), s') \<Rightarrow> ((formOf views, None), s')
           | (Response st (Inl e), s') \<Rightarrow> ((vars, Some e), s')))"

section \<open>Lemmas\<close>

definition keptVar :: "env_row \<Rightarrow> replacement" where
  "keptVar r = \<lparr>rp_name = ev_name r, rp_type = (if ev_type r = ''password'' then ''password'' else ''text''),
                rp_valueEncrypted = ev_valueEncrypted r\<rparr>"

definition formRow :: "env_row \<Rightarrow> form_var" where
  "formRow r = \<lparr>fv_name = ev_name r, fv_type = (if ev_type r = ''password'' then ''password'' else ''text''),
                fv_value = '''', fv_hasValue = ev_valueEncrypted r \<noteq> ''''\<rparr>"

lemma patch_exclusive: "fst (connectionPatch cs i) = None \<or> snd (connectionPatch cs i) = None"
  by (simp add: connectionPatch_def split: option.splits)

lemma valid_name_trim:
  assumes "validateEnvVarName name = Inr ()"
  shows "trim name = name" "name \<noteq> ''''"
proof -
  have chars: "list_all (\<lambda>c. is_alnum c \<or> c = CHR ''_'') name" and "name \<noteq> ''''"
    using validateEnvVarName_safe [OF assms, of name] by simp_all
  have "\<not> is_ws c" if "is_alnum c \<or> c = CHR ''_''" for c
    using that alnum_not_ws [of c] by (auto simp: is_ws_def)
  then have "list_all (\<lambda>c. \<not> is_ws c) name" using chars by (auto simp: list_all_iff)
  then show "trim name = name" "name \<noteq> ''''" using \<open>name \<noteq> ''''\<close> by (simp_all add: trim_no_ws)
qed

lemma item_fields:
  "itemJson (formRow r) \<noteq> JNull" "stringField (itemJson (formRow r)) ''name'' = Some (trim (ev_name r))"
  "stringField (itemJson (formRow r)) ''type'' = Some (if ev_type r = ''password'' then ''password'' else ''text'')"
  "itemField (itemJson (formRow r)) ''type'' = Some (JStr (if ev_type r = ''password'' then ''password'' else ''text''))"
  "\<not> truthy (stringField (itemJson (formRow r)) ''value'')"
  "itemField (itemJson (formRow r)) ''keepExisting'' = Some (JBool (ev_valueEncrypted r \<noteq> ''''))"
  by (simp_all add: itemJson_def formRow_def stringField_def itemField_def truthy_def)

lemma formOf_rows: "formOf (map serializeEnvVar rows) = map (\<lambda>(k, r). formRow r) rows"
  by (auto simp: formOf_def serializeEnvVar_def formRow_def)

text \<open>Untouched rows are accepted, each with the value that is stored.\<close>

lemma collectVars_untouched:
  assumes "\<And>r. r \<in> set rs \<Longrightarrow> validateEnvVarName (ev_name r) = Inr () \<and> ev_valueEncrypted r \<noteq> '''' \<and>
      existing (ev_name r) = Some r"
    and "distinct (map ev_name rs)" "set seen \<inter> ev_name ` set rs = {}"
  shows "collectVars ci ivs existing i seen acc (map (itemJson \<circ> formRow) rs) = Inr (acc @ map keptVar rs)"
  using assms
proof (induction rs arbitrary: i seen acc)
  case (Cons r rs)
  have r: "validateEnvVarName (ev_name r) = Inr ()" "ev_valueEncrypted r \<noteq> ''''" "existing (ev_name r) = Some r"
    using Cons.prems(1) by auto
  have IH: "collectVars ci ivs existing (Suc i) (seen @ [ev_name r]) (acc @ [keptVar r])
      (map (itemJson \<circ> formRow) rs) = Inr ((acc @ [keptVar r]) @ map keptVar rs)"
    using Cons.prems by (intro Cons.IH) auto
  have new: "ev_name r \<notin> set seen" using Cons.prems(3) by auto
  show ?case
    using r new IH valid_name_trim [OF r(1)]
    by (cases "ev_type r = ''password''") (simp_all add: Let_def item_fields keptVar_def [of r] comp_def)
qed simp

lemma names_insertByName: "distinct (map g t) \<Longrightarrow> g x \<notin> g ` set t \<Longrightarrow> distinct (map g (insertByName f x t))"
proof (induction t)
  case (Cons y t)
  have "g ` set (insertByName f x t) = insert (g x) (g ` set t)" by simp
  then show ?case using Cons by auto
qed simp

lemma names_orderByName: "distinct (map g t) \<Longrightarrow> distinct (map g (orderByName f t))"
proof (induction t)
  case (Cons x t)
  have "distinct (map g (insertByName f x (orderByName f t)))"
    using Cons by (intro names_insertByName) auto
  then show ?case by (simp add: orderByName_def)
qed (simp add: orderByName_def)

text \<open>What the stored variables of a user and project are, apart from identifiers and dates.\<close>

definition storedVars :: "db \<Rightarrow> string \<Rightarrow> string \<Rightarrow> replacement multiset" where
  "storedVars s projectId userId = mset (map (keptVar \<circ> snd) (ownVars s projectId userId))"

text \<open>Every stored variable has an acceptable name and a value, and names and identifiers are unique.\<close>

definition vars_ok :: "db \<Rightarrow> string \<Rightarrow> string \<Rightarrow> bool" where
  "vars_ok s projectId userId \<longleftrightarrow>
     distinct (map (ev_name \<circ> snd) (ownVars s projectId userId)) \<and>
     distinct (map fst (dbtEnvironmentVariable s)) \<and>
     list_all (\<lambda>(k, r). validateEnvVarName (ev_name r) = Inr () \<and> ev_valueEncrypted r \<noteq> '''') (ownVars s projectId userId)"

lemma existingByName_Some:
  assumes "distinct (map (ev_name \<circ> snd) rows)" "(k, r) \<in> set rows"
  shows "existingByName rows (ev_name r) = Some r"
proof -
  have "distinct (map fst (rev (map (\<lambda>(k, r). (ev_name r, r)) rows)))"
    using assms(1) by (simp add: rev_map [symmetric] comp_def case_prod_beta)
  then show ?thesis
    using assms(2) unfolding existingByName_def by (intro map_of_is_SomeI) force+
qed

lemma mset_orderByName: "mset (orderByName f t) = mset t"
proof -
  have "mset (insertByName f x t) = add_mset x (mset t)" for x and t :: "'a table"
    by (induction t) (auto simp: add_mset_commute)
  then show ?thesis by (induction t) (simp_all add: orderByName_def)
qed

lemma keptVar_newVars: "map (keptVar \<circ> snd) (newVars c ids p u (map keptVar rs)) = map keptVar rs"
proof -
  have "map (keptVar \<circ> snd) (newVars c ids p u rps) = rps" if "\<And>rp. rp \<in> set rps \<Longrightarrow> rp_type rp \<in> {''password'', ''text''}"
    for rps
  proof -
    have "keptVar \<lparr>ev_projectId = p, ev_owner = u, ev_name = rp_name rp, ev_type = rp_type rp,
        ev_valueEncrypted = rp_valueEncrypted rp, ev_updatedAt = now c\<rparr> = rp" if "rp \<in> set rps" for rp
      using \<open>\<And>rp. rp \<in> set rps \<Longrightarrow> rp_type rp \<in> {''password'', ''text''}\<close> [OF that]
      by (cases rp) (auto simp: keptVar_def)
    then have "map (keptVar \<circ> snd) (newVars c ids p u rps) = map snd (zip [0..<length rps] rps)"
      unfolding newVars_def map_map by (intro map_cong) (auto dest!: set_zip_rightD)
    then show ?thesis by simp
  qed
  note types = this
  show ?thesis by (rule types) (auto simp: keptVar_def split: if_splits)
qed

lemma fst_newVars: "fst ` set (newVars c ids p u rps) \<subseteq> range ids"
  by (auto simp: newVars_def)

lemma distinct_newVars: "inj ids \<Longrightarrow> distinct (map fst (newVars c ids p u rps))"
proof -
  assume "inj ids"
  have "map fst (newVars c ids p u rps) = map ids (map fst (zip [0..<length rps] rps))"
    unfolding newVars_def by (simp add: comp_def case_prod_beta del: map_fst_zip)
  moreover have "inj_on ids A" for A using \<open>inj ids\<close> by (rule inj_on_subset) simp
  ultimately show ?thesis by (simp add: distinct_map)
qed

lemma firstInvalidName_None:
  "(\<And>v. v \<in> set vs \<Longrightarrow> validateEnvVarName (trim (fv_name v)) = Inr ()) \<Longrightarrow> firstInvalidName vs = None"
  by (induction vs) auto

text \<open>The request that an untouched form sends: what it is, that it is accepted, and what it stores.\<close>

lemma stored_row:
  assumes "vars_ok s p u" "(k, r) \<in> set (ownVars s p u)"
  shows "validateEnvVarName (ev_name r) = Inr ()" "ev_valueEncrypted r \<noteq> ''''"
    "existingByName (ownVars s p u) (ev_name r) = Some r" "trim (ev_name r) = ev_name r"
proof -
  show name: "validateEnvVarName (ev_name r) = Inr ()" and "ev_valueEncrypted r \<noteq> ''''"
    using assms by (auto simp: vars_ok_def list_all_iff)
  show "trim (ev_name r) = ev_name r" using name by (rule valid_name_trim(1))
  show "existingByName (ownVars s p u) (ev_name r) = Some r"
    using assms by (intro existingByName_Some) (auto simp: vars_ok_def)
qed

lemma untouched_items:
  assumes "vars_ok s p u" "rows = orderByName ev_name (ownVars s p u)"
  shows "itemsToSave (map (formRow \<circ> snd) rows) = map (formRow \<circ> snd) rows"
    and "firstInvalidName (map (formRow \<circ> snd) rows) = None"
    and "collectVars ci ivs (existingByName (ownVars s p u)) 0 [] [] (map itemJson (map (formRow \<circ> snd) rows)) =
      Inr (map (keptVar \<circ> snd) rows)"
proof -
  note row = stored_row [OF assms(1)]
  have rows: "set rows = set (ownVars s p u)" by (simp add: assms(2))
  have named: "trim (ev_name r) \<noteq> ''''" if "(k, r) \<in> set rows" for k r
    using row [of k r] that rows valid_name_trim(2) by auto
  then show "itemsToSave (map (formRow \<circ> snd) rows) = map (formRow \<circ> snd) rows"
    unfolding itemsToSave_def by (intro filter_True) (auto simp: formRow_def)
  have "validateEnvVarName (trim (fv_name v)) = Inr ()" if "v \<in> set (map (formRow \<circ> snd) rows)" for v
    using that row rows by (auto simp: formRow_def)
  then show "firstInvalidName (map (formRow \<circ> snd) rows) = None" by (rule firstInvalidName_None)
  have names: "distinct (map ev_name (map snd rows))"
    using assms names_orderByName [of "ev_name \<circ> snd" "ownVars s p u" ev_name]
    by (simp add: vars_ok_def comp_def)
  have "validateEnvVarName (ev_name r) = Inr () \<and> ev_valueEncrypted r \<noteq> '''' \<and>
      existingByName (ownVars s p u) (ev_name r) = Some r" if "r \<in> set (map snd rows)" for r
    using that row rows by auto
  from collectVars_untouched [OF this names, of "[]" ci ivs 0 "[]"]
  show "collectVars ci ivs (existingByName (ownVars s p u)) 0 [] [] (map itemJson (map (formRow \<circ> snd) rows)) =
      Inr (map (keptVar \<circ> snd) rows)"
    by (simp add: comp_def)
qed

lemma distinct_replaced:
  assumes "vars_ok s p u" "inj ids" "range ids \<inter> fst ` set (dbtEnvironmentVariable s) = {}"
  shows "distinct (map fst (deleteMany P (dbtEnvironmentVariable s) @ newVars c ids p u rps))"
proof -
  have others: "distinct (map fst (deleteMany P (dbtEnvironmentVariable s)))"
    "fst ` set (deleteMany P (dbtEnvironmentVariable s)) \<subseteq> fst ` set (dbtEnvironmentVariable s)"
    using assms(1) by (auto simp: vars_ok_def deleteMany_def distinct_map_filter)
  then have "fst ` set (deleteMany P (dbtEnvironmentVariable s)) \<inter> fst ` set (newVars c ids p u rps) = {}"
    using assms(3) fst_newVars [of c ids p u rps] by blast
  then show ?thesis
    using others(1) distinct_newVars [OF assms(2), of c p u rps] unfolding map_append distinct_append set_map
    by simp
qed

lemma storedVars_replaced:
  assumes "rows = orderByName ev_name (ownVars s p u)"
  shows "storedVars (s\<lparr>dbtEnvironmentVariable := deleteMany (\<lambda>r. ev_projectId r = p \<and> ev_owner r = u)
      (dbtEnvironmentVariable s) @ newVars c ids p u (map (keptVar \<circ> snd) rows)\<rparr>) p u = storedVars s p u"
proof -
  have "mset (map (keptVar \<circ> snd) rows) = mset (map (keptVar \<circ> snd) (ownVars s p u))"
    by (simp only: mset_map mset_orderByName assms)
  then show ?thesis
    using keptVar_newVars [of c ids p u "map snd rows"]
    by (simp add: storedVars_def ownVars_replaced del: mset_map)
qed

section \<open>Properties\<close>

text \<open>
  C8. Opening the form of environment variables and saving it unchanged keeps every stored variable with
  its name, type and encrypted value, although no value was ever sent to the browser.
\<close>

theorem untouched_form_keeps_values:
  assumes "getSessionOrNull c = Some u" "liveProjectOf s p u" "vars_ok s p u"
    and "inj ids" "range ids \<inter> fst ` set (dbtEnvironmentVariable s) = {}"
    and "envVars_GET c p s = (Response 200 (Inr views), s0)"
  shows "\<exists>views' s'. handleSaveEnvironmentVariables ci ivs ids c p (formOf views) s = ((formOf views', None), s')
    \<and> storedVars s' p u = storedVars s p u"
proof -
  define rows where "rows = orderByName ev_name (ownVars s p u)"
  define s' where "s' = s\<lparr>dbtEnvironmentVariable := deleteMany (\<lambda>r. ev_projectId r = p \<and> ev_owner r = u)
      (dbtEnvironmentVariable s) @ newVars c ids p u (map (keptVar \<circ> snd) rows)\<rparr>"
  have "views = map serializeEnvVar rows"
    using assms(1,2,6) by (auto simp: envVars_GET_def rows_def)
  then have form: "formOf views = map (formRow \<circ> snd) rows"
    by (simp add: formOf_rows case_prod_beta comp_def)
  have "envVars_PUT ci ivs ids c p (Some (JArr (map itemJson (map (formRow \<circ> snd) rows)))) s =
      (Response 200 (Inr (map serializeEnvVar (orderByName ev_name (ownVars s' p u)))), s')"
    using assms(1,2) untouched_items(3) [OF assms(3) rows_def, of ci ivs] distinct_replaced [OF assms(3-5)]
    by (simp add: envVars_PUT_def Let_def s'_def)
  then have "handleSaveEnvironmentVariables ci ivs ids c p (formOf views) s =
      ((formOf (map serializeEnvVar (orderByName ev_name (ownVars s' p u))), None), s')"
    using form untouched_items(1,2) [OF assms(3) rows_def] by (simp add: handleSaveEnvironmentVariables_def)
  moreover have "storedVars s' p u = storedVars s p u"
    unfolding s'_def by (rule storedVars_replaced [OF rows_def])
  ultimately show ?thesis by blast
qed

definition demo_views :: "env_view list" where
  "demo_views = [\<lparr>vw_id = ''v1'', vw_name = ''TOKEN'', vw_type = ''password'', vw_hasValue = True, vw_updatedAt = 1\<rparr>]"

definition demo_vars_db :: db where
  "demo_vars_db = demo_db\<lparr>dbtEnvironmentVariable := [(''v1'',
     \<lparr>ev_projectId = ''p1'', ev_owner = demo_user, ev_name = ''TOKEN'', ev_type = ''password'',
      ev_valueEncrypted = ''abc'', ev_updatedAt = 1\<rparr>)]\<rparr>"

theorem untouched_form_keeps_values_witness:
  "\<exists>views' s'. handleSaveEnvironmentVariables demo_cipher (\<lambda>i. ''iv'') (\<lambda>i. ''n'' @ replicate i CHR ''x'') demo_ctx ''p1''
      (formOf demo_views) demo_vars_db = ((formOf views', None), s')
    \<and> storedVars s' ''p1'' demo_user = storedVars demo_vars_db ''p1'' demo_user"
proof (rule untouched_form_keeps_values)
  show "getSessionOrNull demo_ctx = Some demo_user" by code_simp
  show "liveProjectOf demo_vars_db ''p1'' demo_user" by code_simp
  show "vars_ok demo_vars_db ''p1'' demo_user" by code_simp
  show "inj (\<lambda>i. ''n'' @ replicate i CHR ''x'')" by (rule injI) simp
  show "range (\<lambda>i. ''n'' @ replicate i CHR ''x'') \<inter> fst ` set (dbtEnvironmentVariable demo_vars_db) = {}"
    by (auto simp: demo_vars_db_def)
  show "envVars_GET demo_ctx ''p1'' demo_vars_db = (Response 200 (Inr demo_views), demo_vars_db)"
    by code_simp
qed

lemma writeStatus_error: "writeStatus e \<noteq> 200" "200 \<noteq> writeStatus e"
  by (simp_all add: writeStatus_def)

text \<open>
  Choosing a connection in the IDE either changes nothing, when the request is refused, or leaves the
  page and the stored project with the same pair of columns, of which at most one is set, and with
  commands going to the target dev.
\<close>

lemma chosen_connection_in_effect:
  "case updateProjectConnection c p connections connectionId (page, s) of (page', s') \<Rightarrow>
     page' = page \<and> s' = s \<or>
     pp_target page' = ''dev'' \<and> (pp_connectionId page' = None \<or> pp_dremioSourceId page' = None) \<and>
     (\<exists>r. findUnique (dbtProject s') p = Some r \<and> pj_connectionId r = pp_connectionId page' \<and>
          pj_dremioSourceId r = pp_dremioSourceId page')"
proof -
  obtain resp s' where put: "projects_PUT c (Some p) (patchInput (connectionPatch connections connectionId)) s = (resp, s')"
    by fastforce
  show ?thesis
    using put patch_exclusive [of connections connectionId]
    by (cases "connectionPatch connections connectionId")
      (auto simp: updateProjectConnection_def projects_PUT_def respond_def updateProject_def handler_simps
        table_simps patchInput_def applyUpdate_def nullish_def Let_def badRequest_def writeStatus_error
        split: if_splits option.splits sum.splits)
qed

end
