(* ===== verification/Js_Exec.thy ===== *)
theory Js_Exec
  imports Js_Prelude
begin

text \<open>
  Regular expressions of JavaScript as the backtracking matcher runs them: alternatives from left to
  right, greedy and lazy repetition, captured groups. All ways to match at a position are listed in the
  order in which the matcher tries them, and its answer is the first. On top of it: \<open>exec\<close>, the loop
  \<open>while ((match = regex.exec(s)) !== null)\<close> of an expression with the flag \<open>g\<close>, and \<open>replace\<close> and
  \<open>match\<close>. Positions are code units; a case-insensitive expression has classes of both cases.
\<close>

section \<open>Definitions\<close>

datatype rex =
    Eps
  | Cls "char \<Rightarrow> bool"
  | Seq rex rex
  | Alt rex rex
  | Star rex
  | Lazy rex
  | Group string rex
  | AtStart
  | AtEnd
  | WordB
  | NotAhead rex

text \<open>A position with the text of the groups captured so far, the last capture first.\<close>

type_synonym captures = "(string \<times> string) list"
type_synonym spot = "nat \<times> captures"

definition slice :: "string \<Rightarrow> nat \<Rightarrow> nat \<Rightarrow> string" where
  "slice s a b = take (b - a) (drop a s)"

definition is_word :: "char \<Rightarrow> bool" where
  "is_word c \<longleftrightarrow> is_alnum c \<or> c = CHR ''_''"

definition wordAt :: "string \<Rightarrow> nat \<Rightarrow> bool" where
  "wordAt s p \<longleftrightarrow> p < length s \<and> is_word (s ! p)"

definition atWordB :: "string \<Rightarrow> nat \<Rightarrow> bool" where
  "atWordB s p \<longleftrightarrow> (p > 0 \<and> wordAt s (p - 1)) \<noteq> wordAt s p"

text \<open>A round of a repetition that consumes nothing ends it.\<close>

function tries :: "rex \<Rightarrow> string \<Rightarrow> spot \<Rightarrow> spot list" where
  "tries Eps s x = [x]"
| "tries (Cls P) s x = (if fst x < length s \<and> P (s ! fst x) then [(Suc (fst x), snd x)] else [])"
| "tries (Seq a b) s x = concat (map (tries b s) (tries a s x))"
| "tries (Alt a b) s x = tries a s x @ tries b s x"
| "tries (Star r) s x =
     concat (map (tries (Star r) s) (filter (\<lambda>y. fst x < fst y \<and> fst y \<le> length s) (tries r s x))) @ [x]"
| "tries (Lazy r) s x =
     x # concat (map (tries (Lazy r) s) (filter (\<lambda>y. fst x < fst y \<and> fst y \<le> length s) (tries r s x)))"
| "tries (Group n r) s x = map (\<lambda>y. (fst y, (n, slice s (fst x) (fst y)) # snd y)) (tries r s x)"
| "tries AtStart s x = (if fst x = 0 then [x] else [])"
| "tries AtEnd s x = (if fst x = length s then [x] else [])"
| "tries WordB s x = (if atWordB s (fst x) then [x] else [])"
| "tries (NotAhead r) s x = (if tries r s x = [] then [x] else [])"
  by pat_completeness auto
termination
  by (relation "measures [\<lambda>(r, s, x). size r, \<lambda>(r, s, x). length s - fst x]") auto

definition matchAt :: "rex \<Rightarrow> string \<Rightarrow> nat \<Rightarrow> spot option" where
  "matchAt r s p = (case tries r s (p, []) of [] \<Rightarrow> None | y # _ \<Rightarrow> Some y)"

text \<open>\<open>regex.exec(s)\<close> from \<open>lastIndex\<close> on: where the match starts, where it ends, and its groups.\<close>

type_synonym match_result = "nat \<times> nat \<times> captures"

function exec :: "rex \<Rightarrow> string \<Rightarrow> nat \<Rightarrow> match_result option" where
  "exec r s p =
     (if p > length s then None
      else case matchAt r s p of
             Some (q, c) \<Rightarrow> Some (p, q, c)
           | None \<Rightarrow> exec r s (Suc p))"
  by pat_completeness auto
termination
  by (relation "measure (\<lambda>(r, s, p). Suc (length s) - p)") auto

text \<open>
  The loop over all matches. \<open>lastIndex\<close> is where the previous match ended, so the loop does not end
  after an empty match: \<open>None\<close>.
\<close>

partial_function (option) execLoop :: "rex \<Rightarrow> string \<Rightarrow> nat \<Rightarrow> match_result list option" where
  "execLoop r s p =
     (case exec r s p of
        None \<Rightarrow> Some []
      | Some (a, b, c) \<Rightarrow>
          Option.bind (execLoop r s b) (\<lambda>ms. Some ((a, b, c) # ms)))"

text \<open>\<open>replace\<close> and \<open>matchAll\<close> with the flag \<open>g\<close> step over an empty match.\<close>

function matchAll :: "rex \<Rightarrow> string \<Rightarrow> nat \<Rightarrow> match_result list" where
  "matchAll r s p =
     (case exec r s p of
        None \<Rightarrow> []
      | Some (a, b, c) \<Rightarrow> if p \<le> a \<and> a \<le> length s then (a, b, c) # matchAll r s (max b (Suc a)) else [])"
  by pat_completeness auto
termination
  by (relation "measure (\<lambda>(r, s, p). Suc (length s) - p)") auto

text \<open>The text around and instead of the matches, from a position on.\<close>

fun stitch :: "(string \<Rightarrow> captures \<Rightarrow> string) \<Rightarrow> string \<Rightarrow> nat \<Rightarrow> match_result list \<Rightarrow> string" where
  "stitch f s p [] = drop p s"
| "stitch f s p ((a, b, c) # ms) = slice s p a @ f (slice s a b) c @ stitch f s b ms"

definition replaceAll :: "rex \<Rightarrow> (string \<Rightarrow> captures \<Rightarrow> string) \<Rightarrow> string \<Rightarrow> string" where
  "replaceAll r f s = stitch f s 0 (matchAll r s 0)"

definition replaceOne :: "rex \<Rightarrow> (string \<Rightarrow> captures \<Rightarrow> string) \<Rightarrow> string \<Rightarrow> string" where
  "replaceOne r f s = stitch f s 0 (case exec r s 0 of None \<Rightarrow> [] | Some m \<Rightarrow> [m])"

definition rexTest :: "rex \<Rightarrow> string \<Rightarrow> bool" where
  "rexTest r s \<longleftrightarrow> exec r s 0 \<noteq> None"

text \<open>\<open>match.groups.n\<close>, \<open>undefined\<close> for a group that took no part.\<close>

abbreviation group :: "captures \<Rightarrow> string \<Rightarrow> string option" where
  "group c n \<equiv> map_of c n"

subsection \<open>Derived forms\<close>

definition Opt :: "rex \<Rightarrow> rex" where
  "Opt r = Alt r Eps"

definition Plus :: "rex \<Rightarrow> rex" where
  "Plus r = Seq r (Star r)"

definition Chr :: "char \<Rightarrow> rex" where
  "Chr c = Cls (\<lambda>x. x = c)"

primrec Lit :: "string \<Rightarrow> rex" where
  "Lit [] = Eps"
| "Lit (c # s) = Seq (Chr c) (Lit s)"

text \<open>A literal under the flag \<open>i\<close>.\<close>

primrec LitI :: "string \<Rightarrow> rex" where
  "LitI [] = Eps"
| "LitI (c # s) = Seq (Cls (\<lambda>x. lower_char x = lower_char c)) (LitI s)"

primrec Alts :: "rex \<Rightarrow> rex list \<Rightarrow> rex" where
  "Alts r [] = r"
| "Alts r (r' # rs) = Alt r (Alts r' rs)"

primrec Seqs :: "rex list \<Rightarrow> rex" where
  "Seqs [] = Eps"
| "Seqs (r # rs) = Seq r (Seqs rs)"

primrec Rep :: "nat \<Rightarrow> rex \<Rightarrow> rex" where
  "Rep 0 r = Eps"
| "Rep (Suc n) r = Seq r (Rep n r)"

definition Any :: rex where
  "Any = Cls (\<lambda>_. True)"

text \<open>\<open>.\<close>\<close>

definition Dot :: rex where
  "Dot = Cls (\<lambda>c. c \<noteq> CHR 0x0A \<and> c \<noteq> CHR 0x0D)"

definition Space :: rex where
  "Space = Cls is_ws"

definition Digit :: rex where
  "Digit = Cls is_digit"

definition WordCh :: rex where
  "WordCh = Cls is_word"

text \<open>The least number of characters a match consumes.\<close>

primrec minLength :: "rex \<Rightarrow> nat" where
  "minLength Eps = 0"
| "minLength (Cls P) = 1"
| "minLength (Seq a b) = minLength a + minLength b"
| "minLength (Alt a b) = min (minLength a) (minLength b)"
| "minLength (Star r) = 0"
| "minLength (Lazy r) = 0"
| "minLength (Group n r) = minLength r"
| "minLength AtStart = 0"
| "minLength AtEnd = 0"
| "minLength WordB = 0"
| "minLength (NotAhead r) = 0"

section \<open>Lemmas\<close>

subsection \<open>Where matches lie\<close>

declare tries.simps(5,6) [simp del]

lemma tries_bounds:
  "y \<in> set (tries r s x) \<Longrightarrow> fst x \<le> length s \<Longrightarrow> fst x + minLength r \<le> fst y \<and> fst y \<le> length s"
proof (induction r s x arbitrary: y rule: tries.induct)
  case (3 a b s x)
  then obtain z where z: "z \<in> set (tries a s x)" "y \<in> set (tries b s z)" by auto
  then show ?case using "3.IH"(1) [of z] "3.IH"(2) [OF z(1) z(2)] "3.prems"(2) by fastforce
next
  case (4 a b s x)
  then show ?case by fastforce
next
  case (5 r s x)
  from "5.prems"(1) consider "y = x"
    | z where "z \<in> set (tries r s x)" "fst x < fst z" "fst z \<le> length s" "y \<in> set (tries (Star r) s z)"
    unfolding tries.simps(5) [of r s x] by auto
  then show ?case
  proof cases
    case 2
    from 2(3) show ?thesis using "5.IH"(2) [of z y] 2 by simp
  qed (use "5.prems"(2) in simp)
next
  case (6 r s x)
  from "6.prems"(1) consider "y = x"
    | z where "z \<in> set (tries r s x)" "fst x < fst z" "fst z \<le> length s" "y \<in> set (tries (Lazy r) s z)"
    unfolding tries.simps(6) [of r s x] by auto
  then show ?case
  proof cases
    case 2
    from 2(3) show ?thesis using "6.IH"(2) [of z y] 2 by simp
  qed (use "6.prems"(2) in simp)
qed (auto split: if_splits)

lemma matchAt_bounds:
  "matchAt r s p = Some (q, c) \<Longrightarrow> p \<le> length s \<Longrightarrow> p + minLength r \<le> q \<and> q \<le> length s"
  using tries_bounds [of "(q, c)" r s "(p, [])"] by (auto simp: matchAt_def split: list.splits)

declare exec.simps [simp del] matchAll.simps [simp del]

lemma exec_bounds:
  "exec r s p = Some (a, b, c) \<Longrightarrow> p \<le> a \<and> a + minLength r \<le> b \<and> b \<le> length s \<and> matchAt r s a = Some (b, c)"
proof (induction r s p rule: exec.induct)
  case (1 r s p)
  show ?case
  proof (cases "matchAt r s p")
    case None
    then show ?thesis using 1 by (force simp: exec.simps [of r s p] split: if_splits)
  next
    case (Some y)
    then show ?thesis
      using 1 matchAt_bounds [of r s p "fst y" "snd y"] by (cases y) (auto simp: exec.simps [of r s p] split: if_splits)
  qed
qed

text \<open>Matches in order, apart from each other and inside the text.\<close>

fun ordered :: "nat \<Rightarrow> nat \<Rightarrow> match_result list \<Rightarrow> bool" where
  "ordered n p [] \<longleftrightarrow> p \<le> n"
| "ordered n p ((a, b, c) # ms) \<longleftrightarrow> p \<le> a \<and> a \<le> b \<and> b \<le> n \<and> ordered n b ms"

text \<open>The loop ends for every expression that cannot match the empty text, and finds what \<open>matchAll\<close> finds.\<close>

lemma execLoop_ends:
  assumes "0 < minLength r" "p \<le> length s"
  shows "execLoop r s p = Some (matchAll r s p) \<and> ordered (length s) p (matchAll r s p)"
  using assms(2)
proof (induction "length s - p" arbitrary: p rule: less_induct)
  case less
  show ?case
  proof (cases "exec r s p")
    case None
    then show ?thesis using less.prems by (simp add: execLoop.simps [of r s p] matchAll.simps [of r s p])
  next
    case (Some m)
    then obtain a b c where m: "exec r s p = Some (a, b, c)" by (cases m) auto
    note b = exec_bounds [OF m]
    then have "max b (Suc a) = b" "p < b" using assms(1) by auto
    then have "execLoop r s b = Some (matchAll r s b) \<and> ordered (length s) b (matchAll r s b)"
      using less.hyps [of b] b by auto
    then show ?thesis
      using m b \<open>max b (Suc a) = b\<close> by (simp add: execLoop.simps [of r s p] matchAll.simps [of r s p])
  qed
qed

text \<open>After an empty match the loop is where it was.\<close>

lemma execLoop_empty_match: "exec r s p = Some (p, p, c) \<Longrightarrow> execLoop r s p = None"
proof -
  assume m: "exec r s p = Some (p, p, c)"
  have "execLoop r s p = Option.bind (execLoop r s p) (\<lambda>ms. Some ((p, p, c) # ms))"
    by (subst execLoop.simps) (simp add: m)
  then show ?thesis by (cases "execLoop r s p") auto
qed

lemma slice_append [simp]: "a \<le> b \<Longrightarrow> slice s a b @ drop b s = drop a s"
  unfolding slice_def by (metis append_take_drop_id drop_drop le_add_diff_inverse2)

lemma slice_empty [simp]: "slice s a a = ''''"
  by (simp add: slice_def)

lemma length_slice [simp]: "b \<le> length s \<Longrightarrow> length (slice s a b) = b - a"
  by (simp add: slice_def)

lemma slice_slice: "a \<le> b \<Longrightarrow> b \<le> c \<Longrightarrow> slice s a b @ slice s b c = slice s a c"
proof -
  assume "a \<le> b" "b \<le> c"
  then have "c - a = (b - a) + (c - b)" "drop b s = drop (b - a) (drop a s)" by auto
  then show ?thesis unfolding slice_def by (metis take_add)
qed

text \<open>Giving every match back as it is changes nothing.\<close>

lemma stitch_id: "ordered (length s) p ms \<Longrightarrow> stitch (\<lambda>m c. m) s p ms = drop p s"
  by (induction "length s" p ms rule: ordered.induct) auto

subsection \<open>Single expressions\<close>

lemma tries_Lit:
  "p \<le> length s \<Longrightarrow> tries (Lit t) s (p, c) = (if prefix t (drop p s) then [(p + length t, c)] else [])"
proof (induction t arbitrary: p)
  case (Cons x t)
  show ?case
  proof (cases "p < length s \<and> s ! p = x")
    case True
    then have "drop p s = x # drop (Suc p) s" using Cons_nth_drop_Suc [of p s] by simp
    then show ?thesis using Cons.IH [of "Suc p"] True by (simp add: Chr_def)
  next
    case False
    then have "\<not> prefix (x # t) (drop p s)"
      by (cases "p < length s") (auto simp: Cons_nth_drop_Suc [of p s, symmetric])
    then show ?thesis using False by (auto simp: Chr_def)
  qed
qed simp

text \<open>A greedy repetition of a class first takes all it can.\<close>

lemma tries_Star_Cls:
  "p \<le> length s \<Longrightarrow> tries (Star (Cls P)) s (p, c) =
     map (\<lambda>q. (q, c)) (rev [p..<Suc (p + length (takeWhile P (drop p s)))])"
proof (induction "length s - p" arbitrary: p)
  case 0
  then show ?case by (simp add: tries.simps(5))
next
  case (Suc n)
  then have "p < length s" by simp
  then have d: "drop p s = s ! p # drop (Suc p) s" using Cons_nth_drop_Suc [of p s] by simp
  show ?case
  proof (cases "P (s ! p)")
    case True
    have "tries (Star (Cls P)) s (Suc p, c) =
        map (\<lambda>q. (q, c)) (rev [Suc p..<Suc (Suc p + length (takeWhile P (drop (Suc p) s)))])"
      using Suc by (intro Suc.hyps(1)) auto
    then show ?thesis
      using True \<open>p < length s\<close>
      by (simp add: tries.simps(5) [of "Cls P" s "(p, c)"] d upt_conv_Cons [of p] del: upt_Suc)
  next
    case False
    then show ?thesis using \<open>p < length s\<close> by (simp add: tries.simps(5) [of "Cls P" s "(p, c)"] d)
  qed
qed

lemma matchAt_fst: "matchAt r s p = (if tries r s (p, []) = [] then None else Some (hd (tries r s (p, []))))"
  by (simp add: matchAt_def split: list.split)

text \<open>An anchored expression matches at the beginning or not at all.\<close>

lemma exec_anchored: "0 < p \<Longrightarrow> exec (Seqs (AtStart # rs)) s p = None"
proof (induction "length s - p" arbitrary: p rule: less_induct)
  case less
  have "matchAt (Seqs (AtStart # rs)) s p = None" using less.prems by (simp add: matchAt_def)
  then show ?case
    using less.hyps [of "Suc p"] less.prems by (cases "Suc p \<le> length s") (auto simp: exec.simps)
qed

lemma exec_anchored_0:
  "exec (Seqs (AtStart # rs)) s 0 = map_option (\<lambda>(q, c). (0, q, c)) (matchAt (Seqs (AtStart # rs)) s 0)"
  using exec_anchored [of "Suc 0" rs s] by (subst exec.simps) (auto split: option.splits)

subsection \<open>The first choice\<close>

text \<open>
  What the matcher does when nothing has to be undone: every part takes its first choice. The text ahead
  of a position is \<open>ahead s p w\<close>.
\<close>

definition takes :: "rex \<Rightarrow> string \<Rightarrow> spot \<Rightarrow> spot \<Rightarrow> bool" where
  "takes r s x y \<longleftrightarrow> (\<exists>ys. tries r s x = y # ys)"

definition ahead :: "string \<Rightarrow> nat \<Rightarrow> string \<Rightarrow> bool" where
  "ahead s p w \<longleftrightarrow> p \<le> length s \<and> drop p s = w"

named_theorems taking \<open>rules that run an expression by first choices\<close>

lemma ahead_0 [simp]: "ahead s 0 s"
  by (simp add: ahead_def)

lemma ahead_skip: "ahead s p (u @ w) \<Longrightarrow> ahead s (p + length u) w"
proof -
  assume "ahead s p (u @ w)"
  then have "p \<le> length s" and d: "drop p s = u @ w" by (auto simp: ahead_def)
  from d have "drop (p + length u) s = w" by (metis append_eq_conv_conj drop_drop add.commute)
  moreover from d have "length s - p = length u + length w" by (metis length_append length_drop)
  ultimately show ?thesis using \<open>p \<le> length s\<close> by (auto simp: ahead_def)
qed

lemma ahead_Cons: "ahead s p (x # w) \<Longrightarrow> p < length s \<and> s ! p = x \<and> ahead s (Suc p) w"
  using ahead_skip [of s p "[x]" w] by (auto simp: ahead_def) (metis nth_via_drop)

lemma ahead_slice: "ahead s p (u @ w) \<Longrightarrow> slice s p (p + length u) = u"
  by (simp add: ahead_def slice_def)

lemma takes_tries: "takes r s x y \<Longrightarrow> tries r s x \<noteq> []"
  by (auto simp: takes_def)

lemma takes_matchAt: "takes r s (p, []) y \<Longrightarrow> matchAt r s p = Some y"
  by (auto simp: takes_def matchAt_def)

lemma takes_Eps [taking]: "takes Eps s x x"
  by (simp add: takes_def)

lemma takes_Cls [taking]: "ahead s p (a # w) \<Longrightarrow> P a \<Longrightarrow> takes (Cls P) s (p, c) (Suc p, c)"
  using ahead_Cons [of s p a w] by (simp add: takes_def)

lemma takes_Seq [taking]: "takes a s x y \<Longrightarrow> takes b s y z \<Longrightarrow> takes (Seq a b) s x z"
  by (auto simp: takes_def)

lemma takes_Alt1: "takes a s x y \<Longrightarrow> takes (Alt a b) s x y"
  by (auto simp: takes_def)

lemma takes_Alt2: "tries a s x = [] \<Longrightarrow> takes b s x y \<Longrightarrow> takes (Alt a b) s x y"
  by (auto simp: takes_def)

lemma takes_Group [taking]:
  "takes r s (p, c) (q, c') \<Longrightarrow> takes (Group n r) s (p, c) (q, (n, slice s p q) # c')"
  by (auto simp: takes_def)

lemma takes_AtStart [taking]: "takes AtStart s (0, c) (0, c)"
  by (simp add: takes_def)

lemma takes_AtEnd [taking]: "ahead s p '''' \<Longrightarrow> takes AtEnd s (p, c) (p, c)"
  by (auto simp: takes_def ahead_def)

lemma takes_Lit [taking]: "ahead s p (t @ w) \<Longrightarrow> takes (Lit t) s (p, c) (p + length t, c)"
  by (simp add: takes_def tries_Lit ahead_def)

text \<open>A greedy repetition of a class takes the longest run.\<close>

lemma takes_Star [taking]:
  assumes "ahead s p (u @ w)" "list_all P u" "w = '''' \<or> \<not> P (hd w)"
  shows "takes (Star (Cls P)) s (p, c) (p + length u, c)"
proof -
  have "takeWhile P (u @ w) = u" using assms(2,3) by (cases w) (auto simp: list_all_iff takeWhile_append)
  then show ?thesis using assms(1) by (simp add: takes_def tries_Star_Cls ahead_def)
qed

lemma tries_Cls_no: "ahead s p w \<Longrightarrow> w = '''' \<or> \<not> P (hd w) \<Longrightarrow> tries (Cls P) s (p, c) = []"
  using ahead_Cons [of s p "hd w" "tl w"] by (cases w) (auto simp: ahead_def)

lemma ahead_take: "ahead s p w \<Longrightarrow> n \<le> length w \<Longrightarrow> ahead s (p + n) (drop n w)"
  using ahead_skip [of s p "take n w" "drop n w"] by simp

text \<open>A literal under the flag \<open>i\<close>.\<close>

lemma tries_LitI:
  "ahead s p w \<Longrightarrow> tries (LitI t) s (p, c) =
     (if map lower_char (take (length t) w) = map lower_char t then [(p + length t, c)] else [])"
proof (induction t arbitrary: p w)
  case (Cons x t)
  show ?case
  proof (cases w)
    case Nil
    then show ?thesis using Cons.prems by (simp add: ahead_def)
  next
    case (Cons y w')
    then have "p < length s" "s ! p = y" "ahead s (Suc p) w'" using ahead_Cons Cons.prems by auto
    then show ?thesis using Cons.IH [of "Suc p" w'] Cons by simp
  qed
qed simp

lemma exec_None: "(\<And>q. p \<le> q \<Longrightarrow> q \<le> length s \<Longrightarrow> matchAt r s q = None) \<Longrightarrow> exec r s p = None"
proof (induction "Suc (length s) - p" arbitrary: p)
  case 0
  then show ?case by (subst exec.simps) simp
next
  case (Suc n)
  then have "exec r s (Suc p) = None" by (intro Suc.hyps) auto
  then show ?case using Suc.prems [of p] by (subst exec.simps) simp
qed

lemma exec_first: "matchAt r s p = Some (q, c) \<Longrightarrow> p \<le> length s \<Longrightarrow> exec r s p = Some (p, q, c)"
  by (subst exec.simps) simp

lemma takes_Plus [taking]:
  assumes "ahead s p (u @ w)" "u \<noteq> ''''" "list_all P u" "w = '''' \<or> \<not> P (hd w)"
  shows "takes (Plus (Cls P)) s (p, c) (p + length u, c)"
proof -
  obtain x v where u: "u = x # v" using assms(2) by (cases u) auto
  then have "ahead s (Suc p) (v @ w)" using assms(1) ahead_Cons [of s p x "v @ w"] by simp
  then have "takes (Star (Cls P)) s (Suc p, c) (Suc p + length v, c)"
    using assms(3,4) u by (intro takes_Star) auto
  moreover have "takes (Cls P) s (p, c) (Suc p, c)"
    using assms(1,3) u by (intro takes_Cls [of s p x "v @ w"]) auto
  ultimately show ?thesis using takes_Seq u unfolding Plus_def by fastforce
qed

lemma takes_Opt_yes: "takes r s x y \<Longrightarrow> takes (Opt r) s x y"
  unfolding Opt_def by (rule takes_Alt1)

lemma takes_Opt_no: "tries r s x = [] \<Longrightarrow> takes (Opt r) s x x"
  unfolding Opt_def by (rule takes_Alt2 [OF _ takes_Eps])

text \<open>A run of single characters.\<close>

lemma takes_Seqs_Cls:
  "ahead s p (u @ w) \<Longrightarrow> list_all2 (\<lambda>P x. P x) Ps u \<Longrightarrow> takes (Seqs rs) s (p + length u, c) z \<Longrightarrow>
     takes (Seqs (map Cls Ps @ rs)) s (p, c) z"
proof (induction Ps arbitrary: p u)
  case (Cons P Ps)
  then obtain x v where u: "u = x # v" "P x" "list_all2 (\<lambda>P x. P x) Ps v" by (cases u) auto
  have here: "ahead s p (x # v @ w)" using Cons.prems(1) u by simp
  have "takes (Seqs (map Cls Ps @ rs)) s (Suc p, c) z"
    using Cons.prems(3) u ahead_Cons [OF here] by (intro Cons.IH [of "Suc p" v]) auto
  moreover have "takes (Cls P) s (p, c) (Suc p, c)" using here u(2) by (rule takes_Cls)
  ultimately show ?case using takes_Seq by simp
qed simp

subsection \<open>Replacing, position by position\<close>

definition replaceFrom :: "rex \<Rightarrow> (string \<Rightarrow> captures \<Rightarrow> string) \<Rightarrow> string \<Rightarrow> nat \<Rightarrow> string" where
  "replaceFrom r f s p = stitch f s p (matchAll r s p)"

lemma replaceAll_from: "replaceAll r f s = replaceFrom r f s 0"
  by (simp add: replaceAll_def replaceFrom_def)

lemma replaceFrom_match:
  assumes "matchAt r s p = Some (q, c)" "p < q" "p \<le> length s"
  shows "replaceFrom r f s p = f (slice s p q) c @ replaceFrom r f s q"
proof -
  have "exec r s p = Some (p, q, c)" using assms by (subst exec.simps) simp
  moreover have "max q (Suc p) = q" using assms by simp
  ultimately show ?thesis using assms by (simp add: replaceFrom_def matchAll.simps [of r s p])
qed

lemma replaceFrom_skip:
  assumes "matchAt r s p = None" "p < length s"
  shows "replaceFrom r f s p = s ! p # replaceFrom r f s (Suc p)"
proof -
  have e: "exec r s p = exec r s (Suc p)" using assms by (subst exec.simps) simp
  have step: "slice s p a = s ! p # slice s (Suc p) a" if "Suc p \<le> a" for a
  proof -
    have "a - p = Suc (a - Suc p)" using that by simp
    then show ?thesis using Cons_nth_drop_Suc [OF assms(2), symmetric] by (simp add: slice_def)
  qed
  show ?thesis
  proof (cases "exec r s (Suc p)")
    case None
    then show ?thesis
      using e Cons_nth_drop_Suc [OF assms(2)]
      by (simp add: replaceFrom_def matchAll.simps [of r s p] matchAll.simps [of r s "Suc p"])
  next
    case (Some m)
    then obtain a b c where m: "exec r s (Suc p) = Some (a, b, c)" by (cases m) auto
    have "Suc p \<le> a" "a \<le> length s" using exec_bounds [OF m] by auto
    then show ?thesis
      using e m step by (simp add: replaceFrom_def matchAll.simps [of r s p] matchAll.simps [of r s "Suc p"])
  qed
qed

lemma replaceFrom_end: "0 < minLength r \<Longrightarrow> replaceFrom r f s (length s) = ''''"
proof -
  assume "0 < minLength r"
  then have "exec r s (length s) = None"
    using exec_bounds [of r s "length s"] by (cases "exec r s (length s)") fastforce+
  then show ?thesis by (simp add: replaceFrom_def matchAll.simps [of r s "length s"])
qed

text \<open>A stretch of text at no position of which the expression matches stays as it is.\<close>

lemma replaceFrom_plain:
  assumes "ahead s p (u @ w)" "\<And>q. p \<le> q \<Longrightarrow> q < p + length u \<Longrightarrow> matchAt r s q = None"
  shows "replaceFrom r f s p = u @ replaceFrom r f s (p + length u)"
  using assms
proof (induction u arbitrary: p)
  case (Cons x u)
  have x: "p < length s" "s ! p = x" "ahead s (Suc p) (u @ w)" using ahead_Cons [of s p x "u @ w"] Cons.prems(1) by auto
  have "matchAt r s p = None" using Cons.prems(2) [of p] by simp
  then have "replaceFrom r f s p = x # replaceFrom r f s (Suc p)" using x replaceFrom_skip by simp
  moreover have "replaceFrom r f s (Suc p) = u @ replaceFrom r f s (Suc p + length u)"
    using Cons.prems(2) by (intro Cons.IH x(3)) auto
  ultimately show ?case by simp
qed simp

end
