(* ===== verification/Terminal_Output.thy ===== *)
theory Terminal_Output
  imports Js_Exec
begin

text \<open>
  Coloured text in the IDE: the lines of the terminal
  (\<open>features/develop/components/TerminalOutput.tsx\<close>) and the compiled SQL
  (\<open>features/develop/components/CompiledSQLView.tsx\<close>). A span is its text with its class names; keys and
  icons are left out. Characters beyond Latin-1 are outside the model of strings, and with them the
  alternatives of the patterns that name a tick, a cross or a warning sign, and the replacement of
  emoji.
\<close>

section \<open>Definitions\<close>

type_synonym span = "string \<times> string"

subsection \<open>Colour codes\<close>

definition ANSI_COLORS :: "(string \<times> string) list" where
  "ANSI_COLORS =
     [(''30'', ''text-[#242424]''), (''31'', ''text-[#D32F2F]''), (''32'', ''text-[#038387]''),
      (''33'', ''text-[#B7791F]''), (''34'', ''text-[#0078D4]''), (''35'', ''text-[#6B69D6]''),
      (''36'', ''text-[#038387]''), (''37'', ''text-[#616161]''), (''90'', ''text-[#A0A0A0]''),
      (''91'', ''text-[#E53935]''), (''92'', ''text-[#43A047]''), (''93'', ''text-[#F9A825]''),
      (''94'', ''text-[#1E88E5]''), (''95'', ''text-[#8E24AA]''), (''96'', ''text-[#00ACC1]''),
      (''97'', ''text-[#242424]'')]"

definition ANSI_BG_COLORS :: "(string \<times> string) list" where
  "ANSI_BG_COLORS =
     [(''40'', ''bg-[#F3F2F1]''), (''41'', ''bg-[#FFEBEE]''), (''42'', ''bg-[#E8F5E9]''),
      (''43'', ''bg-[#FFF8E1]''), (''44'', ''bg-[#E3F2FD]''), (''45'', ''bg-[#F3E5F5]''),
      (''46'', ''bg-[#E0F7FA]''), (''47'', ''bg-[#E6E6E6]'')]"

definition BASE_CLASS :: string where
  "BASE_CLASS = ''text-[#242424]''"

definition ansiRegex :: rex where
  "ansiRegex = Seqs [Chr (CHR 0x1B), Chr (CHR ''[''),
     Group ''1'' (Plus (Cls (\<lambda>c. is_digit c \<or> c = CHR '';''))), Chr (CHR ''m'')]"

definition applyCode :: "string list \<Rightarrow> string \<Rightarrow> string list" where
  "applyCode classes c =
     (if c = ''0'' then [BASE_CLASS]
      else if c = ''1'' then classes @ [''font-bold'']
      else if c = ''3'' then classes @ [''italic'']
      else if c = ''4'' then classes @ [''underline'']
      else case map_of ANSI_COLORS c of
             Some colour \<Rightarrow> filter (\<lambda>k. \<not> startsWith k ''text-'') classes @ [colour]
           | None \<Rightarrow>
               (case map_of ANSI_BG_COLORS c of
                  Some colour \<Rightarrow> filter (\<lambda>k. \<not> startsWith k ''bg-'') classes @ [colour]
                | None \<Rightarrow> classes))"

text \<open>The loop over the codes of a line, from \<open>lastIndex\<close> and the current classes on.\<close>

fun ansiParts :: "string \<Rightarrow> nat \<Rightarrow> string list \<Rightarrow> match_result list \<Rightarrow> (string \<times> string list) list" where
  "ansiParts s lastIndex classes [] =
     (if lastIndex < length s then [(drop lastIndex s, classes)] else [])"
| "ansiParts s lastIndex classes ((a, b, c) # ms) =
     (if a > lastIndex then [(slice s lastIndex a, classes)] else [])
     @ ansiParts s b (foldl applyCode classes (split_on (CHR '';'') (nullish (group c ''1'') ''''))) ms"

definition parseAnsiCodes :: "string \<Rightarrow> span list option" where
  "parseAnsiCodes s =
     (case execLoop ansiRegex s 0 of
        None \<Rightarrow> None
      | Some ms \<Rightarrow>
          let parts = ansiParts s 0 [BASE_CLASS] ms
          in Some (if parts = [] then [(s, BASE_CLASS)]
                   else map (\<lambda>(t, classes). (t, join '' '' classes)) (filter (\<lambda>(t, classes). t \<noteq> '''') parts)))"

subsection \<open>Highlighting of dbt output\<close>

definition wordI :: "string \<Rightarrow> rex" where
  "wordI w = Seqs [WordB, LitI w, WordB]"

definition Digits :: rex where
  "Digits = Plus Digit"

definition success_pattern :: rex where
  "success_pattern = Alts (wordI ''OK'') [wordI ''PASS'', wordI ''SUCCESS'',
     LitI ''Completed successfully'', LitI ''1 of 1 OK'']"

definition error_pattern :: rex where
  "error_pattern = Alts (wordI ''ERROR'') [wordI ''FAIL'', wordI ''FAILED'', wordI ''FATAL'',
     LitI ''Compilation Error'', LitI ''Runtime Error'', LitI ''Database Error'']"

definition warning_pattern :: rex where
  "warning_pattern = Alts (wordI ''WARN'') [wordI ''WARNING'', wordI ''SKIP'', wordI ''SKIPPED'']"

definition timing_pattern :: rex where
  "timing_pattern = Alts
     (Seqs [Chr (CHR ''[''), Digits, Chr (CHR '':''), Digits, Chr (CHR '':''), Digits, Chr (CHR '']'')])
     [Seqs [Digits, Chr (CHR ''.''), Digits, LitI ''s''],
      Seqs [Digits, LitI '' second'', Opt (LitI ''s'')]]"

definition path_pattern :: rex where
  "path_pattern = Seqs
     [Alts (LitI ''models'') [LitI ''seeds'', LitI ''snapshots'', LitI ''tests'', LitI ''macros''],
      Chr (CHR ''/''), Plus (Cls (\<lambda>c. is_word c \<or> c \<in> {CHR ''/'', CHR ''.'', CHR ''-''})), Chr (CHR ''.''),
      Alts (LitI ''sql'') [LitI ''yml'', LitI ''yaml'']]"

definition stats_pattern :: rex where
  "stats_pattern = Seqs [Digits, Chr (CHR '' ''),
     Alts (LitI ''pass'') (map LitI [''passed'', ''fail'', ''failed'', ''error'', ''errors'', ''warn'', ''warnings'',
       ''skip'', ''skipped'', ''total''])]"

definition dbt_patterns :: "(rex \<times> string) list" where
  "dbt_patterns =
     [(success_pattern, ''text-[#038387] font-semibold''),
      (error_pattern, ''text-[#D32F2F] font-semibold''),
      (warning_pattern, ''text-[#B7791F] font-semibold''),
      (timing_pattern, ''text-[#A0A0A0]''),
      (path_pattern, ''text-[#0078D4]''),
      (stats_pattern, ''text-[#6B69D6]'')]"

record highlight =
  hl_start :: nat
  hl_end :: nat
  hl_className :: string
  hl_text :: string

fun collectHighlights :: "(rex \<times> string) list \<Rightarrow> string \<Rightarrow> highlight list option" where
  "collectHighlights [] s = Some []"
| "collectHighlights ((r, cls) # rest) s =
     (case execLoop r s 0 of
        None \<Rightarrow> None
      | Some ms \<Rightarrow>
          map_option (\<lambda>hs. map (\<lambda>(a, b, c). \<lparr>hl_start = a, hl_end = b, hl_className = cls, hl_text = slice s a b\<rparr>) ms @ hs)
            (collectHighlights rest s))"

text \<open>Sorted by where they start; one that overlaps an earlier one is left out.\<close>

definition overlaps :: "highlight \<Rightarrow> highlight \<Rightarrow> bool" where
  "overlaps h h' \<longleftrightarrow> hl_start h < hl_end h' \<and> hl_end h > hl_start h'"

definition filteredHighlights :: "highlight list \<Rightarrow> highlight list" where
  "filteredHighlights hs =
     foldl (\<lambda>kept h. if list_ex (overlaps h) kept then kept else kept @ [h]) [] (sort_key hl_start hs)"

fun paint :: "string \<Rightarrow> string \<Rightarrow> nat \<Rightarrow> highlight list \<Rightarrow> span list" where
  "paint s cls lastIdx [] = (if lastIdx < length s then [(drop lastIdx s, cls)] else [])"
| "paint s cls lastIdx (h # hs) =
     (if hl_start h > lastIdx then [(slice s lastIdx (hl_start h), cls)] else [])
     @ (hl_text h, hl_className h) # paint s cls (hl_end h) hs"

definition highlightSegment :: "span \<Rightarrow> span list option" where
  "highlightSegment seg =
     (case seg of (s, cls) \<Rightarrow>
        if startsWith s ''$ '' then Some [(s, ''text-[#038387] font-semibold'')]
        else if s = ''Running...'' then Some [(s, ''text-[#0078D4] animate-pulse'')]
        else case collectHighlights dbt_patterns s of
               None \<Rightarrow> None
             | Some hs \<Rightarrow>
                 let kept = filteredHighlights hs
                 in Some (if kept = [] then [(s, cls)] else paint s cls 0 kept))"

fun traverse :: "('a \<Rightarrow> 'b list option) \<Rightarrow> 'a list \<Rightarrow> 'b list option" where
  "traverse f [] = Some []"
| "traverse f (x # xs) =
     (case f x of None \<Rightarrow> None | Some ys \<Rightarrow> map_option (\<lambda>zs. ys @ zs) (traverse f xs))"

definition applyDbtHighlighting :: "string \<Rightarrow> span list option" where
  "applyDbtHighlighting s =
     (case parseAnsiCodes s of None \<Rightarrow> None | Some segs \<Rightarrow> traverse highlightSegment segs)"

subsection \<open>Lines\<close>

definition LOG_PREFIXES :: "(string \<times> string) list" where
  "LOG_PREFIXES =
     [(''[SUCCESS]'', ''text-[#038387]''), (''[COMPLETE]'', ''text-[#038387]''),
      (''[ERROR]'', ''text-[#D32F2F]''), (''[FAILED]'', ''text-[#D32F2F]''),
      (''[WARNING]'', ''text-[#B7791F]''), (''[INFO]'', ''text-[#0078D4]''),
      (''[RUNNING]'', ''text-[#0078D4]''), (''[GIT]'', ''text-[#6B69D6]''),
      (''[DBT]'', ''text-[#FF694B]''), (''[FILE]'', ''text-[#038387]''),
      (''[PACKAGE]'', ''text-[#616161]'')]"

definition prefixRegex :: "string \<Rightarrow> rex" where
  "prefixRegex tag = Seqs [AtStart, Lit tag, Star Space]"

text \<open>The colour of the line when it has a tag, and its spans.\<close>

definition renderLineWithIcons :: "string \<Rightarrow> (string option \<times> span list) option" where
  "renderLineWithIcons line =
     (case find (\<lambda>(tag, colour). rexTest (prefixRegex tag) line) LOG_PREFIXES of
        Some (tag, colour) \<Rightarrow>
          map_option (Pair (Some colour)) (applyDbtHighlighting (replaceOne (prefixRegex tag) (\<lambda>m c. '''') line))
      | None \<Rightarrow> map_option (Pair None) (applyDbtHighlighting line))"

subsection \<open>SQL\<close>

definition sql_keywords :: "string list" where
  "sql_keywords =
     [''SELECT'', ''FROM'', ''WHERE'', ''JOIN'', ''LEFT'', ''RIGHT'', ''INNER'', ''OUTER'', ''FULL'',
      ''ON'', ''AND'', ''OR'', ''NOT'', ''IN'', ''EXISTS'', ''BETWEEN'', ''LIKE'', ''IS'', ''NULL'',
      ''GROUP'', ''BY'', ''ORDER'', ''HAVING'', ''LIMIT'', ''OFFSET'', ''UNION'', ''ALL'',
      ''INSERT'', ''INTO'', ''VALUES'', ''UPDATE'', ''SET'', ''DELETE'', ''CREATE'', ''TABLE'',
      ''ALTER'', ''DROP'', ''INDEX'', ''VIEW'', ''AS'', ''DISTINCT'', ''CASE'', ''WHEN'', ''THEN'',
      ''ELSE'', ''END'', ''CAST'', ''COALESCE'', ''NULLIF'', ''WITH'', ''RECURSIVE'', ''CTE'',
      ''OVER'', ''PARTITION'', ''ROW_NUMBER'', ''RANK'', ''DENSE_RANK'', ''LAG'', ''LEAD'',
      ''ASC'', ''DESC'', ''NULLS'', ''FIRST'', ''LAST'', ''TRUE'', ''FALSE'', ''CROSS'', ''NATURAL'']"

text \<open>A quoted text: \<open>q(?:[^q\\]|\\.)*q\<close>.\<close>

definition quotedRegex :: "char \<Rightarrow> rex" where
  "quotedRegex q = Seqs [Chr q, Star (Alt (Cls (\<lambda>c. c \<noteq> q \<and> c \<noteq> CHR 0x5C)) (Seq (Chr (CHR 0x5C)) Dot)), Chr q]"

definition numberBody :: rex where
  "numberBody = Seqs [Digits, Opt (Chr (CHR ''.'')), Star Digit]"

definition tokenRegex :: rex where
  "tokenRegex = Group ''1'' (Alts (quotedRegex (CHR 0x27)) [quotedRegex (CHR 0x22),
     Seqs [Lit ''--'', Star Dot, AtEnd], Seqs [WordB, numberBody, WordB], Seqs [WordB, Plus WordCh, WordB],
     Cls (\<lambda>c. \<not> is_ws c)])"

definition tokenClass :: "string \<Rightarrow> string" where
  "tokenClass token =
     (if startsWith token ''--'' then ''text-[#616161] italic''
      else if startsWith token [CHR 0x27] \<or> startsWith token [CHR 0x22] then ''text-[#038387]''
      else if rexTest (Seqs [AtStart, numberBody, AtEnd]) token then ''text-[#6B69D6]''
      else if toUpperCase token \<in> set sql_keywords then ''text-[#0078D4] font-semibold''
      else '''')"

text \<open>Text between the tokens has no class; \<open>match[0]\<close> is the token.\<close>

fun tokenSpans :: "string \<Rightarrow> nat \<Rightarrow> match_result list \<Rightarrow> span list" where
  "tokenSpans line lastIndex [] = (if lastIndex < length line then [(drop lastIndex line, '''')] else [])"
| "tokenSpans line lastIndex ((a, b, c) # ms) =
     (if a > lastIndex then [(slice line lastIndex a, '''')] else [])
     @ (slice line a b, tokenClass (slice line a b)) # tokenSpans line (a + length (slice line a b)) ms"

definition highlightLine :: "string \<Rightarrow> span list option" where
  "highlightLine line =
     (case execLoop tokenRegex line 0 of
        None \<Rightarrow> None
      | Some ms \<Rightarrow> let tokens = tokenSpans line 0 ms in Some (if tokens = [] then [('' '', '''')] else tokens))"

definition highlightSQL :: "string \<Rightarrow> span list list option" where
  "highlightSQL sql = traverse (\<lambda>line. map_option (\<lambda>l. [l]) (highlightLine line)) (split_on (CHR 0x0A) sql)"

section \<open>Lemmas\<close>

subsection \<open>Colour codes\<close>

text \<open>What a line is without its colour codes.\<close>

definition withoutCodes :: "string \<Rightarrow> string" where
  "withoutCodes s = replaceAll ansiRegex (\<lambda>m c. '''') s"

lemma ansiParts_text:
  "ordered (length s) p ms \<Longrightarrow> concat (map fst (ansiParts s p classes ms)) = stitch (\<lambda>m c. '''') s p ms"
  by (induction "length s" p ms arbitrary: classes rule: ordered.induct) (auto simp: slice_def)

lemma ansiParts_nonempty: "ordered (length s) p ms \<Longrightarrow> (t, k) \<in> set (ansiParts s p classes ms) \<Longrightarrow> t \<noteq> ''''"
  by (induction "length s" p ms arbitrary: classes rule: ordered.induct) (auto simp: slice_def split: if_splits)

lemma parseAnsiCodes_text:
  obtains segs where "parseAnsiCodes s = Some segs"
    "concat (map fst segs) = (if withoutCodes s = '''' then s else withoutCodes s)"
proof -
  let ?ms = "matchAll ansiRegex s 0"
  let ?parts = "ansiParts s 0 [BASE_CLASS] ?ms"
  have "0 < minLength ansiRegex" by (simp add: ansiRegex_def Chr_def)
  then have loop: "execLoop ansiRegex s 0 = Some ?ms" and ord: "ordered (length s) 0 ?ms"
    using execLoop_ends [of ansiRegex 0 s] by simp_all
  have joined: "concat (map fst ?parts) = withoutCodes s"
    using ansiParts_text [OF ord] by (simp add: withoutCodes_def replaceAll_def)
  have "filter (\<lambda>(t, k). t \<noteq> '''') ?parts = ?parts"
    using ansiParts_nonempty [OF ord] by (intro filter_True) auto
  then have "parseAnsiCodes s =
      Some (if ?parts = [] then [(s, BASE_CLASS)] else map (\<lambda>(t, k). (t, join '' '' k)) ?parts)"
    by (simp add: parseAnsiCodes_def loop Let_def)
  moreover have "?parts = [] \<longleftrightarrow> withoutCodes s = ''''"
  proof
    assume "withoutCodes s = ''''"
    then have "fst x = ''''" if "x \<in> set ?parts" for x using that joined by auto
    then show "?parts = []"
      using ansiParts_nonempty [OF ord, of _ _ "[BASE_CLASS]"] by (metis list.set_intros(1) list.exhaust prod.collapse)
  qed (use joined in simp)
  moreover have "concat (map fst (map (\<lambda>(t, k). (t, join '' '' k)) ?parts)) = withoutCodes s"
    using joined by (simp add: comp_def case_prod_beta)
  ultimately show thesis by (intro that) auto
qed

subsection \<open>Highlights\<close>

definition highlight_ok :: "string \<Rightarrow> highlight \<Rightarrow> bool" where
  "highlight_ok s h \<longleftrightarrow> hl_start h < hl_end h \<and> hl_end h \<le> length s \<and> hl_text h = slice s (hl_start h) (hl_end h)"

lemma matchAll_nonempty:
  assumes "0 < minLength r" "(a, b, c) \<in> set (matchAll r s p)"
  shows "a < b \<and> b \<le> length s"
  using assms
proof (induction r s p rule: matchAll.induct)
  case (1 r s p)
  show ?case
  proof (cases "exec r s p")
    case (Some m)
    then obtain a' b' c' where m: "exec r s p = Some (a', b', c')" by (cases m) auto
    have "(a, b, c) = (a', b', c') \<or> (a, b, c) \<in> set (matchAll r s (max b' (Suc a')))"
      using "1.prems"(2) m by (simp add: matchAll.simps [of r s p] split: if_splits)
    then show ?thesis
      using exec_bounds [OF m] "1.IH" [OF m] "1.prems"(1) by auto
  qed (use "1.prems" in \<open>simp add: matchAll.simps [of r s p]\<close>)
qed

lemma collectHighlights_ok:
  assumes "list_all (\<lambda>(r, cls). 0 < minLength r) ps"
  shows "\<exists>hs. collectHighlights ps s = Some hs \<and> list_all (highlight_ok s) hs"
  using assms
proof (induction ps)
  case (Cons p ps)
  obtain r cls where p: "p = (r, cls)" by force
  obtain hs where hs: "collectHighlights ps s = Some hs" "list_all (highlight_ok s) hs"
    using Cons by auto
  have "0 < minLength r" using Cons.prems p by simp
  then have "execLoop r s 0 = Some (matchAll r s 0)" using execLoop_ends [of r 0 s] by simp
  moreover have "highlight_ok s \<lparr>hl_start = a, hl_end = b, hl_className = cls, hl_text = slice s a b\<rparr>"
    if "(a, b, c) \<in> set (matchAll r s 0)" for a b c
    using matchAll_nonempty [OF \<open>0 < minLength r\<close> that] by (simp add: highlight_ok_def)
  ultimately show ?case using hs p by (auto simp: list_all_iff)
qed simp

lemma kept_apart:
  assumes "sorted (map hl_start hs)" "list_all (highlight_ok s) (kept @ hs)"
    and "sorted_wrt (\<lambda>h h'. hl_end h \<le> hl_start h') kept"
    and "\<And>k h. k \<in> set kept \<Longrightarrow> h \<in> set hs \<Longrightarrow> hl_start k \<le> hl_start h"
  shows "let r = foldl (\<lambda>kept h. if list_ex (overlaps h) kept then kept else kept @ [h]) kept hs
    in list_all (highlight_ok s) r \<and> sorted_wrt (\<lambda>h h'. hl_end h \<le> hl_start h') r"
  using assms
proof (induction hs arbitrary: kept)
  case (Cons h hs)
  show ?case
  proof (cases "list_ex (overlaps h) kept")
    case True
    have "let r = foldl (\<lambda>kept h. if list_ex (overlaps h) kept then kept else kept @ [h]) kept hs
      in list_all (highlight_ok s) r \<and> sorted_wrt (\<lambda>h h'. hl_end h \<le> hl_start h') r"
      using Cons.prems by (intro Cons.IH) auto
    then show ?thesis using True by simp
  next
    case False
    have apart: "hl_end k \<le> hl_start h" if "k \<in> set kept" for k
    proof -
      have "hl_start k \<le> hl_start h" using Cons.prems(4) [OF that] by simp
      moreover have "hl_start h < hl_end h" using Cons.prems(2) by (simp add: highlight_ok_def)
      moreover have "\<not> overlaps h k" using False that by (auto simp: list_ex_iff)
      ultimately show ?thesis by (simp add: overlaps_def)
    qed
    have "let r = foldl (\<lambda>kept h. if list_ex (overlaps h) kept then kept else kept @ [h]) (kept @ [h]) hs
      in list_all (highlight_ok s) r \<and> sorted_wrt (\<lambda>h h'. hl_end h \<le> hl_start h') r"
    proof (rule Cons.IH)
      show "hl_start k \<le> hl_start h'" if "k \<in> set (kept @ [h])" "h' \<in> set hs" for k h'
        using that Cons.prems(1,4) by auto
    qed (use Cons.prems apart in \<open>auto simp: sorted_wrt_append\<close>)
    then show ?thesis using False by simp
  qed
qed simp

lemma filteredHighlights_ok:
  assumes "list_all (highlight_ok s) hs"
  shows "list_all (highlight_ok s) (filteredHighlights hs)"
    "sorted_wrt (\<lambda>h h'. hl_end h \<le> hl_start h') (filteredHighlights hs)"
proof -
  have "list_all (highlight_ok s) (sort_key hl_start hs)" using assms by (simp add: list_all_iff)
  from kept_apart [of "sort_key hl_start hs" s "[]"] this
  show "list_all (highlight_ok s) (filteredHighlights hs)"
    "sorted_wrt (\<lambda>h h'. hl_end h \<le> hl_start h') (filteredHighlights hs)"
    by (simp_all add: filteredHighlights_def Let_def)
qed

lemma paint_text:
  assumes "list_all (highlight_ok s) hs" "sorted_wrt (\<lambda>h h'. hl_end h \<le> hl_start h') hs"
    and "p \<le> length s" "\<And>h. h \<in> set hs \<Longrightarrow> p \<le> hl_start h"
  shows "concat (map fst (paint s cls p hs)) = drop p s"
  using assms
proof (induction hs arbitrary: p)
  case (Cons h hs)
  have h: "p \<le> hl_start h" "highlight_ok s h" using Cons.prems by simp_all
  then have "concat (map fst (paint s cls (hl_end h) hs)) = drop (hl_end h) s"
    using Cons.prems by (intro Cons.IH) (auto simp: highlight_ok_def)
  moreover have "slice s p (hl_start h) @ slice s (hl_start h) (hl_end h) @ drop (hl_end h) s = drop p s"
    using h by (simp add: highlight_ok_def)
  ultimately show ?case using h by (auto simp: highlight_ok_def slice_def)
qed auto

lemma dbt_patterns_consume: "list_all (\<lambda>(r, cls). 0 < minLength r) dbt_patterns"
  by code_simp

lemma highlightSegment_text:
  "\<exists>spans. highlightSegment seg = Some spans \<and> concat (map fst spans) = fst seg"
proof -
  obtain s cls where seg: "seg = (s, cls)" by force
  obtain hs where hs: "collectHighlights dbt_patterns s = Some hs" "list_all (highlight_ok s) hs"
    using collectHighlights_ok [OF dbt_patterns_consume] by blast
  show ?thesis
    using hs(1) filteredHighlights_ok [OF hs(2)] paint_text [of s "filteredHighlights hs" 0 cls]
    by (auto simp: highlightSegment_def seg Let_def)
qed

lemma traverse_text:
  assumes "\<And>x. x \<in> set xs \<Longrightarrow> \<exists>ys. f x = Some ys \<and> concat (map fst ys) = t x"
  shows "\<exists>zs. traverse f xs = Some zs \<and> concat (map fst zs) = concat (map t xs)"
  using assms
proof (induction xs)
  case (Cons x xs)
  obtain ys zs where "f x = Some ys" "concat (map fst ys) = t x"
    "traverse f xs = Some zs" "concat (map fst zs) = concat (map t xs)"
    using Cons by (metis list.set_intros)
  then show ?case by simp
qed simp

lemma applyDbtHighlighting_text:
  "\<exists>spans. applyDbtHighlighting s = Some spans \<and>
     concat (map fst spans) = (if withoutCodes s = '''' then s else withoutCodes s)"
proof -
  obtain segs where segs: "parseAnsiCodes s = Some segs"
    "concat (map fst segs) = (if withoutCodes s = '''' then s else withoutCodes s)"
    by (rule parseAnsiCodes_text)
  then show ?thesis
    using traverse_text [of segs highlightSegment fst] highlightSegment_text
    by (simp add: applyDbtHighlighting_def)
qed

subsection \<open>Lines\<close>

text \<open>What is left of a line when its tag is taken away.\<close>

definition lineBody :: "string \<Rightarrow> string" where
  "lineBody line =
     (case find (\<lambda>(tag, colour). startsWith line tag) LOG_PREFIXES of
        Some (tag, colour) \<Rightarrow> dropWhile is_ws (drop (length tag) line)
      | None \<Rightarrow> line)"

lemma matchAt_prefixRegex:
  "matchAt (prefixRegex tag) line 0 =
     (if startsWith line tag then Some (length tag + length (takeWhile is_ws (drop (length tag) line)), []) else None)"
proof (cases "startsWith line tag")
  case True
  then have "tries (Star (Cls is_ws)) line (length tag, []) =
      map (\<lambda>q. (q, [])) (rev [length tag..<Suc (length tag + length (takeWhile is_ws (drop (length tag) line)))])"
    by (intro tries_Star_Cls) (simp add: prefix_length_le)
  then show ?thesis
    using True tries_Lit [of 0 line tag "[]"] by (simp add: matchAt_def prefixRegex_def Space_def)
next
  case False
  then show ?thesis using tries_Lit [of 0 line tag "[]"] by (simp add: matchAt_def prefixRegex_def)
qed

lemma exec_prefixRegex:
  "exec (prefixRegex tag) line 0 =
     (if startsWith line tag
      then Some (0, length tag + length (takeWhile is_ws (drop (length tag) line)), []) else None)"
  using matchAt_prefixRegex [of tag line] exec_anchored_0 [of "[Lit tag, Star Space]" line]
  by (simp add: prefixRegex_def)

lemma replaceOne_prefixRegex:
  "startsWith line tag \<Longrightarrow> replaceOne (prefixRegex tag) (\<lambda>m c. '''') line = dropWhile is_ws (drop (length tag) line)"
  by (simp add: replaceOne_def exec_prefixRegex slice_def dropWhile_eq_drop add.commute)

lemma find_tag:
  "find (\<lambda>(tag, colour). rexTest (prefixRegex tag) line) tags = find (\<lambda>(tag, colour). startsWith line tag) tags"
  by (rule find_cong) (auto simp: rexTest_def exec_prefixRegex split: if_splits)

subsection \<open>SQL\<close>

lemma tokenRegex_consumes: "0 < minLength tokenRegex"
  by code_simp

lemma tokenSpans_text:
  "ordered (length s) p ms \<Longrightarrow> concat (map fst (tokenSpans s p ms)) = drop p s"
  by (induction "length s" p ms rule: ordered.induct) auto

lemma highlightLine_text:
  "\<exists>spans. highlightLine line = Some spans \<and> concat (map fst spans) = (if line = '''' then '' '' else line)"
proof -
  have loop: "execLoop tokenRegex line 0 = Some (matchAll tokenRegex line 0)"
    and ord: "ordered (length line) 0 (matchAll tokenRegex line 0)"
    using execLoop_ends [OF tokenRegex_consumes, of 0 line] by simp_all
  have "concat (map fst (tokenSpans line 0 (matchAll tokenRegex line 0))) = line"
    using tokenSpans_text [OF ord] by simp
  moreover have "tokenSpans line 0 (matchAll tokenRegex line 0) = []" if "line = ''''"
  proof -
    have "exec tokenRegex line 0 = None"
      using exec_bounds [of tokenRegex line 0] tokenRegex_consumes that
      by (cases "exec tokenRegex line 0") fastforce+
    then show ?thesis using that by (simp add: matchAll.simps [of tokenRegex "''''" 0])
  qed
  ultimately show ?thesis by (auto simp: highlightLine_def loop Let_def)
qed

section \<open>Properties\<close>


text \<open>
  The view of the compiled SQL shows every line of the text, token by token, an empty one as a space.
\<close>

lemma compiled_sql_shown:
  "\<exists>rendered. highlightSQL sql = Some rendered \<and>
     map (\<lambda>l. concat (map fst l)) rendered = map (\<lambda>line. if line = '''' then '' '' else line) (split_on (CHR 0x0A) sql)"
proof -
  have "\<exists>rendered. traverse (\<lambda>line. map_option (\<lambda>l. [l]) (highlightLine line)) ls = Some rendered \<and>
     map (\<lambda>l. concat (map fst l)) rendered = map (\<lambda>line. if line = '''' then '' '' else line) ls" for ls
  proof (induction ls)
    case (Cons line ls)
    then show ?case using highlightLine_text [of line] by auto
  qed simp
  then show ?thesis by (simp add: highlightSQL_def)
qed

text \<open>A line that only resets the colour is shown as the escape code.\<close>

lemma bare_code_shown:
  "\<exists>spans. renderLineWithIcons (CHR 0x1B # ''[0m'') = Some (None, spans) \<and>
     concat (map fst spans) = CHR 0x1B # ''[0m''"
proof -
  have "withoutCodes (CHR 0x1B # ''[0m'') = ''''"
    by (simp add: withoutCodes_def replaceAll_def matchAll.simps exec.simps matchAt_def ansiRegex_def Plus_def
        Chr_def tries.simps(5) is_digit_def slice_def)
  moreover have "find (\<lambda>(tag, colour). startsWith (CHR 0x1B # ''[0m'') tag) LOG_PREFIXES = None"
    by code_simp
  ultimately show ?thesis
    using applyDbtHighlighting_text [of "CHR 0x1B # ''[0m''"] by (auto simp: renderLineWithIcons_def find_tag)
qed

end
