(* ===== verification/Run_Logs.thy ===== *)
theory Run_Logs
  imports Js_Exec Js_Json
begin

text \<open>
  Logs and results of a dbt run as the run page shows them: the lines of a log
  (\<open>entities/run/model/dbt-run-logs.ts\<close>), the console that filters them
  (\<open>features/orchestrate/components/RunLogConsole.tsx\<close>), the nodes of a run
  (\<open>features/orchestrate/components/RunDetail.tsx\<close>) and the labels of a run
  (\<open>entities/run/model/formatters.ts\<close>). \<open>parse\<close> stands for \<open>JSON.parse\<close>, \<open>None\<close> when it throws, and
  \<open>fixed ms d\<close> for \<open>(ms / 1000).toFixed(d)\<close>; durations are whole milliseconds.
\<close>

section \<open>Definitions\<close>

subsection \<open>Log lines\<close>

datatype DbtLogLevel = Debug | Info | Warn | Error | Success | Unknown

record DbtLogEntry =
  le_lineNumber :: nat
  le_timestamp :: "int json option"
  le_level :: DbtLogLevel
  le_message :: string
  le_raw :: string
  le_code :: "int json option"
  le_eventName :: "int json option"
  le_thread :: "int json option"
  le_invocationId :: "int json option"

abbreviation codeIn :: "nat \<Rightarrow> nat \<Rightarrow> char \<Rightarrow> bool" where
  "codeIn a b c \<equiv> a \<le> code c \<and> code c \<le> b"

definition ANSI_ESCAPE :: rex where
  "ANSI_ESCAPE = Seq (Chr (CHR 0x1B)) (Alt
     (Seqs [Chr (CHR ''[''), Star (Cls (codeIn 48 63)), Star (Cls (codeIn 32 47)), Cls (codeIn 64 126)])
     (Seqs [Chr (CHR '']''), Star (Cls (\<lambda>c. c \<noteq> CHR 0x07)),
        Alt (Chr (CHR 0x07)) (Seq (Chr (CHR 0x1B)) (Chr (CHR 0x5C)))]))"

definition clock :: rex where
  "clock = Seqs [Digit, Digit, Chr (CHR '':''), Digit, Digit, Chr (CHR '':''), Digit, Digit,
     Opt (Seq (Chr (CHR ''.'')) (Plus Digit))]"

text \<open>The two optional parts of a text line, \<open>[level] \<close> and \<open>[thread]: \<close>.\<close>

definition level_part :: rex where
  "level_part = Seqs [Chr (CHR ''[''),
     Group ''level'' (Alts (LitI ''debug'') (map LitI [''info'', ''warn'', ''warning'', ''error''])),
     Star Space, Chr (CHR '']''), Star Space]"

definition thread_part :: rex where
  "thread_part = Seqs [Chr (CHR ''[''), Group ''thread'' (Plus (Cls (\<lambda>c. c \<noteq> CHR '']''))), Lit '']:'', Star Space]"

definition TEXT_LOG_PREFIX :: rex where
  "TEXT_LOG_PREFIX = Seqs [AtStart, Group ''timestamp'' clock, Plus Space, Opt level_part, Opt thread_part,
     Group ''message'' (Star Dot), AtEnd]"

definition ISO_LOG_PREFIX :: rex where
  "ISO_LOG_PREFIX = Seqs [AtStart,
     Group ''timestamp'' (Seqs [Rep 4 Digit, Chr (CHR ''-''), Rep 2 Digit, Chr (CHR ''-''), Rep 2 Digit, LitI ''T'',
       clock, Opt (LitI ''Z'')]),
     Plus Space, Group ''message'' (Star Dot), AtEnd]"

definition stripAnsi :: "string \<Rightarrow> string" where
  "stripAnsi v = replaceAll ANSI_ESCAPE (\<lambda>m c. '''') v"

definition isZero :: "int \<Rightarrow> bool" where
  "isZero n \<longleftrightarrow> n = 0"

abbreviation truthyJson :: "int json option \<Rightarrow> bool" where
  "truthyJson \<equiv> json_truthy isZero"

text \<open>\<open>a || b\<close> and \<open>a || null\<close> on parsed values.\<close>

definition orJson :: "int json option \<Rightarrow> int json option \<Rightarrow> int json option" where
  "orJson a b = (if truthyJson a then a else b)"

definition normalizeLevel :: "int json option \<Rightarrow> DbtLogLevel" where
  "normalizeLevel v =
     (let level = toLowerCase (if truthyJson v then js_String (the v) else '''')
      in if level = ''warning'' then Warn
         else if level = ''debug'' then Debug
         else if level = ''info'' then Info
         else if level = ''warn'' then Warn
         else if level = ''error'' then Error
         else if level = ''success'' then Success
         else Unknown)"

definition words :: "rex \<Rightarrow> rex list \<Rightarrow> rex" where
  "words r rs = Seqs [WordB, Group ''1'' (Alts r rs), WordB]"

definition error_words :: rex where
  "error_words = words (Lit ''error'') (map Lit [''failed'', ''failure'', ''fatal'', ''exception'', ''traceback''])"

definition warn_words :: rex where
  "warn_words = words (Lit ''warn'') (map Lit [''warning'', ''deprecated''])"

definition success_words :: rex where
  "success_words = words (Lit ''ok created'')
     [Seq (Lit ''pass'') (Opt (Lit ''ed'')), Seq (Lit ''success'') (Opt (Lit ''ful'')), Lit ''completed successfully'']"

definition debug_words :: rex where
  "debug_words = words (Lit ''debug'') (map Lit [''partial parsing'', ''cache event''])"

definition inferTextLevel :: "string \<Rightarrow> DbtLogLevel" where
  "inferTextLevel message =
     (let v = toLowerCase message
      in if rexTest error_words v then Error
         else if rexTest warn_words v then Warn
         else if rexTest success_words v then Success
         else if rexTest debug_words v then Debug
         else if trim v \<noteq> '''' then Info
         else Unknown)"

text \<open>\<open>j?.k\<close>, undefined for what is no object or has no such property.\<close>

definition field :: "'n json option \<Rightarrow> string \<Rightarrow> 'n json option" where
  "field j k = (case j of Some (JObj kvs) \<Rightarrow> map_of kvs k | _ \<Rightarrow> None)"

definition parseJsonLog :: "(string \<Rightarrow> int json option) \<Rightarrow> string \<Rightarrow> nat \<Rightarrow> DbtLogEntry option" where
  "parseJsonLog parse raw lineNumber =
     (if \<not> startsWith (trimStart raw) ''{'' then None
      else case parse raw of
             None \<Rightarrow> None
           | Some JNull \<Rightarrow> None
           | Some parsed \<Rightarrow>
               let p = Some parsed;
                   info = field p ''info'';
                   message = orJson (field info ''msg'') (orJson (field p ''message'')
                     (orJson (field p ''msg'') (field (field p ''data'') ''msg'')))
               in if \<not> truthyJson message then None
                  else Some
                    \<lparr>le_lineNumber = lineNumber,
                     le_timestamp = orJson (field info ''ts'') (orJson (field p ''timestamp'') None),
                     le_level = normalizeLevel (orJson (field info ''level'') (field p ''level'')),
                     le_message = js_String (the message),
                     le_raw = raw,
                     le_code = orJson (field info ''code'') None,
                     le_eventName = orJson (field info ''name'') None,
                     le_thread = orJson (field info ''thread'') None,
                     le_invocationId = orJson (field info ''invocation_id'') None\<rparr>)"

text \<open>\<open>/\r$/\<close>.\<close>

definition withoutCr :: "string \<Rightarrow> string" where
  "withoutCr v = replaceOne (Seq (Chr (CHR 0x0D)) AtEnd) (\<lambda>m c. '''') v"

definition parseDbtLogLine :: "(string \<Rightarrow> int json option) \<Rightarrow> string \<Rightarrow> nat \<Rightarrow> DbtLogEntry" where
  "parseDbtLogLine parse v lineNumber =
     (let raw = withoutCr (stripAnsi v);
          plain = \<lparr>le_lineNumber = lineNumber, le_timestamp = None, le_level = inferTextLevel raw, le_message = raw,
            le_raw = raw, le_code = None, le_eventName = None, le_thread = None, le_invocationId = None\<rparr>
      in case parseJsonLog parse raw lineNumber of
           Some jsonEntry \<Rightarrow> jsonEntry
         | None \<Rightarrow>
             (case exec TEXT_LOG_PREFIX raw 0 of
                Some (a, b, c) \<Rightarrow>
                  let message = or_str (nullish (group c ''message'') '''') raw;
                      explicitLevel = normalizeLevel (map_option JStr (group c ''level''))
                  in plain\<lparr>le_timestamp := orJson (map_option JStr (group c ''timestamp'')) None,
                           le_level := (if explicitLevel = Unknown then inferTextLevel message else explicitLevel),
                           le_message := message,
                           le_thread := orJson (map_option JStr (group c ''thread'')) None\<rparr>
              | None \<Rightarrow>
                  (case exec ISO_LOG_PREFIX raw 0 of
                     Some (a, b, c) \<Rightarrow>
                       let message = or_str (nullish (group c ''message'') '''') raw
                       in plain\<lparr>le_timestamp := orJson (map_option JStr (group c ''timestamp'')) None,
                                le_level := inferTextLevel message,
                                le_message := message\<rparr>
                   | None \<Rightarrow> plain)))"

definition parseDbtLogs :: "(string \<Rightarrow> int json option) \<Rightarrow> string option \<Rightarrow> DbtLogEntry list" where
  "parseDbtLogs parse v =
     (if \<not> truthy v then []
      else map (\<lambda>(index, line). parseDbtLogLine parse line (index + 1)) (enumerate 0 (split_lines (the v))))"

definition filterDbtLogEntries :: "DbtLogEntry list \<Rightarrow> string \<Rightarrow> DbtLogLevel set \<Rightarrow> DbtLogEntry list" where
  "filterDbtLogEntries entries query enabledLevels =
     (let normalizedQuery = toLowerCase (trim query)
      in filter (\<lambda>entry.
           if le_level entry \<notin> enabledLevels then False
           else if normalizedQuery = '''' then True
           else list_ex (\<lambda>v. includesStr (toLowerCase (js_String v)) normalizedQuery)
                  (map the (filter truthyJson
                    [Some (JStr (le_message entry)), le_code entry, le_eventName entry, le_thread entry,
                     le_invocationId entry]))) entries)"

subsection \<open>The console\<close>

definition MAX_RENDERED_LINES :: nat where
  "MAX_RENDERED_LINES = 2000"

definition visibleEntries :: "bool \<Rightarrow> DbtLogEntry list \<Rightarrow> DbtLogEntry list" where
  "visibleEntries follow filtered =
     (if length filtered \<le> MAX_RENDERED_LINES then filtered
      else if follow then drop (length filtered - MAX_RENDERED_LINES) filtered
      else take MAX_RENDERED_LINES filtered)"

definition levelCounts :: "DbtLogEntry list \<Rightarrow> DbtLogLevel \<Rightarrow> nat" where
  "levelCounts entries = fold (\<lambda>entry counts. counts(le_level entry := counts (le_level entry) + 1)) entries (\<lambda>_. 0)"

definition toggleLevel :: "DbtLogLevel \<Rightarrow> DbtLogLevel set \<Rightarrow> DbtLogLevel set" where
  "toggleLevel level current = (if level \<in> current then current - {level} else insert level current)"

subsection \<open>Results of a run\<close>

definition asString :: "'n json option \<Rightarrow> string option" where
  "asString v = (case v of Some (JStr s) \<Rightarrow> or_null s | _ \<Rightarrow> None)"

definition asNumber :: "('n \<Rightarrow> bool) \<Rightarrow> 'n json option \<Rightarrow> 'n option" where
  "asNumber isFinite v = (case v of Some (JNum n) \<Rightarrow> if isFinite n then Some n else None | _ \<Rightarrow> None)"

definition asBoolean :: "'n json option \<Rightarrow> bool option" where
  "asBoolean v = (case v of Some (JBool b) \<Rightarrow> Some b | _ \<Rightarrow> None)"

record 'n DbtInvocationMetadata =
  im_invocationId :: "string option"
  im_dbtVersion :: "string option"
  im_generatedAt :: "string option"
  im_schemaVersion :: "string option"
  im_elapsedTime :: "'n option"
  im_command :: "string option"
  im_target :: "string option"
  im_threads :: "'n option"
  im_failFast :: "bool option"
  im_fullRefresh :: "bool option"

definition getDbtInvocationMetadata :: "('n \<Rightarrow> bool) \<Rightarrow> 'n json option \<Rightarrow> 'n DbtInvocationMetadata" where
  "getDbtInvocationMetadata isFinite v =
     (let metadata = field v ''metadata''; args = field v ''args''
      in \<lparr>im_invocationId = asString (field metadata ''invocation_id''),
          im_dbtVersion = asString (field metadata ''dbt_version''),
          im_generatedAt = asString (field metadata ''generated_at''),
          im_schemaVersion = asString (field metadata ''dbt_schema_version''),
          im_elapsedTime = asNumber isFinite (field v ''elapsed_time''),
          im_command = (case asString (field args ''which'') of
             Some w \<Rightarrow> Some w | None \<Rightarrow> asString (field args ''invocation_command'')),
          im_target = asString (field args ''target''),
          im_threads = asNumber isFinite (field args ''threads''),
          im_failFast = asBoolean (field args ''fail_fast''),
          im_fullRefresh = asBoolean (field args ''full_refresh'')\<rparr>)"

text \<open>\<open>entry && typeof entry === 'object'\<close>.\<close>

definition isObject :: "'n json \<Rightarrow> bool" where
  "isObject j = (case j of JObj _ \<Rightarrow> True | JArr _ \<Rightarrow> True | _ \<Rightarrow> False)"

definition getDbtNodeResults :: "'n json option \<Rightarrow> 'n json list" where
  "getDbtNodeResults v = (case field v ''results'' of Some (JArr entries) \<Rightarrow> filter isObject entries | _ \<Rightarrow> [])"

text \<open>Dates in milliseconds, \<open>None\<close> for what \<open>Date\<close> cannot read.\<close>

definition timingDurationMs :: "(string \<Rightarrow> int option) \<Rightarrow> string option \<Rightarrow> string option \<Rightarrow> int option" where
  "timingDurationMs getTime started_at completed_at =
     (if \<not> truthy started_at \<or> \<not> truthy completed_at then None
      else case (getTime (the started_at), getTime (the completed_at)) of
             (Some startedAt, Some completedAt) \<Rightarrow> Some (max 0 (completedAt - startedAt))
           | _ \<Rightarrow> None)"

subsection \<open>Nodes\<close>

record 'n DbtRunArtifact =
  ar_uniqueId :: string
  ar_status :: "string option"
  ar_executionTime :: "'n option"
  ar_error :: "string option"
  ar_timing :: "'n json option"
  ar_compiledCode :: "string option"

record 'n NodeView =
  nv_uniqueId :: string
  nv_status :: string
  nv_executionTime :: "'n option"
  nv_threadId :: "string option"
  nv_message :: "string option"
  nv_error :: "string option"
  nv_failures :: "'n option"
  nv_adapterResponse :: "'n json option"
  nv_timing :: "'n json list"
  nv_compiledCode :: "string option"
  nv_relationName :: "string option"

text \<open>A property of a node result that has to be a text when it is there.\<close>

definition textField :: "'n json \<Rightarrow> string \<Rightarrow> string option" where
  "textField node k = asString (field (Some node) k)"

definition orOption :: "'a option \<Rightarrow> 'a option \<Rightarrow> 'a option" where
  "orOption a b = (case a of None \<Rightarrow> b | Some v \<Rightarrow> Some v)"

definition artifactTiming :: "'n json option \<Rightarrow> 'n json list" where
  "artifactTiming v = (case v of Some (JArr entries) \<Rightarrow> filter isObject entries | _ \<Rightarrow> [])"

definition mergeNodeResult :: "'n json \<Rightarrow> 'n DbtRunArtifact option \<Rightarrow> 'n NodeView" where
  "mergeNodeResult node artifact =
     \<lparr>nv_uniqueId = nullish (orOption (textField node ''unique_id'')
        (Option.bind artifact (\<lambda>a. or_null (ar_uniqueId a)))) ''unknown'',
      nv_status = nullish (orOption (textField node ''status'')
        (Option.bind artifact (\<lambda>a. Option.bind (ar_status a) or_null))) ''unknown'',
      nv_executionTime = (case field (Some node) ''execution_time'' of
         Some (JNum n) \<Rightarrow> Some n | _ \<Rightarrow> Option.bind artifact ar_executionTime),
      nv_threadId = textField node ''thread_id'',
      nv_message = textField node ''message'',
      nv_error = Option.bind artifact (\<lambda>a. Option.bind (ar_error a) or_null),
      nv_failures = (case field (Some node) ''failures'' of Some (JNum n) \<Rightarrow> Some n | _ \<Rightarrow> None),
      nv_adapterResponse = (case field (Some node) ''adapter_response'' of
         Some r \<Rightarrow> if isObject r then Some r else None | None \<Rightarrow> None),
      nv_timing = (case field (Some node) ''timing'' of
         Some (JArr t) \<Rightarrow> t | _ \<Rightarrow> artifactTiming (Option.bind artifact ar_timing)),
      nv_compiledCode = orOption (textField node ''compiled_code'')
        (Option.bind artifact (\<lambda>a. Option.bind (ar_compiledCode a) or_null)),
      nv_relationName = textField node ''relation_name''\<rparr>"

definition buildNodes :: "'n DbtRunArtifact list \<Rightarrow> 'n json option \<Rightarrow> 'n NodeView list" where
  "buildNodes artifacts results =
     (let artifactsById = map_of (rev (map (\<lambda>a. (ar_uniqueId a, a)) artifacts));
          rawNodes = getDbtNodeResults results
      in if rawNodes \<noteq> []
         then map (\<lambda>node. mergeNodeResult node (artifactsById (nullish (textField node ''unique_id'') ''''))) rawNodes
         else map (\<lambda>a. mergeNodeResult (JObj []) (Some a)) artifacts)"

subsection \<open>Labels\<close>

definition getCommandName :: "string \<Rightarrow> string" where
  "getCommandName command =
     (if command = ''source_freshness'' then ''source freshness''
      else if command = ''run_operation'' then ''run-operation'' else command)"

definition COMMAND_LABELS :: "(string \<times> string) list" where
  "COMMAND_LABELS =
     [(''run'', ''dbt run''), (''build'', ''dbt build''), (''test'', ''dbt test''), (''compile'', ''dbt compile''),
      (''docs'', ''dbt docs generate''), (''deps'', ''dbt deps''), (''clean'', ''dbt clean''), (''seed'', ''dbt seed''),
      (''snapshot'', ''dbt snapshot''), (''source_freshness'', ''dbt source freshness''), (''parse'', ''dbt parse''),
      (''ls'', ''dbt ls''), (''debug'', ''dbt debug''), (''run_operation'', ''dbt run-operation''),
      (''retry'', ''dbt retry''), (''clone'', ''dbt clone'')]"

definition formatCommandLabel :: "string \<Rightarrow> string" where
  "formatCommandLabel command = nullish (map_of COMMAND_LABELS command) (''dbt '' @ getCommandName command)"

text \<open>\<open>Math.round\<close> of a quotient of natural numbers; a missing duration is shown as a dash.\<close>

definition roundDiv :: "nat \<Rightarrow> nat \<Rightarrow> nat" where
  "roundDiv a b = (2 * a + b) div (2 * b)"

definition formatDuration :: "(nat \<Rightarrow> nat \<Rightarrow> string) \<Rightarrow> nat option \<Rightarrow> string option" where
  "formatDuration fixed d =
     (case d of
        None \<Rightarrow> None
      | Some ms \<Rightarrow>
          Some (if ms < 1000 then show_nat ms @ ''ms''
                else if ms < 60000 then fixed ms (if ms < 10000 then 2 else 1) @ ''s''
                else
                  let hours = ms div 3600000;
                      minutes = (ms mod 3600000) div 60000;
                      seconds = roundDiv (ms mod 60000) 1000
                  in if hours > 0
                     then show_nat hours @ ''h '' @ show_nat minutes @ ''m '' @ show_nat seconds @ ''s''
                     else show_nat minutes @ ''m '' @ show_nat seconds @ ''s''))"

definition shortHash :: "string option \<Rightarrow> string option" where
  "shortHash v = (if truthy v then Some (take 7 (the v)) else None)"

definition getFullCommand :: "string \<Rightarrow> string option \<Rightarrow> string" where
  "getFullCommand command selector =
     ''dbt '' @ getCommandName command @ (if truthy selector then '' --select '' @ the selector else '''')"

definition formatRunTarget :: "string option \<Rightarrow> string" where
  "formatRunTarget target =
     (if \<not> truthy target \<or> trim (the target) = '''' then ''dev'' else trim (the target))"

section \<open>Lemmas\<close>

subsection \<open>Escape sequences\<close>

lemma ANSI_ESCAPE_consumes: "0 < minLength ANSI_ESCAPE"
  by (simp add: ANSI_ESCAPE_def Chr_def)

lemma no_escape: "ahead s p (x # w) \<Longrightarrow> x \<noteq> CHR 0x1B \<Longrightarrow> matchAt ANSI_ESCAPE s p = None"
  using ahead_Cons [of s p x w] by (simp add: matchAt_def ANSI_ESCAPE_def Chr_def)

text \<open>A colour code or any other control sequence of a terminal, and an operating system command that ends with a bell.\<close>

definition csi :: "string \<Rightarrow> string \<Rightarrow> char \<Rightarrow> string" where
  "csi params mids final = CHR 0x1B # CHR ''['' # params @ mids @ [final]"

definition csi_ok :: "string \<Rightarrow> string \<Rightarrow> char \<Rightarrow> bool" where
  "csi_ok params mids final \<longleftrightarrow>
     list_all (codeIn 48 63) params \<and> list_all (codeIn 32 47) mids \<and> codeIn 64 126 final"

definition osc :: "string \<Rightarrow> string" where
  "osc body = CHR 0x1B # CHR '']'' # body @ [CHR 0x07]"

lemma matchAt_csi:
  assumes "ahead s p (csi params mids final @ w)" "csi_ok params mids final"
  shows "matchAt ANSI_ESCAPE s p = Some (p + length (csi params mids final), [])"
proof (rule takes_matchAt)
  let ?p = "Suc (Suc p)"
  have esc: "ahead s p (CHR 0x1B # CHR ''['' # params @ mids @ [final] @ w)"
    using assms(1) by (simp add: csi_def)
  then have br: "ahead s (Suc p) (CHR ''['' # params @ mids @ [final] @ w)" by (blast dest: ahead_Cons)
  then have pa: "ahead s ?p (params @ mids @ [final] @ w)" by (blast dest: ahead_Cons)
  then have int: "ahead s (?p + length params) (mids @ [final] @ w)" by (rule ahead_skip)
  then have fin: "ahead s (?p + length params + length mids) (final # w)" using ahead_skip by fastforce
  have parts: "list_all (codeIn 48 63) params" "list_all (codeIn 32 47) mids" "codeIn 64 126 final"
    using assms(2) by (simp_all add: csi_ok_def)
  have "takes (Star (Cls (codeIn 48 63))) s (?p, []) (?p + length params, [])"
  proof (rule takes_Star [OF pa parts(1)], rule disjI2)
    have "codeIn 32 47 (hd mids)" if "mids \<noteq> ''''" using that parts(2) by (cases mids) auto
    then show "\<not> codeIn 48 63 (hd (mids @ [final] @ w))" using parts(3) by (cases mids) auto
  qed
  moreover have "takes (Star (Cls (codeIn 32 47))) s (?p + length params, []) (?p + length params + length mids, [])"
    using int parts by (intro takes_Star) auto
  moreover have "takes (Cls (codeIn 64 126)) s (?p + length params + length mids, [])
      (Suc (?p + length params + length mids), [])"
    using fin parts by (intro takes_Cls) auto
  moreover have "takes (Chr (CHR 0x1B)) s (p, []) (Suc p, [])" "takes (Chr (CHR ''['')) s (Suc p, []) (?p, [])"
    using esc br by (auto simp: Chr_def intro: takes_Cls)
  ultimately have "takes ANSI_ESCAPE s (p, []) (Suc (?p + length params + length mids), [])"
    unfolding ANSI_ESCAPE_def Seqs.simps by - (rule takes_Eps takes_Seq takes_Alt1 | assumption)+
  then show "takes ANSI_ESCAPE s (p, []) (p + length (csi params mids final), [])"
    by (simp add: csi_def add.commute add.left_commute)
qed

lemma matchAt_osc:
  assumes "ahead s p (osc body @ w)" "CHR 0x07 \<notin> set body"
  shows "matchAt ANSI_ESCAPE s p = Some (p + length (osc body), [])"
proof (rule takes_matchAt)
  let ?p = "Suc (Suc p)"
  have esc: "ahead s p (CHR 0x1B # CHR '']'' # body @ CHR 0x07 # w)" using assms(1) by (simp add: osc_def)
  then have br: "ahead s (Suc p) (CHR '']'' # body @ CHR 0x07 # w)" by (blast dest: ahead_Cons)
  then have bo: "ahead s ?p (body @ CHR 0x07 # w)" by (blast dest: ahead_Cons)
  then have bell: "ahead s (?p + length body) (CHR 0x07 # w)" by (rule ahead_skip)
  have "list_all (\<lambda>c. c \<noteq> CHR 0x07) body" using assms(2) by (auto simp: list_all_iff)
  then have "takes (Star (Cls (\<lambda>c. c \<noteq> CHR 0x07))) s (?p, []) (?p + length body, [])"
    using bo by (intro takes_Star) auto
  moreover have "takes (Chr (CHR 0x07)) s (?p + length body, []) (Suc (?p + length body), [])"
    using bell by (auto simp: Chr_def intro: takes_Cls)
  moreover have first: "takes (Chr (CHR 0x1B)) s (p, []) (Suc p, [])"
    and "takes (Chr (CHR '']'')) s (Suc p, []) (?p, [])"
    using esc br by (auto simp: Chr_def intro: takes_Cls)
  ultimately have second: "takes (Seqs [Chr (CHR '']''), Star (Cls (\<lambda>c. c \<noteq> CHR 0x07)),
      Alt (Chr (CHR 0x07)) (Seq (Chr (CHR 0x1B)) (Chr (CHR 0x5C)))]) s (Suc p, []) (Suc (?p + length body), [])"
    unfolding Seqs.simps by - (rule takes_Eps takes_Seq takes_Alt1 | assumption)+
  have "tries (Seqs [Chr (CHR ''[''), Star (Cls (codeIn 48 63)), Star (Cls (codeIn 32 47)),
      Cls (codeIn 64 126)]) s (Suc p, []) = []"
    using ahead_Cons [OF br] by (simp add: Chr_def)
  then have "takes ANSI_ESCAPE s (p, []) (Suc (?p + length body), [])"
    unfolding ANSI_ESCAPE_def using first second by (intro takes_Seq [OF first] takes_Alt2)
  then show "takes ANSI_ESCAPE s (p, []) (p + length (osc body), [])"
    by (simp add: osc_def add.commute add.left_commute)
qed

text \<open>A line as a terminal program writes it: text without escapes, and sequences between.\<close>

datatype piece = Text string | Csi string string char | Osc string

fun render :: "piece \<Rightarrow> string" where
  "render (Text t) = t"
| "render (Csi params mids final) = csi params mids final"
| "render (Osc body) = osc body"

fun plain_of :: "piece \<Rightarrow> string" where
  "plain_of (Text t) = t"
| "plain_of _ = ''''"

fun piece_ok :: "piece \<Rightarrow> bool" where
  "piece_ok (Text t) \<longleftrightarrow> CHR 0x1B \<notin> set t"
| "piece_ok (Csi params mids final) \<longleftrightarrow> csi_ok params mids final"
| "piece_ok (Osc body) \<longleftrightarrow> CHR 0x07 \<notin> set body"

lemma strip_from:
  assumes "ahead s p (concat (map render ps))" "list_all piece_ok ps"
  shows "replaceFrom ANSI_ESCAPE (\<lambda>m c. '''') s p = concat (map plain_of ps)"
  using assms
proof (induction ps arbitrary: p)
  case Nil
  then have "p = length s" by (auto simp: ahead_def)
  then show ?case using replaceFrom_end [OF ANSI_ESCAPE_consumes] by simp
next
  case (Cons x ps)
  let ?q = "p + length (render x)"
  have here: "ahead s p (render x @ concat (map render ps))" using Cons.prems(1) by simp
  have IH: "replaceFrom ANSI_ESCAPE (\<lambda>m c. '''') s ?q = concat (map plain_of ps)"
    using Cons.prems(2) ahead_skip [OF here] by (intro Cons.IH) auto
  have le: "p \<le> length s" using here by (simp add: ahead_def)
  show ?case
  proof (cases x)
    case (Text t)
    have "matchAt ANSI_ESCAPE s q = None" if "p \<le> q" "q < p + length t" for q
    proof -
      have "t = take (q - p) t @ t ! (q - p) # drop (Suc (q - p)) t" using that by (simp add: id_take_nth_drop)
      then have "ahead s p (take (q - p) t @ (t ! (q - p) # drop (Suc (q - p)) t @ concat (map render ps)))"
        using here Text by (metis append.assoc append_Cons render.simps(1))
      from ahead_skip [OF this] that
      have "ahead s q (t ! (q - p) # drop (Suc (q - p)) t @ concat (map render ps))" by simp
      moreover have "t ! (q - p) \<noteq> CHR 0x1B" using Cons.prems(2) Text that by (auto simp: in_set_conv_nth)
      ultimately show ?thesis by (rule no_escape)
    qed
    from replaceFrom_plain [OF _ this] here IH Text show ?thesis by simp
  next
    case (Csi params mids final)
    then have "matchAt ANSI_ESCAPE s p = Some (?q, [])"
      using matchAt_csi here Cons.prems(2) by simp
    from replaceFrom_match [OF this _ le] IH Csi show ?thesis by (simp add: csi_def)
  next
    case (Osc body)
    then have "matchAt ANSI_ESCAPE s p = Some (?q, [])"
      using matchAt_osc here Cons.prems(2) by simp
    from replaceFrom_match [OF this _ le] IH Osc show ?thesis by (simp add: osc_def)
  qed
qed

text \<open>Taking the escape sequences out of coloured text gives the text.\<close>

lemma stripAnsi_coloured: "list_all piece_ok ps \<Longrightarrow> stripAnsi (concat (map render ps)) = concat (map plain_of ps)"
  using strip_from [of "concat (map render ps)" 0 ps] by (simp add: stripAnsi_def replaceAll_from)

lemma stripAnsi_plain: "CHR 0x1B \<notin> set t \<Longrightarrow> stripAnsi t = t"
  using stripAnsi_coloured [of "[Text t]"] by simp

subsection \<open>The text format of dbt\<close>

text \<open>A time of day with or without a fraction, and the levels as dbt pads them.\<close>

definition clockText :: "string \<Rightarrow> string \<Rightarrow> string \<Rightarrow> string \<Rightarrow> string" where
  "clockText h m sec frac =
     h @ '':'' @ m @ '':'' @ sec @ (if frac = '''' then '''' else ''.'' @ frac)"

definition two_digits :: "string \<Rightarrow> bool" where
  "two_digits t \<longleftrightarrow> length t = 2 \<and> list_all is_digit t"

definition levels :: "(string \<times> DbtLogLevel) list" where
  "levels = [(''debug'', Debug), (''info'', Info), (''warn'', Warn), (''error'', Error)]"

lemma two_digitsE:
  assumes "two_digits t"
  obtains a b where "t = [a, b]" "is_digit a" "is_digit b"
  using assms by (cases t; cases "tl t") (auto simp: two_digits_def)

lemma takes_clock:
  assumes "two_digits h" "two_digits m" "two_digits sec" "list_all is_digit frac"
    and "ahead s p (clockText h m sec frac @ w)" "w \<noteq> [] \<and> \<not> is_digit (hd w) \<and> hd w \<noteq> CHR ''.''"
  shows "takes clock s (p, c) (p + length (clockText h m sec frac), c)"
proof -
  obtain h1 h2 m1 m2 s1 s2 where hms: "h = [h1, h2]" "m = [m1, m2]" "sec = [s1, s2]"
    and digits: "is_digit h1" "is_digit h2" "is_digit m1" "is_digit m2" "is_digit s1" "is_digit s2"
    using assms(1-3) by (auto elim!: two_digitsE)
  define front where "front = [h1, h2, CHR '':'', m1, m2, CHR '':'', s1, s2]"
  define frac' where "frac' = (if frac = [] then [] else CHR ''.'' # frac)"
  let ?q = "p + length front"
  have parts: "clockText h m sec frac = front @ frac'" by (simp add: clockText_def hms front_def frac'_def)
  then have here: "ahead s p (front @ frac' @ w)" using assms(5) by simp
  then have there: "ahead s ?q (frac' @ w)" by (rule ahead_skip)
  have "takes (Opt (Seq (Chr (CHR ''.'')) (Plus Digit))) s (?q, c) (?q + length frac', c)"
  proof (cases "frac = []")
    case True
    have "tries (Seq (Chr (CHR ''.'')) (Plus Digit)) s (?q, c) = []"
      using assms(6) there True tries_Cls_no [of s ?q w "\<lambda>x. x = CHR ''.''" c] by (simp add: Chr_def frac'_def)
    then show ?thesis using True takes_Opt_no by (simp add: frac'_def)
  next
    case False
    then have dot: "ahead s ?q (CHR ''.'' # frac @ w)" using there by (simp add: frac'_def)
    then have "ahead s (Suc ?q) (frac @ w)" by (blast dest: ahead_Cons)
    then have "takes (Plus Digit) s (Suc ?q, c) (Suc ?q + length frac, c)"
      unfolding Digit_def using False assms(4,6) by (intro takes_Plus) auto
    moreover have "takes (Chr (CHR ''.'')) s (?q, c) (Suc ?q, c)" unfolding Chr_def using dot by (rule takes_Cls) simp
    ultimately have "takes (Seq (Chr (CHR ''.'')) (Plus Digit)) s (?q, c) (Suc ?q + length frac, c)" by (rule takes_Seq [rotated])
    then show ?thesis using takes_Opt_yes False by (simp add: frac'_def)
  qed
  then have "takes (Seqs [Opt (Seq (Chr (CHR ''.'')) (Plus Digit))]) s (?q, c) (?q + length frac', c)"
    unfolding Seqs.simps by (rule takes_Seq [OF _ takes_Eps])
  moreover have "list_all2 (\<lambda>P x. P x)
      [is_digit, is_digit, \<lambda>x. x = CHR '':'', is_digit, is_digit, \<lambda>x. x = CHR '':'', is_digit, is_digit] front"
    using digits by (simp add: front_def)
  ultimately have "takes (Seqs (map Cls
      [is_digit, is_digit, \<lambda>x. x = CHR '':'', is_digit, is_digit, \<lambda>x. x = CHR '':'', is_digit, is_digit]
      @ [Opt (Seq (Chr (CHR ''.'')) (Plus Digit))])) s (p, c) (?q + length frac', c)"
    by (intro takes_Seqs_Cls [OF here])
  then show ?thesis by (simp add: clock_def Digit_def Chr_def parts add.assoc)
qed

lemma takes_Group_of:
  "ahead s p (u @ w) \<Longrightarrow> takes r s (p, c) (p + length u, c') \<Longrightarrow>
     takes (Group n r) s (p, c) (p + length u, (n, u) # c')"
  using takes_Group [of r s p c "p + length u" c' n] ahead_slice [of s p u w] by simp

lemma takes_level:
  assumes "ahead s p (lv @ w)" "lv \<in> {''debug'', ''info'', ''warn'', ''error''}"
  shows "takes (Alts (LitI ''debug'') (map LitI [''info'', ''warn'', ''warning'', ''error''])) s (p, c) (p + length lv, c)"
proof -
  have yes: "takes (LitI lv) s (p, c) (p + length lv, c)" using tries_LitI [OF assms(1)] by (simp add: takes_def)
  have no: "tries (LitI (x # t)) s (p, c) = []" if "lower_char (hd lv) \<noteq> lower_char x" for x t
    using that assms tries_LitI [OF assms(1), of "x # t" c] by auto
  consider "lv = ''debug''" | "lv = ''info''" | "lv = ''warn''" | "lv = ''error''" using assms(2) by blast
  then show ?thesis
  proof cases
    case 1
    then show ?thesis using yes takes_Alt1 by simp
  next
    case 2
    then have "tries (LitI ''debug'') s (p, c) = []" by (intro no) (simp add: lower_char_def is_upper_def)
    then show ?thesis using yes 2 takes_Alt1 takes_Alt2 by simp
  next
    case 3
    then have "tries (LitI ''debug'') s (p, c) = []" "tries (LitI ''info'') s (p, c) = []"
      by (intro no; simp add: lower_char_def is_upper_def)+
    then show ?thesis using yes 3 takes_Alt1 takes_Alt2 by simp
  next
    case 4
    then have "tries (LitI ''debug'') s (p, c) = []" "tries (LitI ''info'') s (p, c) = []"
      "tries (LitI ''warn'') s (p, c) = []" "tries (LitI ''warning'') s (p, c) = []"
      by (intro no; simp add: lower_char_def is_upper_def)+
    then show ?thesis using yes 4 takes_Alt2 by simp
  qed
qed

text \<open>A line of dbt's log, and what has to hold of its parts.\<close>

record text_line =
  tl_clock :: string
  tl_gap :: string
  tl_level :: string
  tl_pad :: string
  tl_gap2 :: string
  tl_thread :: string
  tl_gap3 :: string
  tl_message :: string

definition lineOf :: "text_line \<Rightarrow> string" where
  "lineOf l = tl_clock l @ tl_gap l @ ''['' @ tl_level l @ tl_pad l @ '']'' @ tl_gap2 l @
     ''['' @ tl_thread l @ '']:'' @ tl_gap3 l @ tl_message l"

definition text_line_ok :: "text_line \<Rightarrow> bool" where
  "text_line_ok l \<longleftrightarrow>
     (\<exists>h m sec frac. tl_clock l = clockText h m sec frac \<and> two_digits h \<and> two_digits m \<and> two_digits sec \<and>
        list_all is_digit frac) \<and>
     tl_gap l \<noteq> [] \<and> list_all is_ws (tl_gap l @ tl_pad l @ tl_gap2 l @ tl_gap3 l) \<and>
     tl_level l \<in> fst ` set levels \<and>
     tl_thread l \<noteq> [] \<and> CHR '']'' \<notin> set (tl_thread l) \<and>
     tl_message l \<noteq> [] \<and> \<not> is_ws (hd (tl_message l)) \<and>
     {CHR 0x0A, CHR 0x0D, CHR 0x1B} \<inter> set (lineOf l) = {}"

lemma bracket_not_ws: "\<not> is_ws (CHR ''['')" "\<not> is_ws (CHR '']'')"
  by (simp_all add: is_ws_def)

lemma takes_Chr: "ahead s p (x # w) \<Longrightarrow> takes (Chr x) s (p, c) (Suc p, c)"
  unfolding Chr_def by (rule takes_Cls) simp_all

lemma takes_level_part:
  assumes "ahead s p (''['' @ lv @ pad @ '']'' @ gap @ w)" "lv \<in> fst ` set levels"
    and "list_all is_ws pad" "list_all is_ws gap" "w = [] \<or> \<not> is_ws (hd w)"
  shows "takes (Opt level_part) s (p, c) (p + length (''['' @ lv @ pad @ '']'' @ gap), (''level'', lv) # c)"
proof -
  define p2 where "p2 = Suc p + length lv"
  define p3 where "p3 = p2 + length pad"
  have a0: "ahead s p (CHR ''['' # lv @ pad @ CHR '']'' # gap @ w)" using assms(1) by simp
  then have a1: "ahead s (Suc p) (lv @ pad @ CHR '']'' # gap @ w)" by (blast dest: ahead_Cons)
  then have a2: "ahead s p2 (pad @ CHR '']'' # gap @ w)" unfolding p2_def by (rule ahead_skip)
  then have a3: "ahead s p3 (CHR '']'' # gap @ w)" unfolding p3_def by (rule ahead_skip)
  then have a4: "ahead s (Suc p3) (gap @ w)" by (blast dest: ahead_Cons)
  have t1: "takes (Group ''level'' (Alts (LitI ''debug'') (map LitI [''info'', ''warn'', ''warning'', ''error'']))) s
      (Suc p, c) (p2, (''level'', lv) # c)"
    unfolding p2_def using assms(2) by (intro takes_Group_of [OF a1] takes_level [OF a1]) (auto simp: levels_def)
  have t2: "takes (Star Space) s (p2, (''level'', lv) # c) (p3, (''level'', lv) # c)"
    unfolding p3_def Space_def by (rule takes_Star [OF a2 assms(3)]) (simp add: bracket_not_ws)
  have t3: "takes (Star Space) s (Suc p3, (''level'', lv) # c) (Suc p3 + length gap, (''level'', lv) # c)"
    unfolding Space_def by (rule takes_Star [OF a4 assms(4,5)])
  have "takes (Opt level_part) s (p, c) (Suc p3 + length gap, (''level'', lv) # c)"
    unfolding level_part_def Seqs.simps
    by (intro takes_Opt_yes takes_Seq [OF takes_Chr [OF a0]] takes_Seq [OF t1] takes_Seq [OF t2]
        takes_Seq [OF takes_Chr [OF a3]] takes_Seq [OF t3] takes_Eps)
  then show ?thesis by (simp add: p3_def p2_def add.assoc)
qed

lemma takes_thread_part:
  assumes "ahead s p (''['' @ thread @ '']:'' @ gap @ w)" "thread \<noteq> []" "CHR '']'' \<notin> set thread"
    and "list_all is_ws gap" "w = [] \<or> \<not> is_ws (hd w)"
  shows "takes (Opt thread_part) s (p, c) (p + length (''['' @ thread @ '']:'' @ gap), (''thread'', thread) # c)"
proof -
  define p2 where "p2 = Suc p + length thread"
  define p3 where "p3 = p2 + length '']:''"
  have a0: "ahead s p (CHR ''['' # thread @ '']:'' @ gap @ w)" using assms(1) by simp
  then have a1: "ahead s (Suc p) (thread @ '']:'' @ gap @ w)" by (blast dest: ahead_Cons)
  then have a2: "ahead s p2 ('']:'' @ gap @ w)" unfolding p2_def by (rule ahead_skip)
  then have a3: "ahead s p3 (gap @ w)" unfolding p3_def by (rule ahead_skip)
  have t1: "takes (Group ''thread'' (Plus (Cls (\<lambda>c. c \<noteq> CHR '']'')))) s (Suc p, c) (p2, (''thread'', thread) # c)"
    unfolding p2_def using assms(2,3)
    by (intro takes_Group_of [OF a1] takes_Plus [OF a1]) (auto simp: list_all_iff)
  have t2: "takes (Lit '']:'') s (p2, (''thread'', thread) # c) (p3, (''thread'', thread) # c)"
    unfolding p3_def by (rule takes_Lit [OF a2])
  have t3: "takes (Star Space) s (p3, (''thread'', thread) # c) (p3 + length gap, (''thread'', thread) # c)"
    unfolding Space_def by (rule takes_Star [OF a3 assms(4,5)])
  have "takes (Opt thread_part) s (p, c) (p3 + length gap, (''thread'', thread) # c)"
    unfolding thread_part_def Seqs.simps
    by (intro takes_Opt_yes takes_Seq [OF takes_Chr [OF a0]] takes_Seq [OF t1] takes_Seq [OF t2] takes_Seq [OF t3] takes_Eps)
  then show ?thesis by (simp add: p3_def p2_def add.assoc)
qed

lemma takes_timestamp:
  assumes "text_line_ok l" "ahead s 0 (tl_clock l @ tl_gap l @ ''['' @ w)"
  shows "takes (Group ''timestamp'' clock) s (0, []) (length (tl_clock l), [(''timestamp'', tl_clock l)])"
    and "takes (Plus Space) s (length (tl_clock l), c) (length (tl_clock l) + length (tl_gap l), c)"
proof -
  obtain h m sec frac where cl: "tl_clock l = clockText h m sec frac" "two_digits h" "two_digits m" "two_digits sec"
    "list_all is_digit frac" using assms(1) by (auto simp: text_line_ok_def)
  obtain g gap where gap: "tl_gap l = g # gap" "is_ws g" "list_all is_ws gap"
    using assms(1) by (cases "tl_gap l") (auto simp: text_line_ok_def)
  then have "\<not> is_digit g" "g \<noteq> CHR ''.''" by (auto simp: is_ws_def is_digit_def)
  then have "takes clock s (0, []) (0 + length (tl_clock l), [])"
    unfolding cl(1) using cl assms(2) gap by (intro takes_clock [where w = "tl_gap l @ ''['' @ w"]) auto
  then show "takes (Group ''timestamp'' clock) s (0, []) (length (tl_clock l), [(''timestamp'', tl_clock l)])"
    using takes_Group_of [OF assms(2)] by simp
  have "ahead s (0 + length (tl_clock l)) (tl_gap l @ ''['' @ w)" using assms(2) by (rule ahead_skip)
  then show "takes (Plus Space) s (length (tl_clock l), c) (length (tl_clock l) + length (tl_gap l), c)"
    unfolding Space_def using gap by (intro takes_Plus) (auto simp: bracket_not_ws)
qed

lemma takes_text_line:
  assumes ok: "text_line_ok l"
  shows "\<exists>q. takes TEXT_LOG_PREFIX (lineOf l) (0, [])
    (q, [(''message'', tl_message l), (''thread'', tl_thread l), (''level'', tl_level l), (''timestamp'', tl_clock l)])"
proof -
  let ?s = "lineOf l"
  define front where "front = tl_clock l @ tl_gap l"
  define lpart where "lpart = ''['' @ tl_level l @ tl_pad l @ '']'' @ tl_gap2 l"
  define tpart where "tpart = ''['' @ tl_thread l @ '']:'' @ tl_gap3 l"
  have line: "?s = front @ lpart @ tpart @ tl_message l" by (simp add: lineOf_def front_def lpart_def tpart_def)
  let ?p1 = "length front"
  let ?p2 = "?p1 + length lpart"
  let ?p3 = "?p2 + length tpart"
  let ?p4 = "?p3 + length (tl_message l)"
  have a1: "ahead ?s ?p1 (lpart @ tpart @ tl_message l)" using ahead_skip [of ?s 0 front] by (simp add: line)
  then have a2: "ahead ?s ?p2 (tpart @ tl_message l)" by (rule ahead_skip)
  then have a3: "ahead ?s ?p3 (tl_message l @ [])" using ahead_skip by fastforce
  then have a4: "ahead ?s ?p4 []" by (rule ahead_skip)
  have start: "ahead ?s 0 (tl_clock l @ tl_gap l @ ''['' @ tl_level l @ tl_pad l @ '']'' @ tl_gap2 l @ tpart @ tl_message l)"
    by (simp add: ahead_def lineOf_def tpart_def)
  let ?c1 = "[(''timestamp'', tl_clock l)]"
  let ?c2 = "(''level'', tl_level l) # ?c1"
  let ?c3 = "(''thread'', tl_thread l) # ?c2"
  have t0: "takes (Group ''timestamp'' clock) ?s (0, []) (length (tl_clock l), ?c1)"
    by (rule takes_timestamp(1) [OF ok start])
  have t1: "takes (Plus Space) ?s (length (tl_clock l), ?c1) (?p1, ?c1)"
    using takes_timestamp(2) [OF ok start] by (simp add: front_def)
  have t2: "takes (Opt level_part) ?s (?p1, ?c1) (?p2, ?c2)"
    using ok a1 unfolding lpart_def tpart_def
    by (intro takes_level_part) (auto simp: text_line_ok_def bracket_not_ws)
  have t3: "takes (Opt thread_part) ?s (?p2, ?c2) (?p3, ?c3)"
    using ok a2 unfolding tpart_def by (intro takes_thread_part) (auto simp: text_line_ok_def)
  have t4: "takes (Group ''message'' (Star Dot)) ?s (?p3, ?c3) (?p4, (''message'', tl_message l) # ?c3)"
    unfolding Dot_def using ok
    by (intro takes_Group_of [OF a3] takes_Star [OF a3]) (auto simp: text_line_ok_def lineOf_def list_all_iff)
  have "takes TEXT_LOG_PREFIX ?s (0, []) (?p4, (''message'', tl_message l) # ?c3)"
    unfolding TEXT_LOG_PREFIX_def Seqs.simps
    by (intro takes_Seq [OF takes_AtStart] takes_Seq [OF t0] takes_Seq [OF t1] takes_Seq [OF t2] takes_Seq [OF t3]
        takes_Seq [OF t4] takes_Seq [OF takes_AtEnd [OF a4]] takes_Eps)
  then show ?thesis by blast
qed

lemma withoutCr_id: "CHR 0x0D \<notin> set s \<Longrightarrow> withoutCr s = s"
proof -
  assume "CHR 0x0D \<notin> set s"
  then have "exec (Seq (Chr (CHR 0x0D)) AtEnd) s 0 = None"
    by (intro exec_None) (auto simp: matchAt_def Chr_def in_set_conv_nth)
  then show ?thesis by (simp add: withoutCr_def replaceOne_def)
qed

lemma normalizeLevel_levels: "(lv, L) \<in> set levels \<Longrightarrow> normalizeLevel (Some (JStr lv)) = L \<and> L \<noteq> Unknown"
  by (auto simp: levels_def normalizeLevel_def json_truthy_def toLowerCase_def lower_char_def is_upper_def Let_def)

lemma not_json_line: "text_line_ok l \<Longrightarrow> parseJsonLog parse (lineOf l) n = None"
proof -
  assume "text_line_ok l"
  then obtain h m sec frac where "tl_clock l = clockText h m sec frac" "two_digits h"
    by (auto simp: text_line_ok_def)
  then obtain x y where "lineOf l = x # y" "is_digit x"
    by (auto simp: lineOf_def clockText_def elim!: two_digitsE)
  moreover have "\<not> is_ws x" "x \<noteq> CHR ''{''" using \<open>is_digit x\<close> by (auto simp: is_ws_def is_digit_def)
  ultimately show ?thesis by (simp add: parseJsonLog_def trimStart_def)
qed

section \<open>Properties\<close>


definition demo_text_line :: text_line where
  "demo_text_line = \<lparr>tl_clock = ''06:30:12.5'', tl_gap = '' '', tl_level = ''info'', tl_pad = '' '', tl_gap2 = '' '',
     tl_thread = ''MainThread'', tl_gap3 = '' '', tl_message = ''Found 2 models''\<rparr>"


text \<open>Every line of the log has an entry, numbered from one.\<close>

lemma parseDbtLogs_lines:
  "map le_lineNumber (parseDbtLogs parse (Some v)) = (if v = '''' then [] else [1..<Suc (length (split_lines v))])"
proof -
  have number: "le_lineNumber (parseDbtLogLine parse line n) = n" for line n
    by (auto simp: parseDbtLogLine_def parseJsonLog_def Let_def split: option.split json.split if_splits)
  have "map le_lineNumber (map (\<lambda>(index, line). parseDbtLogLine parse line (index + 1)) (enumerate 0 ls)) =
      map Suc (map fst (enumerate 0 ls))" for ls
    unfolding map_map by (rule map_cong) (auto simp: number)
  then show ?thesis by (auto simp: parseDbtLogs_def truthy_def map_Suc_upt simp del: map_map)
qed

text \<open>The console never renders more than its limit, and what it renders is an end of what passed the filter.\<close>

lemma visibleEntries_bound:
  "length (visibleEntries follow es) \<le> MAX_RENDERED_LINES \<and>
     (if follow then suffix (visibleEntries follow es) es else prefix (visibleEntries follow es) es)"
  by (auto simp: visibleEntries_def suffix_drop take_is_prefix)

lemma levelCounts_length: "levelCounts es l = length (filter (\<lambda>e. le_level e = l) es)"
proof -
  have "fold (\<lambda>e counts. counts(le_level e := counts (le_level e) + 1)) es f l =
      f l + length (filter (\<lambda>e. le_level e = l) es)" for f :: "DbtLogLevel \<Rightarrow> nat"
    by (induction es arbitrary: f) auto
  then show ?thesis by (simp add: levelCounts_def)
qed

text \<open>With no query the filter is the choice of levels; switching a level off and on again changes nothing.\<close>

lemma filterDbtLogEntries_levels: "trim q = '''' \<Longrightarrow> filterDbtLogEntries es q ls = filter (\<lambda>e. le_level e \<in> ls) es"
  by (simp add: filterDbtLogEntries_def toLowerCase_def)

lemma toggleLevel_twice: "toggleLevel l (toggleLevel l ls) = ls"
  by (auto simp: toggleLevel_def)

text \<open>
  A link that is closed by \<open>ESC \\<close>, the other terminator of the standard, swallows the text up to the
  last terminator of the line: the expression takes all that is no bell before it looks for one.
\<close>

lemma linked_text_lost:
  "stripAnsi (CHR 0x1B # '']8;;u'' @ CHR 0x1B # CHR 0x5C # ''text'' @ CHR 0x1B # '']8;;'' @ [CHR 0x1B, CHR 0x5C]) = ''''"
proof -
  let ?s = "CHR 0x1B # '']8;;u'' @ CHR 0x1B # CHR 0x5C # ''text'' @ CHR 0x1B # '']8;;'' @ [CHR 0x1B, CHR 0x5C]"
  have "tries (Star (Cls (\<lambda>c. c \<noteq> CHR 0x07))) ?s (2, []) = map (\<lambda>q. (q, [])) (rev [2..<Suc (2 + 17)])"
    by (subst tries_Star_Cls) simp_all
  then have "matchAt ANSI_ESCAPE ?s 0 = Some (length ?s, [])"
    by (simp add: matchAt_def ANSI_ESCAPE_def Chr_def numeral_eq_Suc)
  from replaceFrom_match [OF this] show ?thesis
    using replaceFrom_end [OF ANSI_ESCAPE_consumes, of "\<lambda>m c. ''''" ?s] by (simp add: stripAnsi_def replaceAll_from)
qed

text \<open>Almost two minutes are shown as one minute and sixty seconds.\<close>

lemma sixty_seconds: "formatDuration fixed (Some 119600) = Some (show_nat 1 @ ''m '' @ show_nat 60 @ ''s'')"
  by (simp add: formatDuration_def roundDiv_def)

lemma minutes_bounded:
  assumes "formatDuration fixed (Some ms) = Some t" "60000 \<le> ms"
  shows "\<exists>h m s. t = (if h > 0 then show_nat h @ ''h '' else '''') @ show_nat m @ ''m '' @ show_nat s @ ''s'' \<and> m < 60 \<and> s \<le> 60"
  using assms
  by (intro exI [of _ "ms div 3600000"] exI [of _ "(ms mod 3600000) div 60000"] exI [of _ "roundDiv (ms mod 60000) 1000"])
    (auto simp: formatDuration_def Let_def roundDiv_def div_less_iff_less_mult less_eq_Suc_le [symmetric])

text \<open>The nodes of a run are those of its results, or else its artifacts; each keeps its identifier.\<close>

lemma buildNodes_length:
  "length (buildNodes artifacts results) =
     (if getDbtNodeResults results = [] then length artifacts else length (getDbtNodeResults results))"
  by (simp add: buildNodes_def Let_def)

lemma buildNodes_artifacts:
  assumes "getDbtNodeResults results = []" "\<And>a. a \<in> set artifacts \<Longrightarrow> ar_uniqueId a \<noteq> ''''"
  shows "map nv_uniqueId (buildNodes artifacts results) = map ar_uniqueId artifacts"
  using assms by (simp add: buildNodes_def mergeNodeResult_def textField_def field_def asString_def orOption_def
      or_null_def nullish_def)

end
