(* ===== verification/Runs_View.thy ===== *)
theory Runs_View
  imports Sse_Frames
begin

text \<open>
  The run log page (\<open>features/orchestrate/components/RunsView.tsx\<close>): filters and pages, the listing that
  is fetched for them, the run that is opened and its live log. Every await is a request that is answered
  later and in any order; a handler that goes on after an await keeps the filters of the render it was
  created in. After every change the effects whose dependencies changed run, as React runs them.

  Parameters: the listing's type with its number of running invocations, \<open>date\<close> for \<open>toISOString\<close>,
  \<open>parse\<close> for \<open>JSON.parse\<close> on an event. Times are in milliseconds.
\<close>

section \<open>Definitions\<close>

datatype session_status = SessionLoading | Authenticated | Unauthenticated

text \<open>What \<open>fetchDashboard\<close> depends on besides the session.\<close>

record filters =
  fl_search :: string
  fl_projectId :: string
  fl_status :: string
  fl_command :: string
  fl_range :: string
  fl_page :: nat
  fl_pageSize :: nat

definition durations :: "(string \<times> nat) list" where
  "durations = [(''24h'', 24 * 60 * 60 * 1000), (''7d'', 7 * 24 * 60 * 60 * 1000),
     (''30d'', 30 * 24 * 60 * 60 * 1000), (''90d'', 90 * 24 * 60 * 60 * 1000)]"

definition rangeStart :: "(int \<Rightarrow> string) \<Rightarrow> nat \<Rightarrow> string \<Rightarrow> string option" where
  "rangeStart date t choice = map_option (\<lambda>d. date (int t - int d)) (map_of durations choice)"

definition queryOf :: "(int \<Rightarrow> string) \<Rightarrow> nat \<Rightarrow> filters \<Rightarrow> (string \<times> string) list" where
  "queryOf date t f =
     [(''view'', ''logs''), (''page'', show_nat (fl_page f)), (''pageSize'', show_nat (fl_pageSize f))]
     @ (if fl_projectId f \<noteq> '''' then [(''projectId'', fl_projectId f)] else [])
     @ (if fl_status f \<noteq> '''' then [(''status'', fl_status f)] else [])
     @ (if fl_command f \<noteq> '''' then [(''command'', fl_command f)] else [])
     @ (if trim (fl_search f) \<noteq> '''' then [(''search'', trim (fl_search f))] else [])
     @ (case rangeStart date t (fl_range f) of Some from_ \<Rightarrow> [(''from'', from_)] | None \<Rightarrow> [])"

text \<open>What is left to do after \<open>await fetchDashboard(true)\<close>.\<close>

datatype followup = Nothing | ThenDetail string | ThenSelect string

record request =
  rq_sequence :: nat
  rq_filters :: filters
  rq_time :: nat
  rq_next :: followup

record run_detail =
  rd_id :: string
  rd_status :: string

text \<open>A cancel or retry request with the filters of the render its handler belongs to.\<close>

datatype post = CancelPost string filters | RetryPost string filters

record 'd runs_page =
  rv_session :: session_status
  rv_dashboard :: 'd
  rv_loading :: bool
  rv_refreshing :: bool
  rv_error :: "string option"
  rv_search :: string
  rv_filters :: filters
  rv_requestSequence :: nat
  rv_requests :: "request list"
  rv_selectedId :: "string option"
  rv_detail :: "run_detail option"
  rv_detailVersion :: nat
  rv_detailLoading :: bool
  rv_detailError :: "string option"
  rv_detailSequence :: nat
  rv_detailRequests :: "(nat \<times> string) list"
  rv_liveLogs :: "string list"
  rv_stream :: "(string \<times> string) option"
  rv_posts :: "post list"

definition initial_filters :: filters where
  "initial_filters = \<lparr>fl_search = '''', fl_projectId = '''', fl_status = '''', fl_command = '''',
     fl_range = ''30d'', fl_page = 1, fl_pageSize = 25\<rparr>"

definition initial_page :: "'d \<Rightarrow> 'd runs_page" where
  "initial_page empty_dashboard =
     \<lparr>rv_session = SessionLoading, rv_dashboard = empty_dashboard, rv_loading = True, rv_refreshing = False,
      rv_error = None, rv_search = '''', rv_filters = initial_filters, rv_requestSequence = 0, rv_requests = [],
      rv_selectedId = None, rv_detail = None, rv_detailVersion = 0, rv_detailLoading = False,
      rv_detailError = None, rv_detailSequence = 0, rv_detailRequests = [], rv_liveLogs = [],
      rv_stream = None, rv_posts = []\<rparr>"

subsection \<open>Fetching\<close>

definition fetchDashboard :: "filters \<Rightarrow> bool \<Rightarrow> followup \<Rightarrow> nat \<Rightarrow> 'd runs_page \<Rightarrow> 'd runs_page" where
  "fetchDashboard f background next t s =
     (if rv_session s \<noteq> Authenticated then s
      else s\<lparr>rv_requestSequence := Suc (rv_requestSequence s),
             rv_refreshing := rv_refreshing s \<or> background,
             rv_loading := rv_loading s \<or> \<not> background,
             rv_requests := rv_requests s @
               [\<lparr>rq_sequence = Suc (rv_requestSequence s), rq_filters = f, rq_time = t, rq_next = next\<rparr>]\<rparr>)"

definition fetchDetail :: "string \<Rightarrow> 'd runs_page \<Rightarrow> 'd runs_page" where
  "fetchDetail runId s =
     s\<lparr>rv_detailSequence := Suc (rv_detailSequence s),
       rv_detailLoading := True,
       rv_detailError := None,
       rv_detailRequests := rv_detailRequests s @ [(Suc (rv_detailSequence s), runId)]\<rparr>"

definition selectRun :: "string \<Rightarrow> 'd runs_page \<Rightarrow> 'd runs_page" where
  "selectRun runId s = fetchDetail runId (s\<lparr>rv_selectedId := Some runId, rv_liveLogs := []\<rparr>)"

text \<open>An answer counts when no later request was made.\<close>

definition dashboardAnswer :: "request \<Rightarrow> string + 'd \<Rightarrow> 'd runs_page \<Rightarrow> 'd runs_page" where
  "dashboardAnswer rq answer s =
     (let s1 = s\<lparr>rv_requests := removeAll rq (rv_requests s)\<rparr>;
          s2 = (if rq_sequence rq \<noteq> rv_requestSequence s then s1
                else (case answer of
                        Inl e \<Rightarrow> s1\<lparr>rv_error := Some e, rv_loading := False, rv_refreshing := False\<rparr>
                      | Inr payload \<Rightarrow>
                          s1\<lparr>rv_dashboard := payload, rv_error := None, rv_loading := False, rv_refreshing := False\<rparr>))
      in case rq_next rq of
           Nothing \<Rightarrow> s2
         | ThenDetail runId \<Rightarrow> fetchDetail runId s2
         | ThenSelect runId \<Rightarrow> selectRun runId s2)"

definition detailAnswer :: "nat \<times> string \<Rightarrow> string + run_detail \<Rightarrow> 'd runs_page \<Rightarrow> 'd runs_page" where
  "detailAnswer rq answer s =
     (let s1 = s\<lparr>rv_detailRequests := removeAll rq (rv_detailRequests s)\<rparr>
      in if fst rq \<noteq> rv_detailSequence s then s1
         else (case answer of
                 Inl e \<Rightarrow> s1\<lparr>rv_detailError := Some e, rv_detailLoading := False\<rparr>
               | Inr d \<Rightarrow> s1\<lparr>rv_detail := Some d, rv_detailVersion := Suc (rv_detailVersion s),
                            rv_detailLoading := False\<rparr>))"

subsection \<open>The live log\<close>

datatype stream_event = Output string | ErrorEvent string | Completed | OtherEvent

definition appendLine :: "string \<Rightarrow> 'd runs_page \<Rightarrow> 'd runs_page" where
  "appendLine line s =
     (let logs = rv_liveLogs s @ [line] in s\<lparr>rv_liveLogs := drop (length logs - 10000) logs\<rparr>)"

text \<open>The lines of a chunk in order; after \<open>completed\<close> nothing more is read. A payload that is no JSON is a line.\<close>

fun liveLines :: "(string \<Rightarrow> stream_event option) \<Rightarrow> nat \<Rightarrow> string \<Rightarrow> string list \<Rightarrow> 'd runs_page \<Rightarrow> 'd runs_page" where
  "liveLines parse t runId [] s = s"
| "liveLines parse t runId (line # ls) s =
     (case dataLine line of
        None \<Rightarrow> liveLines parse t runId ls s
      | Some payload \<Rightarrow>
          (case parse payload of
             None \<Rightarrow> liveLines parse t runId ls (appendLine payload s)
           | Some (Output l) \<Rightarrow> liveLines parse t runId ls (appendLine l s)
           | Some (ErrorEvent e) \<Rightarrow> liveLines parse t runId ls (appendLine (''[ERROR] '' @ e) s)
           | Some Completed \<Rightarrow>
               fetchDetail runId (fetchDashboard (rv_filters s) True Nothing t (s\<lparr>rv_stream := None\<rparr>))
           | Some OtherEvent \<Rightarrow> liveLines parse t runId ls s))"

definition streamChunk :: "(string \<Rightarrow> stream_event option) \<Rightarrow> nat \<Rightarrow> string \<Rightarrow> 'd runs_page \<Rightarrow> 'd runs_page" where
  "streamChunk parse t chunk s =
     (case rv_stream s of
        None \<Rightarrow> s
      | Some (runId, buffer) \<Rightarrow>
          let (ls, rest) = feed (split_on nl) buffer chunk
          in liveLines parse t runId ls (s\<lparr>rv_stream := Some (runId, rest)\<rparr>))"

definition streamRefused :: "nat \<Rightarrow> 'd runs_page \<Rightarrow> 'd runs_page" where
  "streamRefused http s =
     (if rv_stream s = None then s
      else (appendLine (''[ERROR] Unable to attach live logs (HTTP '' @ show_nat http @ '')'') s)\<lparr>rv_stream := None\<rparr>)"

text \<open>The end of the body, or an error of the connection.\<close>

definition streamEnded :: "string option \<Rightarrow> 'd runs_page \<Rightarrow> 'd runs_page" where
  "streamEnded message s =
     (if rv_stream s = None then s
      else (case message of None \<Rightarrow> s | Some m \<Rightarrow> appendLine (''[ERROR] '' @ m) s)\<lparr>rv_stream := None\<rparr>)"

subsection \<open>Effects\<close>

definition dashboardDeps :: "'d runs_page \<Rightarrow> filters \<times> session_status" where
  "dashboardDeps s = (rv_filters s, rv_session s)"

definition streamDeps :: "'d runs_page \<Rightarrow> nat \<times> (filters \<times> session_status) \<times> string option" where
  "streamDeps s = (rv_detailVersion s, dashboardDeps s, rv_selectedId s)"

definition dashboardEffect :: "nat \<Rightarrow> 'd runs_page \<Rightarrow> 'd runs_page" where
  "dashboardEffect t s =
     (case rv_session s of
        Authenticated \<Rightarrow> fetchDashboard (rv_filters s) False Nothing t s
      | Unauthenticated \<Rightarrow> s\<lparr>rv_loading := False, rv_error := Some ''Not authenticated''\<rparr>
      | SessionLoading \<Rightarrow> s)"

text \<open>The cleanup aborts the stream that was attached; a new one starts with an empty buffer.\<close>

definition streamEffect :: "'d runs_page \<Rightarrow> 'd runs_page" where
  "streamEffect s =
     s\<lparr>rv_stream :=
        (case (rv_selectedId s, rv_detail s) of
           (Some selected, Some d) \<Rightarrow>
             if rd_id d = selected \<and> rd_status d = ''running'' \<and> selected \<noteq> '''' \<and> rv_session s = Authenticated
             then Some (selected, '''') else None
         | _ \<Rightarrow> None)\<rparr>"

definition runEffects :: "nat \<Rightarrow> 'd runs_page \<Rightarrow> 'd runs_page \<Rightarrow> 'd runs_page" where
  "runEffects t before s =
     (let s1 = (if dashboardDeps before \<noteq> dashboardDeps s then dashboardEffect t s else s)
      in if streamDeps before \<noteq> streamDeps s then streamEffect s1 else s1)"

subsection \<open>Actions\<close>

datatype 'd action =
    SessionChanged session_status
  | Search string
  | Debounced
  | FilterProject string | FilterStatus string | FilterCommand string | FilterRange string
  | ResetFilters
  | PageSize nat | PreviousPage | NextPage
  | Poll
  | RefreshAll
  | Select string
  | Cancel string | Retry string
  | Answer request "string + 'd"
  | DetailAnswer "nat \<times> string" "string + run_detail"
  | PostAnswer "post" "string option"
  | PostFailed "post"
  | Chunk string | Refused nat | Ended "string option"

definition resetFilters :: "'d runs_page \<Rightarrow> 'd runs_page" where
  "resetFilters s = s\<lparr>rv_search := '''', rv_filters := (rv_filters s)
     \<lparr>fl_projectId := '''', fl_status := '''', fl_command := '''', fl_range := ''30d'', fl_page := 1\<rparr>\<rparr>"

definition setFilter :: "(filters \<Rightarrow> filters) \<Rightarrow> 'd runs_page \<Rightarrow> 'd runs_page" where
  "setFilter setter s = s\<lparr>rv_filters := (setter (rv_filters s))\<lparr>fl_page := 1\<rparr>\<rparr>"

text \<open>\<open>cancelRun\<close> and \<open>retryRun\<close> after their first await, on success; \<open>retryRun\<close> has the new run's identifier.\<close>

definition postDone :: "nat \<Rightarrow> post \<Rightarrow> string option \<Rightarrow> 'd runs_page \<Rightarrow> 'd runs_page" where
  "postDone t p newId s =
     (case p of
        CancelPost runId f \<Rightarrow>
          fetchDetail runId (fetchDashboard f True Nothing t
            (s\<lparr>rv_liveLogs := rv_liveLogs s @ [''[WARN] Cancellation requested by user'']\<rparr>))
      | RetryPost runId f \<Rightarrow>
          let next = (if truthy newId then ThenSelect (the newId) else Nothing)
          in if rv_session s = Authenticated then fetchDashboard f True next t s
             else (case next of ThenSelect newRun \<Rightarrow> selectRun newRun s | _ \<Rightarrow> s))"

text \<open>What an action does before the effects; \<open>running\<close> is the listing's number of running invocations.\<close>

definition act :: "('d \<Rightarrow> nat) \<Rightarrow> (string \<Rightarrow> stream_event option) \<Rightarrow> nat \<Rightarrow> 'd action \<Rightarrow> 'd runs_page \<Rightarrow> 'd runs_page" where
  "act running parse t a s =
     (case a of
        SessionChanged st \<Rightarrow> s\<lparr>rv_session := st\<rparr>
      | Search v \<Rightarrow> s\<lparr>rv_search := v, rv_filters := (rv_filters s)\<lparr>fl_page := 1\<rparr>\<rparr>
      | Debounced \<Rightarrow> s\<lparr>rv_filters := (rv_filters s)\<lparr>fl_search := rv_search s\<rparr>\<rparr>
      | FilterProject v \<Rightarrow> setFilter (\<lambda>f. f\<lparr>fl_projectId := v\<rparr>) s
      | FilterStatus v \<Rightarrow> setFilter (\<lambda>f. f\<lparr>fl_status := v\<rparr>) s
      | FilterCommand v \<Rightarrow> setFilter (\<lambda>f. f\<lparr>fl_command := v\<rparr>) s
      | FilterRange v \<Rightarrow> setFilter (\<lambda>f. f\<lparr>fl_range := v\<rparr>) s
      | ResetFilters \<Rightarrow> resetFilters s
      | PageSize n \<Rightarrow> setFilter (\<lambda>f. f\<lparr>fl_pageSize := n\<rparr>) s
      | PreviousPage \<Rightarrow> s\<lparr>rv_filters := (rv_filters s)\<lparr>fl_page := max 1 (fl_page (rv_filters s) - 1)\<rparr>\<rparr>
      | NextPage \<Rightarrow> s\<lparr>rv_filters := (rv_filters s)\<lparr>fl_page := fl_page (rv_filters s) + 1\<rparr>\<rparr>
      | Poll \<Rightarrow>
          if rv_session s = Authenticated \<and> running (rv_dashboard s) > 0
          then fetchDashboard (rv_filters s) True Nothing t s else s
      | RefreshAll \<Rightarrow>
          let next = (if truthy (rv_selectedId s) then ThenDetail (the (rv_selectedId s)) else Nothing)
          in if rv_session s = Authenticated then fetchDashboard (rv_filters s) True next t s
             else (case next of ThenDetail runId \<Rightarrow> fetchDetail runId s | _ \<Rightarrow> s)
      | Select runId \<Rightarrow> selectRun runId s
      | Cancel runId \<Rightarrow> s\<lparr>rv_posts := rv_posts s @ [CancelPost runId (rv_filters s)]\<rparr>
      | Retry runId \<Rightarrow> s\<lparr>rv_posts := rv_posts s @ [RetryPost runId (rv_filters s)]\<rparr>
      | Answer rq answer \<Rightarrow> if rq \<in> set (rv_requests s) then dashboardAnswer rq answer s else s
      | DetailAnswer rq answer \<Rightarrow> if rq \<in> set (rv_detailRequests s) then detailAnswer rq answer s else s
      | PostAnswer p newId \<Rightarrow>
          if p \<in> set (rv_posts s) then postDone t p newId (s\<lparr>rv_posts := remove1 p (rv_posts s)\<rparr>) else s
      | PostFailed p \<Rightarrow> s\<lparr>rv_posts := remove1 p (rv_posts s)\<rparr>
      | Chunk c \<Rightarrow> streamChunk parse t c s
      | Refused http \<Rightarrow> streamRefused http s
      | Ended m \<Rightarrow> streamEnded m s)"

definition step :: "('d \<Rightarrow> nat) \<Rightarrow> (string \<Rightarrow> stream_event option) \<Rightarrow> nat \<Rightarrow> 'd action \<Rightarrow> 'd runs_page \<Rightarrow> 'd runs_page" where
  "step running parse t a s = runEffects t s (act running parse t a s)"

text \<open>
  Pages that can be reached when the service answers a listing request with a listing for its query.
  In a calm run no filter changes between a cancel or retry and its answer.
\<close>

definition honest :: "(int \<Rightarrow> string) \<Rightarrow> ((string \<times> string) list \<Rightarrow> 'd \<Rightarrow> bool) \<Rightarrow> 'd action \<Rightarrow> bool" where
  "honest date answers a =
     (case a of Answer rq (Inr payload) \<Rightarrow> answers (queryOf date (rq_time rq) (rq_filters rq)) payload | _ \<Rightarrow> True)"

definition postFilters :: "post \<Rightarrow> filters" where
  "postFilters p = (case p of CancelPost r f \<Rightarrow> f | RetryPost r f \<Rightarrow> f)"

definition calmAnswer :: "'d action \<Rightarrow> 'd runs_page \<Rightarrow> bool" where
  "calmAnswer a s = (case a of PostAnswer p newId \<Rightarrow> postFilters p = rv_filters s | _ \<Rightarrow> True)"

inductive reachable ::
  "(int \<Rightarrow> string) \<Rightarrow> ('d \<Rightarrow> nat) \<Rightarrow> (string \<Rightarrow> stream_event option) \<Rightarrow> ((string \<times> string) list \<Rightarrow> 'd \<Rightarrow> bool) \<Rightarrow>
     'd \<Rightarrow> bool \<Rightarrow> 'd runs_page \<Rightarrow> bool"
  for date running parse answers empty_dashboard calm where
  start: "reachable date running parse answers empty_dashboard calm (initial_page empty_dashboard)"
| continue: "reachable date running parse answers empty_dashboard calm (step running parse t a s)"
    if "reachable date running parse answers empty_dashboard calm s" "honest date answers a" "calm \<longrightarrow> calmAnswer a s"

section \<open>Lemmas\<close>

text \<open>The part of the page that the listing depends on; the rest of the operations leave it alone.\<close>

definition core where
  "core s = (rv_session s, rv_dashboard s, rv_loading s, rv_refreshing s, rv_error s, rv_filters s,
     rv_requestSequence s, rv_requests s)"

named_theorems core_simps \<open>operations that leave the listing alone\<close>

lemma core_fetchDetail [core_simps]: "core (fetchDetail r s) = core s"
  by (simp add: core_def fetchDetail_def)

lemma core_selectRun [core_simps]: "core (selectRun r s) = core s"
  by (simp add: core_def selectRun_def fetchDetail_def)

lemma core_detailAnswer [core_simps]: "core (detailAnswer rq a s) = core s"
  by (simp add: core_def detailAnswer_def Let_def split: sum.split)

lemma core_appendLine [core_simps]: "core (appendLine l s) = core s"
  by (simp add: core_def appendLine_def Let_def)

lemma core_streamEffect [core_simps]: "core (streamEffect s) = core s"
  by (simp add: core_def streamEffect_def)

lemma core_streamRefused [core_simps]: "core (streamRefused c s) = core s"
  by (simp add: core_def streamRefused_def appendLine_def Let_def)

lemma core_streamEnded [core_simps]: "core (streamEnded m s) = core s"
  by (simp add: core_def streamEnded_def appendLine_def Let_def split: option.split)

text \<open>Requests have different numbers, none above the counter.\<close>

definition requests_ok :: "'d runs_page \<Rightarrow> bool" where
  "requests_ok s \<longleftrightarrow> distinct (map rq_sequence (rv_requests s)) \<and>
     (\<forall>rq \<in> set (rv_requests s). rq_sequence rq \<le> rv_requestSequence s)"

text \<open>
  The latest request is for the filters that are set; while it is under way something shows that, and
  once it is answered the listing is an answer to it or there is an error.
\<close>

definition listing_ok ::
  "(int \<Rightarrow> string) \<Rightarrow> ((string \<times> string) list \<Rightarrow> 'd \<Rightarrow> bool) \<Rightarrow> 'd runs_page \<Rightarrow> bool" where
  "listing_ok date answers s \<longleftrightarrow>
     requests_ok s \<and>
     (rv_session s = Authenticated \<longrightarrow>
        (\<forall>rq \<in> set (rv_requests s). rq_sequence rq = rv_requestSequence s \<longrightarrow>
           rq_filters rq = rv_filters s \<and> (rv_loading s \<or> rv_refreshing s)) \<and>
        ((\<forall>rq \<in> set (rv_requests s). rq_sequence rq \<noteq> rv_requestSequence s) \<longrightarrow>
           rv_error s \<noteq> None \<or> (\<exists>t. answers (queryOf date t (rv_filters s)) (rv_dashboard s))))"

lemma listing_ok_core: "core s' = core s \<Longrightarrow> listing_ok date answers s' = listing_ok date answers s"
  by (simp add: core_def listing_ok_def requests_ok_def)

lemma listing_ok_simps [core_simps]:
  "listing_ok date answers (fetchDetail r s) = listing_ok date answers s"
  "listing_ok date answers (selectRun r s) = listing_ok date answers s"
  "listing_ok date answers (detailAnswer rq a s) = listing_ok date answers s"
  "listing_ok date answers (appendLine l s) = listing_ok date answers s"
  "listing_ok date answers (streamEffect s) = listing_ok date answers s"
  "listing_ok date answers (streamRefused c s) = listing_ok date answers s"
  "listing_ok date answers (streamEnded m s) = listing_ok date answers s"
  by (rule listing_ok_core, simp add: core_simps)+

text \<open>A request for the filters that are set makes the page good whatever it was.\<close>

lemma listing_ok_fetch:
  assumes "requests_ok s" "f = rv_filters s" "rv_session s = Authenticated \<or> listing_ok date answers s"
  shows "listing_ok date answers (fetchDashboard f b n t s)"
  using assms by (fastforce simp: listing_ok_def requests_ok_def fetchDashboard_def)

lemma listing_ok_requests: "listing_ok date answers s \<Longrightarrow> requests_ok s"
  by (simp add: listing_ok_def)

lemma listing_ok_answer:
  assumes "listing_ok date answers s" "rq \<in> set (rv_requests s)" "honest date answers (Answer rq answer)"
  shows "listing_ok date answers (dashboardAnswer rq answer s)"
proof -
  define s1 where "s1 = (if rq_sequence rq \<noteq> rv_requestSequence s then s\<lparr>rv_requests := removeAll rq (rv_requests s)\<rparr>
    else (case answer of
      Inl e \<Rightarrow> s\<lparr>rv_requests := removeAll rq (rv_requests s), rv_error := Some e, rv_loading := False, rv_refreshing := False\<rparr>
    | Inr payload \<Rightarrow> s\<lparr>rv_requests := removeAll rq (rv_requests s), rv_dashboard := payload, rv_error := None,
        rv_loading := False, rv_refreshing := False\<rparr>))"
  have others: "rq_sequence r \<noteq> rv_requestSequence s" if "rq_sequence rq = rv_requestSequence s"
    "r \<in> set (removeAll rq (rv_requests s))" for r
  proof -
    have "inj_on rq_sequence (set (rv_requests s))"
      using assms(1) by (simp add: listing_ok_def requests_ok_def distinct_map)
    from inj_onD [OF this, of r rq] show ?thesis using that assms(2) by force
  qed
  have kept: "requests_ok (s\<lparr>rv_requests := removeAll rq (rv_requests s)\<rparr>)"
  proof -
    have "distinct (map rq_sequence (filter (\<lambda>x. rq \<noteq> x) (rv_requests s)))"
      using assms(1) by (intro distinct_map_filter) (simp add: listing_ok_def requests_ok_def)
    then show ?thesis using assms(1) by (simp add: listing_ok_def requests_ok_def removeAll_filter_not_eq)
  qed
  have "listing_ok date answers s1"
  proof (cases "rq_sequence rq = rv_requestSequence s")
    case True
    have latest: "\<forall>r \<in> set (removeAll rq (rv_requests s)). rq_sequence r \<noteq> rv_requestSequence s"
      using others [OF True] by blast
    have filters: "rv_session s = Authenticated \<Longrightarrow> rq_filters rq = rv_filters s"
      using assms(1,2) True by (simp add: listing_ok_def)
    show ?thesis
    proof (cases answer)
      case (Inl e)
      then show ?thesis using True latest kept by (simp add: s1_def listing_ok_def requests_ok_def)
    next
      case (Inr payload)
      then have "answers (queryOf date (rq_time rq) (rq_filters rq)) payload" using assms(3) by (simp add: honest_def)
      then show ?thesis
        using Inr True latest filters kept by (auto simp: s1_def listing_ok_def requests_ok_def)
    qed
  next
    case False
    then show ?thesis using assms(1) kept by (auto simp: s1_def listing_ok_def requests_ok_def)
  qed
  moreover have "core (dashboardAnswer rq answer s) = core s1"
    by (simp add: dashboardAnswer_def s1_def Let_def core_simps split: followup.split sum.split)
  ultimately show ?thesis using listing_ok_core by blast
qed

lemma listing_ok_liveLines:
  "listing_ok date answers s \<Longrightarrow> listing_ok date answers (liveLines parse t runId ls s)"
proof (induction parse t runId ls s rule: liveLines.induct)
  case (2 parse t runId line ls s)
  have quiet: "listing_ok date answers (s\<lparr>rv_stream := None\<rparr>) = listing_ok date answers s"
    by (rule listing_ok_core) (simp add: core_def)
  have "listing_ok date answers (fetchDashboard (rv_filters s) True Nothing t (s\<lparr>rv_stream := None\<rparr>))"
    using "2.prems" quiet by (intro listing_ok_fetch) (auto dest: listing_ok_requests simp: requests_ok_def)
  then show ?case
    using 2 by (auto simp: core_simps split: option.split stream_event.split)
qed simp

lemma fetchDashboard_keeps [simp]:
  "rv_filters (fetchDashboard f b n t s) = rv_filters s" "rv_session (fetchDashboard f b n t s) = rv_session s"
  by (simp_all add: fetchDashboard_def)

definition touches_listing :: "'d action \<Rightarrow> bool" where
  "touches_listing a =
     (case a of Poll \<Rightarrow> True | RefreshAll \<Rightarrow> True | Answer rq b \<Rightarrow> True | PostAnswer p i \<Rightarrow> True | Chunk c \<Rightarrow> True
      | _ \<Rightarrow> False)"

lemma core_act:
  assumes "dashboardDeps (act running parse t a s) = dashboardDeps s" "\<not> touches_listing a"
  shows "core (act running parse t a s) = core s"
  using assms
  by (cases a)
    (simp_all add: act_def core_simps touches_listing_def, simp_all add: dashboardDeps_def setFilter_def resetFilters_def core_def)

text \<open>An action that leaves filters and session alone keeps the listing right.\<close>

lemma listing_ok_act:
  assumes "listing_ok date answers s" "honest date answers a" "calmAnswer a s"
    and "dashboardDeps (act running parse t a s) = dashboardDeps s"
  shows "listing_ok date answers (act running parse t a s)"
proof -
  have fetch: "listing_ok date answers (fetchDashboard (rv_filters s) b n t s)" for b n
    using assms(1) listing_ok_requests by (intro listing_ok_fetch) auto
  have same: "listing_ok date answers s' = listing_ok date answers s" if "core s' = core s" for s'
    using that by (rule listing_ok_core)
  consider "\<not> touches_listing a" | "a = Poll" | "a = RefreshAll" | rq answer where "a = Answer rq answer"
    | p newId where "a = PostAnswer p newId" | c where "a = Chunk c"
    by (cases a) (auto simp: touches_listing_def)
  then show ?thesis
  proof cases
    case 1
    then show ?thesis using assms(1) same [OF core_act [OF assms(4)]] by simp
  next
    case 2
    then show ?thesis using assms(1) fetch by (simp add: act_def)
  next
    case 3
    then show ?thesis using assms(1) fetch by (simp add: act_def core_simps Let_def split: followup.split)
  next
    case (5 p newId)
    let ?s = "s\<lparr>rv_posts := remove1 p (rv_posts s)\<rparr>"
    let ?s1 = "?s\<lparr>rv_liveLogs := rv_liveLogs s @ [''[WARN] Cancellation requested by user'']\<rparr>"
    have ok: "listing_ok date answers ?s" "listing_ok date answers ?s1"
      using assms(1) same [of ?s] same [of ?s1] by (simp_all add: core_def)
    have "listing_ok date answers (fetchDashboard (rv_filters s) b n t ?s)"
      "listing_ok date answers (fetchDashboard (rv_filters s) b n t ?s1)" for b n
      using ok by (auto intro!: listing_ok_fetch dest: listing_ok_requests)
    then show ?thesis
      using 5 assms(1,3) ok
      by (auto simp: act_def postDone_def calmAnswer_def postFilters_def core_simps Let_def split: post.splits followup.splits)
  next
    case (4 rq answer)
    then show ?thesis using assms(1,2) listing_ok_answer by (auto simp: act_def)
  next
    case (6 c)
    have "listing_ok date answers (s\<lparr>rv_stream := st\<rparr>)" for st
      using assms(1) same [of "s\<lparr>rv_stream := st\<rparr>"] by (simp add: core_def)
    then show ?thesis
      using 6 assms(1) by (auto simp: act_def streamChunk_def listing_ok_liveLines split: option.split prod.split)
  qed
qed

lemma dashboardDeps_simps [simp]:
  "dashboardDeps (fetchDashboard f b n t s) = dashboardDeps s"
  by (simp add: dashboardDeps_def)

lemma listing_ok_effects:
  assumes "listing_ok date answers s" "requests_ok s'"
    and "dashboardDeps s' = dashboardDeps s \<Longrightarrow> listing_ok date answers s'"
  shows "listing_ok date answers (runEffects t s s')"
proof -
  have "listing_ok date answers (dashboardEffect t s')" if "dashboardDeps s \<noteq> dashboardDeps s'"
    using assms(2) by (cases "rv_session s'") (auto simp: dashboardEffect_def listing_ok_fetch, auto simp: listing_ok_def requests_ok_def)
  then show ?thesis using assms(3) by (auto simp: runEffects_def Let_def core_simps)
qed

lemma act_filter_core:
  "\<not> touches_listing a \<Longrightarrow> rv_requests (act running parse t a s) = rv_requests s \<and>
     rv_requestSequence (act running parse t a s) = rv_requestSequence s"
  by (cases a) (auto simp: act_def touches_listing_def setFilter_def resetFilters_def selectRun_def fetchDetail_def
      detailAnswer_def streamRefused_def streamEnded_def appendLine_def Let_def split: sum.split option.split)

lemma deps_act: "touches_listing a \<Longrightarrow> dashboardDeps (act running parse t a s) = dashboardDeps s"
proof -
  have lines: "rv_filters (liveLines parse t runId ls s) = rv_filters s \<and>
      rv_session (liveLines parse t runId ls s) = rv_session s" for runId ls s
    by (induction parse t runId ls s rule: liveLines.induct)
      (auto simp: fetchDetail_def appendLine_def Let_def split: option.split stream_event.split)
  assume "touches_listing a"
  then show ?thesis
    by (cases a)
      (auto simp: touches_listing_def act_def lines streamChunk_def dashboardDeps_def dashboardAnswer_def postDone_def
        fetchDetail_def selectRun_def Let_def split: option.split prod.split sum.split followup.split post.split)
qed

lemma listing_ok_step:
  assumes "listing_ok date answers s" "honest date answers a" "calmAnswer a s"
  shows "listing_ok date answers (step running parse t a s)"
proof -
  have "requests_ok (act running parse t a s)"
  proof (cases "touches_listing a")
    case True
    then show ?thesis using listing_ok_act [OF assms deps_act] listing_ok_requests by blast
  next
    case False
    then show ?thesis using assms(1) act_filter_core [OF False] by (simp add: listing_ok_def requests_ok_def)
  qed
  then show ?thesis
    unfolding step_def using assms listing_ok_act by (intro listing_ok_effects) auto
qed

lemma listing_ok_reachable: "reachable date running parse answers d0 True s \<Longrightarrow> listing_ok date answers s"
proof (induction rule: reachable.induct)
  case start
  then show ?case by (simp add: initial_page_def listing_ok_def requests_ok_def)
next
  case (continue s a t)
  then show ?case using listing_ok_step by auto
qed

section \<open>Properties\<close>

text \<open>
  C22. Whatever filters are set and in whatever order the answers arrive, the run log page that is not
  loading and shows no error shows an answer to the filters that are set, as long as no filter changes
  while a cancel or retry is under way.
\<close>

theorem listing_matches_filters:
  assumes "reachable date running parse answers d0 True s"
    and "rv_session s = Authenticated" "\<not> rv_loading s" "\<not> rv_refreshing s" "rv_error s = None"
  shows "\<exists>t. answers (queryOf date t (rv_filters s)) (rv_dashboard s)"
  using listing_ok_reachable [OF assms(1)] assms(2-) by (auto simp: listing_ok_def)

text \<open>A run of the page as a list of actions; here the listing is the query it answers.\<close>

definition perform :: "(int \<Rightarrow> string) \<Rightarrow> (string \<Rightarrow> stream_event option) \<Rightarrow> (string \<times> string) list action list \<Rightarrow>
    (string \<times> string) list runs_page" where
  "perform date parse as = foldl (\<lambda>s a. step (\<lambda>d. 0) parse 0 a s) (initial_page []) as"

definition requestFor :: "nat \<Rightarrow> filters \<Rightarrow> request" where
  "requestFor n f = \<lparr>rq_sequence = n, rq_filters = f, rq_time = 0, rq_next = Nothing\<rparr>"

definition answerTo :: "(int \<Rightarrow> string) \<Rightarrow> nat \<Rightarrow> filters \<Rightarrow> (string \<times> string) list action" where
  "answerTo date n f = Answer (requestFor n f) (Inr (queryOf date 0 f))"

lemma reachable_perform:
  "list_all (honest date answers) as \<Longrightarrow> answers = (\<lambda>q d. d = q) \<Longrightarrow>
     reachable date (\<lambda>d. 0) parse answers [] False (perform date parse as)"
proof (induction as rule: rev_induct)
  case Nil
  then show ?case by (simp add: perform_def reachable.start)
next
  case (snoc a as)
  then show ?case by (simp add: perform_def reachable.continue)
qed

lemmas page_evaluation =
  perform_def step_def runEffects_def act_def dashboardDeps_def streamDeps_def dashboardEffect_def streamEffect_def
  fetchDashboard_def initial_page_def dashboardAnswer_def setFilter_def postDone_def fetchDetail_def selectRun_def
  requestFor_def answerTo_def Let_def

theorem listing_matches_filters_witness:
  "\<exists>t. rv_dashboard (perform (\<lambda>t. '''') (\<lambda>m. None) [SessionChanged Authenticated, answerTo (\<lambda>t. '''') 1 initial_filters]) =
     queryOf (\<lambda>t. '''') t initial_filters"
proof -
  let ?date = "\<lambda>t :: int. '''' :: string" and ?parse = "\<lambda>m :: string. None :: stream_event option"
  let ?s1 = "step (\<lambda>d. 0) ?parse 0 (SessionChanged Authenticated) (initial_page [])"
  let ?s2 = "step (\<lambda>d. 0) ?parse 0 (answerTo ?date 1 initial_filters) ?s1"
  have s2: "perform ?date ?parse [SessionChanged Authenticated, answerTo ?date 1 initial_filters] = ?s2"
    by (simp add: perform_def)
  have "reachable ?date (\<lambda>d. 0) ?parse (\<lambda>q d. d = q) [] True ?s2"
    by (intro reachable.continue reachable.start)
      (simp_all add: honest_def calmAnswer_def answerTo_def requestFor_def)
  moreover have "rv_session ?s2 = Authenticated" "\<not> rv_loading ?s2" "\<not> rv_refreshing ?s2" "rv_error ?s2 = None"
    "rv_filters ?s2 = initial_filters"
    by (simp_all add: page_evaluation initial_filters_def)
  ultimately show ?thesis using listing_matches_filters [of ?date "\<lambda>d. 0" ?parse "\<lambda>q d. d = q" "[]" ?s2] s2 by simp
qed

definition error_filters :: filters where
  "error_filters = initial_filters\<lparr>fl_status := ''error''\<rparr>"

text \<open>
  A cancel (or retry) that is answered after a filter changed fetches the listing with the filters of the
  render it was clicked in, as the latest request: the page then says it shows failed runs and lists all.
\<close>

lemma stale_listing_after_cancel:
  "\<exists>s. reachable date (\<lambda>d. 0) parse (\<lambda>q d. d = q) [] False s \<and>
     rv_session s = Authenticated \<and> \<not> rv_loading s \<and> \<not> rv_refreshing s \<and> rv_error s = None \<and>
     rv_filters s = error_filters \<and> rv_dashboard s = queryOf date 0 initial_filters"
proof -
  let ?as = "[SessionChanged Authenticated, answerTo date 1 initial_filters, Cancel ''r1'', FilterStatus ''error'',
    answerTo date 2 error_filters, PostAnswer (CancelPost ''r1'' initial_filters) None, answerTo date 3 initial_filters]"
  have "reachable date (\<lambda>d. 0) parse (\<lambda>q d. d = q) [] False (perform date parse ?as)"
    by (rule reachable_perform) (simp_all add: honest_def answerTo_def requestFor_def)
  moreover have "rv_session (perform date parse ?as) = Authenticated \<and> \<not> rv_loading (perform date parse ?as) \<and>
     \<not> rv_refreshing (perform date parse ?as) \<and> rv_error (perform date parse ?as) = None \<and>
     rv_filters (perform date parse ?as) = error_filters \<and>
     rv_dashboard (perform date parse ?as) = queryOf date 0 initial_filters"
    by (simp add: page_evaluation initial_filters_def error_filters_def)
  ultimately show ?thesis by blast
qed

text \<open>
  A change of filters attaches the live log of the open run again, and the lines shown so far stay; the
  service sends them again.
\<close>

lemma live_log_attached_again:
  assumes "rv_session s = Authenticated" "rv_selectedId s = Some r" "r \<noteq> ''''"
    and "rv_detail s = Some \<lparr>rd_id = r, rd_status = ''running''\<rparr>" "fl_status (rv_filters s) \<noteq> v"
  shows "rv_stream (step running parse t (FilterStatus v) s) = Some (r, '''') \<and>
    rv_liveLogs (step running parse t (FilterStatus v) s) = rv_liveLogs s"
proof -
  have "(rv_filters s)\<lparr>fl_status := v, fl_page := 1\<rparr> \<noteq> rv_filters s"
    using assms(5) by (metis filters.select_convs(3) filters.surjective filters.update_convs(3) filters.update_convs(6))
  then show ?thesis
    using assms by (simp add: step_def runEffects_def act_def setFilter_def dashboardDeps_def streamDeps_def
        dashboardEffect_def streamEffect_def fetchDashboard_def Let_def)
qed

text \<open>
  A cancel that is answered after another run was selected loads the cancelled run's detail as the latest
  request: the answer for the selected run is dropped, and nothing is shown for it.
\<close>

lemma cancel_hides_selected_run:
  assumes "CancelPost a f \<in> set (rv_posts s)" "rv_session s = Authenticated" "(n, b) \<in> set (rv_detailRequests s)"
    and "n \<le> rv_detailSequence s"
  shows "let s1 = step running parse t (PostAnswer (CancelPost a f) None) s;
             s2 = step running parse t (DetailAnswer (n, b) (Inr d)) s1
         in rv_detail s2 = rv_detail s \<and> (Suc (rv_detailSequence s), a) \<in> set (rv_detailRequests s2) \<and>
            rv_detailSequence s2 = Suc (rv_detailSequence s)"
  using assms
  by (auto simp: step_def runEffects_def act_def postDone_def fetchDetail_def fetchDashboard_def detailAnswer_def
      dashboardDeps_def streamDeps_def dashboardEffect_def streamEffect_def Let_def)

end
