(* ===== verification/Schedules_View.thy ===== *)
theory Schedules_View
  imports Orchestrate
begin

text \<open>
  The schedules page and its dialog (\<open>features/orchestrate/components/SchedulesView.tsx\<close> and
  \<open>ScheduleDialog.tsx\<close>) on the models of the routes they call. The runner's answers (a started run, the
  preview of a cron expression) are arguments.
\<close>

section \<open>Definitions\<close>

subsection \<open>The dialog\<close>

record schedule_form =
  sf_projectId :: string
  sf_name :: string
  sf_command :: string
  sf_selector :: string
  sf_target :: string
  sf_cron :: string
  sf_isActive :: bool
  sf_webhookUrl :: string
  sf_publishSchema :: string

definition EMPTY :: schedule_form where
  "EMPTY = \<lparr>sf_projectId = '''', sf_name = '''', sf_command = ''run'', sf_selector = '''', sf_target = '''',
     sf_cron = ''0 2 * * *'', sf_isActive = True, sf_webhookUrl = '''', sf_publishSchema = ''''\<rparr>"

text \<open>The form when the dialog opens, for a schedule or for a new one in the first project.\<close>

definition openForm :: "schedule_row option \<Rightarrow> (string \<times> string) list \<Rightarrow> schedule_form" where
  "openForm existing projects =
     (case existing of
        Some r \<Rightarrow> \<lparr>sf_projectId = sc_projectId r, sf_name = sc_name r, sf_command = sc_command r,
          sf_selector = nullish (sc_selector r) '''', sf_target = nullish (sc_target r) '''', sf_cron = sc_cron r,
          sf_isActive = sc_isActive r, sf_webhookUrl = nullish (sc_webhookUrl r) '''',
          sf_publishSchema = nullish (sc_publishSchema r) ''''\<rparr>
      | None \<Rightarrow> EMPTY\<lparr>sf_projectId := (case projects of [] \<Rightarrow> '''' | p # _ \<Rightarrow> fst p)\<rparr>)"

text \<open>What the runner said of the cron expression, and how a failing request counts.\<close>

record cron_preview =
  cp_valid :: bool
  cp_message :: "string option"
  cp_next :: "string list"

definition previewOf :: "cron_preview option \<Rightarrow> cron_preview" where
  "previewOf answer = nullish answer \<lparr>cp_valid = True, cp_message = None, cp_next = []\<rparr>"

definition canSave :: "schedule_form \<Rightarrow> cron_preview \<Rightarrow> bool" where
  "canSave f preview \<longleftrightarrow> sf_projectId f \<noteq> '''' \<and> trim (sf_name f) \<noteq> '''' \<and> trim (sf_cron f) \<noteq> '''' \<and> cp_valid preview"

definition payloadOf :: "schedule_form \<Rightarrow> ScheduleInput" where
  "payloadOf f =
     \<lparr>si_projectId = sf_projectId f, si_name = Some (trim (sf_name f)), si_command = Some (sf_command f),
      si_selector = or_null (trim (sf_selector f)), si_target = or_null (trim (sf_target f)),
      si_cron = trim (sf_cron f), si_isActive = Some (sf_isActive f),
      si_webhookUrl = or_null (trim (sf_webhookUrl f)), si_publishSchema = or_null (trim (sf_publishSchema f))\<rparr>"

subsection \<open>The page\<close>

record schedules_page =
  sp_schedules :: "schedule_row table"
  sp_projects :: "(string \<times> string) list"
  sp_loading :: bool
  sp_error :: "string option"
  sp_notice :: "string option"
  sp_dialogOpen :: bool
  sp_editing :: "(string \<times> schedule_row) option"
  sp_toDelete :: "(string \<times> schedule_row) option"
  sp_busyId :: "string option"

definition load :: "ctx \<Rightarrow> schedules_page \<times> db \<Rightarrow> schedules_page \<times> db" where
  "load c ps =
     (case ps of (page, s) \<Rightarrow>
        (case schedules_GET c None s of
           (Response st (Inr (ScheduleList scheduleRows)), s1) \<Rightarrow>
             (case projects_GET c None None s1 of
                (Response st' (Inr (ProjectList projectRows)), s2) \<Rightarrow>
                  (page\<lparr>sp_error := None, sp_schedules := scheduleRows,
                        sp_projects := map (\<lambda>(k, r). (k, pj_name r)) projectRows, sp_loading := False\<rparr>, s2)
              | (Response st' (Inl e), s2) \<Rightarrow> (page\<lparr>sp_error := Some e, sp_loading := False\<rparr>, s2)
              | (_, s2) \<Rightarrow> (page\<lparr>sp_error := None, sp_loading := False\<rparr>, s2))
         | (Response st (Inl e), s1) \<Rightarrow> (page\<lparr>sp_error := Some e, sp_loading := False\<rparr>, s1)
         | (_, s1) \<Rightarrow> (page\<lparr>sp_error := None, sp_loading := False\<rparr>, s1)))"

text \<open>What a pause or resume sends. The publish schema is not among it.\<close>

definition toggleInput :: "schedule_row \<Rightarrow> ScheduleInput" where
  "toggleInput schedule =
     \<lparr>si_projectId = sc_projectId schedule, si_name = Some (sc_name schedule), si_command = Some (sc_command schedule),
      si_selector = sc_selector schedule, si_target = sc_target schedule, si_cron = sc_cron schedule,
      si_isActive = Some (\<not> sc_isActive schedule), si_webhookUrl = sc_webhookUrl schedule, si_publishSchema = None\<rparr>"

definition toggleActive :: "ctx \<Rightarrow> string \<times> schedule_row \<Rightarrow> schedules_page \<times> db \<Rightarrow> schedules_page \<times> db" where
  "toggleActive c schedule ps =
     (case ps of (page, s) \<Rightarrow>
        (case schedules_PATCH c (Some (fst schedule)) (toggleInput (snd schedule)) s of
           (Response st (Inr b), s') \<Rightarrow>
             (case load c (page\<lparr>sp_error := None\<rparr>, s') of (page', s'') \<Rightarrow> (page'\<lparr>sp_busyId := None\<rparr>, s''))
         | (Response st (Inl e), s') \<Rightarrow> (page\<lparr>sp_error := Some e, sp_busyId := None\<rparr>, s')))"

record start_request =
  sr_project_id :: string
  sr_command :: string
  sr_selector :: "string option"
  sr_target :: "string option"

definition runNowRequest :: "schedule_row \<Rightarrow> start_request" where
  "runNowRequest schedule =
     \<lparr>sr_project_id = sc_projectId schedule,
      sr_command = (if sc_command schedule = ''source_freshness'' then ''source freshness'' else sc_command schedule),
      sr_selector = sc_selector schedule, sr_target = sc_target schedule\<rparr>"

definition runNow :: "schedule_row \<Rightarrow> string + unit \<Rightarrow> schedules_page \<Rightarrow> schedules_page" where
  "runNow schedule answer page =
     (case answer of
        Inr _ \<Rightarrow> page\<lparr>sp_error := None, sp_busyId := None,
          sp_notice := Some (''Started '' @ sc_name schedule @ ''. Follow it in Runs.'')\<rparr>
      | Inl e \<Rightarrow> page\<lparr>sp_error := Some e, sp_notice := None, sp_busyId := None\<rparr>)"

definition handleDelete :: "ctx \<Rightarrow> schedules_page \<times> db \<Rightarrow> schedules_page \<times> db" where
  "handleDelete c ps =
     (case ps of (page, s) \<Rightarrow>
        (case sp_toDelete page of
           None \<Rightarrow> (page, s)
         | Some schedule \<Rightarrow>
             (case schedules_DELETE c (Some (fst schedule)) s of
                (Response st (Inr b), s') \<Rightarrow>
                  (case load c (page\<lparr>sp_toDelete := None\<rparr>, s') of (page', s'') \<Rightarrow> (page'\<lparr>sp_busyId := None\<rparr>, s''))
              | (Response st (Inl e), s') \<Rightarrow> (page\<lparr>sp_error := Some e, sp_busyId := None\<rparr>, s'))))"

text \<open>Saving the dialog: an error stays in the dialog, success reloads the page and closes it.\<close>

definition handleSave ::
  "ctx \<Rightarrow> schedule_form \<Rightarrow> schedules_page \<times> db \<Rightarrow> string option \<times> (schedules_page \<times> db)" where
  "handleSave c f ps =
     (case ps of (page, s) \<Rightarrow>
        let answer = (case sp_editing page of
              Some schedule \<Rightarrow> schedules_PATCH c (Some (fst schedule)) (payloadOf f) s
            | None \<Rightarrow> schedules_POST c (payloadOf f) s)
        in case answer of
             (Response st (Inr b), s') \<Rightarrow>
               (case load c (page, s') of (page', s'') \<Rightarrow> (None, (page'\<lparr>sp_dialogOpen := False\<rparr>, s'')))
           | (Response st (Inl e), s') \<Rightarrow> (Some e, (page, s')))"

section \<open>Lemmas\<close>

text \<open>A schedule as the database has it: its fields are what validation makes of them.\<close>

definition inputOf :: "schedule_row \<Rightarrow> ScheduleInput" where
  "inputOf r = (toggleInput r)\<lparr>si_isActive := Some (sc_isActive r), si_publishSchema := sc_publishSchema r\<rparr>"

definition cleanOf :: "schedule_row \<Rightarrow> CleanSchedule" where
  "cleanOf r = \<lparr>cl_name = sc_name r, cl_command = sc_command r, cl_selector = sc_selector r, cl_target = sc_target r,
     cl_cron = sc_cron r, cl_webhookUrl = sc_webhookUrl r, cl_publishSchema = sc_publishSchema r\<rparr>"

definition stored_ok :: "schedule_row \<Rightarrow> bool" where
  "stored_ok r \<longleftrightarrow> validateSchedule (inputOf r) = Inr (cleanOf r)"

text \<open>The caller owns the schedule and its live project, and the name is taken by no other schedule.\<close>

definition editable :: "ctx \<Rightarrow> string \<Rightarrow> schedule_row \<Rightarrow> db \<Rightarrow> bool" where
  "editable c rid r s \<longleftrightarrow> rid \<noteq> '''' \<and> findUnique (dbtSchedule s) rid = Some r \<and> stored_ok r \<and>
     actor c s = Some (sc_createdBy r) \<and> liveOwner s (sc_projectId r) = Some (sc_createdBy r) \<and>
     \<not> scheduleNameTaken (sc_projectId r) (sc_name r) (Some rid) s"

text \<open>Whatever is created or updated is stored that way.\<close>

lemma stored_ok_rewrite: "validateSchedule inp = Inr clean \<Longrightarrow> stored_ok (rewriteSchedule inp clean existing)"
  by (simp add: stored_ok_def inputOf_def cleanOf_def toggleInput_def rewriteSchedule_def validateSchedule_Inr)

lemma stored_ok_new: "validateSchedule inp = Inr clean \<Longrightarrow> stored_ok (newSchedule c u inp clean)"
  by (simp add: stored_ok_def inputOf_def cleanOf_def toggleInput_def newSchedule_def validateSchedule_Inr)

lemma patch_editable:
  assumes "editable c rid r s" "validateSchedule inp = Inr clean" "si_projectId inp = sc_projectId r"
    and "cl_name clean = sc_name r"
  shows "schedules_PATCH c (Some rid) inp s =
    (Response 200 (Inr (UpdatedSchedule (Some (rewriteSchedule inp clean r)))),
     s\<lparr>dbtSchedule := updateRow rid (rewriteSchedule inp clean) (dbtSchedule s)\<rparr>)"
  using assms
  by (simp add: editable_def schedules_PATCH_def truthy_def respond_def updateSchedule_def handler_simps table_simps)

lemma trim_or_null_cases: "or_null (trim (nullish x '''')) = trim_or_null x"
  by (cases x) (simp_all add: trim_or_null_def nullish_def or_null_def)

lemma payload_openForm: "stored_ok r \<Longrightarrow> payloadOf (openForm (Some r) projects) = inputOf r"
  by (simp add: stored_ok_def validateSchedule_Inr payloadOf_def openForm_def inputOf_def cleanOf_def toggleInput_def
      trim_or_null_cases)

lemma rewrite_same: "rewriteSchedule (inputOf r) (cleanOf r) r = r"
  by (simp add: rewriteSchedule_def inputOf_def cleanOf_def toggleInput_def)

lemma toggle_valid:
  "stored_ok r \<Longrightarrow> validateSchedule (toggleInput r) = Inr ((cleanOf r)\<lparr>cl_publishSchema := None\<rparr>)"
proof -
  have none: "trim_or_null None = None" by (simp add: trim_or_null_def)
  assume ok: "stored_ok r"
  then have "trim (sc_name r) = sc_name r" "trim_or_null (sc_selector r) = sc_selector r"
    "trim_or_null (sc_target r) = sc_target r" "trim (sc_cron r) = sc_cron r"
    "trim_or_null (sc_webhookUrl r) = sc_webhookUrl r"
    unfolding stored_ok_def validateSchedule_Inr by (auto simp: inputOf_def cleanOf_def toggleInput_def)
  then show ?thesis
    using ok by (simp add: stored_ok_def validateSchedule_Inr inputOf_def cleanOf_def toggleInput_def none)
qed

lemma rewrite_toggled:
  "rewriteSchedule (toggleInput r) ((cleanOf r)\<lparr>cl_publishSchema := None\<rparr>) r =
     r\<lparr>sc_isActive := \<not> sc_isActive r, sc_publishSchema := None\<rparr>"
  by (simp add: rewriteSchedule_def cleanOf_def toggleInput_def)

lemma load_keeps: "load c (page, s) = (page', s') \<Longrightarrow> s' = s"
  by (auto simp: load_def schedules_GET_def projects_GET_def respond_def truthy_def getSchedules_def getProjects_def
      handler_simps split: prod.splits sum.splits option.splits schedules_body.splits projects_body.splits response.splits)

section \<open>Properties\<close>

text \<open>
  C15. Pausing or resuming a schedule from the list flips its active flag and keeps everything else, the
  due time included, except the publish schema: the request leaves it out and the route stores none.
\<close>

theorem toggle_drops_publish_schema:
  assumes "editable c rid r s"
  shows "\<exists>page' s'. toggleActive c (rid, r) (page, s) = (page', s') \<and>
     findUnique (dbtSchedule s') rid = Some (r\<lparr>sc_isActive := \<not> sc_isActive r, sc_publishSchema := None\<rparr>) \<and>
     (\<forall>k. k \<noteq> rid \<longrightarrow> findUnique (dbtSchedule s') k = findUnique (dbtSchedule s) k) \<and>
     s'\<lparr>dbtSchedule := dbtSchedule s\<rparr> = s"
proof -
  let ?s' = "s\<lparr>dbtSchedule := updateRow rid (rewriteSchedule (toggleInput r) ((cleanOf r)\<lparr>cl_publishSchema := None\<rparr>))
    (dbtSchedule s)\<rparr>"
  have r: "stored_ok r" "findUnique (dbtSchedule s) rid = Some r" using assms by (simp_all add: editable_def)
  have "schedules_PATCH c (Some rid) (toggleInput r) s =
      (Response 200 (Inr (UpdatedSchedule (Some (r\<lparr>sc_isActive := \<not> sc_isActive r, sc_publishSchema := None\<rparr>)))), ?s')"
    using patch_editable [OF assms toggle_valid [OF r(1)]] rewrite_toggled [of r]
    by (simp add: toggleInput_def cleanOf_def)
  moreover obtain page' where "load c (page\<lparr>sp_error := None\<rparr>, ?s') = (page', ?s')"
    using load_keeps [of c "page\<lparr>sp_error := None\<rparr>" ?s'] by (metis surj_pair)
  ultimately show ?thesis
    using r(2) rewrite_toggled [of r] by (auto simp: toggleActive_def table_simps)
qed

text \<open>
  C29. Opening the dialog of a schedule and saving it as it is leaves every schedule as it was, its
  publish schema, active flag and due time included.
\<close>

theorem dialog_saves_unchanged:
  assumes "editable c rid r s" "sp_editing page = Some (rid, r)"
  shows "\<exists>page' s'. handleSave c (openForm (Some r) projects) (page, s) = (None, (page', s')) \<and>
     (\<forall>k. findUnique (dbtSchedule s') k = findUnique (dbtSchedule s) k) \<and> s'\<lparr>dbtSchedule := dbtSchedule s\<rparr> = s"
proof -
  let ?s' = "s\<lparr>dbtSchedule := updateRow rid (rewriteSchedule (inputOf r) (cleanOf r)) (dbtSchedule s)\<rparr>"
  have r: "stored_ok r" "findUnique (dbtSchedule s) rid = Some r" using assms(1) by (simp_all add: editable_def)
  have "schedules_PATCH c (Some rid) (inputOf r) s = (Response 200 (Inr (UpdatedSchedule (Some r))), ?s')"
    using patch_editable [OF assms(1), of "inputOf r" "cleanOf r"] r(1) rewrite_same [of r]
    by (simp add: stored_ok_def inputOf_def cleanOf_def toggleInput_def)
  moreover obtain page' where "load c (page, ?s') = (page', ?s')"
    using load_keeps [of c page ?s'] by (metis surj_pair)
  ultimately show ?thesis
    using r assms(2) rewrite_same [of r] by (auto simp: handleSave_def payload_openForm table_simps)
qed

definition demo_row :: schedule_row where
  "demo_row = \<lparr>sc_projectId = ''p1'', sc_name = ''nightly'', sc_command = ''run'', sc_selector = None,
     sc_target = None, sc_cron = ''0 3 * * *'', sc_isActive = True, sc_webhookUrl = None,
     sc_publishSchema = Some ''mart'', sc_nextRunAt = Some 99, sc_createdBy = demo_user, sc_createdAt = 1\<rparr>"

definition demo_row_db :: db where
  "demo_row_db = demo_db\<lparr>dbtSchedule := [(''s1'', demo_row)]\<rparr>"

definition demo_schedules_page :: schedules_page where
  "demo_schedules_page = \<lparr>sp_schedules = [(''s1'', demo_row)], sp_projects = [(''p1'', ''p'')], sp_loading = False,
     sp_error = None, sp_notice = None, sp_dialogOpen = False, sp_editing = Some (''s1'', demo_row), sp_toDelete = None,
     sp_busyId = None\<rparr>"

lemma demo_editable: "editable demo_ctx ''s1'' demo_row demo_row_db"
proof -
  have "stored_ok demo_row" by code_simp
  moreover have "actor demo_ctx demo_row_db = Some demo_user" "liveOwner demo_row_db ''p1'' = Some demo_user"
    "\<not> scheduleNameTaken ''p1'' ''nightly'' (Some ''s1'') demo_row_db"
    by code_simp+
  ultimately show ?thesis
    by (simp add: editable_def demo_row_def demo_row_db_def findUnique_def)
qed

theorem toggle_drops_publish_schema_witness:
  "\<exists>page' s' r'. toggleActive demo_ctx (''s1'', demo_row) (demo_schedules_page, demo_row_db) = (page', s') \<and>
     sc_publishSchema demo_row = Some ''mart'' \<and>
     findUnique (dbtSchedule s') ''s1'' = Some r' \<and> \<not> sc_isActive r' \<and> sc_publishSchema r' = None"
  using toggle_drops_publish_schema [OF demo_editable, of demo_schedules_page] by (auto simp: demo_row_def)

theorem dialog_saves_unchanged_witness:
  "\<exists>page' s'. handleSave demo_ctx (openForm (Some demo_row) []) (demo_schedules_page, demo_row_db) = (None, (page', s')) \<and>
     findUnique (dbtSchedule s') ''s1'' = Some demo_row"
  using dialog_saves_unchanged [OF demo_editable, of demo_schedules_page "[]"]
  by (auto simp: demo_schedules_page_def demo_row_db_def findUnique_def)

text \<open>The command of a scheduled operation is started under its stored name, not the one of the command line.\<close>

lemma run_operation_started_as_stored:
  "sc_command r = ''run_operation'' \<Longrightarrow> sr_command (runNowRequest r) = ''run_operation''"
  by (simp add: runNowRequest_def)

end
