(* ===== verification/Ingest_Dialog.thy ===== *)
theory Ingest_Dialog
  imports Ingest
begin

text \<open>
  The wizard that creates and edits an ingest source (\<open>features/ingest/components/SourceDialog.tsx\<close> with
  the fields of \<open>RestSourceFields.tsx\<close> and \<open>FileSourceFields.tsx\<close>), on the model of the validation and the
  rows of \<open>Ingest\<close>. An event is one input of the user or one answer; a field can be edited only on the
  step that shows it. What the services answer is part of the event.
\<close>

section \<open>Definitions\<close>

subsection \<open>The configuration of a source\<close>

record rest_resource =
  rr_name :: string
  rr_path :: "string option"
  rr_data_selector :: "string option"
  rr_params :: "int obj option"
  rr_incremental_param :: "string option"

record rest_paginator =
  pg_type :: "string option"
  pg_limit :: "int json option"

text \<open>One object holds the fields of either kind; a field that was never set is absent.\<close>

record source_config =
  cf_bucket_url :: "string option"
  cf_file_glob :: "string option"
  cf_format :: "string option"
  cf_base_url :: "string option"
  cf_paginator :: "rest_paginator option"
  cf_resources :: "rest_resource list option"

definition emptyConfig :: source_config where
  "emptyConfig = \<lparr>cf_bucket_url = None, cf_file_glob = None, cf_format = None, cf_base_url = None,
     cf_paginator = None, cf_resources = None\<rparr>"

text \<open>The fields of a stored configuration, as the casts of the form read them.\<close>

definition strField :: "int obj \<Rightarrow> string \<Rightarrow> string option" where
  "strField kvs k = (case map_of kvs k of Some (JStr s) \<Rightarrow> Some s | _ \<Rightarrow> None)"

definition readResource :: "int json \<Rightarrow> rest_resource" where
  "readResource r =
     (let kvs = (case r of JObj kvs \<Rightarrow> kvs | _ \<Rightarrow> []) in
      \<lparr>rr_name = nullish (strField kvs ''name'') '''', rr_path = strField kvs ''path'',
       rr_data_selector = strField kvs ''data_selector'',
       rr_params = (case map_of kvs ''params'' of Some (JObj ps) \<Rightarrow> Some ps | _ \<Rightarrow> None),
       rr_incremental_param = strField kvs ''incremental_param''\<rparr>)"

definition readPaginator :: "int json \<Rightarrow> rest_paginator option" where
  "readPaginator p =
     (case p of
        JObj kvs \<Rightarrow> Some \<lparr>pg_type = strField kvs ''type'', pg_limit = map_of kvs ''limit''\<rparr>
      | _ \<Rightarrow> None)"

definition readConfig :: "int obj \<Rightarrow> source_config" where
  "readConfig kvs =
     \<lparr>cf_bucket_url = strField kvs ''bucket_url'', cf_file_glob = strField kvs ''file_glob'',
      cf_format = strField kvs ''format'', cf_base_url = strField kvs ''base_url'',
      cf_paginator = Option.bind (map_of kvs ''paginator'') readPaginator,
      cf_resources = (case map_of kvs ''resources'' of Some (JArr rs) \<Rightarrow> Some (map readResource rs) | _ \<Rightarrow> None)\<rparr>"

text \<open>A property whose value is \<open>undefined\<close> is not sent.\<close>

definition optField :: "string \<Rightarrow> 'v option \<Rightarrow> (string \<times> 'v) list" where
  "optField k v = (case v of None \<Rightarrow> [] | Some x \<Rightarrow> [(k, x)])"

definition paginatorJson :: "rest_paginator \<Rightarrow> int json" where
  "paginatorJson p = JObj (optField ''type'' (map_option JStr (pg_type p)) @ optField ''limit'' (pg_limit p))"

definition resourceJson :: "rest_resource \<Rightarrow> int json" where
  "resourceJson r = JObj
     (optField ''name'' (Some (JStr (rr_name r))) @ optField ''path'' (map_option JStr (rr_path r)) @
      optField ''data_selector'' (map_option JStr (rr_data_selector r)) @
      optField ''params'' (map_option JObj (rr_params r)) @
      optField ''incremental_param'' (map_option JStr (rr_incremental_param r)))"

text \<open>\<open>new Map(rs.map(r => [r.name, r])).get(t)\<close>: of two resources of one name the last counts.\<close>

definition byName :: "source_config \<Rightarrow> string \<Rightarrow> rest_resource option" where
  "byName config = map_of (rev (map (\<lambda>r. (rr_name r, r)) (nullish (cf_resources config) [])))"

definition bareResource :: "string \<Rightarrow> rest_resource" where
  "bareResource table = \<lparr>rr_name = table, rr_path = None, rr_data_selector = None, rr_params = None,
     rr_incremental_param = None\<rparr>"

text \<open>A resource as it is sent: blank fields are left out, the path is the name when there is none.\<close>

definition sentResource :: "bool \<Rightarrow> rest_resource \<Rightarrow> rest_resource" where
  "sentResource cursor r =
     \<lparr>rr_name = rr_name r, rr_path = Some (or_str (nullish (rr_path r) '''') (rr_name r)),
      rr_data_selector = Option.bind (rr_data_selector r) or_null,
      rr_params = (case rr_params r of Some (kv # kvs) \<Rightarrow> Some (kv # kvs) | _ \<Rightarrow> None),
      rr_incremental_param = (if cursor then Option.bind (rr_incremental_param r) or_null else None)\<rparr>"

subsection \<open>The dialog\<close>

record ingest_dialog =
  id_existing :: "(string \<times> ingest_row) option"
  id_lakehouseConfigured :: bool
  id_fileRoots :: "string list"
  id_open :: bool
  id_step :: nat
  id_projects :: "(string \<times> string option) list"
  id_projectId :: string
  id_connectionId :: string
  id_name :: string
  id_dataset :: string
  id_tables :: "string list"
  id_tableInput :: string
  id_available :: "string list option"
  id_loadingTables :: bool
  id_sourceType :: string
  id_config :: source_config
  id_cursorField :: string
  id_cursorInitial :: string
  id_destination :: string
  id_writeDisposition :: string
  id_primaryKey :: string
  id_partitionBy :: string
  id_saving :: bool
  id_creatingLake :: bool
  id_error :: "string option"

text \<open>What the effect on \<open>open\<close>, \<open>existing\<close> and \<open>lakehouseConfigured\<close> puts into the form.\<close>

definition formField :: "ingest_dialog \<Rightarrow> (ingest_row \<Rightarrow> 'a) \<Rightarrow> 'a \<Rightarrow> 'a" where
  "formField d f e = (case id_existing d of Some (k, r) \<Rightarrow> f r | None \<Rightarrow> e)"

definition openIngest :: "ingest_dialog \<Rightarrow> ingest_dialog" where
  "openIngest d =
     d\<lparr>id_step := 0, id_projectId := formField d in_projectId '''',
       id_connectionId := formField d (\<lambda>r. nullish (in_sourceConnectionId r) '''') '''',
       id_name := formField d in_name '''', id_dataset := formField d in_dataset '''',
       id_tables := formField d in_tables [],
       id_sourceType := formField d in_sourceType ''sql_database'',
       id_config := formField d (\<lambda>r. readConfig (nullish (in_sourceConfig r) [])) emptyConfig,
       id_cursorField := formField d (\<lambda>r. nullish (in_cursorField r) '''') '''',
       id_cursorInitial := formField d (\<lambda>r. nullish (in_cursorInitialValue r) '''') '''',
       id_destination := formField d in_destination
         (if id_lakehouseConfigured d then ''ducklake'' else ''connection''),
       id_writeDisposition := formField d in_writeDisposition ''append'',
       id_primaryKey := join '', '' (formField d (\<lambda>r. nullish (in_primaryKey r) []) []),
       id_partitionBy := join '', '' (formField d (\<lambda>r. nullish (in_partitionBy r) []) []),
       id_available := None, id_tableInput := ''''\<rparr>"

definition datasetValid :: "ingest_dialog \<Rightarrow> bool" where
  "datasetValid d = rx_match DATASET_PATTERN (id_dataset d)"

definition selectedProject :: "ingest_dialog \<Rightarrow> (string \<times> string option) option" where
  "selectedProject d = find (\<lambda>p. fst p = id_projectId d) (id_projects d)"

definition lakeUnavailable :: "ingest_dialog \<Rightarrow> bool" where
  "lakeUnavailable d \<longleftrightarrow> id_destination d = ''ducklake'' \<and>
     (case selectedProject d of None \<Rightarrow> False | Some p \<Rightarrow> \<not> truthy (snd p))"

definition normalisedSourceConfig :: "ingest_dialog \<Rightarrow> int obj" where
  "normalisedSourceConfig d =
     (let config = id_config d in
      if id_sourceType d = ''filesystem'' then
        [(''bucket_url'', JStr (nullish (cf_bucket_url config) '''')),
         (''file_glob'', JStr (or_str (nullish (cf_file_glob config) '''') ''*'')),
         (''format'', JStr (nullish (cf_format config) ''csv''))]
      else
        [(''base_url'', JStr (trim (nullish (cf_base_url config) ''''))),
         (''paginator'', paginatorJson (nullish (cf_paginator config) \<lparr>pg_type = Some ''auto'', pg_limit = None\<rparr>)),
         (''resources'', JArr (map (\<lambda>t. resourceJson (sentResource (trim (id_cursorField d) \<noteq> '''')
            (nullish (byName config t) (bareResource t)))) (id_tables d)))])"

definition addTable :: "string \<Rightarrow> ingest_dialog \<Rightarrow> ingest_dialog" where
  "addTable v d =
     (let trimmed = trim v in
      d\<lparr>id_tables := (if trimmed \<noteq> '''' \<and> trimmed \<notin> set (id_tables d) then id_tables d @ [trimmed] else id_tables d),
        id_tableInput := ''''\<rparr>)"

text \<open>The pieces of a comma-separated field.\<close>

definition pieces :: "string \<Rightarrow> string list" where
  "pieces s = filter (\<lambda>t. t \<noteq> '''') (map trim (split_on CHR '','' s))"

definition offsetUnlimited :: "source_config \<Rightarrow> bool" where
  "offsetUnlimited config \<longleftrightarrow>
     nullish (Option.bind (cf_paginator config) pg_type) ''auto'' = ''offset'' \<and>
     trim (StringOr (Option.bind (cf_paginator config) pg_limit) '''') = ''''"

text \<open>Why \<open>Continue\<close> is refused on the first and on the second step.\<close>

definition stepProblem :: "ingest_dialog \<Rightarrow> string option" where
  "stepProblem d =
     (let config = id_config d in
      if id_step d = 0 then
        if id_sourceType d = ''sql_database'' \<and> id_connectionId d = '''' then Some ''Choose a source connection''
        else if id_tables d = [] then Some ''Select at least one table or resource''
        else if id_sourceType d = ''filesystem'' \<and> id_fileRoots d = [] then
          Some ''File access is not configured for this workspace''
        else if id_sourceType d = ''filesystem'' \<and> length (id_tables d) \<noteq> 1 then
          Some ''File loads write to one destination table''
        else if id_sourceType d = ''filesystem'' \<and> trim (nullish (cf_bucket_url config) '''') = '''' then
          Some ''Choose a directory to read from''
        else if id_sourceType d = ''rest_api'' \<and> trim (nullish (cf_base_url config) '''') = '''' \<and> id_connectionId d = '''' then
          Some ''Enter an API base URL or choose a connection''
        else if id_sourceType d = ''rest_api'' \<and> offsetUnlimited config then
          Some ''The offset paginator needs a records-per-page value''
        else None
      else if id_step d = 1 then
        if id_projectId d = '''' then Some ''Choose a project''
        else if trim (id_name d) = '''' then Some ''Give this load a name''
        else if \<not> datasetValid d then Some ''Schema must start with a lowercase letter and contain only lowercase letters, digits and underscores''
        else if id_destination d = ''ducklake'' \<and> \<not> id_lakehouseConfigured d then Some ''Choose an available destination''
        else if lakeUnavailable d then Some ''This project has no lakehouse attached. Attach one, or load into the project's own warehouse.''
        else None
      else None)"

definition nextStep :: "ingest_dialog \<Rightarrow> ingest_dialog" where
  "nextStep d =
     (case stepProblem d of
        Some e \<Rightarrow> d\<lparr>id_error := Some e\<rparr>
      | None \<Rightarrow> d\<lparr>id_error := None, id_step := Suc (id_step d)\<rparr>)"

text \<open>Why a save is refused before anything is sent.\<close>

definition saveProblem :: "ingest_dialog \<Rightarrow> string option" where
  "saveProblem d =
     (let config = id_config d; cursor = trim (id_cursorField d);
          rest = (id_sourceType d = ''rest_api'');
          cursorPattern = (if rest then JSON_CURSOR_PATTERN else CURSOR_PATTERN)
      in
      if id_projectId d = '''' then Some ''Choose a project''
      else if id_sourceType d = ''sql_database'' \<and> id_connectionId d = '''' then
        Some ''A database source needs a connection to read from''
      else if \<not> datasetValid d then
        Some ''Dataset must start with a letter and use only lowercase letters, digits and underscores''
      else if id_tables d = [] then Some ''Add at least one table''
      else if lakeUnavailable d then
        Some ''This project has no lakehouse attached. Attach one, or load into the project's own warehouse.''
      else if id_writeDisposition d = ''merge'' \<and> trim (id_primaryKey d) = '''' then Some ''Merge needs a primary key''
      else if cursor \<noteq> '''' \<and> \<not> rx_match cursorPattern cursor then
        Some (if rest then ''Invalid cursor '' @ quoted cursor @ '': use field names separated by dots''
              else ''Invalid cursor field '' @ quoted cursor @ '': it must be a column name'')
      else if id_sourceType d = ''filesystem'' \<and> length (id_tables d) \<noteq> 1 then
        Some ''A filesystem source loads one directory into one table''
      else if id_sourceType d = ''filesystem'' \<and> trim (nullish (cf_bucket_url config) '''') = '''' then
        Some ''Choose a directory to read from''
      else if rest \<and> trim (nullish (cf_base_url config) '''') = '''' \<and> id_connectionId d = '''' then
        Some ''A REST source needs a base URL, or a connection that carries one''
      else if rest \<and> offsetUnlimited config then Some ''The offset paginator needs a records-per-page value''
      else
        (case find (\<lambda>t. \<not> rx_match PARTITION_TERM_PATTERN t) (pieces (id_partitionBy d)) of
           Some t \<Rightarrow> Some (''Invalid partition term '' @ quoted t @ '': use a column, or year/month/day/hour(column)'')
         | None \<Rightarrow> None))"

definition ingestPayload :: "ingest_dialog \<Rightarrow> IngestSourceInput" where
  "ingestPayload d =
     \<lparr>ii_projectId = id_projectId d,
      ii_sourceConnectionId = (if id_sourceType d = ''filesystem'' then None else or_null (id_connectionId d)),
      ii_sourceType = Some (id_sourceType d), ii_name = Some (id_name d), ii_dataset = Some (id_dataset d),
      ii_tables = Some (id_tables d),
      ii_sourceConfig = (if id_sourceType d = ''sql_database'' then None else Some (normalisedSourceConfig d)),
      ii_cursorField = or_null (trim (id_cursorField d)), ii_cursorInitialValue = or_null (trim (id_cursorInitial d)),
      ii_destination = Some (id_destination d), ii_writeDisposition = Some (id_writeDisposition d),
      ii_primaryKey = Some (pieces (id_primaryKey d)),
      ii_partitionBy = Some (if id_destination d = ''ducklake'' then pieces (id_partitionBy d) else [])\<rparr>"

subsection \<open>Events\<close>

datatype ingest_event =
    OpenDialog "(string \<times> ingest_row) option"
  | CloseDialog
  | MetaLoaded bool "string list"
  | FormData "string + (string \<times> string option) list"
  | ChooseType string
  | ChooseConnection string
  | TypeTable string
  | AddTable string
  | RemoveTable string
  | Browse
  | TablesAnswer "string + string list"
  | TypeDirectory string
  | TypeGlob string
  | ChooseFormat string
  | TypeBaseUrl string
  | ChoosePaginator string
  | TypeLimit string
  | TypePath string string
  | TypeSelector string string
  | ChooseProject string
  | ChooseDestination string
  | TypeName string
  | TypeDataset string
  | CreateLake
  | LakeAnswer "string + (string \<times> string option) list"
  | ChooseDisposition string
  | TypeCursor string
  | TypeInitial string
  | TypeIncremental string string
  | TypePrimaryKey string
  | TypePartition string
  | Continue
  | Back
  | Save
  | SaveAnswer "string + unit"

text \<open>Whether the input of an event is on the screen and enabled.\<close>

definition onStep :: "nat \<Rightarrow> ingest_dialog \<Rightarrow> bool" where
  "onStep n d \<longleftrightarrow> id_open d \<and> id_step d = n"

definition typed :: "string \<Rightarrow> ingest_dialog \<Rightarrow> bool" where
  "typed st d \<longleftrightarrow> id_sourceType d = st"

fun shown :: "ingest_event \<Rightarrow> ingest_dialog \<Rightarrow> bool" where
  "shown (OpenDialog row) d \<longleftrightarrow> \<not> id_open d"
| "shown CloseDialog d \<longleftrightarrow> id_open d \<and> \<not> id_saving d"
| "shown (MetaLoaded configured roots) d \<longleftrightarrow> True"
| "shown (FormData answer) d \<longleftrightarrow> True"
| "shown (ChooseType st) d \<longleftrightarrow> onStep 0 d \<and> id_existing d = None \<and> st \<in> set SOURCE_TYPES"
| "shown (ChooseConnection k) d \<longleftrightarrow> onStep 0 d \<and> \<not> typed ''filesystem'' d"
| "shown (TypeTable v) d \<longleftrightarrow> onStep 0 d"
| "shown (AddTable v) d \<longleftrightarrow> onStep 0 d"
| "shown (RemoveTable t) d \<longleftrightarrow> onStep 0 d"
| "shown Browse d \<longleftrightarrow> onStep 0 d \<and> typed ''sql_database'' d \<and> \<not> id_loadingTables d \<and> id_connectionId d \<noteq> ''''"
| "shown (TablesAnswer answer) d \<longleftrightarrow> id_loadingTables d"
| "shown (TypeDirectory v) d \<longleftrightarrow> onStep 0 d \<and> typed ''filesystem'' d"
| "shown (TypeGlob v) d \<longleftrightarrow> onStep 0 d \<and> typed ''filesystem'' d"
| "shown (ChooseFormat v) d \<longleftrightarrow> onStep 0 d \<and> typed ''filesystem'' d \<and> v \<in> set FILE_FORMATS"
| "shown (TypeBaseUrl v) d \<longleftrightarrow> onStep 0 d \<and> typed ''rest_api'' d"
| "shown (ChoosePaginator v) d \<longleftrightarrow> onStep 0 d \<and> typed ''rest_api'' d"
| "shown (TypeLimit v) d \<longleftrightarrow> onStep 0 d \<and> typed ''rest_api'' d \<and>
     nullish (Option.bind (cf_paginator (id_config d)) pg_type) ''auto'' = ''offset''"
| "shown (TypePath t v) d \<longleftrightarrow> onStep 0 d \<and> typed ''rest_api'' d \<and> t \<in> set (id_tables d)"
| "shown (TypeSelector t v) d \<longleftrightarrow> onStep 0 d \<and> typed ''rest_api'' d \<and> t \<in> set (id_tables d)"
| "shown (ChooseProject k) d \<longleftrightarrow> onStep 1 d \<and> id_existing d = None"
| "shown (ChooseDestination v) d \<longleftrightarrow> onStep 1 d"
| "shown (TypeName v) d \<longleftrightarrow> onStep 1 d"
| "shown (TypeDataset v) d \<longleftrightarrow> onStep 1 d"
| "shown CreateLake d \<longleftrightarrow> onStep 1 d \<and> lakeUnavailable d \<and> \<not> id_creatingLake d"
| "shown (LakeAnswer answer) d \<longleftrightarrow> id_creatingLake d"
| "shown (ChooseDisposition v) d \<longleftrightarrow> onStep 2 d \<and> v \<in> set WRITE_DISPOSITIONS"
| "shown (TypeCursor v) d \<longleftrightarrow> onStep 2 d"
| "shown (TypeInitial v) d \<longleftrightarrow> onStep 2 d \<and> trim (id_cursorField d) \<noteq> ''''"
| "shown (TypeIncremental t v) d \<longleftrightarrow> onStep 2 d \<and> typed ''rest_api'' d \<and> trim (id_cursorField d) \<noteq> '''' \<and>
     t \<in> set (id_tables d)"
| "shown (TypePrimaryKey v) d \<longleftrightarrow> onStep 2 d \<and> id_writeDisposition d = ''merge''"
| "shown (TypePartition v) d \<longleftrightarrow> onStep 2 d \<and> id_destination d = ''ducklake''"
| "shown Continue d \<longleftrightarrow> id_open d \<and> id_step d < 2"
| "shown Back d \<longleftrightarrow> id_open d \<and> id_step d > 0 \<and> \<not> id_saving d"
| "shown Save d \<longleftrightarrow> onStep 2 d \<and> \<not> id_saving d"
| "shown (SaveAnswer answer) d \<longleftrightarrow> id_saving d"

text \<open>One endpoint per table; the patch goes to the named one.\<close>

definition updateResource :: "string \<Rightarrow> (rest_resource \<Rightarrow> rest_resource) \<Rightarrow> ingest_dialog \<Rightarrow> source_config" where
  "updateResource name patch d =
     (id_config d)\<lparr>cf_resources := Some (map (\<lambda>t. (if t = name then patch else id)
        (nullish (byName (id_config d) t) (bareResource t))) (id_tables d))\<rparr>"

definition setIncremental :: "string \<Rightarrow> string \<Rightarrow> source_config \<Rightarrow> source_config" where
  "setIncremental t v config = config\<lparr>cf_resources := Some (map (\<lambda>r. if rr_name r = t
     then r\<lparr>rr_incremental_param := Some v\<rparr> else r) (nullish (cf_resources config) []))\<rparr>"

text \<open>Only the offset paginator has a limit; its default is 100.\<close>

definition choosePaginator :: "string \<Rightarrow> source_config \<Rightarrow> source_config" where
  "choosePaginator v config = config\<lparr>cf_paginator := Some \<lparr>pg_type = Some v,
     pg_limit = (if v = ''offset'' then
       (case Option.bind (cf_paginator config) pg_limit of
          None \<Rightarrow> Some (JNum 100) | Some JNull \<Rightarrow> Some (JNum 100) | Some l \<Rightarrow> Some l)
       else None)\<rparr>\<rparr>"

fun act :: "ingest_event \<Rightarrow> ingest_dialog \<Rightarrow> ingest_dialog" where
  "act (OpenDialog row) d = openIngest (d\<lparr>id_open := True, id_existing := row, id_error := None\<rparr>)"
| "act CloseDialog d = d\<lparr>id_open := False\<rparr>"
| "act (MetaLoaded configured roots) d =
     (let d' = d\<lparr>id_lakehouseConfigured := configured, id_fileRoots := roots\<rparr> in
      if id_open d \<and> configured \<noteq> id_lakehouseConfigured d then openIngest d' else d')"
| "act (FormData answer) d =
     (case answer of Inr ps \<Rightarrow> d\<lparr>id_projects := ps\<rparr> | Inl e \<Rightarrow> d\<lparr>id_error := Some e\<rparr>)"
| "act (ChooseType st) d =
     d\<lparr>id_sourceType := st, id_tables := [], id_tableInput := '''', id_connectionId := '''', id_config := emptyConfig,
       id_available := None,
       id_error := (if (st = ''rest_api'') \<noteq> typed ''rest_api'' d then None else id_error d)\<rparr>"
| "act (ChooseConnection k) d = d\<lparr>id_tables := [], id_connectionId := k, id_available := None\<rparr>"
| "act (TypeTable v) d = d\<lparr>id_tableInput := v\<rparr>"
| "act (AddTable v) d = addTable v d"
| "act (RemoveTable t) d = d\<lparr>id_tables := filter (\<lambda>x. x \<noteq> t) (id_tables d)\<rparr>"
| "act Browse d = d\<lparr>id_error := None, id_loadingTables := True\<rparr>"
| "act (TablesAnswer answer) d =
     (case answer of
        Inr ts \<Rightarrow> d\<lparr>id_available := Some ts, id_loadingTables := False\<rparr>
      | Inl e \<Rightarrow> d\<lparr>id_error := Some e, id_loadingTables := False\<rparr>)"
| "act (TypeDirectory v) d = d\<lparr>id_config := (id_config d)\<lparr>cf_bucket_url := Some v\<rparr>\<rparr>"
| "act (TypeGlob v) d = d\<lparr>id_config := (id_config d)\<lparr>cf_file_glob := Some v\<rparr>\<rparr>"
| "act (ChooseFormat v) d = d\<lparr>id_config := (id_config d)\<lparr>cf_format := Some v\<rparr>\<rparr>"
| "act (TypeBaseUrl v) d = d\<lparr>id_config := (id_config d)\<lparr>cf_base_url := Some v\<rparr>\<rparr>"
| "act (ChoosePaginator v) d = d\<lparr>id_config := choosePaginator v (id_config d)\<rparr>"
| "act (TypeLimit v) d =
     d\<lparr>id_config := (id_config d)\<lparr>cf_paginator := Some \<lparr>pg_type = Some ''offset'', pg_limit = Some (JStr v)\<rparr>\<rparr>\<rparr>"
| "act (TypePath t v) d = d\<lparr>id_config := updateResource t (\<lambda>r. r\<lparr>rr_path := Some v\<rparr>) d\<rparr>"
| "act (TypeSelector t v) d = d\<lparr>id_config := updateResource t (\<lambda>r. r\<lparr>rr_data_selector := Some v\<rparr>) d\<rparr>"
| "act (ChooseProject k) d = d\<lparr>id_projectId := k\<rparr>"
| "act (ChooseDestination v) d = d\<lparr>id_destination := v\<rparr>"
| "act (TypeName v) d = d\<lparr>id_name := v\<rparr>"
| "act (TypeDataset v) d = d\<lparr>id_dataset := toLowerCase v\<rparr>"
| "act CreateLake d = (if selectedProject d = None then d else d\<lparr>id_creatingLake := True, id_error := None\<rparr>)"
| "act (LakeAnswer answer) d =
     (case answer of
        Inr ps \<Rightarrow> d\<lparr>id_projects := ps, id_creatingLake := False\<rparr>
      | Inl e \<Rightarrow> d\<lparr>id_error := Some e, id_creatingLake := False\<rparr>)"
| "act (ChooseDisposition v) d = d\<lparr>id_writeDisposition := v\<rparr>"
| "act (TypeCursor v) d = d\<lparr>id_cursorField := v\<rparr>"
| "act (TypeInitial v) d = d\<lparr>id_cursorInitial := v\<rparr>"
| "act (TypeIncremental t v) d = d\<lparr>id_config := setIncremental t v (id_config d)\<rparr>"
| "act (TypePrimaryKey v) d = d\<lparr>id_primaryKey := v\<rparr>"
| "act (TypePartition v) d = d\<lparr>id_partitionBy := v\<rparr>"
| "act Continue d = nextStep d"
| "act Back d = d\<lparr>id_error := None, id_step := id_step d - 1\<rparr>"
| "act Save d =
     (case saveProblem d of Some e \<Rightarrow> d\<lparr>id_error := Some e\<rparr> | None \<Rightarrow> d\<lparr>id_error := None, id_saving := True\<rparr>)"
| "act (SaveAnswer answer) d =
     (case answer of
        Inr _ \<Rightarrow> d\<lparr>id_open := False, id_saving := False\<rparr>
      | Inl e \<Rightarrow> d\<lparr>id_error := Some e, id_saving := False\<rparr>)"

text \<open>What a save sends: a new source, or the one that is edited.\<close>

definition saveRequest :: "ingest_dialog \<Rightarrow> (string option \<times> IngestSourceInput) option" where
  "saveRequest d =
     (if saveProblem d = None then Some (map_option fst (id_existing d), ingestPayload d) else None)"

definition closedDialog :: ingest_dialog where
  "closedDialog =
     \<lparr>id_existing = None, id_lakehouseConfigured = False, id_fileRoots = [], id_open = False, id_step = 0, id_projects = [],
      id_projectId = '''', id_connectionId = '''', id_name = '''', id_dataset = '''', id_tables = [], id_tableInput = '''',
      id_available = None, id_loadingTables = False, id_sourceType = ''sql_database'', id_config = emptyConfig,
      id_cursorField = '''', id_cursorInitial = '''', id_destination = ''ducklake'', id_writeDisposition = ''append'',
      id_primaryKey = '''', id_partitionBy = '''', id_saving = False, id_creatingLake = False, id_error = None\<rparr>"

text \<open>A row as the routes store it: every write passed the validation.\<close>

definition stored_ingest :: "ingest_row \<Rightarrow> bool" where
  "stored_ingest r \<longleftrightarrow> (\<exists>inp. validateIngestSource inp = Inr () \<and>
     ((\<exists>c u. r = newIngest c u inp) \<or> (\<exists>r0. r = rewriteIngest inp r0)))"

inductive reachable :: "ingest_dialog \<Rightarrow> bool" where
  start: "reachable closedDialog"
| event: "reachable d \<Longrightarrow> shown e d \<Longrightarrow> (\<And>k r. e = OpenDialog (Some (k, r)) \<Longrightarrow> stored_ingest r) \<Longrightarrow> reachable (act e d)"

section \<open>Lemmas\<close>

subsection \<open>The form at every step\<close>

definition form_ok :: "ingest_dialog \<Rightarrow> bool" where
  "form_ok d \<longleftrightarrow>
     (id_step d \<ge> 2 \<longrightarrow> trim (id_name d) \<noteq> '''') \<and> id_writeDisposition d \<in> set WRITE_DISPOSITIONS \<and>
     id_sourceType d \<in> set SOURCE_TYPES \<and>
     (id_sourceType d = ''filesystem'' \<longrightarrow> nullish (cf_format (id_config d)) ''csv'' \<in> set FILE_FORMATS)"

lemma stored_ingest_fields:
  assumes "stored_ingest r"
  shows "in_writeDisposition r \<in> set WRITE_DISPOSITIONS" "in_sourceType r \<in> set SOURCE_TYPES"
    "in_sourceType r = ''filesystem'' \<Longrightarrow>
       nullish (cf_format (readConfig (nullish (in_sourceConfig r) []))) ''csv'' \<in> set FILE_FORMATS"
proof -
  obtain inp where v: "validateIngestSource inp = Inr ()"
    and r: "in_writeDisposition r = nullish (ii_writeDisposition inp) ''append''" "in_sourceType r = sourceTypeOf inp"
      "in_sourceConfig r = ii_sourceConfig inp"
    using assms by (auto simp: stored_ingest_def newIngest_def rewriteIngest_def)
  note v' = v [unfolded validateIngestSource_Inr]
  show "in_writeDisposition r \<in> set WRITE_DISPOSITIONS"
    using v' r by (auto simp: checkDisposition_def Let_def split: if_splits)
  show "in_sourceType r \<in> set SOURCE_TYPES" using v' r by (auto simp: checkSource_def Let_def split: if_splits)
  show "nullish (cf_format (readConfig (nullish (in_sourceConfig r) []))) ''csv'' \<in> set FILE_FORMATS"
    if "in_sourceType r = ''filesystem''"
  proof -
    let ?cfg = "nullish (ii_sourceConfig inp) []"
    have "StringOr (map_of ?cfg ''format'') ''csv'' \<in> set FILE_FORMATS"
      using v' r that by (auto simp: checkFilesystem_def split: if_splits)
    moreover have "''csv'' \<in> set FILE_FORMATS" by (simp add: FILE_FORMATS_def)
    ultimately show ?thesis
      using r(3) by (auto simp: readConfig_def strField_def StringOr_def split: option.splits json.splits)
  qed
qed

lemma openIngest_ok:
  assumes "\<And>k r. id_existing d = Some (k, r) \<Longrightarrow> stored_ingest r"
  shows "form_ok (openIngest d)"
proof (cases "id_existing d")
  case None
  then show ?thesis
    by (simp add: form_ok_def openIngest_def formField_def WRITE_DISPOSITIONS_def SOURCE_TYPES_def)
next
  case (Some kr)
  then obtain k r where "id_existing d = Some (k, r)" by (cases kr) auto
  then show ?thesis using stored_ingest_fields assms by (simp add: form_ok_def openIngest_def formField_def)
qed

definition dialog_ok :: "ingest_dialog \<Rightarrow> bool" where
  "dialog_ok d \<longleftrightarrow> form_ok d \<and> (\<forall>k r. id_existing d = Some (k, r) \<longrightarrow> stored_ingest r)"

lemma existing_openIngest [simp]: "id_existing (openIngest d) = id_existing d"
  by (simp add: openIngest_def)

lemma existing_nextStep [simp]: "id_existing (nextStep d) = id_existing d"
  by (simp add: nextStep_def split: option.splits)

text \<open>Leaving the second step needs a name.\<close>

lemma nextStep_ok: "form_ok d \<Longrightarrow> id_step d < 2 \<Longrightarrow> form_ok (nextStep d)"
proof -
  assume ok: "form_ok d" and s: "id_step d < 2"
  show ?thesis
  proof (cases "stepProblem d")
    case None
    have "trim (id_name d) \<noteq> ''''" if "id_step d = 1"
      using None that by (auto simp: stepProblem_def Let_def split: if_splits)
    then show ?thesis using None ok s by (auto simp: nextStep_def form_ok_def)
  qed (use ok in \<open>simp add: nextStep_def form_ok_def\<close>)
qed

lemma act_ok:
  assumes "dialog_ok d" "shown e d" "\<And>k r. e = OpenDialog (Some (k, r)) \<Longrightarrow> stored_ingest r"
  shows "dialog_ok (act e d)"
proof (cases e)
  case (OpenDialog row)
  then have "form_ok (openIngest (d\<lparr>id_open := True, id_existing := row, id_error := None\<rparr>))"
    using assms(3) by (intro openIngest_ok) simp
  then show ?thesis using OpenDialog assms(3) by (auto simp: dialog_ok_def)
next
  case (MetaLoaded configured roots)
  let ?d = "d\<lparr>id_lakehouseConfigured := configured, id_fileRoots := roots\<rparr>"
  have "form_ok (openIngest ?d)" using assms(1) by (intro openIngest_ok) (simp add: dialog_ok_def)
  moreover have "form_ok ?d" using assms(1) by (simp add: dialog_ok_def form_ok_def)
  ultimately show ?thesis using MetaLoaded assms(1) by (cases "id_open d \<and> configured \<noteq> id_lakehouseConfigured d")
    (simp_all only: act.simps Let_def if_True if_False dialog_ok_def existing_openIngest, simp_all)
next
  case Continue
  then show ?thesis using assms nextStep_ok by (auto simp: dialog_ok_def)
next
  case (ChooseType st)
  then show ?thesis
    using assms by (auto simp: dialog_ok_def form_ok_def onStep_def emptyConfig_def FILE_FORMATS_def)
qed (use assms in \<open>auto simp: dialog_ok_def form_ok_def onStep_def typed_def addTable_def Let_def updateResource_def
    setIncremental_def choosePaginator_def SOURCE_TYPES_def split: sum.splits option.splits\<close>)

lemma reachable_dialog_ok: "reachable d \<Longrightarrow> dialog_ok d"
proof (induction rule: reachable.induct)
  case start
  show ?case by (simp add: dialog_ok_def form_ok_def closedDialog_def WRITE_DISPOSITIONS_def SOURCE_TYPES_def)
qed (blast intro: act_ok)

subsection \<open>The configuration that is sent\<close>

lemma map_of_optField:
  "map_of (optField k v @ kvs) x = (if x = k \<and> v \<noteq> None then v else map_of kvs x)"
  by (simp add: optField_def split: option.split)

lemma map_of_optField_last: "map_of (optField k v) x = (if x = k then v else None)"
  by (simp add: optField_def split: option.split)

lemma strField_optField:
  "strField (optField k (map_option JStr v) @ kvs) x = (if x = k \<and> v \<noteq> None then v else strField kvs x)"
  by (cases v) (simp_all add: strField_def optField_def)

lemma strField_other:
  "x \<noteq> k \<Longrightarrow> strField (optField k v @ kvs) x = strField kvs x"
  by (cases v) (simp_all add: strField_def optField_def)

lemma strField_last: "strField (optField k (map_option JStr v)) x = (if x = k then v else None)"
  using strField_optField [of k v "[]" x] by (simp add: strField_def split: if_splits)

lemmas optField_simps = strField_optField strField_other strField_last map_of_optField map_of_optField_last

lemma readPaginator_paginatorJson [simp]: "readPaginator (paginatorJson p) = Some p"
proof -
  have "strField (optField ''type'' (map_option JStr (pg_type p)) @ optField ''limit'' (pg_limit p)) ''type'' = pg_type p"
    by (cases "pg_type p"; cases "pg_limit p") (simp_all add: strField_def optField_def)
  then show ?thesis
    by (simp add: readPaginator_def paginatorJson_def optField_simps del: map_of_append)
qed

lemma readResource_resourceJson [simp]: "readResource (resourceJson r) = r"
proof -
  let ?kvs = "optField ''name'' (Some (JStr (rr_name r))) @ optField ''path'' (map_option JStr (rr_path r)) @
      optField ''data_selector'' (map_option JStr (rr_data_selector r)) @
      optField ''params'' (map_option JObj (rr_params r)) @
      optField ''incremental_param'' (map_option JStr (rr_incremental_param r))"
  have "strField ?kvs ''name'' = Some (rr_name r)" by (simp add: strField_def optField_def)
  moreover have "strField ?kvs ''path'' = rr_path r" "strField ?kvs ''data_selector'' = rr_data_selector r"
    "strField ?kvs ''incremental_param'' = rr_incremental_param r"
    by (simp_all add: optField_simps)
  moreover have "map_of ?kvs ''params'' = map_option JObj (rr_params r)"
    by (simp add: optField_simps del: map_of_append)
  ultimately show ?thesis
    by (cases "rr_params r") (simp_all add: readResource_def resourceJson_def Let_def del: map_of_append)
qed

lemma name_of_resourceJson: "(case resourceJson r of JObj kvs \<Rightarrow> StringOr (map_of kvs ''name'') '''' | _ \<Rightarrow> '''') = rr_name r"
  by (simp add: resourceJson_def optField_def StringOr_def)

lemma byName_name: "byName config t = Some r \<Longrightarrow> rr_name r = t"
  by (auto simp: byName_def dest!: map_of_SomeD)

lemma rr_name_found [simp]: "rr_name (nullish (byName config t) (bareResource t)) = t"
  using byName_name by (cases "byName config t") (auto simp: bareResource_def)

lemma rr_name_sent [simp]: "rr_name (sentResource b r) = rr_name r"
  by (simp add: sentResource_def)

lemma sentResource_twice [simp]: "sentResource b (sentResource b r) = sentResource b r"
  by (auto simp: sentResource_def or_str_def or_null_def nullish_def split: option.splits list.splits bind_splits)

text \<open>Of a list with one resource per table, all of a name equal, each is found by its name.\<close>

lemma byName_map:
  assumes "\<And>t. rr_name (f t) = t" "cf_resources config = Some (map f ts)" "t \<in> set ts"
  shows "byName config t = Some (f t)"
proof -
  have "map_of (rev (map (\<lambda>r. (rr_name r, r)) (map f ts))) t = Some (f t)"
    using assms(1,3)
  proof (induction ts rule: rev_induct)
    case (snoc x ts)
    then show ?case by auto
  qed simp
  then show ?thesis using assms(2) by (simp add: byName_def)
qed

text \<open>Reading a configuration that was sent and sending it again gives the same.\<close>

lemma normalised_again:
  assumes "id_config d' = readConfig (normalisedSourceConfig d)" "id_tables d' = id_tables d"
    "id_sourceType d' = id_sourceType d" "trim (id_cursorField d') = trim (id_cursorField d)"
  shows "normalisedSourceConfig d' = normalisedSourceConfig d"
proof (cases "id_sourceType d = ''filesystem''")
  case True
  then show ?thesis using assms
    by (simp add: normalisedSourceConfig_def readConfig_def strField_def Let_def or_str_def)
next
  case False
  let ?f = "\<lambda>t. sentResource (trim (id_cursorField d) \<noteq> '''') (nullish (byName (id_config d) t) (bareResource t))"
  have "cf_resources (id_config d') = Some (map ?f (id_tables d))"
    using False assms(1) by (simp add: normalisedSourceConfig_def readConfig_def Let_def)
  then have "byName (id_config d') t = Some (?f t)" if "t \<in> set (id_tables d)" for t
    using byName_map [of ?f "id_config d'" "id_tables d" t] that by simp
  then have "map (\<lambda>t. resourceJson (sentResource (trim (id_cursorField d') \<noteq> '''')
      (nullish (byName (id_config d') t) (bareResource t)))) (id_tables d') = map (\<lambda>t. resourceJson (?f t)) (id_tables d)"
    using assms(2,4) by simp
  moreover have "trim (nullish (cf_base_url (id_config d')) '''') = trim (nullish (cf_base_url (id_config d)) '''')"
    and "nullish (cf_paginator (id_config d')) \<lparr>pg_type = Some ''auto'', pg_limit = None\<rparr> =
      nullish (cf_paginator (id_config d)) \<lparr>pg_type = Some ''auto'', pg_limit = None\<rparr>"
    using False assms(1) by (simp_all add: normalisedSourceConfig_def readConfig_def strField_def Let_def)
  ultimately show ?thesis using False assms(3) by (simp add: normalisedSourceConfig_def Let_def)
qed

subsection \<open>Comma-separated fields\<close>

definition piece :: "string \<Rightarrow> bool" where
  "piece t \<longleftrightarrow> t \<noteq> '''' \<and> trim t = t \<and> CHR '','' \<notin> set t"

lemma pieces_piece: "t \<in> set (pieces s) \<Longrightarrow> piece t"
  using split_on_no_sep [of _ "CHR '',''" s] set_trim_subset by (fastforce simp: pieces_def piece_def)

lemma trim_space: "trim (CHR '' '' # s) = trim s"
  by (simp add: trim_def is_ws_def)

lemma pieces_join: "list_all piece ts \<Longrightarrow> pieces (join '', '' ts) = ts"
proof -
  have tail: "list_all piece ts \<Longrightarrow> piece t \<Longrightarrow>
      map trim (split_on CHR '','' (join '', '' (t # ts))) = t # ts" for t ts
  proof (induction ts arbitrary: t)
    case Nil
    then show ?case by (simp add: piece_def split_on_no_occ)
  next
    case (Cons u us)
    have "split_on CHR '','' (t @ CHR '','' # CHR '' '' # join '', '' (u # us)) =
        t # split_on CHR '','' (CHR '' '' # join '', '' (u # us))"
      using Cons.prems by (intro split_on_append_sep) (auto simp: piece_def)
    moreover have "map trim (split_on CHR '','' (CHR '' '' # s)) = map trim (split_on CHR '','' s)" for s
      by (auto simp: trim_space split: list.split)
    ultimately show ?case using Cons by (simp add: piece_def)
  qed
  assume "list_all piece ts"
  then show ?thesis
  proof (cases ts)
    case (Cons t us)
    then have "map trim (split_on CHR '','' (join '', '' ts)) = ts" using tail \<open>list_all piece ts\<close> by simp
    then show ?thesis using \<open>list_all piece ts\<close> by (auto simp: pieces_def piece_def list_all_iff)
  qed (simp add: pieces_def)
qed

subsection \<open>What the server says to what is sent\<close>

lemma sent_resource_names:
  "resourceNames (normalisedSourceConfig d) = (if id_sourceType d = ''filesystem'' then [] else id_tables d)"
  by (simp add: normalisedSourceConfig_def resourceNames_def Let_def comp_def name_of_resourceJson)

lemma StringOr_option: "StringOr (map_option JStr v) e = nullish v e"
  by (cases v) (simp_all add: StringOr_def)

lemma StringOr_Some: "StringOr (Some (JStr s)) e = s"
  by (simp add: StringOr_def)

lemma sent_paginator:
  assumes "id_sourceType d \<noteq> ''filesystem''"
  shows "StringOr (map_of (paginatorOf (normalisedSourceConfig d)) ''type'') ''auto'' =
      nullish (Option.bind (cf_paginator (id_config d)) pg_type) ''auto''"
    and "StringOr (map_of (paginatorOf (normalisedSourceConfig d)) ''limit'') '''' =
      StringOr (Option.bind (cf_paginator (id_config d)) pg_limit) ''''"
proof -
  have type: "map_of (optField ''type'' (map_option JStr t) @ optField ''limit'' l) ''type'' = map_option JStr t" for t l
    by (cases t; cases l) (simp_all add: optField_def)
  have auto: "map_of (optField ''type'' (Some (JStr ''auto'')) @ optField ''limit'' None) ''type'' =
      Some (JStr ''auto'' :: int json)"
    by (simp add: optField_def)
  have limit: "map_of (optField ''type'' t @ optField ''limit'' l) ''limit'' = l" for t :: "int json option" and l
    by (cases t; cases l) (simp_all add: optField_def)
  show "StringOr (map_of (paginatorOf (normalisedSourceConfig d)) ''type'') ''auto'' =
      nullish (Option.bind (cf_paginator (id_config d)) pg_type) ''auto''"
    using assms auto
    by (cases "cf_paginator (id_config d)")
      (simp_all add: normalisedSourceConfig_def paginatorOf_def paginatorJson_def Let_def type StringOr_option
        StringOr_Some del: map_of_append)
  show "StringOr (map_of (paginatorOf (normalisedSourceConfig d)) ''limit'') '''' =
      StringOr (Option.bind (cf_paginator (id_config d)) pg_limit) ''''"
    using assms
    by (cases "cf_paginator (id_config d)")
      (simp_all add: normalisedSourceConfig_def paginatorOf_def paginatorJson_def Let_def limit del: map_of_append)
qed

lemma truthy_or_null [simp]: "truthy (or_null s) \<longleftrightarrow> s \<noteq> ''''"
  by (simp add: truthy_def or_null_def)

lemma payload_fields [simp]:
  "ii_tables (ingestPayload d) = Some (id_tables d)" "ii_sourceType (ingestPayload d) = Some (id_sourceType d)"
  "ii_sourceConfig (ingestPayload d) =
     (if id_sourceType d = ''sql_database'' then None else Some (normalisedSourceConfig d))"
  by (simp_all add: ingestPayload_def)

text \<open>What is left once the form has no problem.\<close>

lemma if_Some_None: "(if b then Some e else x) = None \<longleftrightarrow> \<not> b \<and> x = None"
  by simp

lemma find_case_None: "(case find P xs of Some t \<Rightarrow> Some (f t) | None \<Rightarrow> None) = None \<longleftrightarrow> list_all (\<lambda>t. \<not> P t) xs"
  by (induction xs) auto

lemma saveProblem_None:
  "saveProblem d = None \<longleftrightarrow>
     id_projectId d \<noteq> '''' \<and> (id_sourceType d = ''sql_database'' \<longrightarrow> id_connectionId d \<noteq> '''') \<and> datasetValid d \<and>
     id_tables d \<noteq> [] \<and> \<not> lakeUnavailable d \<and> (id_writeDisposition d = ''merge'' \<longrightarrow> trim (id_primaryKey d) \<noteq> '''') \<and>
     (trim (id_cursorField d) \<noteq> '''' \<longrightarrow> rx_match (if id_sourceType d = ''rest_api'' then JSON_CURSOR_PATTERN
        else CURSOR_PATTERN) (trim (id_cursorField d))) \<and>
     (id_sourceType d = ''filesystem'' \<longrightarrow> length (id_tables d) = 1 \<and> trim (nullish (cf_bucket_url (id_config d)) '''') \<noteq> '''') \<and>
     (id_sourceType d = ''rest_api'' \<longrightarrow> (trim (nullish (cf_base_url (id_config d)) '''') = '''' \<longrightarrow> id_connectionId d \<noteq> '''') \<and>
        \<not> offsetUnlimited (id_config d)) \<and>
     list_all (rx_match PARTITION_TERM_PATTERN) (pieces (id_partitionBy d))"
  unfolding saveProblem_def Let_def if_Some_None find_case_None by (simp only: not_not) blast

lemma payload_checks:
  assumes "form_ok d" "saveProblem d = None"
  shows "checkPartition (ingestPayload d) = Inr ()" "checkSource (ingestPayload d) = Inr ()"
    "id_sourceType d = ''filesystem'' \<Longrightarrow> checkFilesystem (id_tables d) (normalisedSourceConfig d) = Inr ()"
    "id_sourceType d = ''rest_api'' \<Longrightarrow> checkRest (ingestPayload d) (id_tables d) (normalisedSourceConfig d) = Inr ()"
proof -
  note ok = assms(2) [unfolded saveProblem_None]
  have "find (\<lambda>t. \<not> rx_match PARTITION_TERM_PATTERN t) (pieces (id_partitionBy d)) = None"
    using ok by (simp add: find_None_iff list_all_iff)
  then show "checkPartition (ingestPayload d) = Inr ()"
    by (simp add: checkPartition_def ingestPayload_def Let_def)
  have "id_sourceType d \<in> set SOURCE_TYPES" using assms(1) by (simp add: form_ok_def)
  moreover have "truthy (ii_sourceConnectionId (ingestPayload d))" if "id_sourceType d = ''sql_database''"
    using ok that by (simp add: ingestPayload_def)
  moreover have "\<not> truthy (ii_sourceConnectionId (ingestPayload d))" if "id_sourceType d = ''filesystem''"
    using that by (simp add: ingestPayload_def truthy_def)
  ultimately show "checkSource (ingestPayload d) = Inr ()"
    by (auto simp: checkSource_def sourceTypeOf_def CONNECTIONLESS_SOURCE_TYPES_def Let_def)
  show "checkFilesystem (id_tables d) (normalisedSourceConfig d) = Inr ()" if "id_sourceType d = ''filesystem''"
    using assms(1) ok that
    by (simp add: checkFilesystem_def normalisedSourceConfig_def form_ok_def StringOr_def Let_def)
  show "checkRest (ingestPayload d) (id_tables d) (normalisedSourceConfig d) = Inr ()" if st: "id_sourceType d = ''rest_api''"
  proof -
    have "StringOr (map_of (normalisedSourceConfig d) ''base_url'') '''' = trim (nullish (cf_base_url (id_config d)) '''')"
      using st by (simp add: normalisedSourceConfig_def StringOr_def Let_def)
    moreover have "truthy (ii_sourceConnectionId (ingestPayload d)) \<longleftrightarrow> id_connectionId d \<noteq> ''''"
      using st by (simp add: ingestPayload_def)
    ultimately show ?thesis
      using ok st sent_paginator [of d] by (auto simp: checkRest_def sent_resource_names offsetUnlimited_def Let_def)
  qed
qed

text \<open>
  C18. Once the wizard has no complaint of its own, the server refuses what it sends in exactly three cases:
  a table name is no identifier, there is a value to start from but no cursor, or the primary key of a merge
  consists of commas and blanks.
\<close>

theorem wizard_accepted_by_server:
  assumes "reachable d" "id_step d = 2" "saveRequest d = Some (k, payload)"
  shows "validateIngestSource payload = Inr () \<longleftrightarrow>
     list_all (rx_match TABLE_PATTERN) (id_tables d) \<and>
     (trim (id_cursorInitial d) = '''' \<or> trim (id_cursorField d) \<noteq> '''') \<and>
     (id_writeDisposition d \<noteq> ''merge'' \<or> pieces (id_primaryKey d) \<noteq> [])"
proof -
  have p: "payload = ingestPayload d" and none: "saveProblem d = None"
    using assms(3) by (auto simp: saveRequest_def split: if_splits)
  have form: "form_ok d" using reachable_dialog_ok [OF assms(1)] by (simp add: dialog_ok_def)
  note ok = none [unfolded saveProblem_None]
  have "checkTables payload = Inr () \<longleftrightarrow> list_all (rx_match TABLE_PATTERN) (id_tables d)"
    using ok unfolding checkTables_Inr p by (simp add: ingestPayload_def)
  moreover have "checkDisposition payload = Inr () \<longleftrightarrow> id_writeDisposition d \<noteq> ''merge'' \<or> pieces (id_primaryKey d) \<noteq> []"
    using form by (auto simp: checkDisposition_def p ingestPayload_def form_ok_def Let_def)
  moreover have "checkCursor payload = Inr () \<longleftrightarrow> trim (id_cursorInitial d) = '''' \<or> trim (id_cursorField d) \<noteq> ''''"
    using ok by (auto simp: checkCursor_def p ingestPayload_def sourceTypeOf_def Let_def or_null_def truthy_def)
  moreover have "trim (nullish (ii_name payload) '''') \<noteq> ''''" "rx_match DATASET_PATTERN (nullish (ii_dataset payload) '''')"
    using form assms(2) ok by (simp_all add: p ingestPayload_def form_ok_def datasetValid_def)
  ultimately show ?thesis
    using payload_checks [OF form none] unfolding validateIngestSource_Inr p
    by (auto simp: sourceTypeOf_def)
qed

subsection \<open>Rows the wizard writes\<close>

inductive dialog_row :: "ingest_row \<Rightarrow> bool" where
  created: "dialog_row (newIngest c u (ingestPayload d))"
| edited: "dialog_row r \<Longrightarrow> dialog_row (rewriteIngest (ingestPayload d) r)"

text \<open>An optional text that is trimmed and not blank, and an optional list of pieces that is not empty.\<close>

definition neat :: "string option \<Rightarrow> bool" where
  "neat x \<longleftrightarrow> trim_or_null x = x"

definition neat_list :: "string list option \<Rightarrow> bool" where
  "neat_list x \<longleftrightarrow> (case x of None \<Rightarrow> True | Some ts \<Rightarrow> ts \<noteq> [] \<and> list_all piece ts)"

definition row_ok :: "ingest_row \<Rightarrow> bool" where
  "row_ok r \<longleftrightarrow>
     in_sourceConnectionId r \<noteq> Some '''' \<and> (in_sourceType r = ''filesystem'' \<longrightarrow> in_sourceConnectionId r = None) \<and>
     trim (in_name r) = in_name r \<and> neat (in_cursorField r) \<and> neat (in_cursorInitialValue r) \<and>
     neat_list (in_primaryKey r) \<and> neat_list (in_partitionBy r) \<and>
     (in_destination r \<noteq> ''ducklake'' \<longrightarrow> in_partitionBy r = None) \<and>
     (\<exists>d. in_sourceConfig r = (if in_sourceType r = ''sql_database'' then None else Some (normalisedSourceConfig d)) \<and>
        id_sourceType d = in_sourceType r \<and> id_tables d = in_tables r \<and>
        trim (id_cursorField d) = nullish (in_cursorField r) '''')"

lemma neat_or_null: "neat (trim_or_null x)"
  by (simp add: neat_def trim_or_null_def or_null_def split: option.split)

lemma neat_back: "neat x \<Longrightarrow> or_null (trim (nullish x '''')) = x"
  by (cases x) (auto simp: neat_def trim_or_null_def or_null_def split: if_splits)

lemma neat_list_pieces: "neat_list (if pieces s \<noteq> [] then Some (pieces s) else None)"
  by (auto simp: neat_list_def list_all_iff pieces_piece)

lemma pieces_back:
  "neat_list x \<Longrightarrow> (if pieces (join '', '' (nullish x [])) \<noteq> [] then Some (pieces (join '', '' (nullish x []))) else None) = x"
  by (cases x) (auto simp: neat_list_def pieces_join, simp add: pieces_def)

lemma neat_or_null_trim: "neat (or_null (trim s))"
  by (auto simp: neat_def trim_or_null_def or_null_def)

lemma list_all_pieces: "list_all piece (pieces s)"
  by (simp add: list_all_iff pieces_piece)

lemma trim_or_null_or_null: "trim_or_null (or_null (trim s)) = or_null (trim s)"
  by (auto simp: trim_or_null_def or_null_def)

lemma nullish_or_null: "nullish (or_null s) '''' = s"
  by (simp add: or_null_def)

lemma dialog_row_ok: "dialog_row r \<Longrightarrow> row_ok r"
proof (induction rule: dialog_row.induct)
  case (created c u d)
  show ?case
    unfolding row_ok_def
    by (intro conjI exI [of _ d])
      (simp_all add: newIngest_def ingestPayload_def sourceTypeOf_def neat_or_null neat_list_pieces trim_or_null_or_null
        nullish_or_null neat_or_null_trim, simp_all add: neat_list_def list_all_pieces)
next
  case (edited r d)
  show ?case
    using edited.IH unfolding row_ok_def
    by (intro conjI exI [of _ d])
      (simp_all add: rewriteIngest_def ingestPayload_def sourceTypeOf_def neat_or_null neat_list_pieces trim_or_null_or_null
        nullish_or_null neat_or_null_trim, simp_all add: neat_list_def list_all_pieces)
qed

text \<open>
  C23. Opening a load that the wizard wrote, created or edited any number of times, and saving it without a
  change leaves every column of its row as it was.
\<close>

theorem edited_unchanged_keeps_row:
  assumes "dialog_row r"
  shows "rewriteIngest (ingestPayload (openIngest (d\<lparr>id_existing := Some (k, r)\<rparr>))) r = r"
proof -
  let ?d = "openIngest (d\<lparr>id_existing := Some (k, r)\<rparr>)"
  note ok = dialog_row_ok [OF assms, unfolded row_ok_def]
  have form: "id_sourceType ?d = in_sourceType r" "id_tables ?d = in_tables r" "id_name ?d = in_name r"
    "id_dataset ?d = in_dataset r" "id_cursorField ?d = nullish (in_cursorField r) ''''"
    "id_cursorInitial ?d = nullish (in_cursorInitialValue r) ''''" "id_destination ?d = in_destination r"
    "id_writeDisposition ?d = in_writeDisposition r" "id_connectionId ?d = nullish (in_sourceConnectionId r) ''''"
    "id_primaryKey ?d = join '', '' (nullish (in_primaryKey r) [])"
    "id_partitionBy ?d = join '', '' (nullish (in_partitionBy r) [])"
    "id_config ?d = readConfig (nullish (in_sourceConfig r) [])"
    by (simp_all add: openIngest_def formField_def)
  obtain d0 where d0: "in_sourceConfig r = (if in_sourceType r = ''sql_database'' then None else Some (normalisedSourceConfig d0))"
    "id_sourceType d0 = in_sourceType r" "id_tables d0 = in_tables r" "trim (id_cursorField d0) = nullish (in_cursorField r) ''''"
    using ok by blast
  have "normalisedSourceConfig ?d = normalisedSourceConfig d0" if "in_sourceType r \<noteq> ''sql_database''"
    using d0 form that by (intro normalised_again) (simp_all, metis trim_idem)
  then have "ii_sourceConfig (ingestPayload ?d) = in_sourceConfig r" using form d0(1) by simp
  moreover have "or_null (nullish (in_sourceConnectionId r) '''') = in_sourceConnectionId r"
    using ok by (cases "in_sourceConnectionId r") (auto simp: or_null_def)
  moreover have "in_destination r = ''ducklake'' \<or> in_partitionBy r = None" using ok by auto
  moreover note pieces_back [of "in_primaryKey r"] pieces_back [of "in_partitionBy r"] neat_back [of "in_cursorField r"]
    neat_back [of "in_cursorInitialValue r"]
  ultimately show ?thesis
    using ok form
    by (cases r) (auto simp: rewriteIngest_def ingestPayload_def sourceTypeOf_def neat_def split: if_splits)
qed

subsection \<open>Runs of the wizard\<close>

definition runEvents :: "ingest_event list \<Rightarrow> ingest_dialog \<Rightarrow> ingest_dialog" where
  "runEvents es d = foldl (\<lambda>d e. act e d) d es"

text \<open>Events that are possible one after the other, in a new load.\<close>

fun possible :: "ingest_event list \<Rightarrow> ingest_dialog \<Rightarrow> bool" where
  "possible [] d \<longleftrightarrow> True"
| "possible (e # es) d \<longleftrightarrow> shown e d \<and> (case e of OpenDialog (Some _) \<Rightarrow> False | _ \<Rightarrow> True) \<and> possible es (act e d)"

lemma reachable_run: "reachable d \<Longrightarrow> possible es d \<Longrightarrow> reachable (runEvents es d)"
proof (induction es arbitrary: d)
  case (Cons e es)
  have "reachable (act e d)"
    using Cons.prems by (intro reachable.event) (auto split: ingest_event.splits option.splits)
  then have "reachable (runEvents es (act e d))" using Cons by simp
  then show ?case by (simp add: runEvents_def)
qed (simp add: runEvents_def)

definition demo_events :: "ingest_event list" where
  "demo_events =
     [MetaLoaded True [''/data''], OpenDialog None, FormData (Inr [(''p1'', None)]), ChooseType ''filesystem'',
      AddTable '' orders '', TypeDirectory ''/data/crm'', Continue, ChooseProject ''p1'', ChooseDestination ''connection'',
      TypeName ''CRM'', TypeDataset ''Raw'', Continue, TypeCursor ''updated_at'', TypeInitial ''2026'']"

definition demo_dialog :: ingest_dialog where
  "demo_dialog = runEvents demo_events closedDialog"

lemma demo_dialog: "possible demo_events closedDialog" "id_step demo_dialog = 2" "saveProblem demo_dialog = None"
  "list_all (rx_match TABLE_PATTERN) (id_tables demo_dialog)"
  "trim (id_cursorField demo_dialog) = ''updated_at''" "id_writeDisposition demo_dialog = ''append''"
  "id_existing demo_dialog = None"
  by code_simp+

lemma reachable_demo: "reachable demo_dialog"
  unfolding demo_dialog_def by (rule reachable_run [OF reachable.start demo_dialog(1)])

theorem wizard_accepted_by_server_witness:
  "validateIngestSource (ingestPayload demo_dialog) = Inr ()"
  using wizard_accepted_by_server [OF reachable_demo demo_dialog(2), of None "ingestPayload demo_dialog"]
    demo_dialog(3-)
  by (simp add: saveRequest_def)

definition demo_edit :: ingest_row where
  "demo_edit = newIngest demo_ctx ''u'' (ingestPayload demo_dialog)"

theorem edited_unchanged_keeps_row_witness:
  "rewriteIngest (ingestPayload (openIngest (closedDialog\<lparr>id_existing := Some (''i1'', demo_edit)\<rparr>))) demo_edit = demo_edit"
  by (rule edited_unchanged_keeps_row) (simp add: demo_edit_def dialog_row.created)

subsection \<open>Where the wizard leaves the user\<close>

text \<open>
  With the cursor emptied, the value to start from is still sent and refused, and its field is disabled, so it
  cannot be emptied.
\<close>

lemma initial_value_stuck:
  "\<exists>d. reachable d \<and> saveRequest d = Some (None, ingestPayload d) \<and>
     validateIngestSource (ingestPayload d) = Inl ''An initial value needs a cursor field to apply to'' \<and>
     \<not> shown (TypeInitial '''') d"
proof -
  let ?d = "act (TypeCursor '''') demo_dialog"
  have "reachable ?d" using reachable_demo demo_dialog(2) by (intro reachable.event) (simp_all add: onStep_def, code_simp)
  moreover have "saveProblem ?d = None \<and> id_existing ?d = None" by code_simp
  moreover have "validateIngestSource (ingestPayload ?d) = Inl ''An initial value needs a cursor field to apply to''"
    by code_simp
  moreover have "\<not> shown (TypeInitial '''') ?d" by simp
  ultimately show ?thesis by (intro exI [of _ ?d]) (simp add: saveRequest_def)
qed

text \<open>Emptying the primary key of a stored load changes nothing; emptying the partition clears it.\<close>

lemma primary_key_not_cleared:
  assumes "pieces (id_primaryKey d) = []" "pieces (id_partitionBy d) = []"
  shows "in_primaryKey (rewriteIngest (ingestPayload d) r) = in_primaryKey r"
    and "in_partitionBy (rewriteIngest (ingestPayload d) r) = None"
  using assms by (simp_all add: rewriteIngest_def ingestPayload_def)

text \<open>A parameter typed for a resource none of whose fields was ever edited is dropped.\<close>

lemma incremental_param_dropped:
  "byName config t = None \<Longrightarrow> byName (setIncremental t v config) t = None"
  by (auto simp: byName_def setIncremental_def map_of_eq_None_iff image_iff)

end
