(* ===== verification/Source_Control.thy ===== *)
theory Source_Control
  imports Git_Paths
begin

text \<open>
  The git panel (\<open>features/git/components/SourceControlPanel.tsx\<close>) and the calls of \<open>features/git/api.ts\<close> it
  makes. A handler is a program: updates of the panel's state between requests, each request followed by what
  the code does with its answer. Handlers run interleaved, as the awaits let them; what git answers is part of
  the event. A command line given to \<open>exec\<close> is read by the runner as \<open>Git_Paths.shlex_split\<close> says.
\<close>

section \<open>Definitions\<close>

subsection \<open>Requests and answers\<close>

type_synonym credentials = "string \<times> string"

datatype git_call =
    GInit
  | GetBranches
  | GetRemotes
  | AddRemote string string
  | GetStatus
  | Checkout string bool
  | Commit string bool
  | Push "credentials option"
  | Pull "credentials option"
  | Exec string
  | Add "string list"
  | Reset "string list"
  | Fetch

record git_branch =
  gb_name :: string
  gb_is_current :: bool
  gb_is_remote :: bool

record git_remote =
  gr_name :: string
  gr_fetch_url :: string
  gr_push_url :: string

record git_answer =
  ga_success :: bool
  ga_message :: "string option"
  ga_stdout :: "string option"
  ga_stderr :: "string option"
  ga_no_repo :: bool
  ga_changes :: "(string \<times> string) list"
  ga_branches :: "git_branch list"
  ga_current :: string
  ga_remotes :: "git_remote list"

text \<open>A request answers or throws an error with a message.\<close>

type_synonym reply = "string + git_answer"

subsection \<open>The panel\<close>

record file_change =
  fc_path :: string
  fc_status :: string
  fc_staged :: bool

datatype operation = OpPush | OpPull

record cred_dialog =
  cd_isOpen :: bool
  cd_type :: operation
  cd_error :: "string option"

record panel =
  sc_staged :: "file_change list"
  sc_unstaged :: "file_change list"
  sc_message :: string
  sc_loading :: bool
  sc_refreshing :: bool
  sc_error :: "string option"
  sc_success :: "string option"
  sc_noRepo :: bool
  sc_initLoading :: bool
  sc_cred :: cred_dialog
  sc_remoteUrl :: string
  sc_remotes :: "git_remote list"
  sc_showRemote :: bool
  sc_remoteName :: string
  sc_remoteInput :: string
  sc_remoteLoading :: bool
  sc_branch :: string
  sc_branches :: "git_branch list"
  sc_showNewBranch :: bool
  sc_newBranch :: string
  sc_branchLoading :: bool
  sc_ahead :: int
  sc_behind :: int
  sc_timers :: nat
  sc_notified :: nat

text \<open>The two letters of a porcelain status, and what is listed for them.\<close>

definition parseGitStatus :: "string \<Rightarrow> string \<times> string" where
  "parseGitStatus statusCode =
     (if statusCode = ''??'' \<or> statusCode = ''?'' then ('''', ''?'')
      else if statusCode = ''!!'' \<or> statusCode = ''!'' then ('''', ''!'')
      else
        let padded = statusCode @ replicate (2 - length statusCode) (CHR '' '');
            x = padded ! 0; y = padded ! 1;
            letter = (\<lambda>c. if c \<noteq> CHR '' '' \<and> c \<noteq> CHR ''?'' then [c] else '''')
        in (letter x, letter y))"

definition stagedOf :: "(string \<times> string) list \<Rightarrow> file_change list" where
  "stagedOf changes =
     concat (map (\<lambda>(status, path). case parseGitStatus status of (x, y) \<Rightarrow>
       if x \<noteq> '''' then [\<lparr>fc_path = path, fc_status = x, fc_staged = True\<rparr>] else []) changes)"

definition unstagedOf :: "(string \<times> string) list \<Rightarrow> file_change list" where
  "unstagedOf changes =
     concat (map (\<lambda>(status, path). case parseGitStatus status of (x, y) \<Rightarrow>
       if y \<noteq> '''' then [\<lparr>fc_path = path, fc_status = y, fc_staged = False\<rparr>] else []) changes)"

definition totalChanges :: "panel \<Rightarrow> nat" where
  "totalChanges s = length (sc_staged s) + length (sc_unstaged s)"

text \<open>One entry per path: a second change of a path gives its status and keeps the first's place.\<close>

fun mergeChange :: "file_change list \<Rightarrow> file_change \<Rightarrow> file_change list" where
  "mergeChange [] f = [f]"
| "mergeChange (g # files) f =
     (if fc_path g = fc_path f
      then g\<lparr>fc_status := fc_status f, fc_staged := fc_staged g \<or> fc_staged f\<rparr> # files
      else g # mergeChange files f)"

definition changedFiles :: "panel \<Rightarrow> file_change list" where
  "changedFiles s = foldl mergeChange [] (sc_staged s @ sc_unstaged s)"

text \<open>\<open>parseInt(s) || 0\<close> of a decimal number, as git prints the counts.\<close>

definition parseIntOr0 :: "string \<Rightarrow> int" where
  "parseIntOr0 s =
     (let negative = (s \<noteq> '''' \<and> hd s = CHR ''-'');
          unsigned = (if s \<noteq> '''' \<and> (hd s = CHR ''-'' \<or> hd s = CHR ''+'') then tl s else s);
          n = int (read_nat (takeWhile is_digit unsigned))
      in if negative then - n else n)"

definition parts :: "string \<Rightarrow> string list" where
  "parts stdout = split_ws (trim stdout)"

subsection \<open>Handlers\<close>

datatype prog =
    Done
  | Do "panel \<Rightarrow> panel" prog
  | Ask git_call "reply \<Rightarrow> prog"

definition setError :: "string \<Rightarrow> panel \<Rightarrow> panel" where
  "setError e s = s\<lparr>sc_error := Some e\<rparr>"

definition clearMessages :: "panel \<Rightarrow> panel" where
  "clearMessages s = s\<lparr>sc_error := None, sc_success := None\<rparr>"

definition setLoading :: "bool \<Rightarrow> panel \<Rightarrow> panel" where
  "setLoading b s = s\<lparr>sc_loading := b\<rparr>"

definition setRefreshing :: "bool \<Rightarrow> panel \<Rightarrow> panel" where
  "setRefreshing b s = s\<lparr>sc_refreshing := b\<rparr>"

definition setBranchLoading :: "bool \<Rightarrow> panel \<Rightarrow> panel" where
  "setBranchLoading b s = s\<lparr>sc_branchLoading := b\<rparr>"

definition setRemoteLoading :: "bool \<Rightarrow> panel \<Rightarrow> panel" where
  "setRemoteLoading b s = s\<lparr>sc_remoteLoading := b\<rparr>"

definition setInitLoading :: "bool \<Rightarrow> panel \<Rightarrow> panel" where
  "setInitLoading b s = s\<lparr>sc_initLoading := b\<rparr>"

text \<open>A success message and the timer that clears it; the callback of the owner.\<close>

definition flash :: "string \<Rightarrow> panel \<Rightarrow> panel" where
  "flash m s = s\<lparr>sc_success := Some m, sc_timers := Suc (sc_timers s)\<rparr>"

definition onRefresh :: "panel \<Rightarrow> panel" where
  "onRefresh s = s\<lparr>sc_notified := Suc (sc_notified s)\<rparr>"

definition openCred :: "operation \<Rightarrow> string option \<Rightarrow> panel \<Rightarrow> panel" where
  "openCred t e s = s\<lparr>sc_cred := \<lparr>cd_isOpen = True, cd_type = t, cd_error = e\<rparr>\<rparr>"

definition closeCred :: "panel \<Rightarrow> panel" where
  "closeCred s = s\<lparr>sc_cred := \<lparr>cd_isOpen = False, cd_type = OpPush, cd_error = None\<rparr>\<rparr>"

definition loadSyncStatus :: "prog \<Rightarrow> prog" where
  "loadSyncStatus k =
     Ask (Exec (''rev-list --left-right --count HEAD...@'' @ ''{upstream}'')) (\<lambda>r. case r of
       Inr a \<Rightarrow>
         (if ga_success a \<and> truthy (ga_stdout a) \<and> length (parts (the (ga_stdout a))) \<ge> 2 then
            Do (\<lambda>s. s\<lparr>sc_ahead := parseIntOr0 (parts (the (ga_stdout a)) ! 0),
                       sc_behind := parseIntOr0 (parts (the (ga_stdout a)) ! 1)\<rparr>) k
          else k)
     | Inl e \<Rightarrow> Do (\<lambda>s. s\<lparr>sc_ahead := 0, sc_behind := 0\<rparr>) k)"

definition setRemotes :: "git_answer \<Rightarrow> panel \<Rightarrow> panel" where
  "setRemotes a s =
     (let known = (if ga_success a then ga_remotes a else []) in
      case known of
        [] \<Rightarrow> s\<lparr>sc_remotes := [], sc_remoteUrl := '''', sc_remoteName := ''origin'', sc_remoteInput := ''''\<rparr>
      | first # _ \<Rightarrow>
          let preferred = nullish (find (\<lambda>r. gr_name r = ''origin'') known) first in
          s\<lparr>sc_remotes := known, sc_remoteUrl := gr_fetch_url preferred, sc_remoteName := gr_name preferred,
            sc_remoteInput := or_str (gr_fetch_url preferred) (gr_push_url preferred)\<rparr>)"

definition setBranches :: "git_answer \<Rightarrow> panel \<Rightarrow> panel" where
  "setBranches a s =
     s\<lparr>sc_branches := (if ga_success a then ga_branches a else []),
       sc_branch := (if ga_success a \<and> ga_current a \<noteq> '''' then ga_current a else sc_branch s)\<rparr>"

definition loadStatus :: "prog \<Rightarrow> prog" where
  "loadStatus k =
     (let finally = Do (setRefreshing False) k;
          failed = Do (setError ''Failed to load git status'') finally
      in
      Do (\<lambda>s. s\<lparr>sc_refreshing := True, sc_error := None\<rparr>)
      (Ask GetStatus (\<lambda>r. case r of
         Inl e \<Rightarrow> failed
       | Inr d \<Rightarrow>
           if \<not> ga_success d \<and> ga_no_repo d then Do (\<lambda>s. s\<lparr>sc_noRepo := True\<rparr>) finally
           else
             Do (\<lambda>s. s\<lparr>sc_noRepo := False\<rparr>)
             (Do (\<lambda>s. if ga_success d then s\<lparr>sc_staged := stagedOf (ga_changes d), sc_unstaged := unstagedOf (ga_changes d)\<rparr> else s)
             (Ask GetRemotes (\<lambda>r. case r of
                Inl e \<Rightarrow> failed
              | Inr m \<Rightarrow>
                  Do (setRemotes m)
                  (Ask GetBranches (\<lambda>r.
                     Do (case r of Inr b \<Rightarrow> setBranches b | Inl e \<Rightarrow> (\<lambda>s. s\<lparr>sc_branches := []\<rparr>))
                     (loadSyncStatus finally)))))))))"

definition stageFiles :: "git_call \<Rightarrow> string \<Rightarrow> prog" where
  "stageFiles call message =
     Ask call (\<lambda>r. case r of Inr a \<Rightarrow> loadStatus Done | Inl e \<Rightarrow> Do (setError message) Done)"

definition stageFile :: "string \<Rightarrow> prog" where
  "stageFile path = stageFiles (Add [path]) ''Failed to stage file''"

definition unstageFile :: "string \<Rightarrow> prog" where
  "unstageFile path = stageFiles (Reset [path]) ''Failed to unstage file''"

definition stageAll :: prog where
  "stageAll = stageFiles (Add []) ''Failed to stage all''"

definition unstageAll :: prog where
  "unstageAll = stageFiles (Reset []) ''Failed to unstage all''"

text \<open>\<open>a || b || c\<close> on optional texts.\<close>

definition firstText :: "string option list \<Rightarrow> string \<Rightarrow> string" where
  "firstText xs d = (case find truthy xs of Some (Some s) \<Rightarrow> s | _ \<Rightarrow> d)"

definition commitWith :: "string \<Rightarrow> panel \<Rightarrow> prog" where
  "commitWith done_message p =
     (if trim (sc_message p) = '''' then Do (setError ''Please enter a commit message'') Done
      else if totalChanges p = 0 then Do (setError ''No changes to commit'') Done
      else
        let finally = Do (setLoading False) Done in
        Do (\<lambda>s. setLoading True (clearMessages s))
        (Ask (Commit (sc_message p) True) (\<lambda>r. case r of
           Inl e \<Rightarrow> Do (setError ''Failed to commit'') finally
         | Inr a \<Rightarrow>
             if ga_success a then
               Do (\<lambda>s. flash done_message (s\<lparr>sc_message := ''''\<rparr>)) (loadStatus (Do onRefresh finally))
             else Do (setError (firstText [ga_stderr a, ga_message a] ''Commit failed'')) finally)))"

definition handleCommit :: "panel \<Rightarrow> prog" where
  "handleCommit p = commitWith ''Committed all changes'' p"

definition handleCommitAll :: "panel \<Rightarrow> prog" where
  "handleCommitAll p = commitWith ''All changes committed successfully'' p"

definition discardCommand :: "string \<Rightarrow> string" where
  "discardCommand path = ''checkout -- '' @ [CHR 0x22] @ path @ [CHR 0x22]"

text \<open>What follows a confirmed discard; the answer of git is not looked at.\<close>

definition discardFile :: "string \<Rightarrow> prog" where
  "discardFile path =
     Ask (Exec (discardCommand path)) (\<lambda>r. case r of
       Inr a \<Rightarrow> loadStatus (Do onRefresh Done)
     | Inl e \<Rightarrow> Do (setError ''Failed to discard changes'') Done)"

definition discardAll :: prog where
  "discardAll =
     Ask (Exec ''checkout -- .'') (\<lambda>r. case r of
       Inl e \<Rightarrow> Do (setError ''Failed to discard changes'') Done
     | Inr a \<Rightarrow> Ask (Exec ''clean -fd'') (\<lambda>r. case r of
         Inl e \<Rightarrow> Do (setError ''Failed to discard changes'') Done
       | Inr a \<Rightarrow> loadStatus (Do onRefresh Done)))"

definition authFailure :: "git_answer \<Rightarrow> bool" where
  "authFailure a \<longleftrightarrow> (case ga_stderr a of None \<Rightarrow> False
     | Some e \<Rightarrow> includesStr e ''Authentication'' \<or> includesStr e ''403'' \<or> includesStr e ''401'')"

definition handlePush :: "prog \<Rightarrow> prog" where
  "handlePush k =
     (let finally = Do (setLoading False) k in
      Do (setLoading True)
      (Ask (Push None) (\<lambda>r. case r of
         Inl e \<Rightarrow> Do (openCred OpPush None) finally
       | Inr a \<Rightarrow>
           if ga_success a then Do (flash ''Pushed successfully'') (loadStatus (Do onRefresh finally))
           else if authFailure a then Do (openCred OpPush None) finally
           else Do (setError (firstText [ga_message a, ga_stderr a] ''Push failed'')) finally)))"

definition handlePull :: "prog \<Rightarrow> prog" where
  "handlePull k =
     (let finally = Do (setLoading False) k in
      Do (setLoading True)
      (Ask (Pull None) (\<lambda>r. case r of
         Inl e \<Rightarrow> Do (openCred OpPull None) finally
       | Inr a \<Rightarrow>
           if ga_success a then Do (flash ''Pulled successfully'') (loadStatus (Do onRefresh finally))
           else Do (openCred OpPull None) finally)))"

definition handleSync :: prog where
  "handleSync = handlePull (handlePush Done)"

definition executePushPull :: "operation \<Rightarrow> credentials \<Rightarrow> prog" where
  "executePushPull t c =
     (let finally = Do (setLoading False) Done;
          again = loadStatus (Do onRefresh finally)
      in
      Do (\<lambda>s. setLoading True (s\<lparr>sc_error := None\<rparr>))
      (case t of
         OpPush \<Rightarrow> Ask (Push (Some c)) (\<lambda>r. case r of
           Inl e \<Rightarrow> Do (setError ''push failed'') finally
         | Inr a \<Rightarrow>
             if ga_success a then Do (flash ''Pushed successfully'') again
             else if authFailure a then
               Do (openCred OpPush (Some ''Authentication failed. Please check your credentials.'')) finally
             else Do (setError (firstText [ga_message a] ''Push failed'')) again)
       | OpPull \<Rightarrow> Ask (Pull (Some c)) (\<lambda>r. case r of
           Inl e \<Rightarrow> Do (setError ''pull failed'') finally
         | Inr a \<Rightarrow>
             if ga_success a then Do (flash ''Pulled successfully'') again
             else Do (openCred OpPull (Some ''Authentication failed.'')) finally)))"

definition handleCredentialSubmit :: "credentials \<Rightarrow> panel \<Rightarrow> prog" where
  "handleCredentialSubmit c p = Do closeCred (executePushPull (cd_type (sc_cred p)) c)"

definition cancelCredDialog :: prog where
  "cancelCredDialog = Do closeCred Done"

definition handleCreateBranch :: "panel \<Rightarrow> prog" where
  "handleCreateBranch p =
     (let name = trim (sc_newBranch p); finally = Do (setBranchLoading False) Done in
      if name = '''' then Do (setError ''Please enter a branch name'') Done
      else
        Do (\<lambda>s. setBranchLoading True (s\<lparr>sc_error := None\<rparr>))
        (Ask (Checkout name True) (\<lambda>r. case r of
           Inl e \<Rightarrow> Do (setError ''Failed to create branch'') finally
         | Inr a \<Rightarrow>
             if ga_success a then
               Do (\<lambda>s. flash (''Created and switched to branch '' @ [CHR 0x27] @ name @ [CHR 0x27])
                     (s\<lparr>sc_branch := name, sc_newBranch := '''', sc_showNewBranch := False\<rparr>)) (loadStatus finally)
             else Do (setError (firstText [ga_message a] ''Failed to create branch'')) finally)))"

text \<open>\<open>name.replace(/^[^/]+\//, '')\<close>.\<close>

definition localName :: "string \<Rightarrow> string" where
  "localName name =
     (let remote = takeWhile (\<lambda>c. c \<noteq> CHR ''/'') name in
      if remote \<noteq> '''' \<and> length remote < length name then drop (Suc (length remote)) name else name)"

definition switchCall :: "git_branch list \<Rightarrow> git_branch \<Rightarrow> git_call" where
  "switchCall known branch =
     (if gb_is_remote branch then
        (if list_ex (\<lambda>b. \<not> gb_is_remote b \<and> gb_name b = localName (gb_name branch)) known
         then Checkout (localName (gb_name branch)) False
         else Exec (''checkout --track '' @ gb_name branch))
      else Checkout (gb_name branch) False)"

definition handleSwitchBranch :: "git_branch \<Rightarrow> panel \<Rightarrow> prog" where
  "handleSwitchBranch branch p =
     (let finally = Do (setBranchLoading False) Done in
      if gb_is_current branch then Done
      else
        Do (\<lambda>s. setBranchLoading True (clearMessages s))
        (Ask (switchCall (sc_branches p) branch) (\<lambda>r. case r of
           Inl e \<Rightarrow> Do (setError ''Failed to switch branch'') finally
         | Inr a \<Rightarrow>
             if ga_success a then
               Do (flash (''Switched to branch '' @ [CHR 0x27] @
                    (if gb_is_remote branch then localName (gb_name branch) else gb_name branch) @ [CHR 0x27]))
               (loadStatus (Do onRefresh finally))
             else Do (setError (firstText [ga_message a, ga_stderr a] ''Failed to switch branch'')) finally)))"

definition handleSaveRemote :: "panel \<Rightarrow> prog" where
  "handleSaveRemote p =
     (let name = trim (sc_remoteName p); url = trim (sc_remoteInput p); finally = Do (setRemoteLoading False) Done in
      if name = '''' then Do (setError ''Please enter a remote name'') Done
      else if url = '''' then Do (setError ''Please enter a remote URL'') Done
      else
        Do (\<lambda>s. setRemoteLoading True (clearMessages s))
        (Ask (AddRemote name url) (\<lambda>r. case r of
           Inl e \<Rightarrow> Do (setError ''Failed to update remote'') finally
         | Inr a \<Rightarrow>
             if ga_success a then
               Do (\<lambda>s. flash (firstText [ga_message a] ''Remote updated'') (s\<lparr>sc_remoteUrl := url, sc_showRemote := False\<rparr>))
               (loadStatus finally)
             else Do (setError (firstText [ga_message a] ''Failed to update remote'')) finally)))"

definition handleFetch :: prog where
  "handleFetch =
     (let finally = Do (setLoading False) Done in
      Do (\<lambda>s. setLoading True (clearMessages s))
      (Ask Fetch (\<lambda>r. case r of
         Inl e \<Rightarrow>
           if includesStr e ''could not read Username'' \<or> includesStr e ''Authentication'' then
             Do (openCred OpPull (Some ''Authentication failed. Please check your credentials.'')) finally
           else Do (setError ''Fetch failed'') finally
       | Inr a \<Rightarrow>
           if ga_success a then Do (flash ''Fetched remote updates'') (loadStatus finally)
           else Do (setError (firstText [ga_message a] ''Fetch failed'')) finally)))"

definition handleGitInit :: prog where
  "handleGitInit =
     (let finally = Do (setInitLoading False) Done in
      Do (\<lambda>s. setInitLoading True (s\<lparr>sc_error := None\<rparr>))
      (Ask GInit (\<lambda>r. case r of
         Inl e \<Rightarrow> Do (setError ''Failed to initialize repository'') finally
       | Inr a \<Rightarrow>
           if ga_success a then
             Do (\<lambda>s. flash ''Repository initialized'' (s\<lparr>sc_noRepo := False\<rparr>)) (loadStatus finally)
           else Do (setError ''Failed to initialize repository'') finally)))"

subsection \<open>The panel at work\<close>

text \<open>A handler runs up to its next request.\<close>

primrec advance :: "prog \<Rightarrow> panel \<Rightarrow> panel \<times> prog" where
  "advance Done s = (s, Done)"
| "advance (Do f p) s = advance p (f s)"
| "advance (Ask c k) s = (s, Ask c k)"

datatype handler =
    Refresh
  | StageFile string | UnstageFile string | StageAll | UnstageAll
  | CommitClick | CommitKey
  | Discard string | DiscardAll
  | PushClick | PullClick | SyncClick | FetchClick
  | SubmitCred credentials | CancelCred
  | CreateBranch | SwitchBranch git_branch | SaveRemote | InitRepo

text \<open>When the control of a handler is enabled. The key that commits is not disabled with the button.\<close>

fun enabled :: "handler \<Rightarrow> panel \<Rightarrow> bool" where
  "enabled Refresh s \<longleftrightarrow> \<not> sc_refreshing s"
| "enabled CommitClick s \<longleftrightarrow> \<not> sc_loading s \<and> trim (sc_message s) \<noteq> '''' \<and> totalChanges s \<noteq> 0"
| "enabled PushClick s \<longleftrightarrow> \<not> sc_loading s"
| "enabled PullClick s \<longleftrightarrow> \<not> sc_loading s"
| "enabled SyncClick s \<longleftrightarrow> \<not> sc_loading s \<and> (sc_ahead s > 0 \<or> sc_behind s > 0)"
| "enabled FetchClick s \<longleftrightarrow> \<not> sc_loading s"
| "enabled (SubmitCred c) s \<longleftrightarrow> cd_isOpen (sc_cred s)"
| "enabled CancelCred s \<longleftrightarrow> cd_isOpen (sc_cred s)"
| "enabled (SwitchBranch b) s \<longleftrightarrow> \<not> sc_branchLoading s \<and> b \<in> set (sc_branches s)"
| "enabled InitRepo s \<longleftrightarrow> sc_noRepo s \<and> \<not> sc_initLoading s"
| "enabled h s \<longleftrightarrow> True"

fun start :: "handler \<Rightarrow> panel \<Rightarrow> prog" where
  "start Refresh s = loadStatus Done"
| "start (StageFile path) s = stageFile path"
| "start (UnstageFile path) s = unstageFile path"
| "start StageAll s = stageAll"
| "start UnstageAll s = unstageAll"
| "start CommitClick s = handleCommit s"
| "start CommitKey s = handleCommit s"
| "start (Discard path) s = discardFile path"
| "start DiscardAll s = discardAll"
| "start PushClick s = handlePush Done"
| "start PullClick s = handlePull Done"
| "start SyncClick s = handleSync"
| "start FetchClick s = handleFetch"
| "start (SubmitCred c) s = handleCredentialSubmit c s"
| "start CancelCred s = cancelCredDialog"
| "start CreateBranch s = handleCreateBranch s"
| "start (SwitchBranch b) s = handleSwitchBranch b s"
| "start SaveRemote s = handleSaveRemote s"
| "start InitRepo s = handleGitInit"

text \<open>The panel with the handlers that wait for an answer, in the order of their start.\<close>

type_synonym sc_state = "panel \<times> prog list"

definition launch :: "prog \<Rightarrow> sc_state \<Rightarrow> sc_state" where
  "launch p st = (case advance p (fst st) of
      (s, Done) \<Rightarrow> (s, snd st)
    | (s, q) \<Rightarrow> (s, snd st @ [q]))"

datatype sc_event =
    Click handler
  | Reply nat reply
  | Timer
  | TypeMessage string
  | TypeBranch string
  | TypeRemoteName string
  | TypeRemoteUrl string
  | DismissError

fun sc_step :: "sc_event \<Rightarrow> sc_state \<Rightarrow> sc_state" where
  "sc_step (Click h) st = (if enabled h (fst st) then launch (start h (fst st)) st else st)"
| "sc_step (Reply i r) st =
     (if i < length (snd st) then
        (case snd st ! i of
           Ask c k \<Rightarrow>
             (case advance (k r) (fst st) of
                (s, Done) \<Rightarrow> (s, take i (snd st) @ drop (Suc i) (snd st))
              | (s, q) \<Rightarrow> (s, (snd st)[i := q]))
         | _ \<Rightarrow> st)
      else st)"
| "sc_step Timer st = (if sc_timers (fst st) = 0 then st
     else ((fst st)\<lparr>sc_success := None, sc_timers := sc_timers (fst st) - 1\<rparr>, snd st))"
| "sc_step (TypeMessage m) st = ((fst st)\<lparr>sc_message := m\<rparr>, snd st)"
| "sc_step (TypeBranch m) st = ((fst st)\<lparr>sc_newBranch := m\<rparr>, snd st)"
| "sc_step (TypeRemoteName m) st = ((fst st)\<lparr>sc_remoteName := m\<rparr>, snd st)"
| "sc_step (TypeRemoteUrl m) st = ((fst st)\<lparr>sc_remoteInput := m\<rparr>, snd st)"
| "sc_step DismissError st = ((fst st)\<lparr>sc_error := None\<rparr>, snd st)"

definition initialPanel :: panel where
  "initialPanel =
     \<lparr>sc_staged = [], sc_unstaged = [], sc_message = '''', sc_loading = False, sc_refreshing = False, sc_error = None,
      sc_success = None, sc_noRepo = False, sc_initLoading = False,
      sc_cred = \<lparr>cd_isOpen = False, cd_type = OpPush, cd_error = None\<rparr>, sc_remoteUrl = '''', sc_remotes = [],
      sc_showRemote = False, sc_remoteName = ''origin'', sc_remoteInput = '''', sc_remoteLoading = False,
      sc_branch = ''main'', sc_branches = [], sc_showNewBranch = False, sc_newBranch = '''', sc_branchLoading = False,
      sc_ahead = 0, sc_behind = 0, sc_timers = 0, sc_notified = 0\<rparr>"

text \<open>Mounting the panel loads the status; after that any event may come, in any order.\<close>

inductive sc_reachable :: "sc_state \<Rightarrow> bool" where
  mounted: "sc_reachable (launch (loadStatus Done) (initialPanel, []))"
| continue: "sc_reachable st \<Longrightarrow> sc_reachable (sc_step e st)"

section \<open>Lemmas\<close>

subsection \<open>Busy flags\<close>

text \<open>
  A flag of the panel, what an update does to it, and whether a handler that set it (or did not) leaves it
  cleared whatever the answers are.
\<close>

definition raises :: "(panel \<Rightarrow> bool) \<Rightarrow> (panel \<Rightarrow> panel) \<Rightarrow> bool" where
  "raises flag f \<longleftrightarrow> (\<forall>s. flag (f s))"

definition clears :: "(panel \<Rightarrow> bool) \<Rightarrow> (panel \<Rightarrow> panel) \<Rightarrow> bool" where
  "clears flag f \<longleftrightarrow> (\<forall>s. \<not> flag (f s))"

definition keeps :: "(panel \<Rightarrow> bool) \<Rightarrow> (panel \<Rightarrow> panel) \<Rightarrow> bool" where
  "keeps flag f \<longleftrightarrow> (\<forall>s. flag (f s) = flag s)"

primrec settles :: "(panel \<Rightarrow> bool) \<Rightarrow> prog \<Rightarrow> bool \<Rightarrow> bool" where
  "settles flag Done b \<longleftrightarrow> \<not> b"
| "settles flag (Do f p) b \<longleftrightarrow>
     raises flag f \<and> settles flag p True \<or> clears flag f \<and> settles flag p False \<or> keeps flag f \<and> settles flag p b"
| "settles flag (Ask c k) b \<longleftrightarrow> (\<forall>r. settles flag (k r) b)"

lemma advance_settles:
  "settles flag p b \<Longrightarrow> advance p s = (s', q) \<Longrightarrow>
     \<exists>b'. settles flag q b' \<and> (flag s' \<longrightarrow> b' \<or> flag s \<and> \<not> b)"
proof (induction p arbitrary: b s)
  case (Do f p)
  then have a: "advance p (f s) = (s', q)" by simp
  from Do.prems(1) consider "raises flag f" "settles flag p True" | "clears flag f" "settles flag p False"
    | "keeps flag f" "settles flag p b" by auto
  then show ?case
    by cases (use Do.IH [OF _ a] in \<open>fastforce simp: raises_def clears_def keeps_def\<close>)+
qed auto

lemmas updates = setError_def clearMessages_def setLoading_def setRefreshing_def setBranchLoading_def setRemoteLoading_def
  setInitLoading_def flash_def onRefresh_def openCred_def closeCred_def setBranches_def

lemmas flag_effects = raises_def clears_def keeps_def updates

lemma keeps_setRemotes [simp]:
  "sc_loading (setRemotes a s) = sc_loading s" "sc_refreshing (setRemotes a s) = sc_refreshing s"
  "sc_branchLoading (setRemotes a s) = sc_branchLoading s" "sc_remoteLoading (setRemotes a s) = sc_remoteLoading s"
  "sc_initLoading (setRemotes a s) = sc_initLoading s"
  by (simp_all add: setRemotes_def Let_def split: list.split)

text \<open>No flag is always up or always down.\<close>

lemma flag_down: "\<not> (\<forall>s. sc_loading s)" "\<not> (\<forall>s. sc_refreshing s)" "\<not> (\<forall>s. sc_branchLoading s)" "\<not> (\<forall>s. sc_remoteLoading s)" "\<not> (\<forall>s. sc_initLoading s)"
proof -
  have "\<not> sc_loading (undefined\<lparr>sc_loading := False\<rparr>)" by simp
  then show "\<not> (\<forall>s. sc_loading s)" by (rule contrapos_nn) (rule spec)
  have "\<not> sc_refreshing (undefined\<lparr>sc_refreshing := False\<rparr>)" by simp
  then show "\<not> (\<forall>s. sc_refreshing s)" by (rule contrapos_nn) (rule spec)
  have "\<not> sc_branchLoading (undefined\<lparr>sc_branchLoading := False\<rparr>)" by simp
  then show "\<not> (\<forall>s. sc_branchLoading s)" by (rule contrapos_nn) (rule spec)
  have "\<not> sc_remoteLoading (undefined\<lparr>sc_remoteLoading := False\<rparr>)" by simp
  then show "\<not> (\<forall>s. sc_remoteLoading s)" by (rule contrapos_nn) (rule spec)
  have "\<not> sc_initLoading (undefined\<lparr>sc_initLoading := False\<rparr>)" by simp
  then show "\<not> (\<forall>s. sc_initLoading s)" by (rule contrapos_nn) (rule spec)
qed

lemma flag_up: "\<exists>s. sc_loading s" "\<exists>s. sc_refreshing s" "\<exists>s. sc_branchLoading s" "\<exists>s. sc_remoteLoading s" "\<exists>s. sc_initLoading s"
proof -
  have "sc_loading (undefined\<lparr>sc_loading := True\<rparr>)" by simp
  then show "\<exists>s. sc_loading s" by (rule exI)
  have "sc_refreshing (undefined\<lparr>sc_refreshing := True\<rparr>)" by simp
  then show "\<exists>s. sc_refreshing s" by (rule exI)
  have "sc_branchLoading (undefined\<lparr>sc_branchLoading := True\<rparr>)" by simp
  then show "\<exists>s. sc_branchLoading s" by (rule exI)
  have "sc_remoteLoading (undefined\<lparr>sc_remoteLoading := True\<rparr>)" by simp
  then show "\<exists>s. sc_remoteLoading s" by (rule exI)
  have "sc_initLoading (undefined\<lparr>sc_initLoading := True\<rparr>)" by simp
  then show "\<exists>s. sc_initLoading s" by (rule exI)
qed

lemma settles_loadSyncStatus:
  assumes "settles flag k b" "\<And>x y. keeps flag (\<lambda>s. s\<lparr>sc_ahead := x, sc_behind := y\<rparr>)"
  shows "settles flag (loadSyncStatus k) b"
  using assms by (simp add: loadSyncStatus_def split: sum.split)

lemma settles_loadStatus:
  "settles sc_loading k b \<Longrightarrow> settles sc_loading (loadStatus k) b"
  "settles sc_branchLoading k b \<Longrightarrow> settles sc_branchLoading (loadStatus k) b"
  "settles sc_remoteLoading k b \<Longrightarrow> settles sc_remoteLoading (loadStatus k) b"
  "settles sc_initLoading k b \<Longrightarrow> settles sc_initLoading (loadStatus k) b"
  by (simp_all add: loadStatus_def Let_def settles_loadSyncStatus flag_effects split: sum.split)

lemma settles_loadStatus_refreshing:
  "settles sc_refreshing k False \<Longrightarrow> settles sc_refreshing (loadStatus k) b"
  by (simp add: loadStatus_def Let_def settles_loadSyncStatus flag_effects split: sum.split)

lemmas handler_defs = stageFiles_def stageFile_def unstageFile_def stageAll_def unstageAll_def commitWith_def
  handleCommit_def handleCommitAll_def discardFile_def discardAll_def handlePush_def handlePull_def handleSync_def
  executePushPull_def handleCredentialSubmit_def cancelCredDialog_def handleCreateBranch_def handleSwitchBranch_def
  handleSaveRemote_def handleFetch_def handleGitInit_def

lemmas settling = settles_loadStatus settles_loadStatus_refreshing handler_defs Let_def flag_effects flag_down flag_up

lemma start_loading: "settles sc_loading (start h s) False"
  by (cases h) (simp_all add: settling split: sum.split operation.split)

lemma start_refreshing: "settles sc_refreshing (start h s) False"
  by (cases h) (simp_all add: settling split: sum.split operation.split)

lemma start_branchLoading: "settles sc_branchLoading (start h s) False"
  by (cases h) (simp_all add: settling split: sum.split operation.split)

lemma start_remoteLoading: "settles sc_remoteLoading (start h s) False"
  by (cases h) (simp_all add: settling split: sum.split operation.split)

lemma start_initLoading: "settles sc_initLoading (start h s) False"
  by (cases h) (simp_all add: settling split: sum.split operation.split)

text \<open>The invariant of a flag: who set it is still at work and will clear it.\<close>

definition accounted :: "(panel \<Rightarrow> bool) \<Rightarrow> sc_state \<Rightarrow> bool" where
  "accounted flag st \<longleftrightarrow> (\<forall>q \<in> set (snd st). \<exists>b. settles flag q b) \<and>
     (flag (fst st) \<longrightarrow> (\<exists>q \<in> set (snd st). settles flag q True))"

lemma accounted_launch:
  assumes "accounted flag st" "settles flag p False"
  shows "accounted flag (launch p st)"
proof -
  obtain s q where a: "advance p (fst st) = (s, q)" by fastforce
  obtain b where b: "settles flag q b" "flag s \<longrightarrow> b \<or> flag (fst st)"
    using advance_settles [OF assms(2) a] by auto
  show ?thesis using assms(1) a b by (cases q) (auto simp: accounted_def launch_def)
qed

lemma accounted_reply:
  assumes "accounted flag st" "i < length (snd st)" "snd st ! i = Ask c k"
  shows "accounted flag (sc_step (Reply i r) st)"
proof -
  obtain s q where a: "advance (k r) (fst st) = (s, q)" by fastforce
  have mem: "snd st ! i \<in> set (snd st)" using assms(2) by simp
  have others: "set (take i (snd st) @ drop (Suc i) (snd st)) \<subseteq> set (snd st)"
    by (auto dest: in_set_takeD in_set_dropD)
  have keep: "j \<in> set (take i (snd st) @ drop (Suc i) (snd st))" if "j \<in> set (snd st)" "j \<noteq> snd st ! i" for j
    using that assms(2) by (subst (asm) id_take_nth_drop [of i "snd st"]) auto
  have upd: "set ((snd st)[i := q]) = insert q (set (take i (snd st) @ drop (Suc i) (snd st)))"
    using assms(2) by (auto simp: upd_conv_take_nth_drop)
  have settled: "\<exists>b'. settles flag q b' \<and> (flag s \<longrightarrow> b' \<or> flag (fst st) \<and> \<not> b)" if "settles flag (snd st ! i) b" for b
    using advance_settles [OF _ a] that assms(3) by auto
  have "(\<exists>b'. settles flag q b' \<and> (flag s \<longrightarrow> b')) \<or>
      (\<exists>b'. settles flag q b') \<and> (\<exists>j \<in> set (snd st). j \<noteq> snd st ! i \<and> settles flag j True)"
  proof (cases "settles flag (snd st ! i) True")
    case True
    then show ?thesis using settled [of True] by auto
  next
    case False
    then have "settles flag (snd st ! i) False" using assms(1) mem unfolding accounted_def by (metis (full_types))
    moreover have "\<exists>j \<in> set (snd st). j \<noteq> snd st ! i \<and> settles flag j True" if "flag (fst st)"
      using assms(1) False that unfolding accounted_def by metis
    ultimately show ?thesis using settled [of False] by blast
  qed
  then have "(\<exists>b'. settles flag q b') \<and>
      (flag s \<longrightarrow> settles flag q True \<or> (\<exists>j \<in> set (take i (snd st) @ drop (Suc i) (snd st)). settles flag j True))"
    using keep by (metis (full_types))
  then have one: "\<exists>b'. settles flag q b'"
    and up: "flag s \<longrightarrow> settles flag q True \<or> (\<exists>j \<in> set (take i (snd st) @ drop (Suc i) (snd st)). settles flag j True)"
    by blast+
  have all: "\<forall>j \<in> set (take i (snd st) @ drop (Suc i) (snd st)). \<exists>b. settles flag j b"
    using assms(1) others unfolding accounted_def by blast
  have step: "sc_step (Reply i r) st =
      (s, if q = Done then take i (snd st) @ drop (Suc i) (snd st) else (snd st)[i := q])"
    using assms(2,3) a by (cases q) simp_all
  show ?thesis
  proof (cases "q = Done")
    case True
    then have "\<not> settles flag q True" by simp
    then show ?thesis using step True up all unfolding accounted_def by simp
  next
    case False
    then have e: "sc_step (Reply i r) st = (s, (snd st)[i := q])" using step by simp
    show ?thesis unfolding accounted_def e fst_conv snd_conv upd using one up all by blast
  qed
qed

lemma accounted_step:
  assumes "accounted flag st" "\<And>h s. settles flag (start h s) False"
    "\<And>s x y. flag (s\<lparr>sc_success := x, sc_timers := y\<rparr>) = flag s" "\<And>s x. flag (s\<lparr>sc_message := x\<rparr>) = flag s"
    "\<And>s x. flag (s\<lparr>sc_newBranch := x\<rparr>) = flag s" "\<And>s x. flag (s\<lparr>sc_remoteName := x\<rparr>) = flag s"
    "\<And>s x. flag (s\<lparr>sc_remoteInput := x\<rparr>) = flag s" "\<And>s x. flag (s\<lparr>sc_error := x\<rparr>) = flag s"
  shows "accounted flag (sc_step e st)"
proof (cases e)
  case (Click h)
  then show ?thesis using assms(1,2) accounted_launch by simp
next
  case (Reply i r)
  show ?thesis
  proof (cases "i < length (snd st) \<and> (\<exists>c k. snd st ! i = Ask c k)")
    case True
    then show ?thesis using Reply accounted_reply assms(1) by blast
  next
    case False
    then have "sc_step e st = st" using Reply by (auto split: prog.split)
    then show ?thesis using assms(1) by simp
  qed
qed (use assms in \<open>simp_all add: accounted_def\<close>)

lemma accounted_reachable:
  "sc_reachable st \<Longrightarrow> accounted sc_loading st \<and> accounted sc_refreshing st \<and> accounted sc_branchLoading st \<and>
     accounted sc_remoteLoading st \<and> accounted sc_initLoading st"
proof (induction rule: sc_reachable.induct)
  case mounted
  have none: "accounted flag (initialPanel, [])" if "\<not> flag initialPanel" for flag
    using that by (simp add: accounted_def)
  show ?case
    using start_loading [of Refresh] start_refreshing [of Refresh] start_branchLoading [of Refresh]
      start_remoteLoading [of Refresh] start_initLoading [of Refresh]
    by (intro conjI accounted_launch none) (simp_all add: initialPanel_def)
next
  case (continue st e)
  then show ?case
    by (intro conjI accounted_step start_loading start_refreshing start_branchLoading start_remoteLoading start_initLoading)
      simp_all
qed

subsection \<open>Every handler ends\<close>

primrec within :: "prog \<Rightarrow> nat \<Rightarrow> bool" where
  "within Done n \<longleftrightarrow> True"
| "within (Do f p) n \<longleftrightarrow> within p n"
| "within (Ask c k) n \<longleftrightarrow> 0 < n \<and> (\<forall>r. within (k r) (n - 1))"

lemma within_mono: "within p m \<Longrightarrow> m \<le> n \<Longrightarrow> within p n"
proof (induction p arbitrary: m n)
  case (Ask c k)
  then show ?case by (metis diff_le_mono gr_zeroI leD rangeI within.simps(3))
qed auto

lemma within_advance: "within p n \<Longrightarrow> advance p s = (s', q) \<Longrightarrow> within q n"
  by (induction p arbitrary: s) auto

lemma within_loadStatus: "within k n \<Longrightarrow> within (loadStatus k) (n + 4)"
  by (auto simp: loadStatus_def loadSyncStatus_def Let_def numeral_eq_Suc intro: within_mono split: sum.split)

lemma within_loadStatus_le: "4 \<le> n \<Longrightarrow> within k (n - 4) \<Longrightarrow> within (loadStatus k) n"
  using within_loadStatus [of k "n - 4"] by simp

lemma within_handlers: "within (start h s) 10"
  by (cases h) (auto simp: handler_defs Let_def intro!: within_loadStatus_le split: sum.split operation.split)

lemma launch_jobs: "snd (launch p st) = snd st \<or> (\<exists>q s. advance p (fst st) = (s, q) \<and> snd (launch p st) = snd st @ [q])"
  by (auto simp: launch_def split: prod.split prog.split)

lemma within_reachable: "sc_reachable st \<Longrightarrow> q \<in> set (snd st) \<Longrightarrow> within q 10"
proof (induction arbitrary: q rule: sc_reachable.induct)
  case mounted
  then show ?case
    using launch_jobs [of "loadStatus Done" "(initialPanel, [])"] within_advance [OF within_handlers [of Refresh]]
    by (auto simp: start.simps)
next
  case (continue st e)
  have sub: "set (take i xs @ drop (Suc i) xs) \<subseteq> set xs" for i and xs :: "prog list"
    by (auto dest: in_set_takeD in_set_dropD)
  show ?case
  proof (cases e)
    case (Click h)
    then show ?thesis
      using continue launch_jobs [of "start h (fst st)" st] within_advance [OF within_handlers [of h "fst st"]]
      by (auto split: if_splits)
  next
    case (Reply i r)
    show ?thesis
    proof (cases "i < length (snd st) \<and> (\<exists>c k. snd st ! i = Ask c k)")
      case True
      then obtain c k where k: "snd st ! i = Ask c k" "i < length (snd st)" by blast
      then have "within (Ask c k) 10" using continue.IH [OF nth_mem [OF k(2)]] by simp
      then have "within (k r) 9" by simp
      moreover obtain s p where a: "advance (k r) (fst st) = (s, p)" by fastforce
      ultimately have p: "within p 10" using within_advance within_mono [of p 9 10] by simp
      have "q = p \<or> q \<in> set (snd st)"
        using continue.prems Reply k a sub [of i "snd st"] set_update_subset_insert [of "snd st" i p]
        by (cases p) auto
      then show ?thesis using p continue.IH by blast
    qed (use continue Reply in \<open>auto split: prog.splits\<close>)
  qed (use continue in \<open>auto split: if_splits\<close>)
qed

text \<open>
  C27. However the handlers of the panel interleave and whatever git answers, every handler at work is at most
  ten answers from its end, and when none is at work no button is held disabled by a busy flag.
\<close>

theorem buttons_released:
  assumes "sc_reachable (s, qs)"
  shows "(\<forall>q \<in> set qs. within q 10) \<and>
    (qs = [] \<longrightarrow> \<not> sc_loading s \<and> \<not> sc_refreshing s \<and> \<not> sc_branchLoading s \<and> \<not> sc_remoteLoading s \<and> \<not> sc_initLoading s)"
  using accounted_reachable [OF assms] within_reachable [OF assms] by (auto simp: accounted_def)

subsection \<open>What is listed\<close>

text \<open>Both lists come from one and the same answer.\<close>

definition listed :: "panel \<Rightarrow> bool" where
  "listed s \<longleftrightarrow> (\<exists>changes. sc_staged s = stagedOf changes \<and> sc_unstaged s = unstagedOf changes)"

primrec lists :: "prog \<Rightarrow> bool" where
  "lists Done \<longleftrightarrow> True"
| "lists (Do f p) \<longleftrightarrow> (\<forall>s. listed s \<longrightarrow> listed (f s)) \<and> lists p"
| "lists (Ask c k) \<longleftrightarrow> (\<forall>r. lists (k r))"

lemma lists_advance: "lists p \<Longrightarrow> listed s \<Longrightarrow> listed (fst (advance p s)) \<and> lists (snd (advance p s))"
  by (induction p arbitrary: s) auto

lemma listed_setRemotes [simp]: "listed (setRemotes a s) = listed s"
  by (simp add: listed_def setRemotes_def Let_def split: list.split)

lemma listed_updates:
  "listed (s\<lparr>sc_error := e\<rparr>) = listed s" "listed (s\<lparr>sc_success := e\<rparr>) = listed s"
  "listed (s\<lparr>sc_loading := b\<rparr>) = listed s" "listed (s\<lparr>sc_branchLoading := b\<rparr>) = listed s"
  "listed (s\<lparr>sc_remoteLoading := b\<rparr>) = listed s" "listed (s\<lparr>sc_initLoading := b\<rparr>) = listed s"
  "listed (s\<lparr>sc_timers := n\<rparr>) = listed s" "listed (s\<lparr>sc_notified := n\<rparr>) = listed s"
  "listed (s\<lparr>sc_cred := c\<rparr>) = listed s" "listed (s\<lparr>sc_message := m\<rparr>) = listed s"
  "listed (s\<lparr>sc_branch := m\<rparr>) = listed s" "listed (s\<lparr>sc_newBranch := m\<rparr>) = listed s"
  "listed (s\<lparr>sc_showNewBranch := b\<rparr>) = listed s" "listed (s\<lparr>sc_remoteUrl := m\<rparr>) = listed s"
  "listed (s\<lparr>sc_showRemote := b\<rparr>) = listed s" "listed (s\<lparr>sc_noRepo := b\<rparr>) = listed s"
  "listed (s\<lparr>sc_refreshing := b\<rparr>) = listed s" "listed (s\<lparr>sc_branches := bs\<rparr>) = listed s"
  "listed (s\<lparr>sc_ahead := x\<rparr>) = listed s" "listed (s\<lparr>sc_behind := x\<rparr>) = listed s"
  "listed (s\<lparr>sc_remoteName := m\<rparr>) = listed s" "listed (s\<lparr>sc_remoteInput := m\<rparr>) = listed s"
  by (simp_all add: listed_def)

lemma listed_answer: "listed (s\<lparr>sc_staged := stagedOf changes, sc_unstaged := unstagedOf changes\<rparr>)"
  by (auto simp: listed_def)

lemma lists_loadStatus: "lists k \<Longrightarrow> lists (loadStatus k)"
  by (auto simp: loadStatus_def loadSyncStatus_def Let_def updates listed_updates listed_answer split: sum.split)

lemma lists_handlers: "lists (start h s)"
  by (cases h) (auto simp: handler_defs Let_def updates listed_updates intro!: lists_loadStatus split: sum.split operation.split)

lemma launch_lists: "lists p \<Longrightarrow> listed (fst st) \<and> list_all lists (snd st) \<Longrightarrow>
    listed (fst (launch p st)) \<and> list_all lists (snd (launch p st))"
  using lists_advance [of p "fst st"] by (auto simp: launch_def split: prod.split prog.split)

lemma list_all_replace: "list_all P xs \<Longrightarrow> P q \<Longrightarrow> list_all P (xs[i := q]) \<and> list_all P (take i xs @ drop (Suc i) xs)"
  using set_update_subset_insert [of xs i q] by (auto simp: list_all_iff dest: in_set_takeD in_set_dropD)

lemma listed_reachable: "sc_reachable st \<Longrightarrow> listed (fst st) \<and> list_all lists (snd st)"
proof (induction rule: sc_reachable.induct)
  case mounted
  have "listed initialPanel" by (auto simp: listed_def initialPanel_def stagedOf_def unstagedOf_def intro: exI [of _ "[]"])
  then show ?case using lists_handlers [of Refresh] by (intro launch_lists) simp_all
next
  case (continue st e)
  show ?case
  proof (cases e)
    case (Click h)
    then show ?thesis using continue.IH launch_lists [OF lists_handlers] by simp
  next
    case (Reply i r)
    show ?thesis
    proof (cases "i < length (snd st) \<and> (\<exists>c k. snd st ! i = Ask c k)")
      case True
      then obtain c k where k: "snd st ! i = Ask c k" "i < length (snd st)" by blast
      then have "lists (k r)" using continue.IH by (auto simp: list_all_length)
      moreover obtain s p where a: "advance (k r) (fst st) = (s, p)" by fastforce
      ultimately have "listed s" "lists p" using lists_advance [of "k r" "fst st"] continue.IH by simp_all
      then show ?thesis using Reply k a continue.IH list_all_replace [of lists "snd st" p i] by (cases p) auto
    qed (use continue Reply in \<open>auto split: prog.splits\<close>)
  qed (use continue.IH in \<open>auto simp: listed_updates\<close>)
qed

text \<open>The merged list, by its paths and by the flags and letters it shows.\<close>

lemma paths_mergeChange:
  "map fc_path (mergeChange files f) =
     (if fc_path f \<in> fc_path ` set files then map fc_path files else map fc_path files @ [fc_path f])"
  by (induction files) auto

text \<open>The staged flag a list has for a path.\<close>

definition flagOf :: "file_change list \<Rightarrow> string \<Rightarrow> bool option" where
  "flagOf files = map_of (map (\<lambda>f. (fc_path f, fc_staged f)) files)"

lemma flagOf_mergeChange:
  "flagOf (mergeChange files f) =
     (flagOf files)(fc_path f \<mapsto> (case flagOf files (fc_path f) of None \<Rightarrow> fc_staged f | Some b \<Rightarrow> b \<or> fc_staged f))"
  by (induction files) (auto simp: flagOf_def fun_eq_iff)

lemma flagOf_merged:
  "flagOf (foldl mergeChange [] fs) p =
     (if p \<in> fc_path ` set fs then Some (\<exists>h \<in> set fs. fc_path h = p \<and> fc_staged h) else None)"
proof (induction fs arbitrary: p rule: rev_induct)
  case Nil
  then show ?case by (simp add: flagOf_def)
next
  case (snoc f fs)
  show ?case
  proof (cases "fc_path f = p")
    case True
    then show ?thesis using snoc.IH [of p] by (auto simp: flagOf_mergeChange image_iff split: option.splits)
  next
    case False
    then show ?thesis using snoc.IH [of p] by (auto simp: flagOf_mergeChange)
  qed
qed

lemma distinct_merged: "distinct (map fc_path (foldl mergeChange [] fs))"
  by (induction fs rule: rev_induct) (auto simp: paths_mergeChange)

lemma flagOf_member: "distinct (map fc_path files) \<Longrightarrow> g \<in> set files \<Longrightarrow> flagOf files (fc_path g) = Some (fc_staged g)"
  unfolding flagOf_def by (rule map_of_is_SomeI) (auto simp: comp_def)

lemma flagOf_path: "flagOf files p \<noteq> None \<longleftrightarrow> p \<in> fc_path ` set files"
  by (auto simp: flagOf_def map_of_eq_None_iff image_iff)

lemma mem_stagedOf:
  "f \<in> set (stagedOf changes) \<longleftrightarrow> (\<exists>status path. (status, path) \<in> set changes \<and> fst (parseGitStatus status) \<noteq> '''' \<and>
     f = \<lparr>fc_path = path, fc_status = fst (parseGitStatus status), fc_staged = True\<rparr>)"
  unfolding stagedOf_def by (induction changes) (auto simp: case_prod_unfold)

lemma mem_unstagedOf:
  "f \<in> set (unstagedOf changes) \<longleftrightarrow> (\<exists>status path. (status, path) \<in> set changes \<and> snd (parseGitStatus status) \<noteq> '''' \<and>
     f = \<lparr>fc_path = path, fc_status = snd (parseGitStatus status), fc_staged = False\<rparr>)"
  unfolding unstagedOf_def by (induction changes) (auto simp: case_prod_unfold)

definition changed :: "(string \<times> string) list \<Rightarrow> string \<Rightarrow> bool" where
  "changed changes path \<longleftrightarrow> (\<exists>status. (status, path) \<in> set changes \<and> parseGitStatus status \<noteq> ('''', ''''))"

definition stagedChange :: "(string \<times> string) list \<Rightarrow> string \<Rightarrow> bool" where
  "stagedChange changes path \<longleftrightarrow> (\<exists>status. (status, path) \<in> set changes \<and> fst (parseGitStatus status) \<noteq> '''')"


subsection \<open>Command lines\<close>

lemma shlex_double:
  "list_all (\<lambda>c. c \<noteq> CHR 0x22 \<and> c \<noteq> CHR 0x5C) w \<Longrightarrow>
     shlex_go Double tok (w @ CHR 0x22 # rest) = shlex_go Word (tok @ w) rest"
  by (induction w arbitrary: tok) auto

text \<open>
  A file whose listed path holds no double quote and no backslash is discarded as itself: the runner reads
  the command as exactly the words \<open>checkout\<close>, \<open>--\<close> and the path, whatever blanks it has.
\<close>

lemma discard_one_file:
  assumes "list_all (\<lambda>c. c \<noteq> CHR 0x22 \<and> c \<noteq> CHR 0x5C) path"
  shows "shlex_split (discardCommand path) = Some [''checkout'', ''--'', path]"
  using shlex_double [OF assms, of "[]" "[]"]
  by (simp add: discardCommand_def shlex_split_def lex_blank_def)


text \<open>
  Git lists a path with a blank in double quotes, and the panel quotes it once more: the words are then two
  other files. A path can also name everything.
\<close>

lemma discard_quoted_path:
  "shlex_split (discardCommand ([CHR 0x22] @ ''my model.sql'' @ [CHR 0x22])) = Some [''checkout'', ''--'', ''my'', ''model.sql'']"
  "shlex_split (discardCommand (''a'' @ [CHR 0x22] @ '' . '' @ [CHR 0x22] @ ''b'')) = Some [''checkout'', ''--'', ''a'', ''.'', ''b'']"
  by (simp_all add: discardCommand_def shlex_split_def lex_blank_def)

text \<open>A remote branch with a single quote in its name cannot be switched to.\<close>

lemma quote_in_branch:
  assumes "gb_is_remote b" "gb_name b = ''origin/o'' @ [CHR 0x27] @ ''brien''"
  shows "switchCall [] b = Exec (''checkout --track origin/o'' @ [CHR 0x27] @ ''brien'') \<and>
    shlex_split (''checkout --track origin/o'' @ [CHR 0x27] @ ''brien'') = None"
  using assms by (simp add: switchCall_def shlex_split_def lex_blank_def)

subsection \<open>What the handlers do with the answers\<close>

text \<open>A commit always stages everything, also what was left unstaged on purpose.\<close>

lemma commit_stages_all:
  "advance (handleCommit p) s = (s', Ask c k) \<Longrightarrow> c = Commit (sc_message p) True \<and> trim (sc_message p) \<noteq> '''' \<and> totalChanges p \<noteq> 0"
  by (auto simp: handleCommit_def commitWith_def Let_def split: if_splits)

text \<open>A sync pushes whatever became of the pull.\<close>

lemma sync_pushes_anyway:
  assumes "\<not> ga_success a"
  shows "\<exists>k k'. advance handleSync s = (setLoading True s, Ask (Pull None) k) \<and>
    advance (k (Inr a)) s' = (setLoading True (setLoading False (openCred OpPull None s')), Ask (Push None) k')"
  using assms by (simp add: handleSync_def handlePull_def handlePush_def Let_def)

text \<open>A fetch that needs credentials asks for those of a pull, and submitting them pulls.\<close>

lemma fetch_becomes_pull:
  assumes "includesStr e ''Authentication''"
  shows "\<exists>k. advance handleFetch s = (setLoading True (clearMessages s), Ask Fetch k) \<and>
    (\<exists>s1 k'. advance (k (Inl e)) s' = (s1, Done) \<and>
      advance (handleCredentialSubmit c s1) s1 =
        (setLoading True ((closeCred s1)\<lparr>sc_error := None\<rparr>), Ask (Pull (Some c)) k'))"
  using assms by (simp add: handleFetch_def handleCredentialSubmit_def executePushPull_def openCred_def setLoading_def Let_def)

text \<open>A discard that git refuses reports nothing.\<close>

lemma refused_discard_silent:
  "\<exists>k k'. advance (discardFile path) s = (s, Ask (Exec (discardCommand path)) k) \<and>
     advance (k (Inr a)) s' = (s'\<lparr>sc_refreshing := True, sc_error := None\<rparr>, Ask GetStatus k')"
  by (simp add: discardFile_def loadStatus_def Let_def)

text \<open>Of two loads of the status the one answered last shows, also when it was asked first.\<close>

lemma stale_status_shows:
  assumes "advance (loadStatus Done) s = (s1, Ask GetStatus k)" "ga_success old"
  shows "sc_staged (fst (advance (k (Inr old)) s')) = stagedOf (ga_changes old)"
  using assms by (auto simp: loadStatus_def Let_def)

definition demo_status :: git_answer where
  "demo_status = \<lparr>ga_success = True, ga_message = None, ga_stdout = None, ga_stderr = None, ga_no_repo = False,
     ga_changes = [(''MM'', ''a.sql''), (''??'', ''b.sql'')], ga_branches = [], ga_current = ''main'', ga_remotes = []\<rparr>"

lemma demo_reachable: "sc_reachable (sc_step (Reply 0 (Inl ''offline'')) (launch (loadStatus Done) (initialPanel, [])))"
  by (rule sc_reachable.continue [OF sc_reachable.mounted])

theorem buttons_released_witness:
  "\<not> sc_refreshing (fst (sc_step (Reply 0 (Inl ''offline'')) (launch (loadStatus Done) (initialPanel, []))))"
proof -
  let ?st = "sc_step (Reply 0 (Inl ''offline'')) (launch (loadStatus Done) (initialPanel, []))"
  have "snd ?st = []" by (simp add: launch_def loadStatus_def Let_def)
  then show ?thesis using buttons_released [of "fst ?st" "[]"] demo_reachable by (metis prod.collapse)
qed


end
