(* ===== verification/Connection_Dialog.thy ===== *)
theory Connection_Dialog
  imports Connections
begin

text \<open>
  The dialog that creates and edits a warehouse connection
  (\<open>features/connections/components/ConnectionDialog.tsx\<close>): its form, what opening it puts there, and the
  request it sends for each kind of connection. The request is one to the modelled route
  (\<open>connections_POST\<close>, \<open>connections_PUT\<close>).

  \<open>num\<close> is \<open>Number\<close> on a text, for whole numbers, with \<open>None\<close> for \<open>NaN\<close>; \<open>hostnameOf\<close> is the host name of
  \<open>new URL\<close>, with \<open>None\<close> where the constructor throws; \<open>parse\<close> is \<open>JSON.parse\<close>. The casts of the source
  (\<open>as string\<close>) check nothing; a value of another type is read as its text here. Labels, hints and the
  fields shown are left out.
\<close>

section \<open>Definitions\<close>

subsection \<open>The form\<close>

record conn_form =
  cf_name :: string
  cf_host :: string
  cf_port :: string
  cf_database :: string
  cf_username :: string
  cf_credential :: string
  cf_sslMode :: string
  cf_schema :: string
  cf_threads :: string

definition defaultForm :: conn_form where
  "defaultForm =
     \<lparr> cf_name = '''', cf_host = ''localhost'', cf_port = ''5432'', cf_database = '''', cf_username = '''',
       cf_credential = '''', cf_sslMode = ''prefer'', cf_schema = '''', cf_threads = '''' \<rparr>"

record dremio_form =
  df_auth_type :: string
  df_space :: string
  df_space_folder :: string
  df_storage_source :: string
  df_storage_path :: string
  df_use_ssl :: string
  df_twin_strategy :: string

definition defaultDremio :: dremio_form where
  "defaultDremio =
     \<lparr> df_auth_type = ''password'', df_space = ''@vaultadmin'', df_space_folder = ''views'',
       df_storage_source = '''', df_storage_path = '''', df_use_ssl = ''false'', df_twin_strategy = '''' \<rparr>"

record lake_form =
  lf_mode :: string
  lf_catalog_type :: string
  lf_data_path :: string
  lf_metadata_schema :: string
  lf_maintained :: bool

definition defaultLake :: lake_form where
  "defaultLake =
     \<lparr> lf_mode = ''managed'', lf_catalog_type = ''postgresql'', lf_data_path = '''',
       lf_metadata_schema = '''', lf_maintained = False \<rparr>"

record rest_form =
  rf_base_url :: string
  rf_auth_type :: string
  rf_api_key_name :: string
  rf_api_key_location :: string

definition defaultRest :: rest_form where
  "defaultRest =
     \<lparr> rf_base_url = '''', rf_auth_type = ''none'', rf_api_key_name = '''', rf_api_key_location = ''header'' \<rparr>"

record snowflake_form =
  sf_account :: string
  sf_auth_type :: string
  sf_role :: string
  sf_warehouse :: string
  sf_secondary_secret :: string

definition defaultSnowflake :: snowflake_form where
  "defaultSnowflake =
     \<lparr> sf_account = '''', sf_auth_type = ''password'', sf_role = '''', sf_warehouse = '''',
       sf_secondary_secret = '''' \<rparr>"

record databricks_form =
  bf_auth_type :: string
  bf_http_path :: string
  bf_client_id :: string
  bf_secondary_secret :: string

definition defaultDatabricks :: databricks_form where
  "defaultDatabricks =
     \<lparr> bf_auth_type = ''pat'', bf_http_path = '''', bf_client_id = '''', bf_secondary_secret = '''' \<rparr>"

record spark_form =
  kf_method :: string
  kf_threads :: string
  kf_secret_type :: string
  kf_driver :: string
  kf_cluster :: string
  kf_endpoint :: string
  kf_auth :: string
  kf_kerberos_service_name :: string
  kf_organization :: string
  kf_connection_string_suffix :: string
  kf_connect_retries :: string
  kf_connect_timeout :: string
  kf_use_ssl :: string
  kf_retry_all :: string
  kf_query_timeout :: string
  kf_poll_interval :: string
  kf_query_retries :: string
  kf_parameters :: "(string \<times> string) list"
  kf_importText :: string

definition defaultSpark :: spark_form where
  "defaultSpark =
     \<lparr> kf_method = ''session'', kf_threads = ''2'', kf_secret_type = ''none'', kf_driver = '''',
       kf_cluster = '''', kf_endpoint = '''', kf_auth = '''', kf_kerberos_service_name = '''',
       kf_organization = '''', kf_connection_string_suffix = '''', kf_connect_retries = ''3'',
       kf_connect_timeout = ''60'', kf_use_ssl = ''false'', kf_retry_all = ''true'', kf_query_timeout = '''',
       kf_poll_interval = '''', kf_query_retries = '''', kf_parameters = [], kf_importText = '''' \<rparr>"

definition DEFAULT_PORTS :: "string \<Rightarrow> int" where
  "DEFAULT_PORTS t =
     (if t = ''duckdb'' \<or> t = ''spark'' then 0
      else if t = ''dremio'' then 9047
      else if t = ''oracle'' then 1521
      else if t = ''mysql'' then 3306
      else if t = ''rest'' \<or> t = ''snowflake'' \<or> t = ''databricks'' then 443
      else 5432)"

text \<open>The state of the component. The oracle form has one field, the schema.\<close>

record conn_dialog =
  dg_open :: bool
  dg_loading :: bool
  dg_error :: string
  dg_type :: string
  dg_typeSelected :: bool
  dg_form :: conn_form
  dg_dremio :: dremio_form
  dg_oracle :: string
  dg_spark :: spark_form
  dg_lake :: lake_form
  dg_rest :: rest_form
  dg_snowflake :: snowflake_form
  dg_databricks :: databricks_form

subsection \<open>Opening\<close>

fun viewType :: "source_view \<Rightarrow> string" where
  "viewType (DremioSourceView rid r) = ''dremio''"
| "viewType (ConnectionView rid r) = cn_connectionType r"

fun viewId :: "source_view \<Rightarrow> string" where
  "viewId (DremioSourceView rid r) = rid"
| "viewId (ConnectionView rid r) = rid"

definition initialType :: "source_view option \<Rightarrow> string" where
  "initialType existing =
     (case existing of
        None \<Rightarrow> ''postgresql''
      | Some v \<Rightarrow>
          if viewType v \<in> set [''duckdb'', ''dremio'', ''oracle'', ''spark'', ''ducklake'', ''mysql'', ''rest'',
              ''snowflake'', ''databricks'']
          then viewType v else ''postgresql'')"

definition initialDialog :: "source_view option \<Rightarrow> conn_dialog" where
  "initialDialog existing =
     \<lparr> dg_open = (existing \<noteq> None), dg_loading = False, dg_error = '''', dg_type = initialType existing,
       dg_typeSelected = (existing \<noteq> None), dg_form = defaultForm, dg_dremio = defaultDremio,
       dg_oracle = '''', dg_spark = defaultSpark, dg_lake = defaultLake, dg_rest = defaultRest,
       dg_snowflake = defaultSnowflake, dg_databricks = defaultDatabricks \<rparr>"

text \<open>\<open>(ec.k as string) ?? d\<close>, and \<open>Object.entries\<close>, which throws for \<open>null\<close> only.\<close>

definition textOf :: "int obj \<Rightarrow> string \<Rightarrow> string \<Rightarrow> string" where
  "textOf ec k d = StringOr (map_of ec k) d"

fun entries :: "int json \<Rightarrow> (string \<times> int json) list option" where
  "entries JNull = None"
| "entries (JObj kvs) = Some kvs"
| "entries (JArr vs) = Some (map (\<lambda>(i, v). (show_nat i, v)) (enumerate 0 vs))"
| "entries (JStr s) = Some (map (\<lambda>(i, c). (show_nat i, JStr [c])) (enumerate 0 s))"
| "entries (JBool b) = Some []"
| "entries (JNum n) = Some []"

definition parameterRows :: "(string \<times> int json) list \<Rightarrow> (string \<times> string) list" where
  "parameterRows kvs = map (\<lambda>(k, v). (k, StringOr (Some v) '''')) kvs"

definition formOfDremioSource :: "dremio_row \<Rightarrow> conn_form" where
  "formOfDremioSource r =
     \<lparr> cf_name = dr_name r, cf_host = dr_host r, cf_port = show_int (dr_port r), cf_database = dr_catalog r,
       cf_username = dr_username r, cf_credential = '''', cf_sslMode = ''prefer'', cf_schema = '''',
       cf_threads = '''' \<rparr>"

definition formOfConnection :: "connection_row \<Rightarrow> conn_form" where
  "formOfConnection r =
     (let ec = nullish (cn_extraConfig r) [] in
     \<lparr> cf_name = cn_name r, cf_host = cn_host r, cf_port = show_int (cn_port r),
       cf_database = cn_database r, cf_username = cn_username r, cf_credential = '''',
       cf_sslMode = nullish (cn_sslMode r) ''prefer'', cf_schema = textOf ec ''schema'' '''',
       cf_threads = textOf ec ''threads'' '''' \<rparr>)"

definition dremioOf :: "connection_row \<Rightarrow> dremio_form" where
  "dremioOf r =
     (let ec = nullish (cn_extraConfig r) [] in
     \<lparr> df_auth_type = textOf ec ''auth_type'' ''password'', df_space = cn_database r,
       df_space_folder = textOf ec ''dremio_space_folder'' ''views'',
       df_storage_source = textOf ec ''object_storage_source'' '''',
       df_storage_path = textOf ec ''object_storage_path'' '''',
       df_use_ssl = (if map_of ec ''use_ssl'' = Some (JBool True) then ''true'' else ''false''),
       df_twin_strategy = textOf ec ''twin_strategy'' '''' \<rparr>)"

definition lakeOf :: "connection_row \<Rightarrow> lake_form" where
  "lakeOf r =
     (let ec = nullish (cn_extraConfig r) [] in
     \<lparr> lf_mode = textOf ec ''mode'' ''managed'', lf_catalog_type = textOf ec ''catalog_type'' ''postgresql'',
       lf_data_path = textOf ec ''data_path'' '''', lf_metadata_schema = textOf ec ''metadata_schema'' '''',
       lf_maintained = (map_of ec ''maintained'' = Some (JBool True)) \<rparr>)"

definition restOf :: "connection_row \<Rightarrow> rest_form" where
  "restOf r =
     (let ec = nullish (cn_extraConfig r) [] in
     \<lparr> rf_base_url = textOf ec ''base_url'' '''', rf_auth_type = textOf ec ''auth_type'' ''none'',
       rf_api_key_name = textOf ec ''api_key_name'' '''',
       rf_api_key_location = textOf ec ''api_key_location'' ''header'' \<rparr>)"

definition snowflakeOf :: "connection_row \<Rightarrow> snowflake_form" where
  "snowflakeOf r =
     (let ec = nullish (cn_extraConfig r) [] in
     \<lparr> sf_account = textOf ec ''account'' '''', sf_auth_type = textOf ec ''auth_type'' ''password'',
       sf_role = textOf ec ''role'' '''', sf_warehouse = textOf ec ''warehouse'' '''',
       sf_secondary_secret = '''' \<rparr>)"

definition databricksOf :: "connection_row \<Rightarrow> databricks_form" where
  "databricksOf r =
     (let ec = nullish (cn_extraConfig r) [] in
     \<lparr> bf_auth_type = textOf ec ''auth_type'' ''pat'', bf_http_path = textOf ec ''http_path'' '''',
       bf_client_id = textOf ec ''client_id'' '''', bf_secondary_secret = '''' \<rparr>)"

definition sparkOf :: "connection_row \<Rightarrow> spark_form" where
  "sparkOf r =
     (let ec = nullish (cn_extraConfig r) [];
          stored = (case map_of ec ''server_side_parameters'' of None \<Rightarrow> [] | Some v \<Rightarrow> nullish (entries v) [])
      in \<lparr> kf_method = textOf ec ''method'' ''session'', kf_threads = textOf ec ''threads'' ''2'',
       kf_secret_type = textOf ec ''secret_type'' ''none'', kf_driver = textOf ec ''driver'' '''',
       kf_cluster = textOf ec ''cluster'' '''', kf_endpoint = textOf ec ''endpoint'' '''',
       kf_auth = textOf ec ''auth'' '''', kf_kerberos_service_name = textOf ec ''kerberos_service_name'' '''',
       kf_organization = textOf ec ''organization'' '''',
       kf_connection_string_suffix = textOf ec ''connection_string_suffix'' '''',
       kf_connect_retries = textOf ec ''connect_retries'' ''3'',
       kf_connect_timeout = textOf ec ''connect_timeout'' ''60'',
       kf_use_ssl = (if map_of ec ''use_ssl'' = Some (JBool True) then ''true'' else ''false''),
       kf_retry_all = (if map_of ec ''retry_all'' = Some (JBool False) then ''false'' else ''true''),
       kf_query_timeout = textOf ec ''query_timeout'' '''', kf_poll_interval = textOf ec ''poll_interval'' '''',
       kf_query_retries = textOf ec ''query_retries'' '''', kf_parameters = parameterRows stored,
       kf_importText = '''' \<rparr>)"

text \<open>The effect that runs when the dialog opens. It never resets the lakehouse form of a new connection.\<close>

definition openedExtra :: "connection_row \<Rightarrow> conn_dialog \<Rightarrow> conn_dialog" where
  "openedExtra r d =
     (let t = cn_connectionType r in
      if t = ''dremio'' then d\<lparr>dg_dremio := dremioOf r\<rparr>
      else if t = ''ducklake'' then d\<lparr>dg_lake := lakeOf r\<rparr>
      else if t = ''rest'' then d\<lparr>dg_rest := restOf r\<rparr>
      else if t = ''oracle'' then d\<lparr>dg_oracle := textOf (nullish (cn_extraConfig r) []) ''schema'' ''''\<rparr>
      else if t = ''snowflake'' then d\<lparr>dg_snowflake := snowflakeOf r\<rparr>
      else if t = ''databricks'' then d\<lparr>dg_databricks := databricksOf r\<rparr>
      else if t = ''spark'' then d\<lparr>dg_spark := sparkOf r\<rparr>
      else d)"

definition openEffect :: "source_view option \<Rightarrow> conn_dialog \<Rightarrow> conn_dialog" where
  "openEffect existing d =
     (if \<not> dg_open d then d
      else
       (case existing of
          Some (DremioSourceView rid r) \<Rightarrow>
            d\<lparr> dg_typeSelected := True, dg_type := initialType existing, dg_form := formOfDremioSource r,
               dg_dremio := defaultDremio, dg_oracle := '''', dg_snowflake := defaultSnowflake,
               dg_databricks := defaultDatabricks \<rparr>
        | Some (ConnectionView rid r) \<Rightarrow>
            openedExtra r
              (d\<lparr> dg_typeSelected := True, dg_type := initialType existing, dg_form := formOfConnection r \<rparr>)
        | None \<Rightarrow>
            d\<lparr> dg_type := ''postgresql'', dg_typeSelected := False, dg_form := defaultForm,
               dg_dremio := defaultDremio, dg_oracle := '''', dg_spark := defaultSpark, dg_rest := defaultRest,
               dg_snowflake := defaultSnowflake, dg_databricks := defaultDatabricks \<rparr>)
       \<lparr> dg_error := '''' \<rparr>)"

definition handleOpenChange :: "bool \<Rightarrow> conn_dialog \<Rightarrow> conn_dialog" where
  "handleOpenChange nextOpen d = d\<lparr> dg_open := nextOpen \<rparr>"

definition handleTypeChange :: "string \<Rightarrow> conn_dialog \<Rightarrow> conn_dialog" where
  "handleTypeChange t d =
     d\<lparr> dg_type := t, dg_form := (dg_form d)\<lparr> cf_port := show_int (DEFAULT_PORTS t) \<rparr> \<rparr>"

definition chooseType :: "string \<Rightarrow> conn_dialog \<Rightarrow> conn_dialog" where
  "chooseType t d = (handleTypeChange t d)\<lparr> dg_typeSelected := True \<rparr>"

subsection \<open>Spark's server-side parameters\<close>

definition sparkParamsObject :: "spark_form \<Rightarrow> int obj" where
  "sparkParamsObject k =
     fold (\<lambda>(key, v). obj_set (trim key) (JStr v)) (filter (\<lambda>(key, v). trim key \<noteq> '''') (kf_parameters k)) []"

definition updateSparkKey :: "nat \<Rightarrow> string \<Rightarrow> conn_dialog \<Rightarrow> conn_dialog" where
  "updateSparkKey i key d =
     d\<lparr> dg_spark := (dg_spark d)\<lparr> kf_parameters :=
          map (\<lambda>(j, (k, v)). if j = i then (key, v) else (k, v)) (enumerate 0 (kf_parameters (dg_spark d))) \<rparr> \<rparr>"

definition updateSparkValue :: "nat \<Rightarrow> string \<Rightarrow> conn_dialog \<Rightarrow> conn_dialog" where
  "updateSparkValue i val d =
     d\<lparr> dg_spark := (dg_spark d)\<lparr> kf_parameters :=
          map (\<lambda>(j, (k, v)). if j = i then (k, val) else (k, v)) (enumerate 0 (kf_parameters (dg_spark d))) \<rparr> \<rparr>"

definition importSparkParams :: "(string \<Rightarrow> int json option) \<Rightarrow> conn_dialog \<Rightarrow> conn_dialog" where
  "importSparkParams parse d =
     (case Option.bind (parse (kf_importText (dg_spark d))) entries of
        None \<Rightarrow> d\<lparr> dg_error := ''Server-side parameters import expects a JSON object.'' \<rparr>
      | Some kvs \<Rightarrow>
          d\<lparr> dg_spark := (dg_spark d)\<lparr> kf_parameters := parameterRows kvs, kf_importText := '''' \<rparr> \<rparr>)"

subsection \<open>Saving\<close>

text \<open>
  The body of a request. A property that is \<open>undefined\<close> is \<open>None\<close>; a port of \<open>None\<close> is \<open>NaN\<close>, which
  \<open>JSON.stringify\<close> turns into \<open>null\<close>, as it does in the configuration.
\<close>

record payload =
  pl_connectionType :: "string option"
  pl_name :: string
  pl_host :: string
  pl_port :: "int option"
  pl_database :: string
  pl_username :: string
  pl_password :: "string option"
  pl_token :: "string option"
  pl_sslMode :: "string option"
  pl_extraConfig :: "int obj option"

datatype call = CreateCall payload | UpdateCall string string payload

definition numJson :: "int option \<Rightarrow> int json" where
  "numJson n = (case n of None \<Rightarrow> JNull | Some i \<Rightarrow> JNum i)"

definition applyThreads :: "(string \<Rightarrow> int option) \<Rightarrow> conn_form \<Rightarrow> int obj \<Rightarrow> int obj" where
  "applyThreads num f extra =
     (case num (cf_threads f) of
        Some v \<Rightarrow> if trim (cf_threads f) \<noteq> '''' \<and> v > 0 then obj_set ''threads'' (JNum v) extra else extra
      | None \<Rightarrow> extra)"

definition withCredential :: "conn_form \<Rightarrow> payload \<Rightarrow> payload" where
  "withCredential f p = (if cf_credential f \<noteq> '''' then p\<lparr> pl_password := Some (cf_credential f) \<rparr> else p)"

text \<open>The payload every kind starts from.\<close>

definition basePayload :: "string \<Rightarrow> conn_form \<Rightarrow> int obj \<Rightarrow> payload" where
  "basePayload t f extra =
     \<lparr> pl_connectionType = Some t, pl_name = cf_name f, pl_host = '''', pl_port = Some 0, pl_database = '''',
       pl_username = '''', pl_password = None, pl_token = None, pl_sslMode = None,
       pl_extraConfig = Some extra \<rparr>"

definition dremioSourcePayload :: "(string \<Rightarrow> int option) \<Rightarrow> conn_form \<Rightarrow> payload" where
  "dremioSourcePayload num f =
     \<lparr> pl_connectionType = None, pl_name = cf_name f, pl_host = cf_host f, pl_port = num (cf_port f),
       pl_database = cf_database f, pl_username = cf_username f, pl_password = None,
       pl_token = (if cf_credential f \<noteq> '''' then Some (cf_credential f) else None), pl_sslMode = None,
       pl_extraConfig = None \<rparr>"

definition dremioPayload :: "(string \<Rightarrow> int option) \<Rightarrow> conn_form \<Rightarrow> dremio_form \<Rightarrow> payload" where
  "dremioPayload num f m =
     (let extra = [(''auth_type'', JStr (df_auth_type m)), (''dremio_space_folder'', JStr (df_space_folder m)),
            (''use_ssl'', JBool (df_use_ssl m = ''true'')),
            (''object_storage_source'', JStr (df_storage_source m)),
            (''object_storage_path'', JStr (df_storage_path m))];
          extra1 = (if df_twin_strategy m \<noteq> '''' then obj_set ''twin_strategy'' (JStr (df_twin_strategy m)) extra
            else extra)
      in withCredential f
           ((basePayload ''dremio'' f (applyThreads num f extra1))
            \<lparr> pl_host := cf_host f, pl_port := num (cf_port f), pl_database := df_space m,
              pl_username := cf_username f \<rparr>))"

definition lakePayload :: "(string \<Rightarrow> int option) \<Rightarrow> conn_form \<Rightarrow> lake_form \<Rightarrow> payload" where
  "lakePayload num f k =
     (let outer = (lf_mode k = ''external'');
          server = (outer \<and> lf_catalog_type k \<noteq> ''sqlite'');
          extra = [(''mode'', JStr (lf_mode k))] @
            (if outer
             then [(''catalog_type'', JStr (lf_catalog_type k)), (''data_path'', JStr (lf_data_path k)),
                   (''metadata_schema'', JStr (lf_metadata_schema k)), (''maintained'', JBool (lf_maintained k))]
             else [])
      in withCredential f
           ((basePayload ''ducklake'' f extra)
            \<lparr> pl_host := (if server then cf_host f else ''''),
              pl_port := (if server then num (cf_port f) else Some 0),
              pl_database := (if outer then cf_database f else ''''),
              pl_username := (if server then cf_username f else '''') \<rparr>))"

definition duckdbPayload :: "(string \<Rightarrow> int option) \<Rightarrow> conn_form \<Rightarrow> payload" where
  "duckdbPayload num f = (basePayload ''duckdb'' f (applyThreads num f []))\<lparr> pl_database := cf_database f \<rparr>"

definition serverPayload :: "(string \<Rightarrow> int option) \<Rightarrow> string \<Rightarrow> conn_form \<Rightarrow> int obj \<Rightarrow> payload" where
  "serverPayload num t f extra =
     withCredential f
       ((basePayload t f extra)
        \<lparr> pl_host := cf_host f, pl_port := num (cf_port f), pl_database := cf_database f,
          pl_username := cf_username f \<rparr>)"

definition mysqlPayload :: "(string \<Rightarrow> int option) \<Rightarrow> conn_form \<Rightarrow> payload" where
  "mysqlPayload num f = serverPayload num ''mysql'' f []"

definition oraclePayload :: "(string \<Rightarrow> int option) \<Rightarrow> conn_form \<Rightarrow> string \<Rightarrow> payload" where
  "oraclePayload num f schema =
     serverPayload num ''oracle'' f
       (applyThreads num f (if schema \<noteq> '''' then obj_set ''schema'' (JStr schema) [] else []))"

definition postgresPayload :: "(string \<Rightarrow> int option) \<Rightarrow> conn_form \<Rightarrow> payload" where
  "postgresPayload num f =
     (serverPayload num ''postgresql'' f
        (applyThreads num f (if cf_schema f \<noteq> '''' then obj_set ''schema'' (JStr (cf_schema f)) [] else [])))
     \<lparr> pl_sslMode := Some (cf_sslMode f) \<rparr>"

definition restPayload :: "(string \<Rightarrow> string option) \<Rightarrow> conn_form \<Rightarrow> rest_form \<Rightarrow> payload result" where
  "restPayload hostnameOf f r =
     (let extra = [(''base_url'', JStr (rf_base_url r)), (''auth_type'', JStr (rf_auth_type r))] @
            (if rf_auth_type r = ''api_key''
             then [(''api_key_name'', JStr (rf_api_key_name r)), (''api_key_location'', JStr (rf_api_key_location r))]
             else [])
      in case hostnameOf (rf_base_url r) of
           None \<Rightarrow> throw ''Base URL must be a full http(s) URL, for example https://api.example.com/v1''
         | Some hostname \<Rightarrow>
             Inr (withCredential f
               ((basePayload ''rest'' f extra)
                \<lparr> pl_host := hostname,
                  pl_username := (if rf_auth_type r = ''basic'' then cf_username f else '''') \<rparr>)))"

definition sparkNumberKeys :: "string list" where
  "sparkNumberKeys = [''query_timeout'', ''poll_interval'', ''query_retries'']"

definition sparkTexts :: "spark_form \<Rightarrow> (string \<times> string) list" where
  "sparkTexts k =
     [(''driver'', kf_driver k), (''cluster'', kf_cluster k), (''endpoint'', kf_endpoint k), (''auth'', kf_auth k),
      (''kerberos_service_name'', kf_kerberos_service_name k), (''organization'', kf_organization k),
      (''connection_string_suffix'', kf_connection_string_suffix k), (''query_timeout'', kf_query_timeout k),
      (''poll_interval'', kf_poll_interval k), (''query_retries'', kf_query_retries k)]"

definition copyText :: "(string \<Rightarrow> int option) \<Rightarrow> string \<times> string \<Rightarrow> int obj \<Rightarrow> int obj" where
  "copyText num kv extra =
     (if snd kv \<noteq> ''''
      then obj_set (fst kv) (if fst kv \<in> set sparkNumberKeys then numJson (num (snd kv)) else JStr (snd kv)) extra
      else extra)"

definition numberOr :: "(string \<Rightarrow> int option) \<Rightarrow> string \<Rightarrow> int \<Rightarrow> int json" where
  "numberOr num v d = (if v \<noteq> '''' then numJson (num v) else JNum d)"

definition sparkPayload :: "(string \<Rightarrow> int option) \<Rightarrow> conn_form \<Rightarrow> spark_form \<Rightarrow> payload" where
  "sparkPayload num f k =
     (let extra = [(''method'', JStr (kf_method k)), (''threads'', numberOr num (kf_threads k) 2),
            (''secret_type'', JStr (kf_secret_type k)),
            (''connect_timeout'', numberOr num (kf_connect_timeout k) 60),
            (''connect_retries'', numberOr num (kf_connect_retries k) 3),
            (''retry_all'', JBool (kf_retry_all k = ''true'')), (''use_ssl'', JBool (kf_use_ssl k = ''true'')),
            (''server_side_parameters'', JObj (sparkParamsObject k))]
      in withCredential f
           ((basePayload ''spark'' f (fold (copyText num) (sparkTexts k) extra))
            \<lparr> pl_host := cf_host f, pl_port := (if cf_port f = '''' then Some 0 else num (cf_port f)),
              pl_database := cf_database f, pl_username := cf_username f \<rparr>))"

text \<open>
  Which secrets a new connection, or a new kind of authentication, must bring
  (\<open>getSecretFieldState\<close>). The stored kind of authentication is that of a connection of the same type.
\<close>

definition storedAuthType :: "string \<Rightarrow> string \<Rightarrow> source_view option \<Rightarrow> string option" where
  "storedAuthType t d existing =
     (case existing of
        Some (ConnectionView rid r) \<Rightarrow>
          if cn_connectionType r = t then Some (textOf (nullish (cn_extraConfig r) []) ''auth_type'' d) else None
      | _ \<Rightarrow> None)"

definition secretState :: "string \<Rightarrow> string \<Rightarrow> source_view option \<Rightarrow> string \<Rightarrow> SecretFieldState" where
  "secretState t d existing selected =
     getSecretFieldState (existing \<noteq> None) (storedAuthType t d existing) selected"

definition snowflakeExtraConfig :: "string \<Rightarrow> string \<Rightarrow> snowflake_form \<Rightarrow> int obj" where
  "snowflakeExtraConfig cleanAccount cleanSchema k =
     (let extra0 = [(''account'', JStr cleanAccount), (''auth_type'', JStr (sf_auth_type k)),
            (''schema'', JStr cleanSchema)];
          extra1 = (if trim (sf_role k) \<noteq> '''' then obj_set ''role'' (JStr (trim (sf_role k))) extra0 else extra0);
          extra2 = (if trim (sf_warehouse k) \<noteq> ''''
            then obj_set ''warehouse'' (JStr (trim (sf_warehouse k))) extra1 else extra1)
      in if sf_auth_type k = ''keypair'' \<and> trim (sf_secondary_secret k) \<noteq> ''''
         then obj_set SECONDARY (JStr (trim (sf_secondary_secret k))) extra2 else extra2)"

definition snowflakePayload ::
    "(string \<Rightarrow> int option) \<Rightarrow> source_view option \<Rightarrow> conn_form \<Rightarrow> snowflake_form \<Rightarrow> payload result" where
  "snowflakePayload num existing f k =
     bindR (normalizeSnowflakeAccount (Some (JStr (sf_account k)))) (\<lambda>cleanAccount.
     bindR (snowflakeAccountHost (Some (JStr cleanAccount))) (\<lambda>host.
     bindR (normalizeWarehouseSchema (Some (JStr (cf_schema f))) ''Snowflake'') (\<lambda>cleanSchema.
       if isRequired (secretState ''snowflake'' ''password'' existing (sf_auth_type k)) \<and>
             trim (cf_credential f) = ''''
          then throw (if sf_auth_type k = ''keypair''
            then ''Private key PEM is required for Snowflake key-pair authentication.''
            else ''Password is required for Snowflake authentication.'')
          else Inr (withCredential f
            ((basePayload ''snowflake'' f (applyThreads num f (snowflakeExtraConfig cleanAccount cleanSchema k)))
             \<lparr> pl_host := host, pl_port := (if cf_port f \<noteq> '''' then num (cf_port f) else Some 443),
               pl_database := trim (cf_database f), pl_username := trim (cf_username f) \<rparr>)))))"

definition databricksExtraConfig ::
    "bool \<Rightarrow> conn_form \<Rightarrow> databricks_form \<Rightarrow> string \<Rightarrow> string \<Rightarrow> int obj result" where
  "databricksExtraConfig required f k cleanHttpPath cleanSchema =
     (let extra0 = [(''auth_type'', JStr (bf_auth_type k)), (''http_path'', JStr cleanHttpPath),
            (''schema'', JStr cleanSchema)] in
      if bf_auth_type k = ''pat'' then
        bindR (guardR (\<not> (required \<and> trim (cf_credential f) = ''''))
            ''Personal Access Token is required for Databricks PAT authentication.'') (\<lambda>_. Inr extra0)
      else if bf_auth_type k = ''oauth_m2m'' then
        bindR (guardR (trim (bf_client_id k) \<noteq> '''')
            ''Client ID is required for Databricks OAuth M2M authentication.'') (\<lambda>_.
        bindR (guardR (\<not> (required \<and> trim (bf_secondary_secret k) = ''''))
            ''Client Secret is required for Databricks OAuth M2M authentication.'') (\<lambda>_.
        let extra1 = obj_set ''client_id'' (JStr (trim (bf_client_id k))) extra0
        in Inr (if trim (bf_secondary_secret k) \<noteq> ''''
          then obj_set SECONDARY (JStr (trim (bf_secondary_secret k))) extra1 else extra1)))
      else Inr extra0)"

definition databricksPayload ::
    "(string \<Rightarrow> int option) \<Rightarrow> source_view option \<Rightarrow> conn_form \<Rightarrow> databricks_form \<Rightarrow> payload result" where
  "databricksPayload num existing f k =
     bindR (normalizeDatabricksHost (Some (JStr (cf_host f)))) (\<lambda>cleanHost.
     bindR (normalizeDatabricksHttpPath (Some (JStr (bf_http_path k)))) (\<lambda>cleanHttpPath.
     bindR (normalizeWarehouseSchema (Some (JStr (cf_schema f))) ''Databricks'') (\<lambda>cleanSchema.
     bindR (databricksExtraConfig (isRequired (secretState ''databricks'' ''pat'' existing (bf_auth_type k))) f k
         cleanHttpPath cleanSchema) (\<lambda>extra.
       Inr (withCredential f
         ((basePayload ''databricks'' f (applyThreads num f extra))
          \<lparr> pl_host := cleanHost, pl_port := (if cf_port f \<noteq> '''' then num (cf_port f) else Some 443),
            pl_database := trim (cf_database f) \<rparr>))))))"

text \<open>The payload of the kind that is selected. PostgreSQL is what is left.\<close>

definition dialogPayload ::
    "(string \<Rightarrow> int option) \<Rightarrow> (string \<Rightarrow> string option) \<Rightarrow> source_view option \<Rightarrow> conn_dialog \<Rightarrow>
     payload result" where
  "dialogPayload num hostnameOf existing d =
     (let f = dg_form d; t = dg_type d in
      if t = ''dremio'' then Inr (dremioPayload num f (dg_dremio d))
      else if t = ''ducklake'' then Inr (lakePayload num f (dg_lake d))
      else if t = ''duckdb'' then Inr (duckdbPayload num f)
      else if t = ''mysql'' then Inr (mysqlPayload num f)
      else if t = ''rest'' then restPayload hostnameOf f (dg_rest d)
      else if t = ''oracle'' then Inr (oraclePayload num f (dg_oracle d))
      else if t = ''spark'' then Inr (sparkPayload num f (dg_spark d))
      else if t = ''snowflake'' then snowflakePayload num existing f (dg_snowflake d)
      else if t = ''databricks'' then databricksPayload num existing f (dg_databricks d)
      else Inr (postgresPayload num f))"

definition submitCall ::
    "(string \<Rightarrow> int option) \<Rightarrow> (string \<Rightarrow> string option) \<Rightarrow> source_view option \<Rightarrow> conn_dialog \<Rightarrow>
     call result" where
  "submitCall num hostnameOf existing d =
     (case existing of
        Some (DremioSourceView rid r) \<Rightarrow> Inr (UpdateCall rid ''dremio'' (dremioSourcePayload num (dg_form d)))
      | Some (ConnectionView rid r) \<Rightarrow>
          bindR (dialogPayload num hostnameOf existing d) (\<lambda>p. Inr (UpdateCall rid ''connection'' p))
      | None \<Rightarrow>
          bindR (dialogPayload num hostnameOf None d) (\<lambda>p.
            Inr (CreateCall
              (if dg_type d = ''ducklake'' \<or> dg_type d = ''duckdb'' then p
               else p\<lparr> pl_password := Some (cf_credential (dg_form d)) \<rparr>))))"

text \<open>
  \<open>handleSubmit\<close> up to its request, and from the answer on. The dialog stays open with the message of an
  error.
\<close>

definition finishSubmit :: "conn_dialog \<Rightarrow> conn_dialog" where
  "finishSubmit d = d\<lparr> dg_loading := False \<rparr>"

definition handleSubmit ::
    "(string \<Rightarrow> int option) \<Rightarrow> (string \<Rightarrow> string option) \<Rightarrow> source_view option \<Rightarrow> conn_dialog \<Rightarrow>
     conn_dialog \<times> call option" where
  "handleSubmit num hostnameOf existing d =
     (let d1 = d\<lparr> dg_loading := True, dg_error := '''' \<rparr> in
      case submitCall num hostnameOf existing d1 of
        Inl e \<Rightarrow> (finishSubmit (d1\<lparr> dg_error := e \<rparr>), None)
      | Inr call \<Rightarrow> (d1, Some call))"

definition handleAnswer :: "unit result \<Rightarrow> conn_dialog \<Rightarrow> conn_dialog" where
  "handleAnswer answer d =
     finishSubmit (case answer of Inl e \<Rightarrow> d\<lparr> dg_error := e \<rparr> | Inr _ \<Rightarrow> d\<lparr> dg_open := False \<rparr>)"

text \<open>
  The body as the routes read it. The update applies \<open>Number\<close> to the port, which makes \<open>null\<close> zero; a
  create without a number for the port is refused by the database and not covered here.
\<close>

definition requestBody :: "payload \<Rightarrow> ConnectionInput" where
  "requestBody p =
     \<lparr> ci_id = None, ci_name = pl_name p, ci_connectionType = pl_connectionType p, ci_host = pl_host p,
       ci_port = nullish (pl_port p) 0, ci_database = pl_database p, ci_username = pl_username p,
       ci_password = pl_password p, ci_token = pl_token p, ci_sslMode = pl_sslMode p,
       ci_extraConfig = pl_extraConfig p \<rparr>"

section \<open>Lemmas\<close>

subsection \<open>What a stored payload shows again\<close>

text \<open>What the theorems use of \<open>Number\<close>: it reads whole numbers as they are written, and nothing as zero.\<close>

definition reads_numbers :: "(string \<Rightarrow> int option) \<Rightarrow> bool" where
  "reads_numbers num \<longleftrightarrow> num '''' = Some 0 \<and> (\<forall>n. num (show_int n) = Some n)"

text \<open>Nothing in the payload was \<open>NaN\<close>.\<close>

definition no_nan :: "payload \<Rightarrow> bool" where
  "no_nan p \<longleftrightarrow> pl_port p \<noteq> None \<and> JNull \<notin> snd ` set (nullish (pl_extraConfig p) [])"

text \<open>The public row of a saved payload, with port \<open>n\<close>.\<close>

definition shows_payload :: "payload \<Rightarrow> int \<Rightarrow> connection_row \<Rightarrow> bool" where
  "shows_payload p n r \<longleftrightarrow>
     cn_name r = pl_name p \<and> Some (cn_connectionType r) = pl_connectionType p \<and> cn_host r = pl_host p \<and>
     cn_port r = n \<and> cn_database r = pl_database p \<and> cn_username r = pl_username p \<and>
     cn_sslMode r = Some (nullish (pl_sslMode p) ''prefer'') \<and>
     cn_extraConfig r = map_option (obj_del SECONDARY) (pl_extraConfig p)"

text \<open>The payload of a form that is opened on it and not touched.\<close>

definition resent :: "int \<Rightarrow> payload \<Rightarrow> payload" where
  "resent n p =
     p\<lparr> pl_password := None, pl_port := Some n,
        pl_extraConfig := map_option (obj_del SECONDARY) (pl_extraConfig p) \<rparr>"

lemma show_int_not_Nil [simp]: "show_int n \<noteq> []"
  by (simp add: show_int_def)

lemma trim_show_int [simp]: "trim (show_int n) = show_int n"
proof (rule trim_no_ws)
  have "list_all (\<lambda>c. \<not> is_ws c) (show_nat k)" for k
    using show_nat_digits [of k] by (auto simp: list_all_iff)
  then show "list_all (\<lambda>c. \<not> is_ws c) (show_int n)" by (simp add: show_int_def is_ws_def)
qed

lemma textOf_simps [simp]:
  "map_of ec k = Some (JStr v) \<Longrightarrow> textOf ec k d = v"
  "map_of ec k = Some (JNum n) \<Longrightarrow> textOf ec k d = show_int n"
  "map_of ec k = None \<Longrightarrow> textOf ec k d = d"
  by (simp_all add: textOf_def StringOr_def)

lemma obj_set_last: "k \<notin> fst ` set kvs \<Longrightarrow> obj_set k v kvs = kvs @ [(k, v)]"
  by (induction kvs) auto

lemma obj_del_append [simp]: "obj_del k (xs @ ys) = obj_del k xs @ obj_del k ys"
  by (simp add: obj_del_def)

lemma obj_del_simps [simp]:
  "obj_del k [] = []"
  "obj_del k ((k', v) # kvs) = (if k' = k then obj_del k kvs else (k', v) # obj_del k kvs)"
  by (simp_all add: obj_del_def)

lemma obj_del_obj_set: "k \<noteq> k' \<Longrightarrow> obj_del k (obj_set k' v kvs) = obj_set k' v (obj_del k kvs)"
  by (induction kvs) auto

lemma obj_del_absent: "k \<notin> fst ` set kvs \<Longrightarrow> obj_del k kvs = kvs"
  by (induction kvs) auto

text \<open>The number of threads, read from a form and read again from the stored configuration.\<close>

definition threadCount :: "(string \<Rightarrow> int option) \<Rightarrow> conn_form \<Rightarrow> int option" where
  "threadCount num f =
     (case num (cf_threads f) of
        Some v \<Rightarrow> if trim (cf_threads f) \<noteq> '''' \<and> v > 0 then Some v else None
      | None \<Rightarrow> None)"

lemma applyThreads_eq:
  "applyThreads num f extra =
     (case threadCount num f of None \<Rightarrow> extra | Some v \<Rightarrow> obj_set ''threads'' (JNum v) extra)"
  by (simp add: applyThreads_def threadCount_def split: option.splits)

lemma threadCount_again:
  assumes "reads_numbers num" "cf_threads f' = textOf ec ''threads'' ''''"
    and "map_of ec ''threads'' = map_option JNum (threadCount num f)"
  shows "threadCount num f' = threadCount num f"
proof (cases "threadCount num f")
  case None
  then show ?thesis using assms by (simp add: threadCount_def reads_numbers_def)
next
  case (Some v)
  then have "0 < v" by (auto simp: threadCount_def split: option.splits if_splits)
  then show ?thesis using assms Some by (simp add: threadCount_def reads_numbers_def)
qed

lemma withCredential_sel [simp]:
  "pl_connectionType (withCredential f p) = pl_connectionType p" "pl_name (withCredential f p) = pl_name p"
  "pl_host (withCredential f p) = pl_host p" "pl_port (withCredential f p) = pl_port p"
  "pl_database (withCredential f p) = pl_database p" "pl_username (withCredential f p) = pl_username p"
  "pl_token (withCredential f p) = pl_token p" "pl_sslMode (withCredential f p) = pl_sslMode p"
  "pl_extraConfig (withCredential f p) = pl_extraConfig p"
  by (simp_all add: withCredential_def)

lemma withCredential_blank: "cf_credential f = '''' \<Longrightarrow> withCredential f p = p"
  by (simp add: withCredential_def)

lemma resent_withCredential [simp]: "resent n (withCredential f p) = resent n p"
  by (simp add: withCredential_def resent_def)

text \<open>No other key of a configuration is that of the second secret.\<close>

lemma not_SECONDARY [simp]:
  "''schema'' \<noteq> SECONDARY" "''threads'' \<noteq> SECONDARY" "''auth_type'' \<noteq> SECONDARY"
  "''account'' \<noteq> SECONDARY" "''role'' \<noteq> SECONDARY" "''warehouse'' \<noteq> SECONDARY"
  "''http_path'' \<noteq> SECONDARY" "''client_id'' \<noteq> SECONDARY" "''dremio_space_folder'' \<noteq> SECONDARY"
  "''use_ssl'' \<noteq> SECONDARY" "''object_storage_source'' \<noteq> SECONDARY" "''object_storage_path'' \<noteq> SECONDARY"
  "''twin_strategy'' \<noteq> SECONDARY" "''base_url'' \<noteq> SECONDARY" "''api_key_name'' \<noteq> SECONDARY"
  "''api_key_location'' \<noteq> SECONDARY"
  "''mode'' \<noteq> SECONDARY" "''catalog_type'' \<noteq> SECONDARY" "''data_path'' \<noteq> SECONDARY"
  "''metadata_schema'' \<noteq> SECONDARY" "''maintained'' \<noteq> SECONDARY"
  by (simp_all add: SECONDARY_def)

lemmas SECONDARY_not [simp] = not_SECONDARY [THEN not_sym]

lemma textOf_del: "k \<noteq> SECONDARY \<Longrightarrow> textOf (obj_del SECONDARY ec) k d = textOf ec k d"
  by (simp add: textOf_def map_of_obj_del)

lemma form_shown:
  assumes "shows_payload p n r" "pl_extraConfig p = Some extra"
  shows "formOfConnection r =
    \<lparr> cf_name = pl_name p, cf_host = pl_host p, cf_port = show_int n, cf_database = pl_database p,
      cf_username = pl_username p, cf_credential = '''', cf_sslMode = nullish (pl_sslMode p) ''prefer'',
      cf_schema = textOf extra ''schema'' '''', cf_threads = textOf extra ''threads'' '''' \<rparr>"
  using assms by (simp add: shows_payload_def formOfConnection_def textOf_del Let_def)

lemma threads_shown:
  assumes "reads_numbers num" "shows_payload p n r" "pl_extraConfig p = Some (applyThreads num f extra)"
    and "map_of extra ''threads'' = None"
  shows "threadCount num (formOfConnection r) = threadCount num f"
  by (rule threadCount_again [OF assms(1), where ec = "applyThreads num f extra"])
    (use assms(4) in \<open>auto simp: form_shown [OF assms(2,3)] applyThreads_eq map_of_obj_set split: option.splits\<close>)

lemma textOf_threads: "k \<noteq> ''threads'' \<Longrightarrow> textOf (applyThreads num f extra) k d = textOf extra k d"
  by (simp add: applyThreads_eq textOf_def map_of_obj_set split: option.splits)

lemma del_threads: "obj_del SECONDARY (applyThreads num f extra) = applyThreads num f (obj_del SECONDARY extra)"
  by (simp add: applyThreads_eq obj_del_obj_set SECONDARY_def split: option.splits)

lemma applyThreads_cong: "threadCount num f = threadCount num f' \<Longrightarrow> applyThreads num f e = applyThreads num f' e"
  by (simp add: applyThreads_eq)

lemma num_show: "reads_numbers num \<Longrightarrow> num (show_int n) = Some n"
  by (simp add: reads_numbers_def)

lemma reopened_duckdb:
  assumes "reads_numbers num" "shows_payload (duckdbPayload num f) 0 r"
  shows "duckdbPayload num (formOfConnection r) = resent 0 (duckdbPayload num f)"
proof -
  have extra: "pl_extraConfig (duckdbPayload num f) = Some (applyThreads num f [])"
    by (simp add: duckdbPayload_def basePayload_def)
  note form = form_shown [OF assms(2) extra]
  have "applyThreads num (formOfConnection r) [] = applyThreads num f []"
    by (rule applyThreads_cong) (use threads_shown [OF assms extra] in simp)
  then show ?thesis
    by (simp add: duckdbPayload_def form basePayload_def resent_def del_threads)
qed

definition schemaExtra :: "string \<Rightarrow> int obj" where
  "schemaExtra v = (if v \<noteq> '''' then [(''schema'', JStr v)] else [])"

lemma schemaExtra_facts:
  "map_of (schemaExtra v) ''threads'' = None" "obj_del SECONDARY (schemaExtra v) = schemaExtra v"
  "textOf (schemaExtra v) ''schema'' '''' = v"
  by (simp_all add: schemaExtra_def SECONDARY_def)

lemma reopened_schema:
  assumes "reads_numbers num" "shows_payload p n r"
    and "pl_extraConfig p = Some (applyThreads num f (schemaExtra v))"
  shows "cf_schema (formOfConnection r) = v \<and>
    applyThreads num (formOfConnection r) (schemaExtra v) = applyThreads num f (schemaExtra v) \<and>
    obj_del SECONDARY (applyThreads num f (schemaExtra v)) = applyThreads num f (schemaExtra v)"
proof -
  have "applyThreads num (formOfConnection r) (schemaExtra v) = applyThreads num f (schemaExtra v)"
    by (rule applyThreads_cong) (use threads_shown [OF assms schemaExtra_facts(1)] in simp)
  then show ?thesis
    by (simp add: form_shown [OF assms(2,3)] textOf_threads schemaExtra_facts del_threads)
qed

lemma schema_payloads:
  "postgresPayload num f =
     (serverPayload num ''postgresql'' f (applyThreads num f (schemaExtra (cf_schema f))))
       \<lparr> pl_sslMode := Some (cf_sslMode f) \<rparr>"
  "oraclePayload num f v = serverPayload num ''oracle'' f (applyThreads num f (schemaExtra v))"
  by (simp_all add: postgresPayload_def oraclePayload_def schemaExtra_def)

lemma server_sel [simp]:
  "pl_connectionType (serverPayload num t f extra) = Some t" "pl_name (serverPayload num t f extra) = cf_name f"
  "pl_host (serverPayload num t f extra) = cf_host f" "pl_port (serverPayload num t f extra) = num (cf_port f)"
  "pl_database (serverPayload num t f extra) = cf_database f" "pl_username (serverPayload num t f extra) = cf_username f"
  "pl_sslMode (serverPayload num t f extra) = None" "pl_extraConfig (serverPayload num t f extra) = Some extra"
  by (simp_all add: serverPayload_def basePayload_def)

text \<open>A form that shows the server fields of another and has no password sends the other's payload again.\<close>

lemma server_resent:
  assumes "reads_numbers num" "cf_port f' = show_int n" "cf_credential f' = ''''"
    and "cf_name f' = cf_name f" "cf_host f' = cf_host f" "cf_database f' = cf_database f"
    "cf_username f' = cf_username f" "extra' = obj_del SECONDARY extra"
  shows "serverPayload num t f' extra' = resent n (serverPayload num t f extra)"
  using assms by (simp add: serverPayload_def withCredential_blank)
    (simp add: basePayload_def resent_def num_show)

lemma reopened_mysql:
  assumes "reads_numbers num" "shows_payload (mysqlPayload num f) n r"
  shows "mysqlPayload num (formOfConnection r) = resent n (mysqlPayload num f)"
proof -
  have extra: "pl_extraConfig (mysqlPayload num f) = Some []" by (simp add: mysqlPayload_def)
  note form = form_shown [OF assms(2) extra]
  show ?thesis
    unfolding mysqlPayload_def
    by (rule server_resent [OF assms(1)]) (simp_all add: form, simp_all add: mysqlPayload_def)
qed

lemma reopened_postgres:
  assumes "reads_numbers num" "shows_payload (postgresPayload num f) n r"
  shows "postgresPayload num (formOfConnection r) = resent n (postgresPayload num f)"
proof -
  have extra: "pl_extraConfig (postgresPayload num f) = Some (applyThreads num f (schemaExtra (cf_schema f)))"
    by (simp add: schema_payloads)
  note form = form_shown [OF assms(2) extra]
  note shown = reopened_schema [OF assms extra]
  have "serverPayload num ''postgresql'' (formOfConnection r)
      (applyThreads num (formOfConnection r) (schemaExtra (cf_schema (formOfConnection r)))) =
    resent n (serverPayload num ''postgresql'' f (applyThreads num f (schemaExtra (cf_schema f))))"
  proof (rule server_resent [OF assms(1)])
    show "applyThreads num (formOfConnection r) (schemaExtra (cf_schema (formOfConnection r))) =
      obj_del SECONDARY (applyThreads num f (schemaExtra (cf_schema f)))"
      using shown by simp
  qed (simp_all add: form, simp_all add: schema_payloads)
  moreover have "cf_sslMode (formOfConnection r) = cf_sslMode f" by (simp add: form, simp add: schema_payloads)
  ultimately show ?thesis by (simp only: schema_payloads) (simp add: resent_def)
qed

lemma reopened_oracle:
  assumes "reads_numbers num" "shows_payload (oraclePayload num f v) n r"
  shows "oraclePayload num (formOfConnection r) (textOf (nullish (cn_extraConfig r) []) ''schema'' '''') =
    resent n (oraclePayload num f v)"
proof -
  have extra: "pl_extraConfig (oraclePayload num f v) = Some (applyThreads num f (schemaExtra v))"
    by (simp add: schema_payloads)
  note form = form_shown [OF assms(2) extra]
  note shown = reopened_schema [OF assms extra]
  have "textOf (nullish (cn_extraConfig r) []) ''schema'' '''' = cf_schema (formOfConnection r)"
    by (simp add: formOfConnection_def Let_def)
  with shown have v: "textOf (nullish (cn_extraConfig r) []) ''schema'' '''' = v" by simp
  show ?thesis
    unfolding v schema_payloads
  proof (rule server_resent [OF assms(1)])
    show "applyThreads num (formOfConnection r) (schemaExtra v) = obj_del SECONDARY (applyThreads num f (schemaExtra v))"
      using shown by simp
  qed (simp_all add: form, simp_all add: schema_payloads)
qed

definition dremioExtra :: "dremio_form \<Rightarrow> int obj" where
  "dremioExtra m =
     [(''auth_type'', JStr (df_auth_type m)), (''dremio_space_folder'', JStr (df_space_folder m)),
      (''use_ssl'', JBool (df_use_ssl m = ''true'')), (''object_storage_source'', JStr (df_storage_source m)),
      (''object_storage_path'', JStr (df_storage_path m))] @
     (if df_twin_strategy m \<noteq> '''' then [(''twin_strategy'', JStr (df_twin_strategy m))] else [])"

lemma dremio_unfold:
  "dremioPayload num f m =
     withCredential f ((basePayload ''dremio'' f (applyThreads num f (dremioExtra m)))
       \<lparr> pl_host := cf_host f, pl_port := num (cf_port f), pl_database := df_space m,
         pl_username := cf_username f \<rparr>)"
  by (simp add: dremioPayload_def dremioExtra_def)

lemma dremioExtra_facts:
  "map_of (dremioExtra m) ''threads'' = None" "obj_del SECONDARY (dremioExtra m) = dremioExtra m"
  by (simp_all add: dremioExtra_def)

lemma reopened_dremio:
  assumes "reads_numbers num" "shows_payload (dremioPayload num f m) n r"
  shows "dremioPayload num (formOfConnection r) (dremioOf r) = resent n (dremioPayload num f m)"
proof -
  let ?e = "applyThreads num f (dremioExtra m)"
  have extra: "pl_extraConfig (dremioPayload num f m) = Some ?e" by (simp add: dremio_unfold basePayload_def)
  note form = form_shown [OF assms(2) extra]
  have ec: "nullish (cn_extraConfig r) [] = ?e"
    using assms(2) extra by (simp add: shows_payload_def del_threads dremioExtra_facts)
  have ssl: "map_of ?e ''use_ssl'' = Some (JBool (df_use_ssl m = ''true''))"
    by (simp add: applyThreads_eq map_of_obj_set dremioExtra_def split: option.splits)
  have again: "dremioExtra (dremioOf r) = dremioExtra m"
    by (simp add: dremioOf_def Let_def ec textOf_threads ssl) (simp add: dremioExtra_def)
  have space: "df_space (dremioOf r) = df_space m"
    using assms(2) by (simp add: dremioOf_def Let_def shows_payload_def dremio_unfold)
  have threads: "applyThreads num (formOfConnection r) (dremioExtra m) = ?e"
    by (rule applyThreads_cong) (use threads_shown [OF assms extra dremioExtra_facts(1)] in simp)
  show ?thesis
    unfolding dremio_unfold again space threads resent_withCredential
    by (simp add: form withCredential_blank)
      (simp add: dremio_unfold basePayload_def resent_def num_show [OF assms(1)] del_threads dremioExtra_facts)
qed

definition restExtra :: "rest_form \<Rightarrow> int obj" where
  "restExtra k =
     [(''base_url'', JStr (rf_base_url k)), (''auth_type'', JStr (rf_auth_type k))] @
     (if rf_auth_type k = ''api_key''
      then [(''api_key_name'', JStr (rf_api_key_name k)), (''api_key_location'', JStr (rf_api_key_location k))]
      else [])"

lemma rest_Inr:
  "restPayload hostnameOf f k = Inr p \<longleftrightarrow>
     (\<exists>h. hostnameOf (rf_base_url k) = Some h \<and>
       p = withCredential f ((basePayload ''rest'' f (restExtra k))
         \<lparr> pl_host := h, pl_username := (if rf_auth_type k = ''basic'' then cf_username f else '''') \<rparr>))"
  unfolding restPayload_def Let_def restExtra_def [symmetric]
  by (auto simp: throw_def split: option.splits)

lemma reopened_rest:
  assumes "restPayload hostnameOf f k = Inr p" "shows_payload p 0 r"
  shows "restPayload hostnameOf (formOfConnection r) (restOf r) = Inr (resent 0 p)"
proof -
  obtain h where h: "hostnameOf (rf_base_url k) = Some h"
    and p: "p = withCredential f ((basePayload ''rest'' f (restExtra k))
         \<lparr> pl_host := h, pl_username := (if rf_auth_type k = ''basic'' then cf_username f else '''') \<rparr>)"
    using assms(1) by (auto simp: rest_Inr)
  have extra: "pl_extraConfig p = Some (restExtra k)" by (simp add: p basePayload_def)
  note form = form_shown [OF assms(2) extra]
  have del: "obj_del SECONDARY (restExtra k) = restExtra k" by (simp add: restExtra_def)
  have ec: "nullish (cn_extraConfig r) [] = restExtra k"
    using assms(2) extra by (simp add: shows_payload_def del)
  have texts: "rf_base_url (restOf r) = rf_base_url k" "rf_auth_type (restOf r) = rf_auth_type k"
    by (simp_all add: restOf_def Let_def ec) (simp_all add: restExtra_def)
  have again: "restExtra (restOf r) = restExtra k"
  proof (cases "rf_auth_type k = ''api_key''")
    case True
    then have "rf_api_key_name (restOf r) = rf_api_key_name k" "rf_api_key_location (restOf r) = rf_api_key_location k"
      by (simp_all add: restOf_def Let_def ec) (simp_all add: restExtra_def)
    then show ?thesis by (simp add: restExtra_def texts)
  qed (simp add: restExtra_def texts)
  have user: "(if rf_auth_type k = ''basic'' then cf_username (formOfConnection r) else '''') = pl_username p"
    by (simp add: form p basePayload_def)
  show ?thesis
    unfolding rest_Inr texts again user
    by (rule exI [of _ h], simp add: h form withCredential_blank)
      (simp add: p withCredential_def basePayload_def resent_def del)
qed

subsubsection \<open>Spark\<close>

text \<open>The parameters: an object read from the rows is read from its own entries again.\<close>

lemma fold_obj_set_keys: "fst ` set (fold (\<lambda>(k, v). obj_set (g k) (h v)) kvs e) = (g \<circ> fst) ` set kvs \<union> fst ` set e"
proof (induction kvs arbitrary: e)
  case (Cons kv kvs)
  obtain k v where kv: "kv = (k, v)" by (cases kv)
  show ?case using Cons.IH [of "obj_set (g k) (h v) e"] by (simp add: kv set_obj_set)
qed simp

lemma fold_obj_set_distinct:
  "distinct (map fst e) \<Longrightarrow> distinct (map fst (fold (\<lambda>(k, v). obj_set (g k) (h v)) kvs e))"
  by (induction kvs arbitrary: e) (auto simp: distinct_obj_set)

lemma set_obj_set_values: "set (obj_set k v kvs) \<subseteq> insert (k, v) (set kvs)"
  by (induction kvs) (auto split: if_splits)

lemma fold_obj_set_values:
  "(k', w) \<in> set (fold (\<lambda>(k, v). obj_set (g k) (h v)) kvs e) \<Longrightarrow> (k', w) \<in> set e \<or> w \<in> (h \<circ> snd) ` set kvs"
proof (induction kvs arbitrary: e)
  case (Cons kv kvs)
  obtain k v where kv: "kv = (k, v)" by (cases kv)
  from Cons.prems have "(k', w) \<in> set (obj_set (g k) (h v) e) \<or> w \<in> (h \<circ> snd) ` set kvs"
    using Cons.IH [of "obj_set (g k) (h v) e"] by (simp add: kv)
  then show ?case using set_obj_set_values [of "g k" "h v" e] by (auto simp: kv)
qed simp

lemma fold_obj_set_copy:
  "distinct (map fst (e @ kvs)) \<Longrightarrow> fold (\<lambda>(k, v). obj_set k v) kvs e = e @ kvs"
  by (induction kvs arbitrary: e) (auto simp: obj_set_last)

lemma sparkParams_entry:
  assumes "(k, w) \<in> set (sparkParamsObject s)"
  shows "trim k = k \<and> k \<noteq> '''' \<and> (\<exists>v. w = JStr v)"
proof -
  let ?rows = "filter (\<lambda>(key, v). trim key \<noteq> '''') (kf_parameters s)"
  have "k \<in> (trim \<circ> fst) ` set ?rows"
    using fold_obj_set_keys [of trim JStr ?rows "[]"] assms by (force simp: sparkParamsObject_def)
  moreover have "w \<in> (JStr \<circ> snd) ` set ?rows"
    using fold_obj_set_values [of k w trim JStr ?rows "[]"] assms by (auto simp: sparkParamsObject_def)
  ultimately show ?thesis by auto
qed

lemma sparkParams_again:
  assumes "kf_parameters s' = parameterRows (sparkParamsObject s)"
  shows "sparkParamsObject s' = sparkParamsObject s"
proof -
  let ?kvs = "sparkParamsObject s"
  have rows: "filter (\<lambda>(key, v). trim key \<noteq> '''') (parameterRows ?kvs) = parameterRows ?kvs"
    using sparkParams_entry by (intro filter_True) (fastforce simp: parameterRows_def)
  have copy: "map (\<lambda>(k, v). (trim k, JStr v)) (parameterRows ?kvs) = ?kvs"
    unfolding parameterRows_def map_map
    by (intro map_idI) (use sparkParams_entry in \<open>fastforce simp: StringOr_def\<close>)
  have "sparkParamsObject s' = fold (\<lambda>(k, v). obj_set (trim k) (JStr v))
      (filter (\<lambda>(key, v). trim key \<noteq> '''') (kf_parameters s')) []"
    by (simp only: sparkParamsObject_def)
  also have "\<dots> = fold (\<lambda>(k, v). obj_set (trim k) (JStr v)) (parameterRows ?kvs) []"
    by (simp only: assms rows)
  also have "\<dots> = fold (\<lambda>(k, v). obj_set k v) (map (\<lambda>(k, v). (trim k, JStr v)) (parameterRows ?kvs)) []"
    by (simp add: fold_map comp_def case_prod_unfold)
  also have "\<dots> = fold (\<lambda>(k, v). obj_set k v) ?kvs []" by (simp only: copy)
  also have "\<dots> = ?kvs"
    using fold_obj_set_distinct [of "[]" trim JStr] by (subst fold_obj_set_copy) (simp_all add: sparkParamsObject_def)
  finally show ?thesis .
qed

text \<open>The texts that are copied one by one, and what is shown of them again.\<close>

definition copied :: "(string \<Rightarrow> int option) \<Rightarrow> string \<Rightarrow> string \<Rightarrow> int json" where
  "copied num key v = (if key \<in> set sparkNumberKeys then numJson (num v) else JStr v)"

definition shownAgain :: "(string \<Rightarrow> int option) \<Rightarrow> string \<Rightarrow> string \<Rightarrow> string" where
  "shownAgain num key v = (if v = '''' then '''' else StringOr (Some (copied num key v)) '''')"

lemma copyText_eq: "copyText num (key, v) e = (if v \<noteq> '''' then obj_set key (copied num key v) e else e)"
  by (simp add: copyText_def copied_def)

lemma map_of_copyTexts:
  "distinct (map fst kvs) \<Longrightarrow> map_of (fold (copyText num) kvs e) key =
     (case map_of kvs key of
        None \<Rightarrow> map_of e key | Some v \<Rightarrow> if v \<noteq> '''' then Some (copied num key v) else map_of e key)"
proof (induction kvs arbitrary: e)
  case (Cons kv kvs)
  obtain k v where kv: "kv = (k, v)" by (cases kv)
  have "key = k \<Longrightarrow> map_of kvs key = None" using Cons.prems by (auto simp: kv map_of_eq_None_iff)
  then show ?case
    using Cons.IH [of "copyText num (k, v) e"] Cons.prems
    by (auto simp: kv copyText_eq map_of_obj_set split: option.splits)
qed simp

lemma copyText_again:
  assumes "reads_numbers num" "v \<noteq> '''' \<Longrightarrow> copied num key v \<noteq> JNull"
  shows "copyText num (key, shownAgain num key v) e = copyText num (key, v) e"
proof (cases "v = '''' \<or> key \<notin> set sparkNumberKeys")
  case False
  then obtain n where n: "num v = Some n" using assms(2) by (cases "num v") (auto simp: copied_def numJson_def)
  with False show ?thesis
    by (simp add: copyText_eq shownAgain_def copied_def numJson_def StringOr_def num_show [OF assms(1)])
qed (auto simp: copyText_eq shownAgain_def copied_def StringOr_def)

lemma copyTexts_again:
  assumes "reads_numbers num" "\<forall>(key, v) \<in> set kvs. v \<noteq> '''' \<longrightarrow> copied num key v \<noteq> JNull"
  shows "fold (copyText num) (map (\<lambda>(key, v). (key, shownAgain num key v)) kvs) e = fold (copyText num) kvs e"
  using assms(2)
proof (induction kvs arbitrary: e)
  case (Cons kv kvs)
  obtain k v where kv: "kv = (k, v)" by (cases kv)
  have "copyText num (k, shownAgain num k v) e = copyText num (k, v) e"
    by (rule copyText_again [OF assms(1)]) (use Cons.prems in \<open>auto simp: kv\<close>)
  then show ?case using Cons.IH [of "copyText num (k, v) e"] Cons.prems by (simp add: kv)
qed simp

lemma copyTexts_set:
  "(key, v) \<in> set kvs \<Longrightarrow> distinct (map fst kvs) \<Longrightarrow> v \<noteq> '''' \<Longrightarrow> copied num key v \<in> snd ` set (fold (copyText num) kvs e)"
proof -
  assume "(key, v) \<in> set kvs" "distinct (map fst kvs)" "v \<noteq> ''''"
  then have "map_of (fold (copyText num) kvs e) key = Some (copied num key v)"
    by (simp add: map_of_copyTexts map_of_is_SomeI)
  then show ?thesis by (force dest: map_of_SomeD)
qed

definition sparkHead :: "(string \<Rightarrow> int option) \<Rightarrow> spark_form \<Rightarrow> int obj" where
  "sparkHead num k =
     [(''method'', JStr (kf_method k)), (''threads'', numberOr num (kf_threads k) 2),
      (''secret_type'', JStr (kf_secret_type k)), (''connect_timeout'', numberOr num (kf_connect_timeout k) 60),
      (''connect_retries'', numberOr num (kf_connect_retries k) 3), (''retry_all'', JBool (kf_retry_all k = ''true'')),
      (''use_ssl'', JBool (kf_use_ssl k = ''true'')), (''server_side_parameters'', JObj (sparkParamsObject k))]"

definition sparkExtra :: "(string \<Rightarrow> int option) \<Rightarrow> spark_form \<Rightarrow> int obj" where
  "sparkExtra num k = fold (copyText num) (sparkTexts k) (sparkHead num k)"

lemma spark_unfold:
  "sparkPayload num f k =
     withCredential f ((basePayload ''spark'' f (sparkExtra num k))
       \<lparr> pl_host := cf_host f, pl_port := (if cf_port f = '''' then Some 0 else num (cf_port f)),
         pl_database := cf_database f, pl_username := cf_username f \<rparr>)"
  by (simp add: sparkPayload_def Let_def sparkExtra_def sparkHead_def)

lemma sparkTexts_keys:
  "map fst (sparkTexts k) = [''driver'', ''cluster'', ''endpoint'', ''auth'', ''kerberos_service_name'',
     ''organization'', ''connection_string_suffix'', ''query_timeout'', ''poll_interval'', ''query_retries'']"
  by (simp add: sparkTexts_def)

lemma sparkTexts_distinct: "distinct (map fst (sparkTexts k))"
  by (simp add: sparkTexts_keys)

lemma sparkExtra_text:
  assumes "map_of (sparkTexts k) key = Some v" "map_of (sparkHead num k) key = None"
    and "v \<noteq> '''' \<Longrightarrow> copied num key v \<noteq> JNull"
  shows "textOf (sparkExtra num k) key '''' = shownAgain num key v"
  using assms by (simp add: textOf_def sparkExtra_def map_of_copyTexts [OF sparkTexts_distinct] shownAgain_def)
    (simp add: StringOr_def)

lemma sparkExtra_head:
  assumes "map_of (sparkTexts k) key = None"
  shows "map_of (sparkExtra num k) key = map_of (sparkHead num k) key"
  using assms by (simp add: sparkExtra_def map_of_copyTexts [OF sparkTexts_distinct])

lemma numberOr_again:
  assumes "reads_numbers num" "numberOr num v d \<noteq> JNull"
  shows "numberOr num (StringOr (Some (numberOr num v d)) d') d = numberOr num v d"
  using assms by (cases "num v"; cases "v = ''''") (auto simp: numberOr_def numJson_def StringOr_def num_show)

lemma sparkExtra_SECONDARY: "obj_del SECONDARY (sparkExtra num k) = sparkExtra num k"
proof (rule obj_del_absent)
  have "map_of (sparkTexts k) SECONDARY = None" "map_of (sparkHead num k) SECONDARY = None"
    by (simp_all add: sparkTexts_def sparkHead_def SECONDARY_def)
  then have "map_of (sparkExtra num k) SECONDARY = None" by (simp add: sparkExtra_head)
  then show "SECONDARY \<notin> fst ` set (sparkExtra num k)" by (simp add: map_of_eq_None_iff)
qed

text \<open>The spark form read from the configuration it wrote.\<close>

lemma sparkTexts_again:
  assumes "nullish (cn_extraConfig r) [] = sparkExtra num k" "JNull \<notin> snd ` set (sparkExtra num k)"
  shows "sparkTexts (sparkOf r) = map (\<lambda>(key, v). (key, shownAgain num key v)) (sparkTexts k)"
proof -
  have reads: "textOf (sparkExtra num k) key '''' = shownAgain num key v"
    if "map_of (sparkTexts k) key = Some v" "map_of (sparkHead num k) key = None" for key v
  proof (rule sparkExtra_text [OF that])
    assume "v \<noteq> ''''"
    then have "copied num key v \<in> snd ` set (sparkExtra num k)"
      using copyTexts_set [OF map_of_SomeD [OF that(1)] sparkTexts_distinct] by (simp add: sparkExtra_def)
    then show "copied num key v \<noteq> JNull" using assms(2) by metis
  qed
  note texts = reads [of "''driver''" "kf_driver k"] reads [of "''cluster''" "kf_cluster k"]
    reads [of "''endpoint''" "kf_endpoint k"] reads [of "''auth''" "kf_auth k"]
    reads [of "''kerberos_service_name''" "kf_kerberos_service_name k"]
    reads [of "''organization''" "kf_organization k"]
    reads [of "''connection_string_suffix''" "kf_connection_string_suffix k"]
    reads [of "''query_timeout''" "kf_query_timeout k"] reads [of "''poll_interval''" "kf_poll_interval k"]
    reads [of "''query_retries''" "kf_query_retries k"]
  note shown = texts [unfolded sparkTexts_def sparkHead_def, simplified]
  show ?thesis
    unfolding sparkTexts_def sparkOf_def Let_def assms(1)
    by (simp add: shown)
qed

lemma sparkHead_again:
  assumes "reads_numbers num" "nullish (cn_extraConfig r) [] = sparkExtra num k" "JNull \<notin> snd ` set (sparkExtra num k)"
  shows "sparkHead num (sparkOf r) = sparkHead num k"
proof -
  have headOf: "map_of (sparkExtra num k) key = map_of (sparkHead num k) key"
    if "map_of (sparkTexts k) key = None" for key
    by (rule sparkExtra_head [OF that])
  note heads = headOf [of "''method''"] headOf [of "''threads''"] headOf [of "''secret_type''"]
    headOf [of "''connect_timeout''"] headOf [of "''connect_retries''"] headOf [of "''retry_all''"]
    headOf [of "''use_ssl''"] headOf [of "''server_side_parameters''"]
  note found = heads [unfolded sparkTexts_def sparkHead_def, simplified]
  have num: "numberOr num v d \<noteq> JNull"
    if "map_of (sparkExtra num k) key = Some (numberOr num v d)" for key v d
    using map_of_SomeD [OF that] assms(3) by force
  note numbers = numberOr_again [OF assms(1) num [OF found(2)]] numberOr_again [OF assms(1) num [OF found(4)]]
    numberOr_again [OF assms(1) num [OF found(5)]]
  have params: "sparkParamsObject (sparkOf r) = sparkParamsObject k"
    by (rule sparkParams_again) (simp add: sparkOf_def Let_def assms(2) found)
  show ?thesis
    unfolding sparkHead_def params
    by (simp add: sparkOf_def Let_def assms(2) found textOf_def numbers) (simp add: StringOr_def)
qed

lemma reopened_spark:
  assumes "reads_numbers num" "shows_payload (sparkPayload num f k) n r" "no_nan (sparkPayload num f k)"
  shows "sparkPayload num (formOfConnection r) (sparkOf r) = resent n (sparkPayload num f k)"
proof -
  have extra: "pl_extraConfig (sparkPayload num f k) = Some (sparkExtra num k)"
    by (simp add: spark_unfold basePayload_def)
  note form = form_shown [OF assms(2) extra]
  have ec: "nullish (cn_extraConfig r) [] = sparkExtra num k"
    using assms(2) extra by (simp add: shows_payload_def sparkExtra_SECONDARY)
  have clean: "JNull \<notin> snd ` set (sparkExtra num k)" using assms(3) by (simp add: no_nan_def extra)
  have "sparkExtra num (sparkOf r) = sparkExtra num k"
    unfolding sparkExtra_def sparkTexts_again [OF ec clean] sparkHead_again [OF assms(1) ec clean]
  proof (rule copyTexts_again [OF assms(1)], safe)
    fix key v assume kv: "(key, v) \<in> set (sparkTexts k)" "v \<noteq> ''''" "copied num key v = JNull"
    then show False
      using copyTexts_set [OF kv(1) sparkTexts_distinct kv(2), of num "sparkHead num k"] clean
      by (simp add: sparkExtra_def)
  qed
  then show ?thesis
    unfolding spark_unfold resent_withCredential
    by (simp add: form withCredential_blank)
      (simp add: spark_unfold basePayload_def resent_def num_show [OF assms(1)] sparkExtra_SECONDARY)
qed

subsubsection \<open>Snowflake and Databricks\<close>

text \<open>The kinds of authentication the two forms offer.\<close>

definition offered :: "conn_dialog \<Rightarrow> bool" where
  "offered d \<longleftrightarrow> sf_auth_type (dg_snowflake d) \<in> {''password'', ''keypair''} \<and>
     bf_auth_type (dg_databricks d) \<in> {''pat'', ''oauth_m2m''}"

lemma normalizeWarehouseSchema_Inr:
  "normalizeWarehouseSchema (Some (JStr v)) w = Inr u \<longleftrightarrow> u = trim v \<and> trim v \<noteq> ''''"
  by (auto simp: normalizeWarehouseSchema_def Let_def StringOr_def)

definition snowflakeExtra :: "string \<Rightarrow> string \<Rightarrow> snowflake_form \<Rightarrow> int obj" where
  "snowflakeExtra a schema k =
     [(''account'', JStr a), (''auth_type'', JStr (sf_auth_type k)), (''schema'', JStr schema)] @
     (if trim (sf_role k) \<noteq> '''' then [(''role'', JStr (trim (sf_role k)))] else []) @
     (if trim (sf_warehouse k) \<noteq> '''' then [(''warehouse'', JStr (trim (sf_warehouse k)))] else [])"

definition snowflakeSecret :: "snowflake_form \<Rightarrow> int obj" where
  "snowflakeSecret k =
     (if sf_auth_type k = ''keypair'' \<and> trim (sf_secondary_secret k) \<noteq> ''''
      then [(SECONDARY, JStr (trim (sf_secondary_secret k)))] else [])"

lemma snowflake_extra_eq:
  "snowflakeExtraConfig a schema k = snowflakeExtra a schema k @ snowflakeSecret k"
proof -
  have last: "obj_set SECONDARY v (snowflakeExtra a schema k) = snowflakeExtra a schema k @ [(SECONDARY, v)]" for v
    by (rule obj_set_last) (auto simp: snowflakeExtra_def)
  have "snowflakeExtraConfig a schema k =
      (if sf_auth_type k = ''keypair'' \<and> trim (sf_secondary_secret k) \<noteq> ''''
       then obj_set SECONDARY (JStr (trim (sf_secondary_secret k))) (snowflakeExtra a schema k)
       else snowflakeExtra a schema k)"
    by (simp add: snowflakeExtraConfig_def snowflakeExtra_def Let_def)
  then show ?thesis by (simp add: last snowflakeSecret_def)
qed

definition snowflakeBody ::
    "(string \<Rightarrow> int option) \<Rightarrow> conn_form \<Rightarrow> snowflake_form \<Rightarrow> string \<Rightarrow> string \<Rightarrow> payload" where
  "snowflakeBody num f k a schema =
     withCredential f
       ((basePayload ''snowflake'' f (applyThreads num f (snowflakeExtra a schema k @ snowflakeSecret k)))
        \<lparr> pl_host := a @ ''.'' @ SNOWFLAKE_DOMAIN, pl_port := (if cf_port f \<noteq> '''' then num (cf_port f) else Some 443),
          pl_database := trim (cf_database f), pl_username := trim (cf_username f) \<rparr>)"

lemma snowflake_Inr:
  "snowflakePayload num existing f k = Inr p \<longleftrightarrow>
     (\<exists>a. normalizeSnowflakeAccount (Some (JStr (sf_account k))) = Inr a \<and> trim (cf_schema f) \<noteq> '''' \<and>
       \<not> (isRequired (secretState ''snowflake'' ''password'' existing (sf_auth_type k)) \<and> trim (cf_credential f) = '''') \<and>
       p = snowflakeBody num f k a (trim (cf_schema f)))"
proof -
  have host: "snowflakeAccountHost (Some (JStr a)) = Inr (a @ ''.'' @ SNOWFLAKE_DOMAIN)"
    if "normalizeSnowflakeAccount (Some (JStr (sf_account k))) = Inr a" for a
    using snowflake_account_host [OF that] by blast
  show ?thesis
  proof (cases "normalizeSnowflakeAccount (Some (JStr (sf_account k)))")
    case (Inr a)
    show ?thesis
    proof (cases "trim (cf_schema f) = ''''")
      case True
      then show ?thesis
        using host [OF Inr] by (simp add: snowflakePayload_def Inr) (simp add: normalizeWarehouseSchema_def StringOr_def)
    next
      case False
      then have "normalizeWarehouseSchema (Some (JStr (cf_schema f))) ''Snowflake'' = Inr (trim (cf_schema f))"
        by (simp add: normalizeWarehouseSchema_Inr)
      then show ?thesis
        using host [OF Inr] False
        by (auto simp: snowflakePayload_def snowflakeBody_def snowflake_extra_eq Inr throw_def)
    qed
  qed (simp add: snowflakePayload_def)
qed

lemma secretState_kept:
  assumes "cn_connectionType r = t" "textOf (nullish (cn_extraConfig r) []) ''auth_type'' d = v" "v \<noteq> ''''"
  shows "\<not> isRequired (secretState t d (Some (ConnectionView rid r)) v)"
  using assms by (simp add: secretState_def storedAuthType_def getSecretFieldState_def Let_def truthy_def)

lemma reopened_snowflake:
  assumes "reads_numbers num" "shows_payload p n r" "snowflakePayload num None f k = Inr p" "sf_auth_type k \<noteq> ''''"
  shows "snowflakePayload num (Some (ConnectionView rid r)) (formOfConnection r) (snowflakeOf r) = Inr (resent n p)"
proof -
  obtain a where a: "normalizeSnowflakeAccount (Some (JStr (sf_account k))) = Inr a"
    and schema: "trim (cf_schema f) \<noteq> ''''" and p: "p = snowflakeBody num f k a (trim (cf_schema f))"
    using assms(3) by (auto simp: snowflake_Inr)
  let ?s = "trim (cf_schema f)" let ?x = "snowflakeExtra a ?s k"
  have extra: "pl_extraConfig p = Some (applyThreads num f (?x @ snowflakeSecret k))"
    by (simp add: p snowflakeBody_def basePayload_def)
  note form = form_shown [OF assms(2) extra]
  have del: "obj_del SECONDARY ?x = ?x" "obj_del SECONDARY (snowflakeSecret k) = []"
    by (simp_all add: snowflakeExtra_def snowflakeSecret_def)
  have none: "map_of (?x @ snowflakeSecret k) ''threads'' = None"
    by (simp add: snowflakeExtra_def snowflakeSecret_def)
  have ec: "nullish (cn_extraConfig r) [] = applyThreads num f ?x"
    using assms(2) extra by (simp add: shows_payload_def del_threads del)
  have texts: "textOf ?x ''account'' '''' = a" "textOf ?x ''auth_type'' ''password'' = sf_auth_type k"
    "textOf ?x ''schema'' '''' = ?s" "textOf ?x ''role'' '''' = trim (sf_role k)"
    "textOf ?x ''warehouse'' '''' = trim (sf_warehouse k)"
    by (simp_all add: snowflakeExtra_def)
  have again: "snowflakeOf r =
    \<lparr> sf_account = a, sf_auth_type = sf_auth_type k, sf_role = trim (sf_role k),
      sf_warehouse = trim (sf_warehouse k), sf_secondary_secret = '''' \<rparr>"
    by (simp add: snowflakeOf_def Let_def ec textOf_threads texts)
  have "textOf (?x @ snowflakeSecret k) ''schema'' '''' = ?s"
    using texts(3) by (simp add: textOf_def snowflakeExtra_def)
  then have schema': "cf_schema (formOfConnection r) = ?s" by (simp add: form textOf_threads)
  have threads: "applyThreads num (formOfConnection r) ?x = applyThreads num f ?x"
    by (rule applyThreads_cong) (use threads_shown [OF assms(1,2) extra none] in simp)
  have x: "snowflakeExtra a ?s (snowflakeOf r) = ?x" by (simp add: again snowflakeExtra_def)
  have y: "snowflakeSecret (snowflakeOf r) = []" by (simp add: again snowflakeSecret_def)
  have body: "snowflakeBody num (formOfConnection r) (snowflakeOf r) a ?s = resent n p"
    unfolding snowflakeBody_def x y append_Nil2 threads p resent_withCredential
    by (simp add: form withCredential_blank)
      (simp add: p snowflakeBody_def basePayload_def resent_def num_show [OF assms(1)] del_threads del)
  have t: "cn_connectionType r = ''snowflake''"
    using assms(2) by (simp add: shows_payload_def p snowflakeBody_def basePayload_def)
  have "\<not> isRequired (secretState ''snowflake'' ''password'' (Some (ConnectionView rid r)) (sf_auth_type k))"
    by (rule secretState_kept [OF t _ assms(4)]) (simp add: ec textOf_threads texts)
  then show ?thesis
    using snowflake_account_host [OF a] schema
    by (simp add: snowflake_Inr again schema' body [unfolded again])
qed

definition databricksExtra :: "string \<Rightarrow> string \<Rightarrow> databricks_form \<Rightarrow> int obj" where
  "databricksExtra path schema k =
     [(''auth_type'', JStr (bf_auth_type k)), (''http_path'', JStr path), (''schema'', JStr schema)] @
     (if bf_auth_type k = ''oauth_m2m'' then [(''client_id'', JStr (trim (bf_client_id k)))] else [])"

definition databricksSecret :: "databricks_form \<Rightarrow> int obj" where
  "databricksSecret k =
     (if bf_auth_type k = ''oauth_m2m'' \<and> trim (bf_secondary_secret k) \<noteq> ''''
      then [(SECONDARY, JStr (trim (bf_secondary_secret k)))] else [])"

definition databricksBody ::
    "(string \<Rightarrow> int option) \<Rightarrow> conn_form \<Rightarrow> databricks_form \<Rightarrow> string \<Rightarrow> string \<Rightarrow> string \<Rightarrow> payload" where
  "databricksBody num f k host path schema =
     withCredential f
       ((basePayload ''databricks'' f (applyThreads num f (databricksExtra path schema k @ databricksSecret k)))
        \<lparr> pl_host := host, pl_port := (if cf_port f \<noteq> '''' then num (cf_port f) else Some 443),
          pl_database := trim (cf_database f) \<rparr>)"

text \<open>What the form must bring for its kind of authentication.\<close>

definition databricksSecretsGiven :: "bool \<Rightarrow> conn_form \<Rightarrow> databricks_form \<Rightarrow> bool" where
  "databricksSecretsGiven required f k \<longleftrightarrow>
     (bf_auth_type k = ''pat'' \<longrightarrow> required \<longrightarrow> trim (cf_credential f) \<noteq> '''') \<and>
     (bf_auth_type k = ''oauth_m2m'' \<longrightarrow>
        trim (bf_client_id k) \<noteq> '''' \<and> (required \<longrightarrow> trim (bf_secondary_secret k) \<noteq> ''''))"

lemma databricksExtraConfig_Inr:
  "databricksExtraConfig required f k path schema = Inr e \<longleftrightarrow>
     databricksSecretsGiven required f k \<and> e = databricksExtra path schema k @ databricksSecret k"
proof -
  have last: "obj_set SECONDARY v [(''auth_type'', x), (''http_path'', y), (''schema'', z), (''client_id'', w)] =
      [(''auth_type'', x), (''http_path'', y), (''schema'', z), (''client_id'', w), (SECONDARY, v)]" for v w x y z
    by simp
  consider (pat) "bf_auth_type k = ''pat''" | (oauth) "bf_auth_type k = ''oauth_m2m''"
    | (other) "bf_auth_type k \<noteq> ''pat''" "bf_auth_type k \<noteq> ''oauth_m2m''" by blast
  then show ?thesis
  proof cases
    case pat
    then show ?thesis
      by (auto simp: databricksExtraConfig_def databricksSecretsGiven_def databricksExtra_def databricksSecret_def)
  next
    case oauth
    have fields: "databricksExtra path schema k = [(''auth_type'', JStr ''oauth_m2m''), (''http_path'', JStr path),
        (''schema'', JStr schema), (''client_id'', JStr (trim (bf_client_id k)))]"
      by (simp add: databricksExtra_def oauth)
    show ?thesis
    proof (cases "trim (bf_secondary_secret k) = ''''")
      case True
      then show ?thesis
        by (auto simp: databricksExtraConfig_def databricksSecretsGiven_def fields databricksSecret_def oauth)
    next
      case False
      then show ?thesis
        by (auto simp: databricksExtraConfig_def databricksSecretsGiven_def fields databricksSecret_def oauth)
    qed
  next
    case other
    then show ?thesis
      by (auto simp: databricksExtraConfig_def databricksSecretsGiven_def databricksExtra_def databricksSecret_def)
  qed
qed

lemma databricks_Inr:
  "databricksPayload num existing f k = Inr p \<longleftrightarrow>
     (\<exists>host path. normalizeDatabricksHost (Some (JStr (cf_host f))) = Inr host \<and>
       normalizeDatabricksHttpPath (Some (JStr (bf_http_path k))) = Inr path \<and> trim (cf_schema f) \<noteq> '''' \<and>
       databricksSecretsGiven (isRequired (secretState ''databricks'' ''pat'' existing (bf_auth_type k))) f k \<and>
       p = databricksBody num f k host path (trim (cf_schema f)))"
  unfolding databricksPayload_def databricksBody_def bindR_Inr databricksExtraConfig_Inr
    normalizeWarehouseSchema_Inr sum.inject by blast

lemma databricks_normal:
  "normalizeDatabricksHost (Some (JStr v)) = Inr h \<Longrightarrow> normalizeDatabricksHost (Some (JStr h)) = Inr h"
  "normalizeDatabricksHttpPath (Some (JStr v)) = Inr w \<Longrightarrow> normalizeDatabricksHttpPath (Some (JStr w)) = Inr w"
proof -
  assume v: "normalizeDatabricksHost (Some (JStr v)) = Inr h"
  then have "h = toLowerCase (trim v)" by (auto simp: normalizeDatabricksHost_def Let_def StringOr_def split: if_splits)
  moreover have "trim (toLowerCase (trim v)) = toLowerCase (trim v)"
    by (rule trim_trimmed) (use trimmed_trim [of v] in \<open>auto simp: is_trimmed_def toLowerCase_def hd_map last_map\<close>)
  ultimately show "normalizeDatabricksHost (Some (JStr h)) = Inr h"
    using v by (simp add: normalizeDatabricksHost_def StringOr_def Let_def)
qed (auto simp: normalizeDatabricksHttpPath_def Let_def StringOr_def split: if_splits)

lemma reopened_databricks:
  assumes "reads_numbers num" "shows_payload p n r" "databricksPayload num None f k = Inr p" "bf_auth_type k \<noteq> ''''"
  shows "databricksPayload num (Some (ConnectionView rid r)) (formOfConnection r) (databricksOf r) = Inr (resent n p)"
proof -
  obtain h w where h: "normalizeDatabricksHost (Some (JStr (cf_host f))) = Inr h"
    and w: "normalizeDatabricksHttpPath (Some (JStr (bf_http_path k))) = Inr w"
    and schema: "trim (cf_schema f) \<noteq> ''''"
    and given: "databricksSecretsGiven (isRequired (secretState ''databricks'' ''pat'' None (bf_auth_type k))) f k"
    and p: "p = databricksBody num f k h w (trim (cf_schema f))"
    using assms(3) by (auto simp: databricks_Inr)
  let ?s = "trim (cf_schema f)" let ?x = "databricksExtra w ?s k"
  have extra: "pl_extraConfig p = Some (applyThreads num f (?x @ databricksSecret k))"
    by (simp add: p databricksBody_def basePayload_def)
  note form = form_shown [OF assms(2) extra]
  have del: "obj_del SECONDARY ?x = ?x" "obj_del SECONDARY (databricksSecret k) = []"
    by (simp_all add: databricksExtra_def databricksSecret_def)
  have none: "map_of (?x @ databricksSecret k) ''threads'' = None"
    by (simp add: databricksExtra_def databricksSecret_def)
  have ec: "nullish (cn_extraConfig r) [] = applyThreads num f ?x"
    using assms(2) extra by (simp add: shows_payload_def del_threads del)
  have texts: "textOf ?x ''auth_type'' ''pat'' = bf_auth_type k" "textOf ?x ''http_path'' '''' = w"
    "textOf ?x ''schema'' '''' = ?s"
    "textOf ?x ''client_id'' '''' = (if bf_auth_type k = ''oauth_m2m'' then trim (bf_client_id k) else '''')"
    by (simp_all add: databricksExtra_def)
  have again: "databricksOf r =
    \<lparr> bf_auth_type = bf_auth_type k, bf_http_path = w,
      bf_client_id = (if bf_auth_type k = ''oauth_m2m'' then trim (bf_client_id k) else ''''),
      bf_secondary_secret = '''' \<rparr>"
    by (simp add: databricksOf_def Let_def ec textOf_threads texts)
  have "textOf (?x @ databricksSecret k) ''schema'' '''' = ?s"
    using texts(3) by (simp add: textOf_def databricksExtra_def)
  then have schema': "cf_schema (formOfConnection r) = ?s" by (simp add: form textOf_threads)
  have host': "cf_host (formOfConnection r) = h" by (simp add: form) (simp add: p databricksBody_def basePayload_def)
  have threads: "applyThreads num (formOfConnection r) ?x = applyThreads num f ?x"
    by (rule applyThreads_cong) (use threads_shown [OF assms(1,2) extra none] in simp)
  have x: "databricksExtra w ?s (databricksOf r) = ?x" by (simp add: again databricksExtra_def)
  have y: "databricksSecret (databricksOf r) = []" by (simp add: again databricksSecret_def)
  have body: "databricksBody num (formOfConnection r) (databricksOf r) h w ?s = resent n p"
    unfolding databricksBody_def x y append_Nil2 threads p resent_withCredential
    by (simp add: form withCredential_blank)
      (simp add: p databricksBody_def basePayload_def resent_def num_show [OF assms(1)] del_threads del)
  have t: "cn_connectionType r = ''databricks''"
    using assms(2) by (simp add: shows_payload_def p databricksBody_def basePayload_def)
  have kept: "\<not> isRequired (secretState ''databricks'' ''pat'' (Some (ConnectionView rid r)) (bf_auth_type k))"
    by (rule secretState_kept [OF t _ assms(4)]) (simp add: ec textOf_threads texts)
  have "databricksSecretsGiven False (formOfConnection r) (databricksOf r)"
    using given by (simp add: databricksSecretsGiven_def again)
  then show ?thesis
    using databricks_normal(1) [OF h] databricks_normal(2) [OF w] schema kept body
    by (simp add: databricks_Inr host' schema' again)
qed

subsection \<open>The dialog as a whole\<close>

text \<open>The types with a port of their own in the form.\<close>

definition portless :: "string \<Rightarrow> bool" where
  "portless t \<longleftrightarrow> t = ''duckdb'' \<or> t = ''rest''"

lemma payload_type:
  assumes "dialogPayload num hostnameOf existing d = Inr p"
  shows "pl_connectionType p = Some (if dg_type d \<in> set [''duckdb'', ''dremio'', ''oracle'', ''spark'', ''ducklake'',
      ''mysql'', ''rest'', ''snowflake'', ''databricks''] then dg_type d else ''postgresql'')"
  using assms
  by (auto simp: dialogPayload_def Let_def dremioPayload_def lakePayload_def duckdbPayload_def mysqlPayload_def
      oraclePayload_def sparkPayload_def rest_Inr snowflake_Inr databricks_Inr snowflakeBody_def databricksBody_def
      postgresPayload_def basePayload_def split: if_splits)

text \<open>What opening a saved row leaves in the parts of the dialog its type reads.\<close>

lemma opened_row:
  assumes "d' = openEffect (Some (ConnectionView rid r)) d" "dg_open d"
  shows "dg_form d' = formOfConnection r" "dg_type d' = initialType (Some (ConnectionView rid r))"
    "cn_connectionType r = ''dremio'' \<Longrightarrow> dg_dremio d' = dremioOf r"
    "cn_connectionType r = ''rest'' \<Longrightarrow> dg_rest d' = restOf r"
    "cn_connectionType r = ''oracle'' \<Longrightarrow> dg_oracle d' = textOf (nullish (cn_extraConfig r) []) ''schema'' ''''"
    "cn_connectionType r = ''snowflake'' \<Longrightarrow> dg_snowflake d' = snowflakeOf r"
    "cn_connectionType r = ''databricks'' \<Longrightarrow> dg_databricks d' = databricksOf r"
    "cn_connectionType r = ''spark'' \<Longrightarrow> dg_spark d' = sparkOf r"
  using assms(2) by (simp_all add: assms(1) openEffect_def openedExtra_def Let_def)

lemma reopened:
  assumes "reads_numbers num" "dialogPayload num hostnameOf None d = Inr p" "no_nan p" "offered d"
    and "dg_type d \<noteq> ''ducklake''" "shows_payload p n r" "portless (dg_type d) \<Longrightarrow> n = 0"
    and "dg_open d0" "d' = openEffect (Some (ConnectionView rid r)) d0"
  shows "dialogPayload num hostnameOf (Some (ConnectionView rid r)) d' = Inr (resent n p)"
proof -
  note shown = opened_row [OF assms(9,8)]
  have t: "Some (cn_connectionType r) = pl_connectionType p" using assms(6) by (simp add: shows_payload_def)
  consider "dg_type d = ''dremio''" | "dg_type d = ''duckdb''" | "dg_type d = ''mysql''" | "dg_type d = ''rest''"
    | "dg_type d = ''oracle''" | "dg_type d = ''spark''" | "dg_type d = ''snowflake''" | "dg_type d = ''databricks''"
    | "dg_type d \<notin> set [''duckdb'', ''dremio'', ''oracle'', ''spark'', ''ducklake'', ''mysql'', ''rest'',
        ''snowflake'', ''databricks'']"
    using assms(5) by auto
  then show ?thesis
  proof cases
    case 1
    then have "p = dremioPayload num (dg_form d) (dg_dremio d)" "cn_connectionType r = ''dremio''"
      using assms(2) t payload_type [OF assms(2)] by (simp_all add: dialogPayload_def)
    then show ?thesis
      using reopened_dremio [OF assms(1)] assms(6) shown by (simp add: dialogPayload_def initialType_def)
  next
    case 2
    then have "p = duckdbPayload num (dg_form d)" "cn_connectionType r = ''duckdb''"
      using assms(2) t payload_type [OF assms(2)] by (simp_all add: dialogPayload_def)
    then show ?thesis
      using reopened_duckdb [OF assms(1)] assms(6,7) 2 shown by (simp add: dialogPayload_def initialType_def portless_def)
  next
    case 3
    then have "p = mysqlPayload num (dg_form d)" "cn_connectionType r = ''mysql''"
      using assms(2) t payload_type [OF assms(2)] by (simp_all add: dialogPayload_def)
    then show ?thesis
      using reopened_mysql [OF assms(1)] assms(6) shown by (simp add: dialogPayload_def initialType_def)
  next
    case 4
    then have "restPayload hostnameOf (dg_form d) (dg_rest d) = Inr p" "cn_connectionType r = ''rest''"
      using assms(2) t payload_type [OF assms(2)] by (simp_all add: dialogPayload_def)
    then show ?thesis
      using reopened_rest [of hostnameOf] assms(6,7) 4 shown by (simp add: dialogPayload_def initialType_def portless_def)
  next
    case 5
    then have "p = oraclePayload num (dg_form d) (dg_oracle d)" "cn_connectionType r = ''oracle''"
      using assms(2) t payload_type [OF assms(2)] by (simp_all add: dialogPayload_def)
    then show ?thesis
      using reopened_oracle [OF assms(1)] assms(6) shown by (simp add: dialogPayload_def initialType_def)
  next
    case 6
    then have "p = sparkPayload num (dg_form d) (dg_spark d)" "cn_connectionType r = ''spark''"
      using assms(2) t payload_type [OF assms(2)] by (simp_all add: dialogPayload_def)
    then show ?thesis
      using reopened_spark [OF assms(1)] assms(3,6) shown by (simp add: dialogPayload_def initialType_def)
  next
    case 7
    then have "snowflakePayload num None (dg_form d) (dg_snowflake d) = Inr p" "cn_connectionType r = ''snowflake''"
      "sf_auth_type (dg_snowflake d) \<noteq> ''''"
      using assms(2,4) t payload_type [OF assms(2)] by (auto simp: dialogPayload_def offered_def)
    then show ?thesis
      using reopened_snowflake [OF assms(1,6)] shown by (simp add: dialogPayload_def initialType_def)
  next
    case 8
    then have "databricksPayload num None (dg_form d) (dg_databricks d) = Inr p" "cn_connectionType r = ''databricks''"
      "bf_auth_type (dg_databricks d) \<noteq> ''''"
      using assms(2,4) t payload_type [OF assms(2)] by (auto simp: dialogPayload_def offered_def)
    then show ?thesis
      using reopened_databricks [OF assms(1,6)] shown by (simp add: dialogPayload_def initialType_def)
  next
    case 9
    then have "p = postgresPayload num (dg_form d)" "cn_connectionType r = ''postgresql''"
      using assms(2) t payload_type [OF assms(2)] by (simp_all add: dialogPayload_def)
    then show ?thesis
      using reopened_postgres [OF assms(1)] assms(6) shown by (simp add: dialogPayload_def initialType_def)
  qed
qed

subsection \<open>What the server does with it\<close>

text \<open>A payload that the server's checks leave as it is.\<close>

definition normalized :: "payload \<Rightarrow> bool" where
  "normalized p \<longleftrightarrow>
     (pl_connectionType p = Some ''snowflake'' \<longrightarrow>
        (\<exists>a extra. pl_extraConfig p = Some extra \<and> map_of extra ''account'' = Some (JStr a) \<and>
          normalizeSnowflakeAccount (Some (JStr a)) = Inr a \<and> pl_host p = a @ ''.'' @ SNOWFLAKE_DOMAIN)) \<and>
     (pl_connectionType p = Some ''databricks'' \<longrightarrow>
        normalizeDatabricksHost (Some (JStr (pl_host p))) = Inr (pl_host p) \<and>
        (\<exists>w extra. pl_extraConfig p = Some extra \<and> map_of extra ''http_path'' = Some (JStr w) \<and>
          normalizeDatabricksHttpPath (Some (JStr w)) = Inr w))"

definition cloud :: "string option \<Rightarrow> bool" where
  "cloud t \<longleftrightarrow> t = Some ''snowflake'' \<or> t = Some ''databricks''"

lemma obj_set_same: "map_of kvs k = Some v \<Longrightarrow> obj_set k v kvs = kvs"
  by (induction kvs) (auto split: if_splits)

lemma validate_normalized:
  assumes "normalized p"
  shows "validateAndGuardConnection env (requestBody p) =
    (if cloud (pl_connectionType p)
     then bindR (assertHostAllowed (dns env) (allowPrivate env) (pl_host p) ''Host'')
       (\<lambda>_. Inr ((requestBody p)\<lparr>ci_port := 443\<rparr>))
     else Inr (requestBody p))"
proof -
  consider (snowflake) "pl_connectionType p = Some ''snowflake''"
    | (databricks) "pl_connectionType p = Some ''databricks''" | (other) "\<not> cloud (pl_connectionType p)"
    by (auto simp: cloud_def)
  then show ?thesis
  proof cases
    case snowflake
    then obtain a extra where a: "pl_extraConfig p = Some extra" "map_of extra ''account'' = Some (JStr a)"
      "normalizeSnowflakeAccount (Some (JStr a)) = Inr a" "pl_host p = a @ ''.'' @ SNOWFLAKE_DOMAIN"
      using assms by (auto simp: normalized_def)
    have "snowflakeAccountHost (Some (JStr a)) = Inr (pl_host p)" using a(3,4) by (simp add: snowflakeAccountHost_def)
    then show ?thesis
      using a(1-3) snowflake
      by (simp add: validateAndGuardConnection_def requestBody_def Let_def cloud_def obj_set_same)
  next
    case databricks
    then obtain w extra where w: "pl_extraConfig p = Some extra" "map_of extra ''http_path'' = Some (JStr w)"
      "normalizeDatabricksHttpPath (Some (JStr w)) = Inr w" and h: "normalizeDatabricksHost (Some (JStr (pl_host p))) = Inr (pl_host p)"
      using assms by (auto simp: normalized_def)
    have "w \<noteq> ''''" using w(3) by (auto simp: normalizeDatabricksHttpPath_def Let_def StringOr_def)
    then show ?thesis
      using w h databricks
      by (simp add: validateAndGuardConnection_def requestBody_def Let_def cloud_def obj_set_same json_truthy_def)
  next
    case other
    then show ?thesis by (auto simp: validateAndGuardConnection_def requestBody_def Let_def cloud_def)
  qed
qed

lemma map_of_threads: "k \<noteq> ''threads'' \<Longrightarrow> map_of (applyThreads num f e) k = map_of e k"
  by (simp add: applyThreads_eq map_of_obj_set split: option.splits)

text \<open>What every payload of the dialog satisfies: it is in the server's form, and a second secret is used.\<close>

definition secret_used :: "payload \<Rightarrow> bool" where
  "secret_used p \<longleftrightarrow>
     (\<exists>extra. pl_extraConfig p = Some extra \<and>
       (map_of extra SECONDARY \<noteq> None \<longrightarrow> usesSecondary (the (pl_connectionType p)) extra))"

lemma secret_usedI: "pl_extraConfig p = Some extra \<Longrightarrow> obj_del SECONDARY extra = extra \<Longrightarrow> secret_used p"
proof -
  assume e: "pl_extraConfig p = Some extra" "obj_del SECONDARY extra = extra"
  have "map_of extra SECONDARY = None" by (subst e(2) [symmetric]) (simp add: map_of_obj_del)
  with e(1) show ?thesis by (simp add: secret_used_def)
qed

lemma snowflake_sent:
  assumes "snowflakePayload num existing f k = Inr p"
  shows "normalized p \<and> secret_used p"
proof -
  obtain a where a: "normalizeSnowflakeAccount (Some (JStr (sf_account k))) = Inr a"
    and p: "p = snowflakeBody num f k a (trim (cf_schema f))"
    using assms by (auto simp: snowflake_Inr)
  let ?e = "snowflakeExtra a (trim (cf_schema f)) k"
  have e: "map_of (?e @ snowflakeSecret k) ''account'' = Some (JStr a)"
    "map_of (?e @ snowflakeSecret k) ''auth_type'' = Some (JStr (sf_auth_type k))"
    "map_of (?e @ snowflakeSecret k) SECONDARY \<noteq> None \<Longrightarrow> sf_auth_type k = ''keypair''"
    by (auto simp: snowflakeExtra_def snowflakeSecret_def split: if_splits)
  have t: "pl_connectionType p = Some ''snowflake''" "pl_host p = a @ ''.'' @ SNOWFLAKE_DOMAIN"
    "pl_extraConfig p = Some (applyThreads num f (?e @ snowflakeSecret k))"
    by (simp_all add: p snowflakeBody_def basePayload_def)
  have "normalized p"
    using snowflake_account_host [OF a] e(1) by (simp add: normalized_def t map_of_threads)
  moreover have "secret_used p"
    using e(2,3) by (auto simp: secret_used_def t map_of_threads usesSecondary_def simp del: map_of_append)
  ultimately show ?thesis ..
qed

lemma databricks_sent:
  assumes "databricksPayload num existing f k = Inr p"
  shows "normalized p \<and> secret_used p"
proof -
  obtain h w where h: "normalizeDatabricksHost (Some (JStr (cf_host f))) = Inr h"
    and w: "normalizeDatabricksHttpPath (Some (JStr (bf_http_path k))) = Inr w"
    and p: "p = databricksBody num f k h w (trim (cf_schema f))"
    using assms by (auto simp: databricks_Inr)
  let ?e = "databricksExtra w (trim (cf_schema f)) k"
  have e: "map_of (?e @ databricksSecret k) ''http_path'' = Some (JStr w)"
    "map_of (?e @ databricksSecret k) ''auth_type'' = Some (JStr (bf_auth_type k))"
    "map_of (?e @ databricksSecret k) SECONDARY \<noteq> None \<Longrightarrow> bf_auth_type k = ''oauth_m2m''"
    by (auto simp: databricksExtra_def databricksSecret_def split: if_splits)
  have t: "pl_connectionType p = Some ''databricks''" "pl_host p = h"
    "pl_extraConfig p = Some (applyThreads num f (?e @ databricksSecret k))"
    by (simp_all add: p databricksBody_def basePayload_def)
  have "normalized p"
    using databricks_normal(1) [OF h] databricks_normal(2) [OF w] e(1) by (simp add: normalized_def t map_of_threads)
  moreover have "secret_used p"
    using e(2,3) by (auto simp: secret_used_def t map_of_threads usesSecondary_def simp del: map_of_append)
  ultimately show ?thesis ..
qed

lemma payload_sent:
  assumes "dialogPayload num hostnameOf existing d = Inr p"
  shows "normalized p \<and> secret_used p"
proof (cases "dg_type d = ''snowflake'' \<or> dg_type d = ''databricks''")
  case True
  then show ?thesis
    using assms snowflake_sent databricks_sent by (auto simp: dialogPayload_def)
next
  case False
  then have "normalized p" using payload_type [OF assms] by (auto simp: normalized_def split: if_splits)
  moreover have "secret_used p"
    using False assms
    by (auto simp: dialogPayload_def Let_def rest_Inr dremio_unfold schema_payloads spark_unfold mysqlPayload_def
        duckdbPayload_def lakePayload_def basePayload_def del_threads dremioExtra_facts schemaExtra_facts
        sparkExtra_SECONDARY restExtra_def intro!: secret_usedI split: if_splits)
  ultimately show ?thesis ..
qed

text \<open>Sealing and sealing again.\<close>

lemma reseal_seal:
  assumes "sealExtra ce extra = Inr ex" "map_of extra SECONDARY \<noteq> None \<longrightarrow> usesSecondary t extra"
  shows "\<exists>e'. resealExtra ce t ex (obj_del SECONDARY extra) = Inr e' \<and> map_of e' = map_of ex"
proof (cases "\<exists>v. map_of extra SECONDARY = Some (JStr v) \<and> v \<noteq> ''''")
  case True
  then obtain v e where v: "map_of extra SECONDARY = Some (JStr v)"
    and e: "encryptSecret (ce_cipher ce) (ce_iv1 ce) v = Inr e" and ex: "ex = obj_set SECONDARY (JStr e) extra"
    using assms(1) by (auto simp: sealExtra_def)
  have "e \<noteq> ''''" using encryptSecret_sealed [OF e] by (auto simp: sealed_def PREFIX_def)
  moreover have "usesSecondary t (obj_del SECONDARY extra)"
    using assms(2) v by (simp add: usesSecondary_def map_of_obj_del)
  ultimately show ?thesis
    by (auto simp: resealExtra_def Let_def ex map_of_obj_set map_of_obj_del json_truthy_def)
next
  case False
  then have "ex = obj_del SECONDARY extra"
    using assms(1) by (auto simp: sealExtra_def split: option.splits json.splits if_splits)
  then show ?thesis by (simp add: resealExtra_def Let_def map_of_obj_del json_truthy_def)
qed

text \<open>The row a create writes, and the port it has.\<close>

definition savedPort :: "payload \<Rightarrow> int" where
  "savedPort p = (if cloud (pl_connectionType p) then 443 else nullish (pl_port p) 0)"

lemma validated:
  assumes "normalized p" "validateAndGuardConnection env (requestBody p) = Inr b"
  shows "b = (requestBody p)\<lparr>ci_port := savedPort p\<rparr> \<and>
    (cloud (pl_connectionType p) \<longrightarrow>
       assertHostAllowed (dns env) (allowPrivate env) (pl_host p) ''Host'' = Inr ())"
  using assms(2) unfolding validate_normalized [OF assms(1)]
  by (auto simp: savedPort_def requestBody_def split: if_splits)

lemma saved_by_POST:
  assumes "connections_POST env ce c b s = (Response 200 (Inr (SavedConnection v)), s1)"
    and "ci_connectionType b \<noteq> Some LAKEHOUSE_TYPE"
  shows "\<exists>b' row. validateAndGuardConnection env b = Inr b' \<and>
    (ci_connectionType b' = ci_connectionType b \<longrightarrow> createConnection ce c b' s = (Inr row, s1) \<and> v = omitSecrets row)"
  using assms
  by (auto simp: connections_POST_def Let_def badRequest_def respond_def split: if_splits sum.splits prod.splits)

lemma createConnection_row:
  assumes "createConnection ce c d s = (Inr row, s1)" "ci_id d = None"
  obtains u ex pw where "actor c s = Some u" "optR (sealExtra ce) (ci_extraConfig d) = Inr ex"
    "sealPassword ce (ci_password d) = Inr pw" "findUnique (connection s) (newId c) = None"
    "row = \<lparr> cn_name = ci_name d, cn_connectionType = nullish (ci_connectionType d) '''', cn_host = ci_host d,
       cn_port = ci_port d, cn_database = ci_database d, cn_username = ci_username d, cn_passwordEncrypted = pw,
       cn_sslMode = Some (nullish (ci_sslMode d) ''prefer''), cn_extraConfig = ex, cn_isActive = True,
       cn_createdBy = u, cn_createdAt = now c \<rparr>"
    "s1 = s\<lparr>connection := insertRow (newId c) row (connection s)\<rparr>"
  using assms that
  by (auto simp: createConnection_def handler_simps Let_def nullish_def split: option.splits sum.splits if_splits)

lemma actor_connection [simp]: "actor c (s\<lparr>connection := t\<rparr>) = actor c s"
  by (simp add: actor_def split: option.splits)

lemma obj_del_idem [simp]: "obj_del k (obj_del k kvs) = obj_del k kvs"
  by (simp add: obj_del_def)

lemma posted:
  assumes "normalized p" "secret_used p" "pl_connectionType p = Some t" "t \<noteq> LAKEHOUSE_TYPE"
    and "q = p \<or> q = p\<lparr>pl_password := x\<rparr>"
    and "connections_POST env ce c (requestBody q) s = (Response 200 (Inr (SavedConnection v)), s1)"
  obtains r ex where "actor c s1 = Some (cn_createdBy r)"
    "findUnique (connection s1) (newId c) = Some r" "v = omitSecrets r" "cn_connectionType r = t"
    "sealExtra ce (the (pl_extraConfig p)) = Inr ex" "cn_extraConfig r = Some ex"
    "shows_payload p (savedPort p) v"
    "cloud (pl_connectionType p) \<longrightarrow> assertHostAllowed (dns env) (allowPrivate env) (pl_host p) ''Host'' = Inr ()"
proof -
  have same: "normalized q" "pl_connectionType q = pl_connectionType p" "pl_host q = pl_host p"
    "savedPort q = savedPort p" "pl_extraConfig q = pl_extraConfig p" "pl_name q = pl_name p"
    "pl_database q = pl_database p" "pl_username q = pl_username p" "pl_sslMode q = pl_sslMode p"
    using assms(1,5) by (auto simp: normalized_def savedPort_def)
  obtain extra where extra: "pl_extraConfig p = Some extra" using assms(2) by (auto simp: secret_used_def)
  obtain b' row where b': "validateAndGuardConnection env (requestBody q) = Inr b'"
    and create: "ci_connectionType b' = pl_connectionType p \<longrightarrow> createConnection ce c b' s = (Inr row, s1) \<and> v = omitSecrets row"
    using saved_by_POST [OF assms(6)] assms(3,4) same(2) by (auto simp: requestBody_def)
  note ok = validated [OF same(1) b']
  have b: "b' = (requestBody q)\<lparr>ci_port := savedPort p\<rparr>" using ok same(4) by simp
  have made: "createConnection ce c b' s = (Inr row, s1)" "v = omitSecrets row"
    using create by (simp_all add: b requestBody_def same)
  obtain u ex pw where u: "actor c s = Some u" and ex: "optR (sealExtra ce) (ci_extraConfig b') = Inr ex"
    and new: "findUnique (connection s) (newId c) = None"
    and row: "row = \<lparr> cn_name = ci_name b', cn_connectionType = nullish (ci_connectionType b') '''',
       cn_host = ci_host b', cn_port = ci_port b', cn_database = ci_database b', cn_username = ci_username b',
       cn_passwordEncrypted = pw, cn_sslMode = Some (nullish (ci_sslMode b') ''prefer''), cn_extraConfig = ex,
       cn_isActive = True, cn_createdBy = u, cn_createdAt = now c \<rparr>"
    and s1: "s1 = s\<lparr>connection := insertRow (newId c) row (connection s)\<rparr>"
    by (rule createConnection_row [OF made(1)]) (simp add: b requestBody_def)
  obtain e where e: "sealExtra ce extra = Inr e" "ex = Some e"
    using ex by (auto simp: b requestBody_def same extra optR_def split: sum.splits)
  have del: "obj_del SECONDARY e = obj_del SECONDARY extra"
    using e(1) by (auto simp: sealExtra_def split: option.splits json.splits if_splits)
  show thesis
  proof (rule that [of row e])
    show "actor c s1 = Some (cn_createdBy row)" using u by (simp add: s1 row)
    show "findUnique (connection s1) (newId c) = Some row" using new by (simp add: s1 table_simps)
    show "shows_payload p (savedPort p) v"
      by (simp add: made(2) shows_payload_def omitSecrets_def row b requestBody_def same assms(3) extra e(2) del)
    show "cloud (pl_connectionType p) \<longrightarrow>
        assertHostAllowed (dns env) (allowPrivate env) (pl_host p) ''Host'' = Inr ()"
      using ok same by simp
  qed (use made(2) e extra assms(3) in \<open>simp_all add: row b requestBody_def same\<close>)
qed

text \<open>Putting the payload of an untouched form back.\<close>

definition untouched :: "connection_row \<Rightarrow> int obj \<Rightarrow> connection_row" where
  "untouched r ec =
     r\<lparr> cn_extraConfig := Some ec,
        cn_sslMode := (if cn_connectionType r = ''postgresql'' then cn_sslMode r else None) \<rparr>"

text \<open>Nothing but one connection may differ.\<close>

definition only_row :: "string \<Rightarrow> db \<Rightarrow> db \<Rightarrow> bool" where
  "only_row rid s s' \<longleftrightarrow>
     s'\<lparr>connection := connection s\<rparr> = s \<and>
     (\<forall>k. k \<noteq> rid \<longrightarrow> findUnique (connection s') k = findUnique (connection s) k)"

lemma put_back:
  assumes p: "normalized p" "secret_used p" "pl_connectionType p = Some t" "t \<noteq> LAKEHOUSE_TYPE"
    "t \<in> set CONNECTION_TYPES" "pl_sslMode p = None \<longleftrightarrow> t \<noteq> ''postgresql''"
    and r: "actor c s = Some (cn_createdBy r)" "findUnique (connection s) rid = Some r" "cn_connectionType r = t"
    "shows_payload p (savedPort p) (omitSecrets r)" "sealExtra ce (the (pl_extraConfig p)) = Inr ex"
    "cn_extraConfig r = Some ex"
    "cloud (pl_connectionType p) \<longrightarrow> assertHostAllowed (dns env) (allowPrivate env) (pl_host p) ''Host'' = Inr ()"
    and rid: "rid \<noteq> ''''"
  obtains ec out s' where "map_of ec = map_of ex"
    "connections_PUT env ce c (Some rid) (Some ''connection'') (requestBody (resent (savedPort p) p)) s =
      (Response 200 (Inr (UpdatedConnection out)), s')"
    "findUnique (connection s') rid = Some (untouched r ec)" "only_row rid s s'"
proof -
  let ?q = "resent (savedPort p) p" let ?b = "requestBody (resent (savedPort p) p)"
  obtain extra where extra: "pl_extraConfig p = Some extra" "map_of extra SECONDARY \<noteq> None \<longrightarrow> usesSecondary t extra"
    using p(2,3) by (auto simp: secret_used_def)
  have normal: "normalized ?q" using p(1) by (auto simp: normalized_def resent_def map_of_obj_del)
  have validated: "validateAndGuardConnection env ?b = Inr ?b"
    using r(7) by (simp add: validate_normalized [OF normal])
      (auto simp: resent_def savedPort_def requestBody_def)
  obtain e' where e': "resealExtra ce t ex (obj_del SECONDARY extra) = Inr e'" "map_of e' = map_of ex"
    using reseal_seal [of ce extra ex t] r(5) extra by auto
  have b: "ci_connectionType ?b = Some t" "ci_extraConfig ?b = Some (obj_del SECONDARY extra)" "ci_password ?b = None"
    by (simp_all add: requestBody_def resent_def p(3) extra)
  have t: "t \<noteq> ''''" using p(5) by (auto simp: CONNECTION_TYPES_def LAKEHOUSE_TYPE_def)
  have shown: "cn_name r = pl_name p" "cn_host r = pl_host p" "cn_port r = savedPort p" "cn_database r = pl_database p"
    "cn_username r = pl_username p" "cn_sslMode r = Some (nullish (pl_sslMode p) ''prefer'')"
    using r(4) by (simp_all add: shows_payload_def omitSecrets_def)
  have row: "rewriteConnection ?b (Some e') None r = untouched r e'"
    using p(6) t shown
    by (auto simp: rewriteConnection_def untouched_def b requestBody_def resent_def r(3) truthy_def p(3))
  let ?s' = "s\<lparr>connection := updateRow rid (rewriteConnection ?b (Some e') None) (connection s)\<rparr>"
  have found: "findUnique (connection ?s') rid = Some (untouched r e')" using r(2) by (simp add: table_simps row)
  have written: "updateConnection ce c rid ?b s = (Inr (Some (untouched r e')), ?s')"
    using r(1,2) found t e'(1)
    by (simp add: updateConnection_def handler_simps Let_def truthy_def r(6) optR_def sealPassword_def b)
  have same: "?b\<lparr>ci_connectionType := Some t, ci_extraConfig := Some (obj_del SECONDARY extra)\<rparr> = ?b"
    using b by (simp add: requestBody_def)
  have put: "connections_PUT env ce c (Some rid) (Some ''connection'') ?b s =
      (Response 200 (Inr (UpdatedConnection (Some (omitSecrets (untouched r e'))))), ?s')"
    using rid t p(4,5) written
    by (simp add: connections_PUT_def truthy_def b validated respond_def same)
  show thesis
    by (rule that [OF e'(2) put found]) (simp add: only_row_def table_simps)
qed

lemma payload_ssl:
  assumes "dialogPayload num hostnameOf existing d = Inr p"
  shows "pl_sslMode p = None \<longleftrightarrow> pl_connectionType p \<noteq> Some ''postgresql''"
  using assms
  by (auto simp: dialogPayload_def Let_def dremioPayload_def lakePayload_def duckdbPayload_def mysqlPayload_def
      oraclePayload_def sparkPayload_def rest_Inr snowflake_Inr databricks_Inr snowflakeBody_def databricksBody_def
      postgresPayload_def basePayload_def split: if_splits)

lemma payload_port:
  assumes "dialogPayload num hostnameOf existing d = Inr p" "portless (dg_type d)"
  shows "savedPort p = 0"
  using assms
  by (auto simp: portless_def dialogPayload_def Let_def duckdbPayload_def rest_Inr basePayload_def savedPort_def
      cloud_def split: if_splits)


definition demo_number :: "string \<Rightarrow> int option" where
  "demo_number v =
     (case v of
        [] \<Rightarrow> Some 0
      | ch # w \<Rightarrow>
          if ch = CHR ''-'' then (if w \<noteq> '''' \<and> list_all is_digit w then Some (- int (read_nat w)) else None)
          else if list_all is_digit v then Some (int (read_nat v)) else None)"

lemma demo_number_reads: "reads_numbers demo_number"
proof -
  have "demo_number (show_int n) = Some n" for n
  proof (cases "n < 0")
    case True
    then show ?thesis using show_nat_digits [of "nat (- n)"] by (simp add: show_int_def demo_number_def)
  next
    case False
    obtain ch w where d: "show_nat (nat n) = ch # w" by (cases "show_nat (nat n)") (use show_nat_not_Nil in auto)
    then have "is_digit ch" using show_nat_digits [of "nat n"] by simp
    then have "ch \<noteq> CHR ''-''" by (auto simp: is_digit_def)
    then show ?thesis
      using False d show_nat_digits [of "nat n"] read_show_nat [of "nat n"]
      by (simp add: show_int_def demo_number_def)
  qed
  then show ?thesis by (simp add: reads_numbers_def demo_number_def)
qed

definition demo_conn_dialog :: conn_dialog where
  "demo_conn_dialog = (chooseType ''mysql'' (initialDialog None))
     \<lparr> dg_form := defaultForm\<lparr> cf_name := ''crm'', cf_host := ''db'', cf_port := ''3306'', cf_database := ''crm'',
         cf_username := ''reader'' \<rparr> \<rparr>"


text \<open>
  What the dialog sends is in the form the server stores: only the host guard, the lakehouse service and
  the database can refuse it.
\<close>

lemma sent_is_accepted:
  assumes "dialogPayload num hostnameOf existing d = Inr p"
    and "validateAndGuardConnection env (requestBody p) = Inl e"
  shows "cloud (pl_connectionType p) \<and> assertHostAllowed (dns env) (allowPrivate env) (pl_host p) ''Host'' = Inl e"
  using assms(2) payload_sent [OF assms(1)]
  by (auto simp: validate_normalized bindR_def split: if_splits sum.splits)

subsection \<open>Deviations\<close>

text \<open>A lakehouse form that was filled in and left is still filled in when the dialog opens again.\<close>

lemma lake_form_survives:
  "dg_lake (openEffect None (handleOpenChange True (handleOpenChange False d))) = dg_lake d"
  by (simp add: openEffect_def handleOpenChange_def)

text \<open>The import takes any text for its parameters that is JSON, a string and a list included.\<close>

lemma show_digits: "show_nat 0 = ''0''" "show_nat (Suc 0) = ''1''"
  by code_simp+

lemma import_takes_text:
  assumes "parse v = Some (JStr ''ab'')"
  shows "kf_parameters (dg_spark (importSparkParams parse (d\<lparr>dg_spark := k\<lparr>kf_importText := v\<rparr>\<rparr>))) =
    [(''0'', ''a''), (''1'', ''b'')]"
  using assms by (simp add: importSparkParams_def parameterRows_def StringOr_def enumerate_eq_zip show_digits)

text \<open>An update replaces the configuration, so a key the dialog does not know is lost.\<close>

lemma unknown_keys_lost:
  assumes "snowflakePayload num existing f k = Inr p" "pl_extraConfig p = Some extra"
    and "key \<notin> set [''account'', ''auth_type'', ''schema'', ''role'', ''warehouse'', ''threads'', SECONDARY]"
  shows "map_of extra key = None"
  using assms
  by (auto simp: snowflake_Inr snowflakeBody_def basePayload_def map_of_threads snowflakeExtra_def snowflakeSecret_def
      split: if_splits)

text \<open>Editing a Dremio source resets its Arrow Flight port.\<close>

lemma flight_port_reset:
  assumes "actor c s = Some u" "findUnique (dremioSource s) rid = Some r" "dr_createdBy r = u" "rid \<noteq> ''''"
    and "connections_PUT env ce c (Some rid) (Some ''dremio'') (requestBody (dremioSourcePayload num f)) s =
      (Response 200 (Inr (UpdatedDremio out)), s')"
  shows "map_option dr_arrowFlightPort (findUnique (dremioSource s') rid) = Some 32010"
  using assms
  by (auto simp: connections_PUT_def truthy_def respond_def updateDremioSource_def handler_simps table_simps
      split: sum.splits prod.splits if_splits)

end
