(* ===== verification/Spec2Isabelle.thy ===== *)
theory Spec2Isabelle
  imports Explorer_Paths Git_Paths Dbt_Command Run_Options Secret_Crypto Projects Orchestrate Ingest
    Host_Guard Connections Env_Vars Ai_Providers Tenancy Agent_Stream Run_Stream Ingest_Stream
    File_Watcher Api_Client Auth Proxy Develop_Tree Develop_Editor Develop_Commands
    Run_Options_Dialog Develop_Models Develop_Project
    Terminal_Output Run_Logs Runs_View Schedules_View Ingest_Dialog Source_Control Connection_Dialog
begin

text \<open>
  Verification of the dbt web UI's front end (the TypeScript of \<open>src/nextjs/src\<close>).
\<close>

end
